(* ===== verification/Prelude.thy ===== *)
theory Prelude
  imports Main "HOL-Library.Word" "HOL-Library.Char_ord" "HOL-Library.List_Lexorder"
begin

text \<open>
  Shared vocabulary of the development: the result and execution types, the Rust string
  functions the relay uses, unsigned 64-bit integers, and the generic lemmas about lists,
  options and maps that several components need.

  A Rust \<^verbatim>\<open>String\<close> is the list of its UTF-8 bytes (\<^typ>\<open>string\<close>, that is
  \<^typ>\<open>char list\<close> with 8-bit characters): \<^verbatim>\<open>len\<close> is \<^term>\<open>length\<close>, string comparison is
  byte-wise, and a Rust \<^verbatim>\<open>char\<close> is the byte sequence of one code point (\<open>rchar\<close>).
  Where the standard library consults the Unicode tables on non-ASCII input, the table
  is an argument of the function that uses it.
\<close>

section \<open>Collections of facts\<close>

named_theorems relay_defs \<open>definitions that proofs unfold by default\<close>
named_theorems relay_splits \<open>case splits on results, options and conditionals\<close>

section \<open>Results, panics\<close>

text \<open>\<^verbatim>\<open>Result<T, E>\<close>, with the source's constructors.\<close>

datatype ('a, 'e) result = is_ok: Ok (unwrap: 'a) | Err (unwrap_err: 'e)

text \<open>A computation that can panic instead of returning.\<close>

datatype 'a exec = Done 'a | Panic

fun ok :: "('a, 'e) result \<Rightarrow> 'a option" where
  "ok (Ok a) = Some a"
| "ok (Err e) = None"

fun map_exec :: "('a \<Rightarrow> 'b) \<Rightarrow> 'a exec \<Rightarrow> 'b exec" where
  "map_exec f (Done a) = Done (f a)"
| "map_exec f Panic = Panic"

text \<open>\<^verbatim>\<open>Result::map\<close>.\<close>

fun map_ok :: "('a \<Rightarrow> 'b) \<Rightarrow> ('a, 'e) result \<Rightarrow> ('b, 'e) result" where
  "map_ok f (Ok a) = Ok (f a)"
| "map_ok f (Err e) = Err e"

lemmas [relay_splits] =
  result.splits exec.splits option.splits if_splits prod.splits list.splits

lemma ok_eq_Some [simp]: "ok r = Some a \<longleftrightarrow> r = Ok a"
  by (cases r) auto

lemma ok_eq_None [simp]: "ok r = None \<longleftrightarrow> (\<exists>e. r = Err e)"
  by (cases r) auto

lemma map_ok_eq_Ok [simp]: "map_ok f r = Ok b \<longleftrightarrow> (\<exists>a. r = Ok a \<and> f a = b)"
  by (cases r) auto

lemma map_ok_eq_Err [simp]: "map_ok f r = Err e \<longleftrightarrow> r = Err e"
  by (cases r) auto

lemma map_exec_Panic [simp]: "map_exec f r = Panic \<longleftrightarrow> r = Panic"
  by (cases r) auto

lemma map_exec_Done [simp]: "map_exec f r = Done b \<longleftrightarrow> (\<exists>a. r = Done a \<and> f a = b)"
  by (cases r) auto

section \<open>Machine integers\<close>

type_synonym u64 = "64 word"
type_synonym u32 = "32 word"

text \<open>Largest value of an SQLite integer that a \<^verbatim>\<open>u64\<close> parameter can carry.\<close>

definition fits_i64 :: "u64 \<Rightarrow> bool" where
  "fits_i64 w \<longleftrightarrow> w < 2 ^ 63"

section \<open>Bytes and characters\<close>

type_synonym rchar = string

abbreviation byte_of :: "char \<Rightarrow> nat" where
  "byte_of c \<equiv> of_char c"

definition is_ascii :: "char \<Rightarrow> bool" where
  "is_ascii c \<longleftrightarrow> byte_of c < 128"

definition cont_byte :: "char \<Rightarrow> bool" where
  "cont_byte c \<longleftrightarrow> 128 \<le> byte_of c \<and> byte_of c < 192"

definition is_ascii_lowercase :: "char \<Rightarrow> bool" where
  "is_ascii_lowercase c \<longleftrightarrow> 97 \<le> byte_of c \<and> byte_of c \<le> 122"

definition is_ascii_uppercase :: "char \<Rightarrow> bool" where
  "is_ascii_uppercase c \<longleftrightarrow> 65 \<le> byte_of c \<and> byte_of c \<le> 90"

definition is_ascii_digit :: "char \<Rightarrow> bool" where
  "is_ascii_digit c \<longleftrightarrow> 48 \<le> byte_of c \<and> byte_of c \<le> 57"

definition is_ascii_alphanumeric :: "char \<Rightarrow> bool" where
  "is_ascii_alphanumeric c \<longleftrightarrow> is_ascii_lowercase c \<or> is_ascii_uppercase c \<or> is_ascii_digit c"

definition is_ascii_hexdigit :: "char \<Rightarrow> bool" where
  "is_ascii_hexdigit c \<longleftrightarrow> is_ascii_digit c \<or> (65 \<le> byte_of c \<and> byte_of c \<le> 70)
     \<or> (97 \<le> byte_of c \<and> byte_of c \<le> 102)"

definition to_ascii_lower :: "char \<Rightarrow> char" where
  "to_ascii_lower c = (if is_ascii_uppercase c then char_of (byte_of c + 32) else c)"

lemmas ascii_defs = is_ascii_def is_ascii_lowercase_def is_ascii_uppercase_def
  is_ascii_digit_def is_ascii_alphanumeric_def is_ascii_hexdigit_def to_ascii_lower_def

lemma byte_of_lower:
  "byte_of (to_ascii_lower c) = (if is_ascii_uppercase c then byte_of c + 32 else byte_of c)"
  by (auto simp: ascii_defs)

lemma to_ascii_lower_idem [simp]: "to_ascii_lower (to_ascii_lower c) = to_ascii_lower c"
  by (auto simp: ascii_defs)

lemma not_upper_lower [simp]: "\<not> is_ascii_uppercase c \<Longrightarrow> to_ascii_lower c = c"
  by (simp add: to_ascii_lower_def)

lemma lower_not_upper [simp]: "\<not> is_ascii_uppercase (to_ascii_lower c)"
  by (auto simp: ascii_defs)

lemma is_ascii_lower [simp]: "is_ascii (to_ascii_lower c) = is_ascii c"
  by (auto simp: ascii_defs)

section \<open>Rust string functions\<close>

text \<open>\<^verbatim>\<open>str::chars\<close>: a leading byte with the continuation bytes that follow it.\<close>

function chars :: "string \<Rightarrow> rchar list" where
  "chars [] = []"
| "chars (c # cs) = (c # takeWhile cont_byte cs) # chars (dropWhile cont_byte cs)"
  by pat_completeness auto
termination
  by (relation "measure length") (auto simp: le_imp_less_Suc length_dropWhile_le)

lemma concat_chars [simp]: "concat (chars s) = s"
  by (induction s rule: chars.induct) auto

lemma chars_Nil_iff [simp]: "chars s = [] \<longleftrightarrow> s = []"
  by (cases s) auto

lemma ascii_not_cont [simp]: "is_ascii c \<Longrightarrow> \<not> cont_byte c"
  by (simp add: is_ascii_def cont_byte_def)

lemma chars_ascii: "list_all is_ascii s \<Longrightarrow> chars s = map (\<lambda>c. [c]) s"
proof (induction s rule: chars.induct)
  case (2 c cs)
  have "takeWhile cont_byte cs = [] \<and> dropWhile cont_byte cs = cs"
    using "2.prems" by (cases cs) auto
  with 2 show ?case by simp
qed simp

definition starts_with :: "string \<Rightarrow> string \<Rightarrow> bool" where
  "starts_with s p \<longleftrightarrow> take (length p) s = p"

definition strip_prefix :: "string \<Rightarrow> string \<Rightarrow> string option" where
  "strip_prefix s p = (if starts_with s p then Some (drop (length p) s) else None)"

definition trim_end_matches :: "char \<Rightarrow> string \<Rightarrow> string" where
  "trim_end_matches c s = rev (dropWhile (\<lambda>x. x = c) (rev s))"

definition eq_ignore_ascii_case :: "string \<Rightarrow> string \<Rightarrow> bool" where
  "eq_ignore_ascii_case s t \<longleftrightarrow> map to_ascii_lower s = map to_ascii_lower t"

text \<open>
  \<^verbatim>\<open>str::to_lowercase\<close>: the ASCII rule on an ASCII string; on any other string the
  Unicode tables decide, which are the argument \<open>ulower\<close>.
\<close>

definition to_lowercase :: "(string \<Rightarrow> string) \<Rightarrow> string \<Rightarrow> string" where
  "to_lowercase ulower s = (if list_all is_ascii s then map to_ascii_lower s else ulower s)"

lemma to_lowercase_ascii: "list_all is_ascii s \<Longrightarrow> to_lowercase u s = map to_ascii_lower s"
  by (simp add: to_lowercase_def)

lemma to_lowercase_fixed:
  "list_all is_ascii s \<Longrightarrow> list_all (\<lambda>c. \<not> is_ascii_uppercase c) s \<Longrightarrow> to_lowercase u s = s"
  by (induction s) (auto simp: to_lowercase_def)

text \<open>\<^verbatim>\<open>char::is_alphanumeric\<close>, with the Unicode table as an argument.\<close>

definition is_alphanumeric :: "(rchar \<Rightarrow> bool) \<Rightarrow> rchar \<Rightarrow> bool" where
  "is_alphanumeric ualnum ch =
     (case ch of [c] \<Rightarrow> (if is_ascii c then is_ascii_alphanumeric c else ualnum ch)
      | _ \<Rightarrow> ualnum ch)"

text \<open>\<^verbatim>\<open>str::split\<close> by one ASCII character, and \<^verbatim>\<open>str::split_terminator\<close>.\<close>

fun split_on :: "char \<Rightarrow> string \<Rightarrow> string list" where
  "split_on d [] = [[]]"
| "split_on d (c # cs) =
     (if c = d then [] # split_on d cs
      else (case split_on d cs of [] \<Rightarrow> [[c]] | w # ws \<Rightarrow> (c # w) # ws))"

definition split_terminator :: "char \<Rightarrow> string \<Rightarrow> string list" where
  "split_terminator d s =
     (let ws = split_on d s in if last ws = [] then butlast ws else ws)"

lemma split_on_not_Nil [simp]: "split_on d s \<noteq> []"
  by (cases s) (auto split: list.splits)

lemma split_on_no_delim: "d \<notin> set s \<Longrightarrow> split_on d s = [s]"
  by (induction s) auto

lemma split_on_delim: "d \<notin> set s \<Longrightarrow> split_on d (s @ d # t) = s # split_on d t"
  by (induction s) auto

lemma split_on_parts: "w \<in> set (split_on d s) \<Longrightarrow> d \<notin> set w"
  by (induction s arbitrary: w) (auto split: list.splits if_splits)

text \<open>\<^verbatim>\<open>Vec<String>::join\<close>.\<close>

fun join :: "string \<Rightarrow> string list \<Rightarrow> string" where
  "join sep [] = []"
| "join sep [w] = w"
| "join sep (w # ws) = w @ sep @ join sep ws"

lemma join_split_on: "join [d] (split_on d s) = s"
proof (induction s)
  case (Cons c cs)
  then show ?case
    by (cases "split_on d cs" rule: list.exhaust; cases "tl (split_on d cs)") auto
qed simp

text \<open>The code points with the Unicode property White_Space, as \<^verbatim>\<open>str::trim\<close> uses it.\<close>

definition is_whitespace :: "rchar \<Rightarrow> bool" where
  "is_whitespace ch \<longleftrightarrow> map byte_of ch \<in>
     {[9], [10], [11], [12], [13], [32], [0xC2, 0x85], [0xC2, 0xA0], [0xE1, 0x9A, 0x80],
      [0xE2, 0x80, 0xA8], [0xE2, 0x80, 0xA9], [0xE2, 0x80, 0xAF], [0xE2, 0x81, 0x9F],
      [0xE3, 0x80, 0x80]}
   \<or> map byte_of ch \<in> (\<lambda>b. [0xE2, 0x80, b]) ` set [0x80..<0x8B]"

definition trim :: "string \<Rightarrow> string" where
  "trim s = concat (rev (dropWhile is_whitespace (rev (dropWhile is_whitespace (chars s)))))"

lemma trim_Nil [simp]: "trim [] = []"
  by (simp add: trim_def)

section \<open>Numbers in text\<close>

text \<open>
  \<^verbatim>\<open>str::parse::<u64>\<close>: an optional leading plus sign, then at least one decimal digit,
  rejecting overflow.
\<close>

definition digit_val :: "char \<Rightarrow> nat" where
  "digit_val c = byte_of c - 48"

fun dec_val :: "nat \<Rightarrow> string \<Rightarrow> nat" where
  "dec_val n [] = n"
| "dec_val n (c # cs) = dec_val (10 * n + digit_val c) cs"

definition parse_u64 :: "string \<Rightarrow> u64 option" where
  "parse_u64 s =
     (let ds = (if starts_with s ''+'' then tl s else s)
      in if ds = [] \<or> \<not> list_all is_ascii_digit ds then None
         else if dec_val 0 ds < 2 ^ 64 then Some (of_nat (dec_val 0 ds)) else None)"

text \<open>\<^verbatim>\<open>Display\<close> of an unsigned integer.\<close>

fun show_nat :: "nat \<Rightarrow> string" where
  "show_nat n =
     (if n < 10 then [char_of (48 + n)] else show_nat (n div 10) @ [char_of (48 + n mod 10)])"

declare show_nat.simps [simp del]

definition show_u64 :: "u64 \<Rightarrow> string" where
  "show_u64 w = show_nat (unat w)"

lemma dec_val_append: "dec_val n (s @ t) = dec_val (dec_val n s) t"
  by (induction s arbitrary: n) auto

lemma byte_of_digit: "n < 10 \<Longrightarrow> byte_of (char_of (48 + n :: nat)) = 48 + n"
  by simp

lemma show_nat_digits: "list_all is_ascii_digit (show_nat n) \<and> show_nat n \<noteq> []"
proof (induction n rule: show_nat.induct)
  case (1 n)
  then show ?case
    by (subst (1 2) show_nat.simps) (auto simp: is_ascii_digit_def [abs_def])
qed

lemma dec_val_show_nat: "dec_val 0 (show_nat n) = n"
proof (induction n rule: show_nat.induct)
  case (1 n)
  then show ?case
    by (subst show_nat.simps) (auto simp: dec_val_append digit_val_def)
qed

lemma show_nat_no_plus: "\<not> starts_with (show_nat n) ''+''"
  using show_nat_digits [of n]
  by (cases "show_nat n") (auto simp: starts_with_def is_ascii_digit_def)

lemma parse_show_u64: "parse_u64 (show_u64 w) = Some w"
  using show_nat_digits [of "unat w"] show_nat_no_plus [of "unat w"] unsigned_less [of w]
  by (simp add: parse_u64_def show_u64_def dec_val_show_nat)

section \<open>Generic lemmas\<close>

lemma the_default_None: "(case m of None \<Rightarrow> d | Some x \<Rightarrow> x) = d \<longleftrightarrow> m = None \<or> m = Some d"
  by (cases m) auto

lemma find_Some_iff: "List.find P xs = Some x \<Longrightarrow> x \<in> set xs \<and> P x"
  by (induction xs) (auto split: if_splits)

lemma find_None_all: "List.find P xs = None \<longleftrightarrow> (\<forall>x\<in>set xs. \<not> P x)"
  by (induction xs) auto

lemma head_in_set: "(case xs of [] \<Rightarrow> None | x # _ \<Rightarrow> Some x) = Some y \<Longrightarrow> y \<in> set xs"
  by (cases xs) auto

lemma distinct_map_filterI: "distinct (map f xs) \<Longrightarrow> distinct (map f (filter P xs))"
  by (rule distinct_map_filter)

end
