(* ===== verification/Errors.thy ===== *)
theory Errors
  imports Prelude
begin

text \<open>
  The relay's error type and the notices it sends to a client
  (\<^verbatim>\<open>src/src/error.rs\<close>, \<^verbatim>\<open>src/src/notice.rs\<close>). The payloads of errors of other
  packages are their rendered text; of \<^verbatim>\<open>rusqlite::Error\<close> the model keeps the two
  variants the relay distinguishes.
\<close>

section \<open>Errors\<close>

datatype sql_error =
    QueryReturnedNoRows
  | SqliteFailure bool \<comment> \<open>true: constraint violation\<close>
  | OtherSqlError string

datatype sqlx_error = RowNotFound | OtherSqlxError string

datatype error =
    ProtoParseError
  | ConnError
  | ConnWriteError
  | EventParseFailed
  | CloseParseFailed
  | EventInvalidSignature
  | EventInvalidId
  | EventMalformedPubkey
  | EventCouldNotCanonicalize
  | EventMaxLengthError nat
  | SubIdMaxLengthError
  | SubMaxExceededError
  | JsonParseFailed string
  | WebsocketError string
  | CommandUnknownError
  | SqlError sql_error
  | ConfigError string
  | DatabaseDirError
  | DatabasePoolError string
  | SqlxError sqlx_error
  | SqlxDatabasePoolError sqlx_error
  | CustomError string
  | JoinError
  | HyperError string
  | HexError string
  | DelegationParseError
  | ChannelClosed
  | AuthzError
  | TonicError string
  | AuthFailure
  | IoError string
  | EventError string
  | NostrKeyError string
  | PaymentHash
  | URLParseError string
  | HTTPError string
  | UnknownError

fun display_error :: "error \<Rightarrow> string" where
  "display_error ProtoParseError = ''Protocol parse error''"
| "display_error ConnError = ''Connection error''"
| "display_error ConnWriteError = ''Client write error''"
| "display_error EventParseFailed = ''EVENT parse failed''"
| "display_error CloseParseFailed = ''CLOSE message parse failed''"
| "display_error EventInvalidSignature = ''Event invalid signature''"
| "display_error EventInvalidId = ''Event invalid id''"
| "display_error EventMalformedPubkey = ''Event malformed pubkey''"
| "display_error EventCouldNotCanonicalize = ''Event could not canonicalize''"
| "display_error (EventMaxLengthError _) = ''Event too large''"
| "display_error SubIdMaxLengthError = ''Subscription identifier max length exceeded''"
| "display_error SubMaxExceededError = ''Maximum concurrent subscription count reached''"
| "display_error (JsonParseFailed _) = ''JSON parsing failed''"
| "display_error (WebsocketError _) = ''WebSocket proto error''"
| "display_error CommandUnknownError = ''Command unknown''"
| "display_error (SqlError _) = ''SQL error''"
| "display_error (ConfigError e) = ''Config error : '' @ e"
| "display_error DatabaseDirError = ''Data directory does not exist''"
| "display_error (DatabasePoolError _) = ''Database Connection Pool Error''"
| "display_error (SqlxError _) = ''SQL error''"
| "display_error (SqlxDatabasePoolError _) = ''Database Connection Pool Error''"
| "display_error (CustomError e) = ''Custom Error : '' @ e"
| "display_error JoinError = ''Task join error''"
| "display_error (HyperError _) = ''Hyper Client error''"
| "display_error (HexError _) = ''Hex encoding error''"
| "display_error DelegationParseError = ''Delegation parse error''"
| "display_error ChannelClosed = ''Channel closed error''"
| "display_error AuthzError = ''Authz error''"
| "display_error (TonicError _) = ''Tonic GRPC error''"
| "display_error AuthFailure = ''Invalid AUTH message''"
| "display_error (IoError _) = ''I/O Error''"
| "display_error (EventError _) = ''Event builder error''"
| "display_error (NostrKeyError _) = ''Nostr key error''"
| "display_error PaymentHash = ''Payment hash mismatch''"
| "display_error (URLParseError _) = ''Error parsing url''"
| "display_error (HTTPError _) = ''HTTP error''"
| "display_error UnknownError = ''Unknown/Undocumented''"

text \<open>The errors by which a repository says that a query found no row.\<close>

definition is_no_rows :: "error \<Rightarrow> bool" where
  "is_no_rows e \<longleftrightarrow> e = SqlError QueryReturnedNoRows \<or> e = SqlxError RowNotFound"

section \<open>Notices\<close>

datatype event_result_status =
    Saved | Duplicate | Invalid | Blocked | RateLimited | ErrorStatus | Restricted

record event_result =
  er_id :: string
  er_msg :: string
  er_status :: event_result_status

datatype notice =
    Message string
  | EventResult event_result
  | AuthChallenge string

fun to_bool :: "event_result_status \<Rightarrow> bool" where
  "to_bool Duplicate = True"
| "to_bool Saved = True"
| "to_bool Invalid = False"
| "to_bool Blocked = False"
| "to_bool RateLimited = False"
| "to_bool ErrorStatus = False"
| "to_bool Restricted = False"

fun status_prefix :: "event_result_status \<Rightarrow> string" where
  "status_prefix Saved = ''saved''"
| "status_prefix Duplicate = ''duplicate''"
| "status_prefix Invalid = ''invalid''"
| "status_prefix Blocked = ''blocked''"
| "status_prefix RateLimited = ''rate-limited''"
| "status_prefix ErrorStatus = ''error''"
| "status_prefix Restricted = ''restricted''"

definition prefixed :: "string \<Rightarrow> string \<Rightarrow> event_result_status \<Rightarrow> notice" where
  "prefixed i msg st =
     EventResult \<lparr>er_id = i, er_msg = status_prefix st @ '': '' @ msg, er_status = st\<rparr>"

definition notice_message :: "string \<Rightarrow> notice" where
  "notice_message msg = Message msg"

definition notice_invalid :: "string \<Rightarrow> string \<Rightarrow> notice" where
  "notice_invalid i msg = prefixed i msg Invalid"

definition notice_blocked :: "string \<Rightarrow> string \<Rightarrow> notice" where
  "notice_blocked i msg = prefixed i msg Blocked"

definition notice_rate_limited :: "string \<Rightarrow> string \<Rightarrow> notice" where
  "notice_rate_limited i msg = prefixed i msg RateLimited"

definition notice_duplicate :: "string \<Rightarrow> notice" where
  "notice_duplicate i = prefixed i [] Duplicate"

definition notice_error :: "string \<Rightarrow> string \<Rightarrow> notice" where
  "notice_error i msg = prefixed i msg ErrorStatus"

definition notice_restricted :: "string \<Rightarrow> string \<Rightarrow> notice" where
  "notice_restricted i msg = prefixed i msg Restricted"

definition notice_auth_required :: "string \<Rightarrow> string \<Rightarrow> notice" where
  "notice_auth_required i msg =
     EventResult \<lparr>er_id = i, er_msg = ''auth-required: '' @ msg, er_status = Restricted\<rparr>"

definition notice_saved :: "string \<Rightarrow> notice" where
  "notice_saved i = EventResult \<lparr>er_id = i, er_msg = [], er_status = Saved\<rparr>"

lemmas notice_defs = prefixed_def notice_message_def notice_invalid_def notice_blocked_def
  notice_rate_limited_def notice_duplicate_def notice_error_def notice_restricted_def
  notice_auth_required_def notice_saved_def

text \<open>The event a notice is about and whether it reports success.\<close>

fun notice_ok :: "notice \<Rightarrow> bool" where
  "notice_ok (EventResult r) = to_bool (er_status r)"
| "notice_ok _ = False"

lemma notice_ok_simps [simp]:
  "notice_ok (notice_saved i)" "notice_ok (notice_duplicate i)"
  "\<not> notice_ok (notice_invalid i m)" "\<not> notice_ok (notice_blocked i m)"
  "\<not> notice_ok (notice_rate_limited i m)" "\<not> notice_ok (notice_error i m)"
  "\<not> notice_ok (notice_restricted i m)" "\<not> notice_ok (notice_auth_required i m)"
  "\<not> notice_ok (notice_message m)"
  by (auto simp: notice_defs)

end
