(* ===== verification/Config.thy ===== *)
theory Config
  imports Prelude
begin

text \<open>
  The relay's settings and their validation (\<^verbatim>\<open>src/src/config.rs\<close>). An \<^verbatim>\<open>f64\<close> is the bit
  pattern of the double; the conversion of a price to nanogrin is floating-point
  arithmetic and stays an argument (\<open>nanogrin\<close>), as do the parsers of doubles and
  durations and the reader of the configuration file.
\<close>

type_synonym f64 = "64 word"
type_synonym duration = nat \<comment> \<open>nanoseconds\<close>

definition from_secs :: "nat \<Rightarrow> duration" where
  "from_secs s = s * 1000000000"

section \<open>The settings records\<close>

datatype processor = LNBits | ClnRest | GoblinPayProc

record info_settings =
  relay_url :: "string option"
  info_name :: "string option"
  info_description :: "string option"
  info_pubkey :: "string option"
  info_contact :: "string option"
  info_favicon :: "string option"
  relay_icon :: "string option"
  relay_page :: "string option"

record database_settings =
  data_directory :: string
  engine :: string
  in_memory :: bool
  min_conn :: nat
  max_conn :: nat
  connection :: string
  connection_write :: "string option"

record grpc_settings =
  event_admission_server :: "string option"
  restricts_write :: bool

record network_settings =
  port :: nat
  address :: string
  remote_ip_header :: "string option"
  ping_interval_seconds :: nat

record options_settings =
  reject_future_seconds :: "u64 option"

record retention_settings =
  max_events :: "nat option"
  max_bytes :: "nat option"
  persist_days :: "nat option"
  whitelist_addresses :: "string list option"

record limits_settings =
  messages_per_sec :: "nat option"
  subscriptions_per_min :: "nat option"
  db_conns_per_client :: "nat option"
  max_blocking_threads :: nat
  max_event_bytes :: "nat option"
  max_ws_message_bytes :: "nat option"
  max_ws_frame_bytes :: "nat option"
  broadcast_buffer :: nat
  event_persist_buffer :: nat
  event_kind_blacklist :: "u64 list option"
  event_kind_allowlist :: "u64 list option"
  limit_scrapers :: bool

record authorization_settings =
  pubkey_whitelist :: "string list option"
  public_note_authors :: "string list option"
  nip42_auth :: bool
  nip42_dms :: bool
  require_auth_to_write :: bool

record goblinpay_settings =
  pay_mode :: string
  gp_url :: string
  gp_api_token :: string
  name_price_grin :: f64
  admission_price_grin :: f64

record name_authority_settings =
  na_enabled :: bool
  na_domain :: string
  na_base_url :: string
  na_relays :: "string list option"
  name_min :: nat
  name_max :: nat
  name_change_cooldown_secs :: nat
  auth_max_age_secs :: int
  read_rate_max :: nat
  read_rate_window_secs :: nat
  write_rate_max :: nat
  write_rate_window_secs :: nat
  reserved_file :: "string option"

record pay_to_relay_settings =
  ptr_enabled :: bool
  admission_cost :: u64
  cost_per_event :: u64
  node_url :: string
  api_secret :: string
  terms_message :: string
  sign_ups :: bool
  direct_message :: bool
  secret_key :: "string option"
  ptr_processor :: processor
  rune_path :: "string option"

datatype verified_users_mode = Enabled | Passive | Disabled

record verified_users_settings =
  vu_mode :: verified_users_mode
  domain_whitelist :: "string list option"
  domain_blacklist :: "string list option"
  verify_expiration :: "string option"
  verify_update_frequency :: "string option"
  verify_expiration_duration :: "duration option"
  verify_update_frequency_duration :: "duration option"
  max_consecutive_failures :: nat

record logging_settings =
  folder_path :: "string option"
  log_file_prefix :: "string option"

record settings =
  s_info :: info_settings
  s_tracing :: bool
  s_database :: database_settings
  s_grpc :: grpc_settings
  s_network :: network_settings
  s_limits :: limits_settings
  s_authorization :: authorization_settings
  s_pay_to_relay :: pay_to_relay_settings
  s_goblinpay :: goblinpay_settings
  s_name_authority :: name_authority_settings
  s_verified_users :: verified_users_settings
  s_retention :: retention_settings
  s_options :: options_settings
  s_logging :: logging_settings

section \<open>Verified users\<close>

definition vu_is_enabled :: "verified_users_settings \<Rightarrow> bool" where
  "vu_is_enabled v \<longleftrightarrow> vu_mode v = Enabled"

definition vu_is_active :: "verified_users_settings \<Rightarrow> bool" where
  "vu_is_active v \<longleftrightarrow> vu_mode v = Enabled \<or> vu_mode v = Passive"

definition vu_is_passive :: "verified_users_settings \<Rightarrow> bool" where
  "vu_is_passive v \<longleftrightarrow> vu_mode v = Passive"

definition vu_expiration_duration ::
  "(string \<Rightarrow> duration option) \<Rightarrow> verified_users_settings \<Rightarrow> duration option" where
  "vu_expiration_duration parse_duration v = Option.bind (verify_expiration v) parse_duration"

definition vu_update_duration ::
  "(string \<Rightarrow> duration option) \<Rightarrow> verified_users_settings \<Rightarrow> duration option" where
  "vu_update_duration parse_duration v = Option.bind (verify_update_frequency v) parse_duration"

definition vu_is_valid :: "(string \<Rightarrow> duration option) \<Rightarrow> verified_users_settings \<Rightarrow> bool" where
  "vu_is_valid pd v \<longleftrightarrow> vu_expiration_duration pd v \<noteq> None \<and> vu_update_duration pd v \<noteq> None"

definition vu_init ::
  "(string \<Rightarrow> duration option) \<Rightarrow> verified_users_settings \<Rightarrow> verified_users_settings" where
  "vu_init pd v =
     (let v1 = v\<lparr>verify_expiration_duration := vu_expiration_duration pd v\<rparr>
      in v1\<lparr>verify_update_frequency_duration := vu_update_duration pd v1\<rparr>)"

section \<open>Loading\<close>

text \<open>A Rust \<^verbatim>\<open>assert!\<close>: continue or panic.\<close>

definition assert_then :: "bool \<Rightarrow> 'a exec \<Rightarrow> 'a exec" where
  "assert_then b r = (if b then r else Panic)"

lemma assert_then_Done [simp]: "assert_then b r = Done x \<longleftrightarrow> b \<and> r = Done x"
  by (simp add: assert_then_def)

text \<open>The environment overrides of the paid features.\<close>

definition env_overrides ::
  "(string \<Rightarrow> string option) \<Rightarrow> (string \<Rightarrow> f64 option) \<Rightarrow> goblinpay_settings \<Rightarrow> goblinpay_settings" where
  "env_overrides env parse_f64 g0 =
     (let g1 = (case env ''FLOONET_PAY_MODE'' of None \<Rightarrow> g0 | Some v \<Rightarrow> g0\<lparr>pay_mode := v\<rparr>);
          g2 = (case env ''FLOONET_GOBLINPAY_URL'' of None \<Rightarrow> g1 | Some v \<Rightarrow> g1\<lparr>gp_url := v\<rparr>);
          g3 = (case env ''FLOONET_GOBLINPAY_TOKEN'' of None \<Rightarrow> g2 | Some v \<Rightarrow> g2\<lparr>gp_api_token := v\<rparr>)
      in case env ''FLOONET_NAME_PRICE_GRIN'' of None \<Rightarrow> g3
         | Some v \<Rightarrow> (case parse_f64 v of None \<Rightarrow> g3 | Some p \<Rightarrow> g3\<lparr>name_price_grin := p\<rparr>))"

text \<open>The pay-mode switch; \<open>nanogrin\<close> converts a price.\<close>

definition apply_pay_mode :: "(f64 \<Rightarrow> u64) \<Rightarrow> settings \<Rightarrow> settings exec" where
  "apply_pay_mode nanogrin s =
     (let g = s_goblinpay s; p = s_pay_to_relay s in
      if pay_mode g = ''off'' then Done s
      else if pay_mode g = ''name'' \<or> pay_mode g = ''write'' then
        assert_then (gp_url g \<noteq> []) (assert_then (gp_api_token g \<noteq> [])
          (if pay_mode g = ''write'' then
             Done (s\<lparr>s_pay_to_relay := p\<lparr>ptr_enabled := True, ptr_processor := GoblinPayProc,
                node_url := gp_url g, api_secret := gp_api_token g,
                admission_cost := nanogrin (admission_price_grin g),
                terms_message := (if terms_message p = []
                   then ''Use this relay lawfully and without abuse.'' else terms_message p)\<rparr>\<rparr>)
           else Done s))
      else Panic)"

definition check_name_authority :: "settings \<Rightarrow> bool" where
  "check_name_authority s \<longleftrightarrow>
     (let na = s_name_authority s in na_enabled na \<longrightarrow>
        na_domain na \<noteq> []
      \<and> (starts_with (na_base_url na) ''https://''
         \<or> starts_with (na_base_url na) ''http://127.0.0.1''
         \<or> starts_with (na_base_url na) ''http://localhost'')
      \<and> 0 < name_min na \<and> name_min na \<le> name_max na
      \<and> engine (s_database s) = ''sqlite'')"

definition check_pay_to_relay :: "settings \<Rightarrow> bool" where
  "check_pay_to_relay s \<longleftrightarrow>
     (let p = s_pay_to_relay s in ptr_enabled p \<longrightarrow>
        (if ptr_processor p = ClnRest
         then (case rune_path p of None \<Rightarrow> False | Some path \<Rightarrow> path \<noteq> ''<rune path>'')
         else if ptr_processor p = LNBits then api_secret p \<noteq> [] else True)
      \<and> node_url p \<noteq> [] \<and> terms_message p \<noteq> []
      \<and> (direct_message p \<longrightarrow>
           (case secret_key p of None \<Rightarrow> False | Some k \<Rightarrow> k \<noteq> ''<nostr nsec>'')))"

text \<open>
  \<^verbatim>\<open>Settings::new_from_default\<close> from the merged configuration on (\<open>loaded\<close> is what the
  configuration reader returns).
\<close>

definition new_from_default ::
  "(string \<Rightarrow> string option) \<Rightarrow> (string \<Rightarrow> f64 option) \<Rightarrow> (string \<Rightarrow> duration option) \<Rightarrow>
   (f64 \<Rightarrow> u64) \<Rightarrow> (settings, string) result \<Rightarrow> (settings, string) result exec" where
  "new_from_default env parse_f64 parse_duration nanogrin loaded =
     (case loaded of
        Err e \<Rightarrow> Done (Err e)
      | Ok s0 \<Rightarrow>
        (case apply_pay_mode nanogrin
                (s0\<lparr>s_goblinpay := env_overrides env parse_f64 (s_goblinpay s0)\<rparr>) of
           Panic \<Rightarrow> Panic
         | Done s \<Rightarrow>
           assert_then (check_name_authority s)
             (assert_then (min_conn (s_database s) \<le> max_conn (s_database s))
               (assert_then (vu_is_valid parse_duration (s_verified_users s))
                 (let s' = s\<lparr>s_verified_users := vu_init parse_duration (s_verified_users s)\<rparr>
                  in assert_then (check_pay_to_relay s') (Done (Ok s')))))))"

text \<open>\<^verbatim>\<open>Settings::new\<close>: without an explicit file name a read error falls back to the defaults.\<close>

definition settings_new ::
  "settings \<Rightarrow> string option \<Rightarrow> (settings, string) result exec \<Rightarrow> (settings, string) result exec" where
  "settings_new dflt config_file from_file =
     (case from_file of
        Panic \<Rightarrow> Panic
      | Done (Ok s) \<Rightarrow> Done (Ok s)
      | Done (Err e) \<Rightarrow> Done (if config_file \<noteq> None then Err e else Ok dflt))"

section \<open>Defaults\<close>

text \<open>The built-in kind whitelist of \<^verbatim>\<open>src/src/admission.rs\<close>.\<close>

definition DEFAULT_ALLOWED_KINDS :: "u64 list" where
  "DEFAULT_ALLOWED_KINDS =
     [0, 1, 3, 5, 7, 13, 14, 16, 17, 1059, 1111, 10000, 10002, 10050, 24133, 24140, 27235, 30000,
      30003, 30023, 30078, 30402, 30405, 30406, 31990]"

definition f64_one :: f64 where
  "f64_one = 0x3FF0000000000000"

definition default_settings :: settings where
  "default_settings = \<lparr>
     s_info = \<lparr>relay_url = None, info_name = Some ''floonet-rs-relay'',
       info_description = Some ''A Floonet relay for the Grin community Nostr network.'',
       info_pubkey = None, info_contact = None, info_favicon = None, relay_icon = None,
       relay_page = None\<rparr>,
     s_tracing = False,
     s_database = \<lparr>data_directory = ''.'', engine = ''sqlite'', in_memory = False, min_conn = 4,
       max_conn = 8, connection = [], connection_write = None\<rparr>,
     s_grpc = \<lparr>event_admission_server = None, restricts_write = False\<rparr>,
     s_network = \<lparr>port = 8080, address = ''0.0.0.0'', remote_ip_header = None,
       ping_interval_seconds = 300\<rparr>,
     s_limits = \<lparr>messages_per_sec = None, subscriptions_per_min = None,
       db_conns_per_client = None, max_blocking_threads = 16,
       max_event_bytes = Some (2 * 2 ^ 17), max_ws_message_bytes = Some (2 * 2 ^ 17),
       max_ws_frame_bytes = Some (2 * 2 ^ 17), broadcast_buffer = 16384,
       event_persist_buffer = 4096, event_kind_blacklist = None,
       event_kind_allowlist = Some DEFAULT_ALLOWED_KINDS, limit_scrapers = False\<rparr>,
     s_authorization = \<lparr>pubkey_whitelist = None, public_note_authors = None,
       nip42_auth = False, nip42_dms = False, require_auth_to_write = False\<rparr>,
     s_pay_to_relay = \<lparr>ptr_enabled = False, admission_cost = 4200, cost_per_event = 0,
       node_url = [], api_secret = [], terms_message = [], sign_ups = False,
       direct_message = False, secret_key = None, ptr_processor = LNBits, rune_path = None\<rparr>,
     s_goblinpay = \<lparr>pay_mode = ''off'', gp_url = [], gp_api_token = [],
       name_price_grin = f64_one, admission_price_grin = f64_one\<rparr>,
     s_name_authority = \<lparr>na_enabled = False, na_domain = [], na_base_url = [], na_relays = None,
       name_min = 3, name_max = 20, name_change_cooldown_secs = 600, auth_max_age_secs = 60,
       read_rate_max = 120, read_rate_window_secs = 60, write_rate_max = 10,
       write_rate_window_secs = 3600, reserved_file = None\<rparr>,
     s_verified_users = \<lparr>vu_mode = Disabled, domain_whitelist = None, domain_blacklist = None,
       verify_expiration = Some ''1 week'', verify_update_frequency = Some ''1 day'',
       verify_expiration_duration = None, verify_update_frequency_duration = None,
       max_consecutive_failures = 20\<rparr>,
     s_retention = \<lparr>max_events = None, max_bytes = None, persist_days = None,
       whitelist_addresses = None\<rparr>,
     s_options = \<lparr>reject_future_seconds = None\<rparr>,
     s_logging = \<lparr>folder_path = None, log_file_prefix = None\<rparr>\<rparr>"

section \<open>What a loaded configuration guarantees\<close>

lemma apply_pay_mode_Done:
  assumes "apply_pay_mode ng s = Done s'"
  shows "pay_mode (s_goblinpay s) \<in> {''off'', ''name'', ''write''}"
    and "pay_mode (s_goblinpay s) \<noteq> ''off'' \<Longrightarrow> gp_url (s_goblinpay s) \<noteq> [] \<and> gp_api_token (s_goblinpay s) \<noteq> []"
    and "s_goblinpay s' = s_goblinpay s" "s_name_authority s' = s_name_authority s"
    and "pay_mode (s_goblinpay s) = ''write'' \<Longrightarrow>
      ptr_enabled (s_pay_to_relay s') \<and> ptr_processor (s_pay_to_relay s') = GoblinPayProc \<and>
      admission_cost (s_pay_to_relay s') = ng (admission_price_grin (s_goblinpay s))"
  using assms by (auto simp: apply_pay_mode_def Let_def split: if_splits)

lemma new_from_default_Ok:
  assumes "new_from_default env pf pd ng (Ok s0) = Done (Ok s)"
  obtains s1 where
    "apply_pay_mode ng (s0\<lparr>s_goblinpay := env_overrides env pf (s_goblinpay s0)\<rparr>) = Done s1"
    "s = s1\<lparr>s_verified_users := vu_init pd (s_verified_users s1)\<rparr>"
    "check_name_authority s1" "min_conn (s_database s1) \<le> max_conn (s_database s1)"
    "vu_is_valid pd (s_verified_users s1)" "check_pay_to_relay s"
  using assms by (auto simp: new_from_default_def Let_def split: exec.splits)

lemma check_name_authority_cong:
  "s_name_authority s = s_name_authority t \<Longrightarrow> s_database s = s_database t \<Longrightarrow>
   check_name_authority s = check_name_authority t"
  by (simp add: check_name_authority_def)

end
