(* ===== verification/Json.thy ===== *)
theory Json
  imports Prelude "HOL-Library.FSet"
begin

text \<open>
  JSON values as \<^verbatim>\<open>serde_json\<close> hands them to the relay, the typed readings of them that the
  relay's message types declare, and the record of the functions of other packages
  (\<^verbatim>\<open>serde_json\<close>, \<^verbatim>\<open>secp256k1\<close>, \<^verbatim>\<open>bitcoin_hashes\<close>, \<^verbatim>\<open>hex\<close>, \<^verbatim>\<open>bech32\<close>, \<^verbatim>\<open>url\<close>, \<^verbatim>\<open>base64\<close>,
  \<^verbatim>\<open>nostr\<close>) and of the Unicode tables: every definition that calls one of them takes
  that record as an argument.
\<close>

section \<open>Values\<close>

datatype jnum = PosInt u64 | NegInt int | Float u64

datatype json =
    JNull
  | JBool bool
  | JNumber jnum
  | JString string
  | JArray "json list"
  | JObject "(string \<times> json) list" \<comment> \<open>in document order\<close>

fun as_str :: "json \<Rightarrow> string option" where
  "as_str (JString s) = Some s"
| "as_str _ = None"

fun as_object :: "json \<Rightarrow> (string \<times> json) list option" where
  "as_object (JObject m) = Some m"
| "as_object _ = None"

fun as_array :: "json \<Rightarrow> json list option" where
  "as_array (JArray xs) = Some xs"
| "as_array _ = None"

definition is_array :: "json \<Rightarrow> bool" where
  "is_array v \<longleftrightarrow> as_array v \<noteq> None"

section \<open>Typed readings\<close>

text \<open>All elements must read; \<^verbatim>\<open>collect::<Option<Vec<_>>>\<close> and \<^verbatim>\<open>Vec<T>: Deserialize\<close>.\<close>

fun all_some :: "'a option list \<Rightarrow> 'a list option" where
  "all_some [] = Some []"
| "all_some (None # xs) = None"
| "all_some (Some x # xs) = map_option (Cons x) (all_some xs)"

lemma all_some_map_Some [simp]: "all_some (map Some xs) = Some xs"
  by (induction xs) auto

lemma all_some_eq_Some: "all_some xs = Some ys \<longleftrightarrow> xs = map Some ys"
  by (induction xs arbitrary: ys rule: all_some.induct) auto

definition de_string :: "json \<Rightarrow> string option" where
  "de_string = as_str"

fun de_u64 :: "json \<Rightarrow> u64 option" where
  "de_u64 (JNumber (PosInt n)) = Some n"
| "de_u64 _ = None"

definition de_vec :: "(json \<Rightarrow> 'a option) \<Rightarrow> json \<Rightarrow> 'a list option" where
  "de_vec de v = Option.bind (as_array v) (\<lambda>xs. all_some (map de xs))"

lemma de_vec_array [simp]: "de_vec de (JArray xs) = all_some (map de xs)"
  by (simp add: de_vec_def)

lemma de_vec_map: "(\<And>x. x \<in> set xs \<Longrightarrow> de (f x) = Some x) \<Longrightarrow> de_vec de (JArray (map f xs)) = Some xs"
  by (simp add: all_some_eq_Some)

text \<open>A field of a struct that must occur exactly once.\<close>

definition field1 :: "(string \<times> json) list \<Rightarrow> string \<Rightarrow> json option" where
  "field1 m k = (case filter (\<lambda>p. fst p = k) m of [p] \<Rightarrow> Some (snd p) | _ \<Rightarrow> None)"

section \<open>Functions of other packages\<close>

text \<open>
  A numeric column of the database: an integer, or the floating-point value (by its bits)
  SQLite falls back to when integer arithmetic leaves the 64-bit range.
\<close>

datatype sql_num = IntCol int | RealCol u64

record externals =
  json_from_str :: "string \<Rightarrow> json option"
  json_to_string :: "json \<Rightarrow> string option"
  sha256 :: "string \<Rightarrow> string"
  hex_encode :: "string \<Rightarrow> string"
  hex_decode :: "string \<Rightarrow> string option"
  sig_from_str :: "string \<Rightarrow> string option"
  msg_from_slice :: "string \<Rightarrow> string option"
  xonly_from_str :: "string \<Rightarrow> string option"
  verify_schnorr :: "string \<Rightarrow> string \<Rightarrow> string \<Rightarrow> bool" \<comment> \<open>signature, message, key\<close>
  bech32_decode :: "string \<Rightarrow> nat list option"
  from_base32 :: "nat list \<Rightarrow> string option"
  base64_decode :: "string \<Rightarrow> string option"
  url_host :: "string \<Rightarrow> string option"
  pk_from_str :: "string \<Rightarrow> string option" \<comment> \<open>\<^verbatim>\<open>Keys::from_pk_str(s).public_key().to_string()\<close>\<close>
  ulower :: "string \<Rightarrow> string"
  ualnum :: "rchar \<Rightarrow> bool"
  sql_real_add :: "sql_num \<Rightarrow> int \<Rightarrow> sql_num" \<comment> \<open>SQLite arithmetic outside the 64-bit range\<close>

section \<open>Documented behaviour used as hypotheses\<close>

text \<open>Reading back what the serializer printed.\<close>

definition json_roundtrips :: "externals \<Rightarrow> bool" where
  "json_roundtrips X \<longleftrightarrow>
     (\<forall>v s. json_to_string X v = Some s \<longrightarrow> json_from_str X s = Some v)"

text \<open>The serializer never fails on a value.\<close>

definition json_total :: "externals \<Rightarrow> bool" where
  "json_total X \<longleftrightarrow> (\<forall>v. json_to_string X v \<noteq> None)"

text \<open>
  The \<^verbatim>\<open>hex\<close> package: every string of an even number of hexadecimal digits decodes, nothing
  else does, and two strings decode to the same bytes exactly when they differ in letter
  case only.
\<close>

definition hex_laws :: "externals \<Rightarrow> bool" where
  "hex_laws X \<longleftrightarrow>
     (\<forall>s. hex_decode X s \<noteq> None \<longleftrightarrow> even (length s) \<and> list_all is_ascii_hexdigit s)
   \<and> (\<forall>s t b. hex_decode X s = Some b \<longrightarrow>
        (hex_decode X t = Some b \<longleftrightarrow> map to_ascii_lower s = map to_ascii_lower t))"

definition hash_injective :: "externals \<Rightarrow> bool" where
  "hash_injective X \<longleftrightarrow> inj (sha256 X) \<and> inj (hex_encode X)"

end
