(* ===== verification/Instances.thy ===== *)
theory Instances
  imports Json "HOL-Library.Countable"
begin

text \<open>
  One concrete instance of the functions of other packages, \<open>std_ext\<close>, with proofs that it
  has the documented behaviour the theorems assume (\<open>json_roundtrips\<close>, \<open>hex_laws\<close>, ...).
  Witnesses use it. The hexadecimal functions are the real ones; the hash is the identity
  and every well-formed signature verifies, which is enough to satisfy the hypotheses.
\<close>

instance jnum :: countable
  by countable_datatype

instance json :: countable
  by countable_datatype

section \<open>Hexadecimal coding\<close>

definition hex_val :: "char \<Rightarrow> nat" where
  "hex_val c = (if is_ascii_digit c then byte_of c - 48
                else if is_ascii_uppercase c then byte_of c - 55 else byte_of c - 87)"

definition hex_char :: "nat \<Rightarrow> char" where
  "hex_char n = char_of (if n < 10 then n + 48 else n + 87)"

fun hex_dec :: "string \<Rightarrow> string option" where
  "hex_dec [] = Some []"
| "hex_dec [c] = None"
| "hex_dec (a # b # r) =
     (if is_ascii_hexdigit a \<and> is_ascii_hexdigit b
      then map_option (Cons (char_of (16 * hex_val a + hex_val b))) (hex_dec r) else None)"

fun hex_enc :: "string \<Rightarrow> string" where
  "hex_enc [] = []"
| "hex_enc (c # cs) = hex_char (byte_of c div 16) # hex_char (byte_of c mod 16) # hex_enc cs"

lemma byte_of_bound: "byte_of c < 256"
  by (metis of_char_mod_256 mod_less_divisor zero_less_numeral)

lemma hex_val_less: "is_ascii_hexdigit c \<Longrightarrow> hex_val c < 16"
  by (auto simp: hex_val_def ascii_defs)

lemma hex_val_inj:
  assumes "is_ascii_hexdigit a" "is_ascii_hexdigit b"
  shows "hex_val a = hex_val b \<longleftrightarrow> to_ascii_lower a = to_ascii_lower b"
proof
  assume "hex_val a = hex_val b"
  with assms have "byte_of (to_ascii_lower a) = byte_of (to_ascii_lower b)"
    unfolding byte_of_lower
    by (auto simp: hex_val_def ascii_defs simp del: of_char_eq_iff split: if_splits)
  then show "to_ascii_lower a = to_ascii_lower b" by (simp only: of_char_eq_iff)
next
  assume "to_ascii_lower a = to_ascii_lower b"
  then have "byte_of (to_ascii_lower a) = byte_of (to_ascii_lower b)" by simp
  with assms show "hex_val a = hex_val b"
    unfolding byte_of_lower
    by (auto simp: hex_val_def ascii_defs simp del: of_char_eq_iff split: if_splits)
qed

lemma char_of_eq: "m < 256 \<Longrightarrow> n < 256 \<Longrightarrow> (char_of m :: char) = char_of n \<longleftrightarrow> m = (n :: nat)"
  by (metis char_of_quasi_inj mod_less)

lemma pair16: "b < 16 \<Longrightarrow> d < 16 \<Longrightarrow> 16 * a + b = 16 * c + (d :: nat) \<longleftrightarrow> a = c \<and> b = d"
proof -
  assume "b < 16" "d < 16"
  then have "(16 * a + b) div 16 = a" "(16 * a + b) mod 16 = b"
    "(16 * c + d) div 16 = c" "(16 * c + d) mod 16 = d" by simp_all
  then show ?thesis by metis
qed

lemma hex_pair_inj:
  assumes "is_ascii_hexdigit a" "is_ascii_hexdigit b" "is_ascii_hexdigit c" "is_ascii_hexdigit d"
  shows "(char_of (16 * hex_val a + hex_val b) :: char) = char_of (16 * hex_val c + hex_val d) \<longleftrightarrow>
    to_ascii_lower a = to_ascii_lower c \<and> to_ascii_lower b = to_ascii_lower d"
proof -
  note v = hex_val_less [OF assms(1)] hex_val_less [OF assms(2)]
    hex_val_less [OF assms(3)] hex_val_less [OF assms(4)]
  have "16 * hex_val a + hex_val b = 16 * hex_val c + hex_val d \<longleftrightarrow>
    hex_val a = hex_val c \<and> hex_val b = hex_val d" using pair16 v by blast
  moreover have "16 * hex_val a + hex_val b < 256" "16 * hex_val c + hex_val d < 256" using v by auto
  ultimately show ?thesis using assms by (simp add: char_of_eq hex_val_inj)
qed

lemma hex_dec_defined: "hex_dec s \<noteq> None \<longleftrightarrow> even (length s) \<and> list_all is_ascii_hexdigit s"
  by (induction s rule: hex_dec.induct) auto

lemma hexdigit_lower: "is_ascii_hexdigit (to_ascii_lower c) = is_ascii_hexdigit c"
  by (auto simp: ascii_defs)

lemma hex_dec_inj:
  "hex_dec s = Some b \<Longrightarrow> hex_dec t = Some b \<longleftrightarrow> map to_ascii_lower s = map to_ascii_lower t"
proof (induction s arbitrary: t b rule: hex_dec.induct)
  case 1
  then show ?case by (cases t rule: hex_dec.cases) auto
next
  case (3 a c r)
  from "3.prems" obtain b' where b: "is_ascii_hexdigit a" "is_ascii_hexdigit c" "hex_dec r = Some b'"
    "b = char_of (16 * hex_val a + hex_val c) # b'" by (auto split: if_splits)
  show ?case
  proof (cases t rule: hex_dec.cases)
    case t: (3 a' c' r')
    have IH: "hex_dec r' = Some b' \<longleftrightarrow> map to_ascii_lower r = map to_ascii_lower r'"
      using "3.IH" b by blast
    show ?thesis
    proof (cases "is_ascii_hexdigit a' \<and> is_ascii_hexdigit c'")
      case True
      then have "hex_dec t = Some b \<longleftrightarrow>
        (char_of (16 * hex_val a' + hex_val c') :: char) = char_of (16 * hex_val a + hex_val c)
        \<and> hex_dec r' = Some b'" using t b by auto
      with True IH hex_pair_inj [of a' c' a c] b t show ?thesis by auto
    next
      case False
      then have "\<not> (to_ascii_lower a = to_ascii_lower a' \<and> to_ascii_lower c = to_ascii_lower c')"
        using b hexdigit_lower by metis
      with False t show ?thesis by auto
    qed
  qed (use b in auto)
qed simp

section \<open>The instance\<close>

definition std_json_to_string :: "json \<Rightarrow> string option" where
  "std_json_to_string v = Some (replicate (to_nat v) CHR ''x'')"

definition std_json_from_str :: "string \<Rightarrow> json option" where
  "std_json_from_str s = Some (from_nat (length s))"

definition std_ext :: externals where
  "std_ext = \<lparr>
     json_from_str = std_json_from_str, json_to_string = std_json_to_string,
     sha256 = (\<lambda>s. s), hex_encode = hex_enc, hex_decode = hex_dec,
     sig_from_str = (\<lambda>s. if length s = 128 then Some s else None), msg_from_slice = Some,
     xonly_from_str = (\<lambda>s. if length s = 64 then hex_dec s else None),
     verify_schnorr = (\<lambda>_ _ _. True),
     bech32_decode = (\<lambda>_. None), from_base32 = (\<lambda>_. None), base64_decode = Some,
     url_host = Some, pk_from_str = (\<lambda>s. if length s = 64 then Some s else None),
     ulower = (\<lambda>s. s), ualnum = (\<lambda>_. False),
     sql_real_add = (\<lambda>_ _. RealCol 0)\<rparr>"

lemma std_ext_sel [simp]:
  "json_from_str std_ext = std_json_from_str" "json_to_string std_ext = std_json_to_string"
  "sha256 std_ext s = s" "hex_encode std_ext = hex_enc" "hex_decode std_ext = hex_dec"
  "sig_from_str std_ext s = (if length s = 128 then Some s else None)"
  "msg_from_slice std_ext = Some"
  "xonly_from_str std_ext s = (if length s = 64 then hex_dec s else None)"
  "verify_schnorr std_ext s s s" "bech32_decode std_ext s = None" "base64_decode std_ext = Some"
  "url_host std_ext = Some" "pk_from_str std_ext s = (if length s = 64 then Some s else None)"
  "ulower std_ext s = s" "\<not> ualnum std_ext s"
  by (simp_all add: std_ext_def)

lemma std_verify [simp]: "verify_schnorr std_ext a b c"
  by (simp add: std_ext_def)

lemma std_json_roundtrips: "json_roundtrips std_ext"
  by (auto simp: json_roundtrips_def std_json_to_string_def std_json_from_str_def)

lemma std_json_total: "json_total std_ext"
  by (simp add: json_total_def std_json_to_string_def)

lemma std_hex_laws: "hex_laws std_ext"
  unfolding hex_laws_def using hex_dec_defined hex_dec_inj by simp

lemma hex_enc_inj: "hex_enc s = hex_enc t \<Longrightarrow> s = t"
proof (induction s arbitrary: t)
  case Nil
  then show ?case by (cases t) auto
next
  case (Cons a s)
  then obtain b u where t: "t = b # u" by (cases t) auto
  have inj: "hex_char m = hex_char n \<Longrightarrow> m < 16 \<Longrightarrow> n < 16 \<Longrightarrow> m = n" for m n
    by (auto simp: hex_char_def char_of_eq split: if_splits)
  have lt: "byte_of c div 16 < 16" "byte_of c mod 16 < 16" for c :: char
    using byte_of_bound [of c] by (simp_all add: less_mult_imp_div_less)
  from Cons.prems t inj lt have
    "byte_of a div 16 = byte_of b div 16" "byte_of a mod 16 = byte_of b mod 16" "hex_enc s = hex_enc u"
    by auto
  then have "byte_of a = byte_of b" by (metis div_mult_mod_eq)
  with Cons.IH \<open>hex_enc s = hex_enc u\<close> t show ?case by auto
qed

lemma std_hash_injective: "hash_injective std_ext"
  unfolding hash_injective_def by (auto simp: inj_def dest: hex_enc_inj)

end
