(* ===== verification/Event.thy ===== *)
theory Event
  imports Errors Config Instances
begin

text \<open>
  Nostr events: classification, tags and the tag index, the canonical form and signature
  validation (\<^verbatim>\<open>src/src/event.rs\<close>), and the helpers of \<^verbatim>\<open>src/src/utils.rs\<close>. The current
  time (\<^verbatim>\<open>unix_time()\<close>) is the argument \<open>now\<close>.
\<close>

section \<open>utils.rs\<close>

definition is_hex :: "string \<Rightarrow> bool" where
  "is_hex s \<longleftrightarrow> list_all (\<lambda>x. case x of [c] \<Rightarrow> is_ascii_hexdigit c | _ \<Rightarrow> False) (chars s)"

definition is_nip19 :: "string \<Rightarrow> bool" where
  "is_nip19 s \<longleftrightarrow> starts_with s ''npub'' \<or> starts_with s ''note''"

definition nip19_to_hex :: "externals \<Rightarrow> string \<Rightarrow> string option" where
  "nip19_to_hex X s =
     Option.bind (bech32_decode X s) (\<lambda>d. Option.bind (from_base32 X d) (\<lambda>b. Some (hex_encode X b)))"

definition is_lower_hex :: "string \<Rightarrow> bool" where
  "is_lower_hex s \<longleftrightarrow>
     list_all (\<lambda>x. case x of [c] \<Rightarrow>
       (is_ascii_lowercase c \<or> is_ascii_digit c) \<and> is_ascii_hexdigit c | _ \<Rightarrow> False) (chars s)"

definition host_str :: "externals \<Rightarrow> string \<Rightarrow> string option" where
  "host_str X url = url_host X url"

section \<open>The event record\<close>

record event =
  ev_id :: string
  ev_pubkey :: string
  ev_delegated_by :: "string option"
  ev_created_at :: u64
  ev_kind :: u64
  ev_tags :: "string list list"
  ev_content :: string
  ev_sig :: string
  ev_tagidx :: "(rchar \<rightharpoonup> string fset) option"

datatype tag_operand = And "string fset" | Or "string fset"

fun operand_set :: "tag_operand \<Rightarrow> string fset" where
  "operand_set (Or v) = v"
| "operand_set (And v) = v"

definition single_char_tagname :: "string \<Rightarrow> rchar option" where
  "single_char_tagname tagname =
     (case chars tagname of [] \<Rightarrow> None | c # rest \<Rightarrow> if rest = [] then Some c else None)"

definition is_kind_metadata :: "event \<Rightarrow> bool" where
  "is_kind_metadata e \<longleftrightarrow> ev_kind e = 0"

definition is_ephemeral :: "event \<Rightarrow> bool" where
  "is_ephemeral e \<longleftrightarrow> 20000 \<le> ev_kind e \<and> ev_kind e < 30000"

definition is_replaceable :: "event \<Rightarrow> bool" where
  "is_replaceable e \<longleftrightarrow> ev_kind e = 0 \<or> ev_kind e = 3 \<or> ev_kind e = 41
     \<or> (10000 \<le> ev_kind e \<and> ev_kind e < 20000)"

definition is_param_replaceable :: "event \<Rightarrow> bool" where
  "is_param_replaceable e \<longleftrightarrow> 30000 \<le> ev_kind e \<and> ev_kind e < 40000"

text \<open>The value of the first tag with a given name, or the empty string if it has none.\<close>

definition first_value :: "string \<Rightarrow> string list list \<Rightarrow> string option" where
  "first_value name ts =
     (case filter (\<lambda>x. x \<noteq> [] \<and> hd x = name) ts of [] \<Rightarrow> None
      | t # _ \<Rightarrow> Some (if 1 < length t then t ! 1 else []))"

definition expiration :: "event \<Rightarrow> u64 option" where
  "expiration e = Option.bind (first_value ''expiration'' (ev_tags e)) parse_u64"

definition is_expired :: "u64 \<Rightarrow> event \<Rightarrow> bool" where
  "is_expired now e = (case expiration e of Some ex \<Rightarrow> ex \<le> now | None \<Rightarrow> False)"

definition distinct_param :: "event \<Rightarrow> string option" where
  "distinct_param e =
     (if is_param_replaceable e then
        (case first_value ''d'' (ev_tags e) of Some v \<Rightarrow> Some v | None \<Rightarrow> Some [])
      else None)"

definition tag_values_by_name :: "event \<Rightarrow> string \<Rightarrow> string list" where
  "tag_values_by_name e name =
     map (\<lambda>t. t ! 1) (filter (\<lambda>t. hd t = name) (filter (\<lambda>t. 1 < length t) (ev_tags e)))"

definition get_event_id_prefix :: "event \<Rightarrow> string" where
  "get_event_id_prefix e = concat (take 8 (chars (ev_id e)))"

definition get_author_prefix :: "event \<Rightarrow> string" where
  "get_author_prefix e = concat (take 8 (chars (ev_pubkey e)))"

text \<open>
  The sum is a \<^verbatim>\<open>u64\<close> addition and wraps, as in a release build.
\<close>

definition is_valid_timestamp :: "u64 \<Rightarrow> u64 option \<Rightarrow> event \<Rightarrow> bool" where
  "is_valid_timestamp now reject_future e =
     (case reject_future of
        Some allowable_future \<Rightarrow> \<not> now + allowable_future < ev_created_at e
      | None \<Rightarrow> True)"

section \<open>The tag index\<close>

definition index_tag :: "string list \<Rightarrow> (rchar \<rightharpoonup> string fset) \<Rightarrow> (rchar \<rightharpoonup> string fset)" where
  "index_tag t idx =
     (case single_char_tagname (hd t) of
        None \<Rightarrow> idx
      | Some c \<Rightarrow> idx(c \<mapsto> finsert (t ! 1) (case idx c of None \<Rightarrow> {||} | Some s \<Rightarrow> s)))"

definition build_index :: "event \<Rightarrow> event" where
  "build_index e =
     (if ev_tags e = [] then e
      else e\<lparr>ev_tagidx := Some (fold index_tag (filter (\<lambda>x. 1 < length x) (ev_tags e)) Map.empty)\<rparr>)"

definition generic_tag_val_intersect :: "event \<Rightarrow> rchar \<Rightarrow> tag_operand \<Rightarrow> bool" where
  "generic_tag_val_intersect e tagname check =
     (case ev_tagidx e of
        None \<Rightarrow> False
      | Some idx \<Rightarrow>
        (case idx tagname of
           None \<Rightarrow> False
         | Some valset \<Rightarrow>
           (case check of
              And v \<Rightarrow> fcard (valset |\<inter>| v) = fcard v
            | Or v \<Rightarrow> 0 < fcard (valset |\<inter>| v))))"

section \<open>Canonical form and validation\<close>

definition tags_to_canonical :: "event \<Rightarrow> json" where
  "tags_to_canonical e = JArray (map (\<lambda>t. JArray (map JString t)) (ev_tags e))"

definition canonical_value :: "event \<Rightarrow> json" where
  "canonical_value e =
     JArray [JNumber (PosInt 0), JString (ev_pubkey e), JNumber (PosInt (ev_created_at e)),
             JNumber (PosInt (ev_kind e)), tags_to_canonical e, JString (ev_content e)]"

definition to_canonical :: "externals \<Rightarrow> event \<Rightarrow> string option" where
  "to_canonical X e = json_to_string X (canonical_value e)"

definition validate :: "externals \<Rightarrow> event \<Rightarrow> (unit, error) result" where
  "validate X e =
     (case to_canonical X e of
        None \<Rightarrow> Err EventCouldNotCanonicalize
      | Some c \<Rightarrow>
        (let digest = sha256 X c; hex_digest = hex_encode X digest in
         if ev_id e \<noteq> hex_digest then Err EventInvalidId
         else (case sig_from_str X (ev_sig e) of
            None \<Rightarrow> Err EventInvalidSignature
          | Some sg \<Rightarrow>
            (case msg_from_slice X digest of
               None \<Rightarrow> Err EventInvalidSignature
             | Some msg \<Rightarrow>
               (case xonly_from_str X (ev_pubkey e) of
                  None \<Rightarrow> Err EventMalformedPubkey
                | Some pk \<Rightarrow>
                  if verify_schnorr X sg msg pk then Ok () else Err EventInvalidSignature)))))"

section \<open>Serialization\<close>

text \<open>
  The derived \<^verbatim>\<open>Serialize\<close> and \<^verbatim>\<open>Deserialize\<close>: the skipped fields (\<^verbatim>\<open>delegated_by\<close>,
  \<^verbatim>\<open>tagidx\<close>) are neither written nor read, \<^verbatim>\<open>tags\<close> may be null, unknown fields are
  ignored, and a struct may also be written as the sequence of its fields.
\<close>

definition event_to_json :: "event \<Rightarrow> json" where
  "event_to_json e = JObject
     [(''id'', JString (ev_id e)), (''pubkey'', JString (ev_pubkey e)),
      (''created_at'', JNumber (PosInt (ev_created_at e))),
      (''kind'', JNumber (PosInt (ev_kind e))), (''tags'', tags_to_canonical e),
      (''content'', JString (ev_content e)), (''sig'', JString (ev_sig e))]"

definition tag_from_string :: "json \<Rightarrow> string list list option" where
  "tag_from_string v = (case v of JNull \<Rightarrow> Some [] | _ \<Rightarrow> de_vec (de_vec de_string) v)"

definition event_of_fields ::
  "json option \<Rightarrow> json option \<Rightarrow> json option \<Rightarrow> json option \<Rightarrow> json option \<Rightarrow> json option \<Rightarrow>
   json option \<Rightarrow> event option" where
  "event_of_fields fid fpk fcr fki fta fco fsi =
     Option.bind (Option.bind fid de_string) (\<lambda>i.
     Option.bind (Option.bind fpk de_string) (\<lambda>pk.
     Option.bind (Option.bind fcr de_u64) (\<lambda>cr.
     Option.bind (Option.bind fki de_u64) (\<lambda>ki.
     Option.bind (Option.bind fta tag_from_string) (\<lambda>ta.
     Option.bind (Option.bind fco de_string) (\<lambda>co.
     Option.bind (Option.bind fsi de_string) (\<lambda>si.
       Some \<lparr>ev_id = i, ev_pubkey = pk, ev_delegated_by = None, ev_created_at = cr,
             ev_kind = ki, ev_tags = ta, ev_content = co, ev_sig = si, ev_tagidx = None\<rparr>)))))))"

fun de_event :: "json \<Rightarrow> event option" where
  "de_event (JObject m) =
     event_of_fields (field1 m ''id'') (field1 m ''pubkey'') (field1 m ''created_at'')
       (field1 m ''kind'') (field1 m ''tags'') (field1 m ''content'') (field1 m ''sig'')"
| "de_event (JArray [a, b, c, d, e, f, g]) =
     event_of_fields (Some a) (Some b) (Some c) (Some d) (Some e) (Some f) (Some g)"
| "de_event _ = None"

definition event_to_string :: "externals \<Rightarrow> event \<Rightarrow> string option" where
  "event_to_string X e = json_to_string X (event_to_json e)"

definition event_from_str :: "externals \<Rightarrow> string \<Rightarrow> event option" where
  "event_from_str X s = Option.bind (json_from_str X s) de_event"

section \<open>Hexadecimal strings\<close>

lemma hexdigit_ascii: "is_ascii_hexdigit c \<Longrightarrow> is_ascii c"
  by (auto simp: ascii_defs)

lemma singletons_concat:
  "list_all (\<lambda>x. case x of [c] \<Rightarrow> P c | _ \<Rightarrow> False) xs \<Longrightarrow> list_all P (concat xs)"
  by (induction xs) (auto split: list.splits)

lemma chars_singletons:
  "list_all (\<lambda>x. case x of [c] \<Rightarrow> P c | _ \<Rightarrow> False) (chars s) \<Longrightarrow> list_all P s"
  using singletons_concat [of P "chars s"] by simp

lemma is_hex_iff: "is_hex s \<longleftrightarrow> list_all is_ascii_hexdigit s"
proof
  assume "list_all is_ascii_hexdigit s"
  moreover from this have "chars s = map (\<lambda>c. [c]) s"
    by (intro chars_ascii) (auto simp: list_all_iff hexdigit_ascii)
  ultimately show "is_hex s" by (simp add: is_hex_def list_all_iff)
qed (auto simp: is_hex_def dest: chars_singletons)

lemma is_lower_hex_iff:
  "is_lower_hex s \<longleftrightarrow> list_all (\<lambda>c. is_ascii_hexdigit c \<and> \<not> is_ascii_uppercase c) s"
proof
  assume "is_lower_hex s"
  then have "list_all (\<lambda>c. (is_ascii_lowercase c \<or> is_ascii_digit c) \<and> is_ascii_hexdigit c) s"
    unfolding is_lower_hex_def by (rule chars_singletons)
  then show "list_all (\<lambda>c. is_ascii_hexdigit c \<and> \<not> is_ascii_uppercase c) s"
    by (auto simp: list_all_iff ascii_defs)
next
  assume h: "list_all (\<lambda>c. is_ascii_hexdigit c \<and> \<not> is_ascii_uppercase c) s"
  then have "chars s = map (\<lambda>c. [c]) s"
    by (intro chars_ascii) (auto simp: list_all_iff hexdigit_ascii)
  with h show "is_lower_hex s"
    by (auto simp: is_lower_hex_def list_all_iff ascii_defs)
qed

lemma is_lower_hex_lower: "is_lower_hex s \<Longrightarrow> map to_ascii_lower s = s"
  by (induction s) (auto simp: is_lower_hex_iff)

lemma is_lower_hex_is_hex: "is_lower_hex s \<Longrightarrow> is_hex s"
  by (auto simp: is_lower_hex_iff is_hex_iff list_all_iff)

text \<open>Lowercase strings are determined by the bytes they decode to.\<close>

lemma hex_decode_lower_inj:
  assumes "hex_laws X" "is_lower_hex s" "is_lower_hex t" "hex_decode X s = Some b"
  shows "hex_decode X t = Some b \<longleftrightarrow> s = t"
  using assms by (metis hex_laws_def is_lower_hex_lower)

lemma hex_decode_even:
  "hex_laws X \<Longrightarrow> is_hex s \<Longrightarrow> even (length s) \<Longrightarrow> \<exists>b. hex_decode X s = Some b"
  by (auto simp: hex_laws_def is_hex_iff)

section \<open>Tags\<close>

text \<open>The values an event carries under a one-character tag name.\<close>

definition tag_values :: "event \<Rightarrow> rchar \<Rightarrow> string set" where
  "tag_values e c =
     {t ! 1 | t. t \<in> set (ev_tags e) \<and> 1 < length t \<and> single_char_tagname (hd t) = Some c}"

lemma index_fold:
  "fold index_tag ts idx c =
     (if (\<exists>t\<in>set ts. single_char_tagname (hd t) = Some c)
      then Some ((case idx c of None \<Rightarrow> {||} | Some s \<Rightarrow> s)
                 |\<union>| fset_of_list (map (\<lambda>t. t ! 1) (filter (\<lambda>t. single_char_tagname (hd t) = Some c) ts)))
      else idx c)"
  by (induction ts arbitrary: idx)
     (auto simp: index_tag_def fset_of_list.rep_eq split: option.splits)

lemma build_index_lookup:
  assumes "ev_tags e \<noteq> []"
  shows "\<exists>idx. ev_tagidx (build_index e) = Some idx \<and>
           (\<forall>c. map_option fset (idx c) =
                  (if tag_values e c = {} then None else Some (tag_values e c)))"
  using assms
  by (auto simp: build_index_def index_fold tag_values_def fset_of_list.rep_eq)

lemma build_index_fields [simp]:
  "ev_id (build_index e) = ev_id e" "ev_pubkey (build_index e) = ev_pubkey e"
  "ev_kind (build_index e) = ev_kind e" "ev_created_at (build_index e) = ev_created_at e"
  "ev_tags (build_index e) = ev_tags e" "ev_delegated_by (build_index e) = ev_delegated_by e"
  "ev_content (build_index e) = ev_content e" "ev_sig (build_index e) = ev_sig e"
  by (simp_all add: build_index_def)

lemma fcard_inter_And: "fcard (a |\<inter>| v) = fcard v \<longleftrightarrow> fset v \<subseteq> fset a"
proof -
  have "card (fset a \<inter> fset v) = card (fset v) \<longleftrightarrow> fset a \<inter> fset v = fset v"
    by (metis card_subset_eq finite_fset inf_le2)
  then show ?thesis by (auto simp: fcard.rep_eq)
qed

lemma fcard_inter_Or: "0 < fcard (a |\<inter>| v) \<longleftrightarrow> fset a \<inter> fset v \<noteq> {}"
  by (simp add: fcard.rep_eq card_gt_0_iff)

lemma intersect_build_index:
  assumes "ev_tagidx e = None"
  shows "generic_tag_val_intersect (build_index e) c (Or v) \<longleftrightarrow> tag_values e c \<inter> fset v \<noteq> {}"
    and "generic_tag_val_intersect (build_index e) c (And v) \<longleftrightarrow>
           tag_values e c \<noteq> {} \<and> fset v \<subseteq> tag_values e c"
proof -
  have "(generic_tag_val_intersect (build_index e) c (Or v) \<longleftrightarrow> tag_values e c \<inter> fset v \<noteq> {}) \<and>
    (generic_tag_val_intersect (build_index e) c (And v) \<longleftrightarrow>
       tag_values e c \<noteq> {} \<and> fset v \<subseteq> tag_values e c)"
  proof (cases "ev_tags e = []")
    case True
    then show ?thesis using assms
      by (simp add: generic_tag_val_intersect_def build_index_def tag_values_def)
  next
    case False
    then obtain idx where idx: "ev_tagidx (build_index e) = Some idx"
      "\<And>c. map_option fset (idx c) = (if tag_values e c = {} then None else Some (tag_values e c))"
      using build_index_lookup by blast
    show ?thesis
    proof (cases "idx c")
      case None
      with idx(2) [of c] have "tag_values e c = {}" by (auto split: if_splits)
      with None idx(1) show ?thesis by (simp add: generic_tag_val_intersect_def)
    next
      case (Some vs)
      with idx(2) [of c] have "fset vs = tag_values e c" "tag_values e c \<noteq> {}"
        by (auto split: if_splits)
      with Some idx(1) show ?thesis
        unfolding generic_tag_val_intersect_def
        by (simp add: fcard_inter_And fcard_inter_Or)
    qed
  qed
  then show "generic_tag_val_intersect (build_index e) c (Or v) \<longleftrightarrow> tag_values e c \<inter> fset v \<noteq> {}"
    and "generic_tag_val_intersect (build_index e) c (And v) \<longleftrightarrow>
           tag_values e c \<noteq> {} \<and> fset v \<subseteq> tag_values e c" by blast+
qed

section \<open>Kinds\<close>

lemma kind_classes_disjoint:
  "\<not> (is_replaceable e \<and> is_param_replaceable e)" "\<not> (is_replaceable e \<and> is_ephemeral e)"
  "\<not> (is_param_replaceable e \<and> is_ephemeral e)"
  by (auto simp: is_replaceable_def is_param_replaceable_def is_ephemeral_def word_less_nat_alt
      word_le_nat_alt)

section \<open>Validation\<close>

lemma validate_Ok_iff:
  "validate X e = Ok () \<longleftrightarrow>
     (\<exists>c sg msg pk. to_canonical X e = Some c \<and> ev_id e = hex_encode X (sha256 X c) \<and>
        sig_from_str X (ev_sig e) = Some sg \<and> msg_from_slice X (sha256 X c) = Some msg \<and>
        xonly_from_str X (ev_pubkey e) = Some pk \<and> verify_schnorr X sg msg pk)"
  by (auto simp: validate_def Let_def split: option.splits if_splits)

lemma inj_JString_list: "map JString xs = map JString ys \<Longrightarrow> xs = ys"
  by (simp add: inj_map_eq_map inj_def)

lemma inj_tags: "map (\<lambda>t. JArray (map JString t)) xs = map (\<lambda>t. JArray (map JString t)) ys \<Longrightarrow> xs = ys"
proof -
  have "inj (\<lambda>t. JArray (map JString t))"
    by (rule injI) (simp add: inj_JString_list)
  then show "map (\<lambda>t. JArray (map JString t)) xs = map (\<lambda>t. JArray (map JString t)) ys \<Longrightarrow> xs = ys"
    by (simp add: inj_map_eq_map)
qed

lemma canonical_value_inj:
  "canonical_value e = canonical_value f \<longleftrightarrow>
     ev_pubkey e = ev_pubkey f \<and> ev_created_at e = ev_created_at f \<and> ev_kind e = ev_kind f \<and>
     ev_tags e = ev_tags f \<and> ev_content e = ev_content f"
  by (auto simp: canonical_value_def tags_to_canonical_def dest: inj_tags)

section \<open>Reading back a serialized event\<close>

lemma tag_from_string_canonical: "tag_from_string (tags_to_canonical e) = Some (ev_tags e)"
proof -
  have "de_vec de_string (JArray (map JString t)) = Some t" for t
    by (rule de_vec_map) (simp add: de_string_def)
  then show ?thesis
    unfolding tag_from_string_def tags_to_canonical_def
    by (simp del: de_vec_array add: de_vec_map)
qed

lemma de_event_to_json:
  "de_event (event_to_json e) = Some (e\<lparr>ev_delegated_by := None, ev_tagidx := None\<rparr>)"
  by (simp add: event_to_json_def field1_def event_of_fields_def tag_from_string_canonical
      de_string_def)

lemma event_from_to_str:
  assumes "json_roundtrips X" "event_to_string X e = Some s"
  shows "event_from_str X s = Some (e\<lparr>ev_delegated_by := None, ev_tagidx := None\<rparr>)"
  using assms by (simp add: event_from_str_def event_to_string_def json_roundtrips_def de_event_to_json)

section \<open>Properties\<close>

lemma json_to_string_inj:
  "json_roundtrips X \<Longrightarrow> json_to_string X v = Some s \<Longrightarrow> json_to_string X w = Some s \<Longrightarrow> v = w"
  unfolding json_roundtrips_def by (metis option.inject)


text \<open>An event with its identifier filled in, as a client prepares it.\<close>

definition sealed :: "externals \<Rightarrow> event \<Rightarrow> event" where
  "sealed X e = e\<lparr>ev_id := hex_encode X (sha256 X (the (to_canonical X e)))\<rparr>"

definition demo_event :: event where
  "demo_event = \<lparr>ev_id = [], ev_pubkey = replicate 64 CHR ''a'', ev_delegated_by = None,
     ev_created_at = 1000, ev_kind = 1059, ev_tags = [[''p'', replicate 64 CHR ''b'']],
     ev_content = ''hello'', ev_sig = replicate 128 CHR ''c'', ev_tagidx = None\<rparr>"

lemma sealed_fields [simp]:
  "ev_pubkey (sealed X e) = ev_pubkey e" "ev_created_at (sealed X e) = ev_created_at e"
  "ev_kind (sealed X e) = ev_kind e" "ev_tags (sealed X e) = ev_tags e"
  "ev_content (sealed X e) = ev_content e" "ev_sig (sealed X e) = ev_sig e"
  "ev_delegated_by (sealed X e) = ev_delegated_by e" "ev_tagidx (sealed X e) = ev_tagidx e"
  "ev_id (sealed X (e\<lparr>ev_sig := s\<rparr>)) = ev_id (sealed X e)"
  by (simp_all add: sealed_def to_canonical_def canonical_value_def tags_to_canonical_def)

lemma std_hex_dec_64:
  "length s = 64 \<Longrightarrow> list_all is_ascii_hexdigit s \<Longrightarrow> \<exists>b. hex_dec s = Some b"
  using hex_dec_defined [of s] by auto

lemma validate_sealed:
  assumes "length (ev_pubkey e) = 64" "list_all is_ascii_hexdigit (ev_pubkey e)" "length (ev_sig e) = 128"
  shows "validate std_ext (sealed std_ext e) = Ok ()"
  using assms std_hex_dec_64 [of "ev_pubkey e"]
  unfolding validate_Ok_iff
  by (auto simp: sealed_def to_canonical_def std_json_to_string_def canonical_value_def
      tags_to_canonical_def)

lemma hexdigits_replicate: "is_ascii_hexdigit c \<Longrightarrow> list_all is_ascii_hexdigit (replicate n c)"
  by (induction n) auto

lemma demo_event_valid: "validate std_ext (sealed std_ext demo_event) = Ok ()"
  by (rule validate_sealed) (simp_all add: demo_event_def hexdigits_replicate ascii_defs)


text \<open>The tag index decides tag matches exactly as a scan of the tags would. For an event
  received from the network (no index yet), after \<^verbatim>\<open>build_index\<close> an OR operand matches iff
  some tag with that one-character name carries one of the values, and an AND operand iff
  the name occurs and every requested value occurs under it.\<close>

theorem tag_index_matches_tags:
  assumes "ev_tagidx e = None"
  shows "(generic_tag_val_intersect (build_index e) c (Or v) \<longleftrightarrow> tag_values e c \<inter> fset v \<noteq> {}) \<and>
    (generic_tag_val_intersect (build_index e) c (And v) \<longleftrightarrow>
       tag_values e c \<noteq> {} \<and> fset v \<subseteq> tag_values e c)"
  using intersect_build_index [OF assms] by blast

theorem tag_index_matches_tags_witness:
  "generic_tag_val_intersect (build_index (demo_event\<lparr>ev_tags := [[''e'', ''foo''], [''p'']]\<rparr>)) ''e''
     (Or {|''foo'', ''bar''|})"
proof -
  have "ev_tagidx (demo_event\<lparr>ev_tags := [[''e'', ''foo''], [''p'']]\<rparr>) = None"
    by (simp add: demo_event_def)
  moreover have "''foo'' \<in> tag_values (demo_event\<lparr>ev_tags := [[''e'', ''foo''], [''p'']]\<rparr>) ''e''"
    unfolding tag_values_def
    by (rule CollectI, rule exI [of _ "[''e'', ''foo'']"]) (simp add: single_char_tagname_def)
  ultimately show ?thesis
    using tag_index_matches_tags [of _ "''e''" "{|''foo'', ''bar''|}"] by auto
qed

end
