(* ===== verification/Delegation.thy ===== *)
theory Delegation
  imports Event
begin

text \<open>
  NIP-26 delegation (\<^verbatim>\<open>src/src/delegation.rs\<close>) and the conversion of a network command
  into a validated event (\<^verbatim>\<open>EventCmd\<close>, \<^verbatim>\<open>EventWrapper\<close>, \<^verbatim>\<open>delegated_author\<close> of
  \<^verbatim>\<open>src/src/event.rs\<close>).
\<close>

section \<open>Conditions\<close>

datatype field = Kind | CreatedAt

definition field_from_str :: "string \<Rightarrow> (field, error) result" where
  "field_from_str v =
     (if v = ''kind'' then Ok Kind else if v = ''created_at'' then Ok CreatedAt
      else Err DelegationParseError)"

datatype operator = LessThan | GreaterThan | Equals | NotEquals

definition operator_from_str :: "string \<Rightarrow> (operator, error) result" where
  "operator_from_str v =
     (if v = ''<'' then Ok LessThan else if v = ''>'' then Ok GreaterThan
      else if v = ''='' then Ok Equals else if v = ''!'' then Ok NotEquals
      else Err DelegationParseError)"

record condition =
  c_field :: field
  c_operator :: operator
  c_values :: "u64 list"

record condition_query =
  conditions :: "condition list"

definition condition_allows_event :: "condition \<Rightarrow> event \<Rightarrow> bool" where
  "condition_allows_event c e =
     (let resolved = (case c_field c of Kind \<Rightarrow> ev_kind e | CreatedAt \<Rightarrow> ev_created_at e) in
      case c_operator c of
        LessThan \<Rightarrow> (case c_values c of [v] \<Rightarrow> resolved < v | _ \<Rightarrow> False)
      | GreaterThan \<Rightarrow> (case c_values c of [v] \<Rightarrow> v < resolved | _ \<Rightarrow> False)
      | Equals \<Rightarrow> list_ex (\<lambda>x. resolved = x) (c_values c)
      | NotEquals \<Rightarrow> list_all (\<lambda>x. resolved \<noteq> x) (c_values c))"

fun conditions_allow :: "condition list \<Rightarrow> event \<Rightarrow> bool" where
  "conditions_allow [] e = True"
| "conditions_allow (c # cs) e = (if \<not> condition_allows_event c e then False else conditions_allow cs e)"

definition query_allows_event :: "condition_query \<Rightarrow> event \<Rightarrow> bool" where
  "query_allows_event q e = conditions_allow (conditions q) e"

section \<open>Parsing\<close>

text \<open>
  The capture groups of the regular expression
  \<^verbatim>\<open>([[:word:]]+)([<>=!]+)([,[[:digit:]]]*)\<close> in an unanchored, leftmost search. The three
  classes are ASCII and the first two are disjoint, so a run of word characters either
  starts a match (an operator character follows it) or contains none.
\<close>

definition re_word :: "char \<Rightarrow> bool" where
  "re_word c \<longleftrightarrow> is_ascii_alphanumeric c \<or> c = CHR ''_''"

definition re_op :: "char \<Rightarrow> bool" where
  "re_op c \<longleftrightarrow> c \<in> {CHR ''<'', CHR ''>'', CHR ''='', CHR ''!''}"

definition re_val :: "char \<Rightarrow> bool" where
  "re_val c \<longleftrightarrow> c = CHR '','' \<or> is_ascii_digit c"

lemma re_captures_decreases:
  assumes "dropWhile (\<lambda>c. \<not> re_word c) s \<noteq> []"
  shows "length (dropWhile re_word (dropWhile (\<lambda>c. \<not> re_word c) s)) < length s"
proof -
  let ?t = "dropWhile (\<lambda>c. \<not> re_word c) s"
  obtain c cs where t: "?t = c # cs" using assms by (cases ?t) auto
  then have "re_word c" by (metis assms hd_dropWhile list.sel(1))
  with t have "length (dropWhile re_word ?t) < length ?t"
    by (simp add: le_imp_less_Suc length_dropWhile_le)
  also have "\<dots> \<le> length s" by (rule length_dropWhile_le)
  finally show ?thesis .
qed

function re_captures :: "string \<Rightarrow> (string \<times> string \<times> string) option" where
  "re_captures s =
     (let t = dropWhile (\<lambda>c. \<not> re_word c) s in
      if t = [] then None
      else let w = takeWhile re_word t; r = dropWhile re_word t; p = takeWhile re_op r in
        if p = [] then re_captures r
        else Some (w, p, takeWhile re_val (dropWhile re_op r)))"
  by pat_completeness auto
termination
  by (relation "measure length") (auto simp: re_captures_decreases)

declare re_captures.simps [simp del]

definition str_to_condition :: "string \<Rightarrow> condition option" where
  "str_to_condition cs =
     Option.bind (re_captures cs) (\<lambda>(g1, g2, g3).
     Option.bind (ok (field_from_str g1)) (\<lambda>f.
     Option.bind (ok (operator_from_str g2)) (\<lambda>p.
     Option.bind (all_some (map parse_u64 (split_terminator CHR '','' g3))) (\<lambda>vs.
       Some \<lparr>c_field = f, c_operator = p, c_values = vs\<rparr>))))"

definition query_from_str :: "string \<Rightarrow> (condition_query, error) result" where
  "query_from_str v =
     (case all_some (map str_to_condition (split_terminator CHR ''&'' v)) of
        None \<Rightarrow> Err DelegationParseError
      | Some cs \<Rightarrow> Ok \<lparr>conditions = cs\<rparr>)"

section \<open>Checking a delegation\<close>

text \<open>The signature string is unwrapped before anything else is checked.\<close>

definition validate_delegation ::
  "externals \<Rightarrow> string \<Rightarrow> string \<Rightarrow> string \<Rightarrow> string \<Rightarrow> condition_query option exec" where
  "validate_delegation X delegator delegatee cond_query sigstr =
     (let tok = ''nostr:delegation:'' @ delegatee @ '':'' @ cond_query;
          digest = sha256 X tok in
      case sig_from_str X sigstr of
        None \<Rightarrow> Panic
      | Some sg \<Rightarrow> Done
        (case msg_from_slice X digest of
           None \<Rightarrow> None
         | Some msg \<Rightarrow>
           (case xonly_from_str X delegator of
              None \<Rightarrow> None
            | Some pk \<Rightarrow>
              if verify_schnorr X sg msg pk then ok (query_from_str cond_query) else None)))"

definition delegation_tag :: "event \<Rightarrow> string list option" where
  "delegation_tag e =
     (case filter (\<lambda>x. hd x = ''delegation'') (filter (\<lambda>x. length x = 4) (ev_tags e)) of
        [] \<Rightarrow> None | t # _ \<Rightarrow> Some t)"

definition delegated_author :: "externals \<Rightarrow> event \<Rightarrow> string option exec" where
  "delegated_author X e =
     (case delegation_tag e of
        None \<Rightarrow> Done None
      | Some t \<Rightarrow>
        map_exec (\<lambda>cq. case cq of
            Some q \<Rightarrow> if query_allows_event q e then Some (t ! 1) else None
          | None \<Rightarrow> None)
          (validate_delegation X (t ! 1) (ev_pubkey e) (t ! 2) (t ! 3)))"

definition update_delegation :: "externals \<Rightarrow> event \<Rightarrow> event exec" where
  "update_delegation X e = map_exec (\<lambda>d. e\<lparr>ev_delegated_by := d\<rparr>) (delegated_author X e)"

section \<open>Event commands\<close>

record event_cmd =
  ec_cmd :: string
  ec_event :: event

definition event_id :: "event_cmd \<Rightarrow> string" where
  "event_id ec = ev_id (ec_event ec)"

datatype event_wrapper = WrappedEvent event | WrappedAuth event

definition event_wrapper_from :: "externals \<Rightarrow> event_cmd \<Rightarrow> (event_wrapper, error) result exec" where
  "event_wrapper_from X ec =
     (if ec_cmd ec = ''EVENT'' then
        (case validate X (ec_event ec) of
           Err er \<Rightarrow> Done (Err er)
         | Ok _ \<Rightarrow> map_exec (\<lambda>e. Ok (WrappedEvent e)) (update_delegation X (build_index (ec_event ec))))
      else if ec_cmd ec = ''AUTH'' then Done (Ok (WrappedAuth (ec_event ec)))
      else Done (Err CommandUnknownError))"

section \<open>Lemmas\<close>

lemma conditions_allow_iff: "conditions_allow cs e \<longleftrightarrow> (\<forall>c\<in>set cs. condition_allows_event c e)"
  by (induction cs) auto

lemma condition_allows_event_cong:
  "ev_kind e = ev_kind f \<Longrightarrow> ev_created_at e = ev_created_at f \<Longrightarrow>
   condition_allows_event c e = condition_allows_event c f"
  by (simp add: condition_allows_event_def cong: field.case_cong)

lemma validate_delegation_Some:
  "validate_delegation X d ee q sg = Done (Some cq) \<longleftrightarrow>
     (\<exists>s msg pk. sig_from_str X sg = Some s \<and>
        msg_from_slice X (sha256 X (''nostr:delegation:'' @ ee @ '':'' @ q)) = Some msg \<and>
        xonly_from_str X d = Some pk \<and> verify_schnorr X s msg pk \<and> query_from_str q = Ok cq)"
  by (auto simp: validate_delegation_def Let_def split: option.splits if_splits)

lemma validate_delegation_Panic:
  "validate_delegation X d ee q sg = Panic \<longleftrightarrow> sig_from_str X sg = None"
  by (auto simp: validate_delegation_def Let_def split: option.splits)

lemma delegation_tag_Some:
  "delegation_tag e = Some t \<Longrightarrow> t \<in> set (ev_tags e) \<and> length t = 4 \<and> t ! 0 = ''delegation''"
proof -
  assume "delegation_tag e = Some t"
  then have "t \<in> set (filter (\<lambda>x. hd x = ''delegation'') (filter (\<lambda>x. length x = 4) (ev_tags e)))"
    unfolding delegation_tag_def by (rule head_in_set)
  then show ?thesis by auto (metis hd_conv_nth list.size(3) zero_neq_numeral)
qed

lemma update_delegation_fields:
  assumes "update_delegation X e = Done f"
  shows "ev_id f = ev_id e" "ev_pubkey f = ev_pubkey e" "ev_kind f = ev_kind e"
    "ev_created_at f = ev_created_at e" "ev_tags f = ev_tags e" "ev_content f = ev_content e"
    "ev_sig f = ev_sig e" "ev_tagidx f = ev_tagidx e"
  using assms by (auto simp: update_delegation_def)

text \<open>The written form of conditions.\<close>

fun show_field :: "field \<Rightarrow> string" where
  "show_field Kind = ''kind''"
| "show_field CreatedAt = ''created_at''"

fun show_operator :: "operator \<Rightarrow> string" where
  "show_operator LessThan = ''<''"
| "show_operator GreaterThan = ''>''"
| "show_operator Equals = ''=''"
| "show_operator NotEquals = ''!''"

definition show_values :: "u64 list \<Rightarrow> string" where
  "show_values vs = join '','' (map show_u64 vs)"

definition show_condition :: "condition \<Rightarrow> string" where
  "show_condition c = show_field (c_field c) @ show_operator (c_operator c) @ show_values (c_values c)"

definition show_query :: "condition_query \<Rightarrow> string" where
  "show_query q = join ''&'' (map show_condition (conditions q))"

lemma split_join:
  assumes "ws \<noteq> []" "\<forall>w\<in>set ws. d \<notin> set w"
  shows "split_on d (join [d] ws) = ws"
  using assms
proof (induction "[d]" ws rule: join.induct)
  case (3 w v vs)
  then show ?case by (simp add: split_on_delim)
qed (auto simp: split_on_no_delim)

lemma split_terminator_join:
  assumes "\<forall>w\<in>set ws. d \<notin> set w \<and> w \<noteq> []"
  shows "split_terminator d (join [d] ws) = ws"
proof (cases "ws = []")
  case False
  with assms have "last ws \<noteq> []" by (meson last_in_set)
  with False assms show ?thesis by (simp add: split_terminator_def split_join)
qed (simp add: split_terminator_def)

lemma show_u64_chars: "c \<in> set (show_u64 w) \<Longrightarrow> is_ascii_digit c" "show_u64 w \<noteq> []"
  using show_nat_digits [of "unat w"] by (auto simp: show_u64_def list_all_iff)

lemma set_join: "set (join s ws) \<subseteq> set s \<union> (\<Union>w\<in>set ws. set w)"
  by (induction s ws rule: join.induct) auto

lemma show_values_val: "c \<in> set (show_values vs) \<Longrightarrow> re_val c"
  using set_join [of "'',''" "map show_u64 vs"] show_u64_chars(1)
  by (auto simp: show_values_def re_val_def)

lemma parse_show_values:
  "all_some (map parse_u64 (split_terminator CHR '','' (show_values vs))) = Some vs"
proof -
  have "\<forall>w\<in>set (map show_u64 vs). CHR '','' \<notin> set w \<and> w \<noteq> []"
    by (auto simp: show_u64_chars(2) is_ascii_digit_def dest!: show_u64_chars(1))
  then show ?thesis
    unfolding show_values_def by (simp add: split_terminator_join comp_def parse_show_u64)
qed

lemma takeWhile_re_val: "takeWhile re_val (show_values vs) = show_values vs"
  using show_values_val by (intro takeWhile_eq_all_conv [THEN iffD2]) blast

lemma show_values_hd: "show_values vs = [] \<or> \<not> re_op (hd (show_values vs))"
  using show_values_val [of "hd (show_values vs)" vs]
  by (cases "show_values vs") (auto simp: re_val_def re_op_def is_ascii_digit_def)

lemma re_captures_show:
  "re_captures (show_condition c) =
     Some (show_field (c_field c), show_operator (c_operator c), show_values (c_values c))"
proof -
  have op: "takeWhile re_op (show_operator p @ v) = show_operator p \<and>
    dropWhile re_op (show_operator p @ v) = v" if "v = [] \<or> \<not> re_op (hd v)" for p v
    using that by (cases p; cases v) (auto simp: re_op_def)
  have fld: "dropWhile (\<lambda>c. \<not> re_word c) (show_field f @ show_operator p @ v) = show_field f @ show_operator p @ v
    \<and> takeWhile re_word (show_field f @ show_operator p @ v) = show_field f
    \<and> dropWhile re_word (show_field f @ show_operator p @ v) = show_operator p @ v" for f p v
    by (cases f; cases p) (auto simp: re_word_def ascii_defs)
  show ?thesis
    unfolding show_condition_def
    using op [OF show_values_hd, of "c_operator c" "c_values c"]
      fld [of "c_field c" "c_operator c" "show_values (c_values c)"]
    by (subst re_captures.simps)
      (cases "c_field c"; cases "c_operator c"; simp add: Let_def takeWhile_re_val)
qed

lemma field_operator_roundtrip [simp]:
  "field_from_str (show_field f) = Ok f" "operator_from_str (show_operator p) = Ok p"
  by (cases f; simp add: field_from_str_def) (cases p; simp add: operator_from_str_def)

lemma str_to_condition_show: "str_to_condition (show_condition c) = Some c"
  by (simp add: str_to_condition_def re_captures_show parse_show_values)

lemma show_condition_chars: "CHR ''&'' \<notin> set (show_condition c)" "show_condition c \<noteq> []"
proof -
  have "CHR ''&'' \<notin> set (show_values vs)" for vs
    using show_values_val by (fastforce simp: re_val_def is_ascii_digit_def)
  then show "CHR ''&'' \<notin> set (show_condition c)"
    by (cases "c_field c"; cases "c_operator c") (auto simp: show_condition_def)
  show "show_condition c \<noteq> []" by (cases "c_field c") (auto simp: show_condition_def)
qed

section \<open>Properties\<close>

text \<open>A delegated author is never taken on trust. When a client's EVENT command is accepted
  and the event ends up attributed to a delegator, the event itself is validly signed, it
  carries a delegation tag of four elements naming that delegator, the tag's signature
  verifies under the delegator's key over the delegatee and the conditions, the condition
  string parses, and the event meets every condition in it.\<close>

theorem delegation_sound:
  assumes "event_wrapper_from X ec = Done (Ok (WrappedEvent e))" "ev_delegated_by e = Some d"
  shows "validate X (ec_event ec) = Ok () \<and>
    (\<exists>q sg s msg pk cq. [''delegation'', d, q, sg] \<in> set (ev_tags e) \<and>
       sig_from_str X sg = Some s \<and>
       msg_from_slice X (sha256 X (''nostr:delegation:'' @ ev_pubkey e @ '':'' @ q)) = Some msg \<and>
       xonly_from_str X d = Some pk \<and> verify_schnorr X s msg pk \<and> query_from_str q = Ok cq \<and>
       (\<forall>c\<in>set (conditions cq). condition_allows_event c e))"
proof -
  let ?b = "build_index (ec_event ec)"
  from assms(1) have v: "validate X (ec_event ec) = Ok ()"
    and u: "update_delegation X ?b = Done e"
    by (auto simp: event_wrapper_from_def split: if_splits result.splits)
  from u assms(2) have "delegated_author X ?b = Done (Some d)"
    by (auto simp: update_delegation_def)
  then obtain t cq where t: "delegation_tag ?b = Some t" "t ! 1 = d"
    and vd: "validate_delegation X (t ! 1) (ev_pubkey ?b) (t ! 2) (t ! 3) = Done (Some cq)"
    and al: "query_allows_event cq ?b"
    by (auto simp: delegated_author_def split: option.splits if_splits)
  from delegation_tag_Some [OF t(1)] have mem: "t \<in> set (ev_tags ?b)" "length t = 4"
    "t ! 0 = ''delegation''" by auto
  then have "t = [''delegation'', d, t ! 2, t ! 3]"
    using t(2) by (auto intro!: nth_equalityI simp: less_Suc_eq numeral_eq_Suc)
  with mem have "[''delegation'', d, t ! 2, t ! 3] \<in> set (ev_tags e)"
    using update_delegation_fields [OF u] by simp
  moreover have "\<forall>c\<in>set (conditions cq). condition_allows_event c e"
    using al condition_allows_event_cong [of ?b e] update_delegation_fields [OF u]
    by (simp add: query_allows_event_def conditions_allow_iff)
  moreover from vd t(2) update_delegation_fields [OF u] obtain s msg pk where
    "sig_from_str X (t ! 3) = Some s \<and>
     msg_from_slice X (sha256 X (''nostr:delegation:'' @ ev_pubkey e @ '':'' @ t ! 2)) = Some msg \<and>
     xonly_from_str X d = Some pk \<and> verify_schnorr X s msg pk \<and> query_from_str (t ! 2) = Ok cq"
    unfolding validate_delegation_Some by fastforce
  ultimately show ?thesis using v by blast
qed

definition delegated_demo :: event_cmd where
  "delegated_demo = \<lparr>ec_cmd = ''EVENT'', ec_event = sealed std_ext (demo_event\<lparr>ev_tags :=
     [[''delegation'', replicate 64 CHR ''d'', ''kind=1059'', replicate 128 CHR ''e'']]\<rparr>)\<rparr>"

lemma re_captures_demo: "re_captures ''kind=1059'' = Some (''kind'', ''='', ''1059'')"
  by (subst re_captures.simps) (simp add: re_word_def re_op_def re_val_def ascii_defs Let_def)

lemma query_demo: "query_from_str ''kind=1059'' = Ok \<lparr>conditions = [\<lparr>c_field = Kind, c_operator = Equals, c_values = [1059]\<rparr>]\<rparr>"
  by (simp add: query_from_str_def split_terminator_def str_to_condition_def re_captures_demo
      field_from_str_def operator_from_str_def parse_u64_def starts_with_def ascii_defs digit_val_def)

lemma delegated_demo_accepted:
  "\<exists>e. event_wrapper_from std_ext delegated_demo = Done (Ok (WrappedEvent e)) \<and>
     ev_delegated_by e = Some (replicate 64 CHR ''d'')"
proof -
  let ?e = "demo_event\<lparr>ev_tags :=
     [[''delegation'', replicate 64 CHR ''d'', ''kind=1059'', replicate 128 CHR ''e'']]\<rparr>"
  have "validate std_ext (sealed std_ext ?e) = Ok ()"
    by (rule validate_sealed) (simp_all add: demo_event_def hexdigits_replicate ascii_defs)
  moreover have "hex_dec (replicate 64 CHR ''d'') \<noteq> None"
    unfolding hex_dec_defined by (simp add: hexdigits_replicate ascii_defs)
  ultimately show ?thesis
    by (auto simp: event_wrapper_from_def delegated_demo_def update_delegation_def
      delegated_author_def delegation_tag_def validate_delegation_def Let_def query_demo
      query_allows_event_def condition_allows_event_def demo_event_def)
qed

theorem delegation_sound_witness:
  "validate std_ext (ec_event delegated_demo) = Ok ()"
  using delegated_demo_accepted delegation_sound by blast

text \<open>A delegation tag with a malformed signature crashes the handler of the connection. A
  correctly signed event whose first four-element delegation tag holds a signature string
  that does not parse makes the conversion panic, instead of being treated as not
  delegated.\<close>

theorem malformed_delegation_signature_panics:
  assumes "ec_cmd ec = ''EVENT''" "validate X (ec_event ec) = Ok ()"
    and "delegation_tag (ec_event ec) = Some t" "sig_from_str X (t ! 3) = None"
  shows "event_wrapper_from X ec = Panic"
proof -
  have "delegation_tag (build_index (ec_event ec)) = Some t"
    using assms(3) by (simp add: delegation_tag_def)
  then show ?thesis using assms(1,2,4)
    by (simp add: event_wrapper_from_def update_delegation_def delegated_author_def
        validate_delegation_Panic [THEN iffD2])
qed

theorem malformed_delegation_signature_panics_witness:
  "event_wrapper_from std_ext \<lparr>ec_cmd = ''EVENT'', ec_event = sealed std_ext (demo_event\<lparr>ev_tags :=
     [[''delegation'', [], [], ''00'']]\<rparr>)\<rparr> = Panic"
proof -
  have "validate std_ext (sealed std_ext (demo_event\<lparr>ev_tags := [[''delegation'', [], [], ''00'']]\<rparr>)) = Ok ()"
    by (rule validate_sealed) (simp_all add: demo_event_def hexdigits_replicate ascii_defs)
  then show ?thesis
    by (intro malformed_delegation_signature_panics [where t = "[''delegation'', [], [], ''00'']"])
      (simp_all add: delegation_tag_def)
qed

text \<open>Every delegation condition query can be written down and read back: the parser returns
  exactly the query that its written form (fields, operators, comma-separated values,
  joined by ampersands) denotes.\<close>

theorem condition_query_roundtrip: "query_from_str (show_query q) = Ok q"
proof -
  have "split_terminator CHR ''&'' (show_query q) = map show_condition (conditions q)"
    unfolding show_query_def
    by (rule split_terminator_join) (auto simp: show_condition_chars)
  then show ?thesis
    by (simp add: query_from_str_def comp_def str_to_condition_show)
qed

end
