(* ===== verification/Subscription.thy ===== *)
theory Subscription
  imports Delegation
begin

text \<open>
  REQ messages: filters, their parser and the in-memory match of an event against a
  subscription (\<^verbatim>\<open>src/src/subscription.rs\<close>). A \<^verbatim>\<open>HashMap\<close> of tag conditions is an
  association list with distinct keys, compared as a map.
\<close>

section \<open>Data\<close>

type_synonym tag_map = "(rchar \<times> tag_operand) list"

record req_filter =
  rf_ids :: "string list option"
  rf_kinds :: "u64 list option"
  rf_since :: "u64 option"
  rf_until :: "u64 option"
  rf_authors :: "string list option"
  rf_limit :: "u64 option"
  rf_tags :: "tag_map option"
  rf_force_no_match :: bool

record subscription =
  sub_id :: string
  sub_filters :: "req_filter list"

definition empty_filter :: req_filter where
  "empty_filter = \<lparr>rf_ids = None, rf_kinds = None, rf_since = None, rf_until = None,
     rf_authors = None, rf_limit = None, rf_tags = None, rf_force_no_match = False\<rparr>"

section \<open>Parsing a filter\<close>

text \<open>Insertion into an insertion-ordered map: an existing key keeps its place.\<close>

fun map_insert :: "'k \<Rightarrow> 'v \<Rightarrow> ('k \<times> 'v) list \<Rightarrow> ('k \<times> 'v) list" where
  "map_insert k v [] = [(k, v)]"
| "map_insert k v ((k', v') # m) = (if k = k' then (k, v) # m else (k', v') # map_insert k v m)"

definition value_map :: "(string \<times> json) list \<Rightarrow> (string \<times> json) list" where
  "value_map m = fold (\<lambda>(k, v) acc. map_insert k v acc) m []"

text \<open>The operand a tag key of two or three bytes selects; \<^verbatim>\<open>nth(2).unwrap()\<close> can panic.\<close>

definition tag_key_operand :: "string \<Rightarrow> string fset \<Rightarrow> tag_operand option exec" where
  "tag_key_operand key hs =
     (if length key = 2 then Done (Some (Or hs))
      else if length key = 3 then
        (if length (chars key) \<le> 2 then Panic
         else Done (if chars key ! 2 = ''&'' then Some (And hs) else None))
      else Done None)"

definition insert_tag_key :: "string \<Rightarrow> json \<Rightarrow> tag_map \<Rightarrow> tag_map exec" where
  "insert_tag_key key val m =
     (case de_vec de_string val of
        None \<Rightarrow> Done m
      | Some v \<Rightarrow>
        (case tag_key_operand key (fset_of_list v) of
           Panic \<Rightarrow> Panic
         | Done None \<Rightarrow> Done m
         | Done (Some operand) \<Rightarrow>
             (if length (chars key) \<le> 1 then Panic
              else Done (map_insert (chars key ! 1) operand m))))"

type_synonym filter_state = "req_filter \<times> tag_map option"

definition filter_key ::
  "string \<Rightarrow> json \<Rightarrow> filter_state \<Rightarrow> (filter_state, string) result exec" where
  "filter_key key val st =
     (let (rf, ts) = st in
      if key = ''ids'' then
        (let raw = de_vec de_string val in
         if (case raw of Some a \<Rightarrow> [] \<in> set a | None \<Rightarrow> False)
         then Done (Err ''prefix matches must not be empty strings'')
         else Done (Ok (rf\<lparr>rf_ids := raw\<rparr>, ts)))
      else if key = ''kinds'' then Done (Ok (rf\<lparr>rf_kinds := de_vec de_u64 val\<rparr>, ts))
      else if key = ''since'' then Done (Ok (rf\<lparr>rf_since := de_u64 val\<rparr>, ts))
      else if key = ''until'' then Done (Ok (rf\<lparr>rf_until := de_u64 val\<rparr>, ts))
      else if key = ''limit'' then Done (Ok (rf\<lparr>rf_limit := de_u64 val\<rparr>, ts))
      else if key = ''authors'' then
        (let raw = de_vec de_string val in
         if (case raw of Some a \<Rightarrow> [] \<in> set a | None \<Rightarrow> False)
         then Done (Err ''prefix matches must not be empty strings'')
         else Done (Ok (rf\<lparr>rf_authors := raw\<rparr>, ts)))
      else if starts_with key ''#'' \<and> 1 < length key \<and> length key < 4 \<and> is_array val then
        map_exec (\<lambda>m. Ok (rf, Some m))
          (insert_tag_key key val (case ts of None \<Rightarrow> [] | Some m \<Rightarrow> m))
      else Done (Ok (rf, ts)))"

fun filter_keys ::
  "(string \<times> json) list \<Rightarrow> filter_state \<Rightarrow> (filter_state, string) result exec" where
  "filter_keys [] st = Done (Ok st)"
| "filter_keys ((k, v) # kvs) st =
     (case filter_key k v st of
        Panic \<Rightarrow> Panic
      | Done (Err e) \<Rightarrow> Done (Err e)
      | Done (Ok st') \<Rightarrow> filter_keys kvs st')"

definition de_filter :: "json \<Rightarrow> (req_filter, string) result exec" where
  "de_filter v =
     (case as_object v of
        None \<Rightarrow> Done (Err ''reqfilter is not an object'')
      | Some m \<Rightarrow>
        map_exec (map_ok (\<lambda>(rf, ts). rf\<lparr>rf_tags := ts\<rparr>))
          (filter_keys (value_map m) (empty_filter, None)))"

section \<open>Parsing a subscription\<close>

definition tags_eq :: "tag_map option \<Rightarrow> tag_map option \<Rightarrow> bool" where
  "tags_eq a b = (case (a, b) of (None, None) \<Rightarrow> True | (Some x, Some y) \<Rightarrow> set x = set y | _ \<Rightarrow> False)"

definition filter_eq :: "req_filter \<Rightarrow> req_filter \<Rightarrow> bool" where
  "filter_eq f g \<longleftrightarrow> rf_ids f = rf_ids g \<and> rf_kinds f = rf_kinds g \<and> rf_since f = rf_since g \<and>
     rf_until f = rf_until g \<and> rf_authors f = rf_authors g \<and> rf_limit f = rf_limit g \<and>
     tags_eq (rf_tags f) (rf_tags g) \<and> rf_force_no_match f = rf_force_no_match g"

fun dedup :: "req_filter list \<Rightarrow> req_filter list" where
  "dedup (a # b # r) = (if filter_eq a b then dedup (a # r) else a # dedup (b # r))"
| "dedup fs = fs"

fun de_filters :: "json list \<Rightarrow> (req_filter list, string) result exec" where
  "de_filters [] = Done (Ok [])"
| "de_filters (v # vs) =
     (case de_filter v of
        Panic \<Rightarrow> Panic
      | Done (Err _) \<Rightarrow> Done (Err ''could not parse filter'')
      | Done (Ok f) \<Rightarrow>
        map_exec (map_ok (Cons f)) (de_filters vs))"

definition de_subscription :: "json \<Rightarrow> (subscription, string) result exec" where
  "de_subscription v =
     (case as_array v of
        None \<Rightarrow> Done (Err ''not array'')
      | Some va \<Rightarrow>
        (case va of
           cmd # sid # fv # fvs \<Rightarrow>
           (case as_str cmd of
              None \<Rightarrow> Done (Err ''first element of request was not a string'')
            | Some req \<Rightarrow>
              if req \<noteq> ''REQ'' then Done (Err ''missing REQ command'')
              else (case as_str sid of
                 None \<Rightarrow> Done (Err ''missing subscription id'')
               | Some i \<Rightarrow>
                 map_exec (map_ok (\<lambda>fs. \<lparr>sub_id = i, sub_filters = dedup fs\<rparr>))
                   (de_filters (fv # fvs))))
         | _ \<Rightarrow> Done (Err ''not enough fields'')))"

section \<open>Matching\<close>

fun prefix_match :: "string list \<Rightarrow> string \<Rightarrow> bool" where
  "prefix_match [] target = False"
| "prefix_match (p # ps) target = (if starts_with target p then True else prefix_match ps target)"

definition ids_match :: "req_filter \<Rightarrow> event \<Rightarrow> bool" where
  "ids_match f e = (case rf_ids f of None \<Rightarrow> True | Some vs \<Rightarrow> prefix_match vs (ev_id e))"

definition authors_match :: "req_filter \<Rightarrow> event \<Rightarrow> bool" where
  "authors_match f e = (case rf_authors f of None \<Rightarrow> True | Some vs \<Rightarrow> prefix_match vs (ev_pubkey e))"

definition delegated_authors_match :: "req_filter \<Rightarrow> event \<Rightarrow> bool" where
  "delegated_authors_match f e =
     (case ev_delegated_by e of
        Some d \<Rightarrow> (case rf_authors f of None \<Rightarrow> True | Some vs \<Rightarrow> prefix_match vs d)
      | None \<Rightarrow> False)"

fun tags_all_match :: "tag_map \<Rightarrow> event \<Rightarrow> bool" where
  "tags_all_match [] e = True"
| "tags_all_match ((k, v) # m) e =
     (if \<not> generic_tag_val_intersect e k v then False else tags_all_match m e)"

definition tag_match :: "req_filter \<Rightarrow> event \<Rightarrow> bool" where
  "tag_match f e = (case rf_tags f of None \<Rightarrow> True | Some m \<Rightarrow> tags_all_match m e)"

definition kind_match :: "req_filter \<Rightarrow> u64 \<Rightarrow> bool" where
  "kind_match f k = (case rf_kinds f of None \<Rightarrow> True | Some ks \<Rightarrow> k \<in> set ks)"

definition filter_interested :: "req_filter \<Rightarrow> event \<Rightarrow> bool" where
  "filter_interested f e \<longleftrightarrow>
     ids_match f e
   \<and> (case rf_since f of None \<Rightarrow> True | Some t \<Rightarrow> t \<le> ev_created_at e)
   \<and> (case rf_until f of None \<Rightarrow> True | Some t \<Rightarrow> ev_created_at e \<le> t)
   \<and> kind_match f (ev_kind e)
   \<and> (authors_match f e \<or> delegated_authors_match f e)
   \<and> tag_match f e
   \<and> \<not> rf_force_no_match f"

fun any_interested :: "req_filter list \<Rightarrow> event \<Rightarrow> bool" where
  "any_interested [] e = False"
| "any_interested (f # fs) e = (if filter_interested f e then True else any_interested fs e)"

definition interested_in_event :: "subscription \<Rightarrow> event \<Rightarrow> bool" where
  "interested_in_event s e = any_interested (sub_filters s) e"

definition get_id :: "subscription \<Rightarrow> string" where
  "get_id s = sub_id s"

definition needs_historical_events :: "subscription \<Rightarrow> bool" where
  "needs_historical_events s = list_ex (\<lambda>f. rf_limit f \<noteq> Some 0) (sub_filters s)"

definition filter_precision :: "req_filter \<Rightarrow> nat" where
  "filter_precision f =
     (if rf_ids f \<noteq> None then 2 else 0) + (if rf_authors f \<noteq> None then 1 else 0)
   + (if rf_kinds f \<noteq> None then 1 else 0) + (if rf_tags f \<noteq> None then 1 else 0)"

definition is_scraper :: "subscription \<Rightarrow> bool" where
  "is_scraper s = list_ex (\<lambda>f. filter_precision f < 2) (sub_filters s)"

section \<open>Lemmas\<close>

lemma prefix_match_iff: "prefix_match ps s \<longleftrightarrow> (\<exists>p\<in>set ps. starts_with s p)"
  by (induction ps) auto

lemma tags_all_match_iff:
  "tags_all_match m e \<longleftrightarrow> (\<forall>(k, v)\<in>set m. generic_tag_val_intersect e k v)"
  by (induction m) (auto split: if_splits)

lemma any_interested_iff: "any_interested fs e \<longleftrightarrow> (\<exists>f\<in>set fs. filter_interested f e)"
  by (induction fs) auto

lemma filter_eq_interested: "filter_eq f g \<Longrightarrow> filter_interested f e = filter_interested g e"
  by (auto simp: filter_eq_def tags_eq_def filter_interested_def ids_match_def authors_match_def
      delegated_authors_match_def tag_match_def kind_match_def tags_all_match_iff
      split: option.splits)

lemma dedup_interested: "any_interested (dedup fs) e = any_interested fs e"
  by (induction fs rule: dedup.induct) (auto dest: filter_eq_interested)

lemma dedup_subset: "set (dedup fs) \<subseteq> set fs"
  by (induction fs rule: dedup.induct) auto

lemma dedup_Nil_iff [simp]: "dedup fs = [] \<longleftrightarrow> fs = []"
  by (induction fs rule: dedup.induct) auto

text \<open>No accepted filter holds an empty prefix.\<close>

definition no_empty_prefix :: "req_filter \<Rightarrow> bool" where
  "no_empty_prefix f \<longleftrightarrow>
     (case rf_ids f of None \<Rightarrow> True | Some a \<Rightarrow> [] \<notin> set a) \<and>
     (case rf_authors f of None \<Rightarrow> True | Some a \<Rightarrow> [] \<notin> set a)"

lemma filter_key_no_empty:
  "filter_key k v (rf, ts) = Done (Ok (rf', ts')) \<Longrightarrow> no_empty_prefix rf \<Longrightarrow> no_empty_prefix rf'"
  by (auto simp: filter_key_def Let_def no_empty_prefix_def split: if_splits option.splits)

lemma filter_keys_no_empty:
  "filter_keys kvs (rf, ts) = Done (Ok (rf', ts')) \<Longrightarrow> no_empty_prefix rf \<Longrightarrow> no_empty_prefix rf'"
proof (induction kvs arbitrary: rf ts)
  case (Cons p kvs)
  obtain k v where p: "p = (k, v)" by (cases p)
  with Cons.prems obtain rf1 ts1 where "filter_key k v (rf, ts) = Done (Ok (rf1, ts1))"
    "filter_keys kvs (rf1, ts1) = Done (Ok (rf', ts'))"
    by (auto split: exec.splits result.splits)
  with Cons filter_key_no_empty show ?case by blast
qed simp

lemma de_filter_no_empty: "de_filter v = Done (Ok f) \<Longrightarrow> no_empty_prefix f"
proof -
  assume "de_filter v = Done (Ok f)"
  then obtain m rf ts where "filter_keys (value_map m) (empty_filter, None) = Done (Ok (rf, ts))"
    "f = rf\<lparr>rf_tags := ts\<rparr>"
    by (auto simp: de_filter_def split: option.splits)
  with filter_keys_no_empty [of "value_map m" empty_filter None rf ts] show ?thesis
    by (simp add: no_empty_prefix_def empty_filter_def)
qed

lemma de_filters_no_empty: "de_filters vs = Done (Ok fs) \<Longrightarrow> \<forall>f\<in>set fs. no_empty_prefix f"
proof (induction vs arbitrary: fs)
  case (Cons v vs)
  then obtain g gs where "de_filter v = Done (Ok g)" "de_filters vs = Done (Ok gs)" "fs = g # gs"
    by (auto split: exec.splits result.splits)
  with Cons.IH show ?case by (auto dest: de_filter_no_empty)
qed simp

lemma de_subscription_Ok:
  assumes "de_subscription v = Done (Ok s)"
  obtains i f fvs fs where "v = JArray (JString ''REQ'' # JString i # f # fvs)"
    "de_filters (f # fvs) = Done (Ok fs)" "s = \<lparr>sub_id = i, sub_filters = dedup fs\<rparr>"
proof -
  obtain cmd sid f fvs where v: "v = JArray (cmd # sid # f # fvs)"
    using assms by (cases v) (auto simp: de_subscription_def split: list.splits)
  obtain i where c: "cmd = JString ''REQ''" "sid = JString i"
    using assms v by (cases cmd; cases sid) (auto simp: de_subscription_def split: if_splits)
  with assms v that show thesis
    by (auto simp: de_subscription_def simp del: de_filters.simps split: result.splits)
qed

text \<open>When a filter key can panic: a tag key of three bytes that is only two characters.\<close>

lemma tag_key_operand_Panic:
  "tag_key_operand key hs = Panic \<longleftrightarrow> length key = 3 \<and> length (chars key) \<le> 2"
  by (auto simp: tag_key_operand_def)

lemma chars_hash_cons: "chars (CHR ''#'' # s) = ''#'' # chars s" if "s = [] \<or> \<not> cont_byte (hd s)"
  using that by (cases s) auto

section \<open>Properties\<close>

text \<open>C38: A REQ message is parsed into a subscription that matches exactly the events that one of
  its filters matches: dropping consecutive duplicate filters never changes which events
  are delivered, at least one filter remains, and no accepted filter contains an empty id
  or author prefix (which would match everything).\<close>

theorem subscription_parse_sound:
  assumes "de_subscription v = Done (Ok s)"
  shows "\<exists>i f fvs fs. v = JArray (JString ''REQ'' # JString i # f # fvs) \<and> sub_id s = i \<and>
      de_filters (f # fvs) = Done (Ok fs) \<and> sub_filters s \<noteq> [] \<and>
      (\<forall>e. interested_in_event s e \<longleftrightarrow> (\<exists>g\<in>set fs. filter_interested g e)) \<and>
      (\<forall>g\<in>set (sub_filters s). no_empty_prefix g)"
proof -
  obtain i f fvs fs where h: "v = JArray (JString ''REQ'' # JString i # f # fvs)"
    "de_filters (f # fvs) = Done (Ok fs)" "s = \<lparr>sub_id = i, sub_filters = dedup fs\<rparr>"
    using assms by (rule de_subscription_Ok)
  then have "fs \<noteq> []" by (auto split: exec.splits result.splits)
  moreover have "\<forall>g\<in>set (dedup fs). no_empty_prefix g"
    using de_filters_no_empty [OF h(2)] dedup_subset by blast
  moreover have "interested_in_event s e \<longleftrightarrow> (\<exists>g\<in>set fs. filter_interested g e)" for e
    using h(3) dedup_interested [of fs e] by (simp add: interested_in_event_def any_interested_iff)
  ultimately show ?thesis using h by auto
qed

definition demo_req :: json where
  "demo_req = JArray [JString ''REQ'', JString ''some-id'',
     JObject [(''kinds'', JArray [JNumber (PosInt 1984)])],
     JObject [(''kinds'', JArray [JNumber (PosInt 1984)])]]"

lemma demo_req_parses:
  "de_subscription demo_req =
     Done (Ok \<lparr>sub_id = ''some-id'', sub_filters = [empty_filter\<lparr>rf_kinds := Some [1984]\<rparr>]\<rparr>)"
  by (simp add: demo_req_def de_subscription_def de_filter_def value_map_def filter_key_def
      empty_filter_def filter_eq_def tags_eq_def)

theorem subscription_parse_sound_witness:
  "no_empty_prefix (empty_filter\<lparr>rf_kinds := Some [1984]\<rparr>)"
  using subscription_parse_sound [OF demo_req_parses] by auto

text \<open>A filter key made of a hash sign and one two-byte character, with an array of strings
  as its value, makes the parser of the REQ message panic: the key is three bytes long but
  has only two characters, and the third one is unwrapped.\<close>

theorem two_byte_tag_key_panics:
  assumes "key = CHR ''#'' # c" "length c = 2" "chars c = [c]" "\<not> cont_byte (hd c)"
    and "de_vec de_string val = Some vs"
  shows "de_subscription (JArray [JString ''REQ'', JString i, JObject [(key, val)]]) = Panic"
proof -
  have ch: "chars key = [''#'', c]" using assms(1-4) by (cases c) auto
  have arr: "is_array val" using assms(5) by (auto simp: is_array_def de_vec_def split: bind_splits)
  have ne: "key \<notin> {''ids'', ''kinds'', ''since'', ''until'', ''limit'', ''authors''}"
    using assms(1) by auto
  have "filter_key key val (empty_filter, None) = Panic"
    using ch arr ne assms(1,2,5)
    by (auto simp: filter_key_def insert_tag_key_def tag_key_operand_def starts_with_def)
  then show ?thesis by (simp add: de_subscription_def de_filter_def value_map_def)
qed

theorem two_byte_tag_key_panics_witness:
  "de_subscription (JArray [JString ''REQ'', JString ''x'',
     JObject [(CHR ''#'' # [CHR 0xC3, CHR 0xA9], JArray [])]]) = Panic"
  by (rule two_byte_tag_key_panics [where c = "[CHR 0xC3, CHR 0xA9]" and vs = "[]"])
    (simp_all add: cont_byte_def)

section \<open>Serialization of a filter\<close>

text \<open>Operands are serialized as \<^verbatim>\<open>serde\<close> derives it for an enum, as an object with the name of the variant; \<open>order\<close> lists
  the elements of a \<^verbatim>\<open>HashSet\<close>.\<close>

fun serialize_operand :: "(string fset \<Rightarrow> string list) \<Rightarrow> tag_operand \<Rightarrow> json" where
  "serialize_operand order (And h) = JObject [(''And'', JArray (map JString (order h)))]"
| "serialize_operand order (Or h) = JObject [(''Or'', JArray (map JString (order h)))]"

definition optional_entry :: "string \<Rightarrow> ('a \<Rightarrow> json) \<Rightarrow> 'a option \<Rightarrow> (string \<times> json) list" where
  "optional_entry k ser v = (case v of None \<Rightarrow> [] | Some x \<Rightarrow> [(k, ser x)])"

definition serialize_filter :: "(string fset \<Rightarrow> string list) \<Rightarrow> req_filter \<Rightarrow> json" where
  "serialize_filter order f =
     (let num = JNumber \<circ> PosInt; strs = JArray \<circ> map JString in
      JObject (optional_entry ''ids'' strs (rf_ids f) @ optional_entry ''kinds'' (JArray \<circ> map num) (rf_kinds f) @
        optional_entry ''until'' num (rf_until f) @ optional_entry ''since'' num (rf_since f) @
        optional_entry ''limit'' num (rf_limit f) @ optional_entry ''authors'' strs (rf_authors f) @
        (case rf_tags f of None \<Rightarrow> [] | Some ts \<Rightarrow> map (\<lambda>(k, v). (CHR ''#'' # k, serialize_operand order v)) ts)))"

definition tag_entry :: "string \<times> json \<Rightarrow> bool" where
  "tag_entry p \<longleftrightarrow> starts_with (fst p) ''#''"

abbreviation plain_entry :: "string \<times> json \<Rightarrow> bool" where
  "plain_entry p \<equiv> \<not> tag_entry p"

lemma filter_map_insert:
  "filter plain_entry (map_insert k v m) =
     (if tag_entry (k, v) then filter plain_entry m else map_insert k v (filter plain_entry m))"
  by (induction m) (auto simp: tag_entry_def)

lemma filter_value_map: "filter plain_entry (value_map m) = value_map (filter plain_entry m)"
proof -
  have "filter plain_entry (fold (\<lambda>(k, v) acc. map_insert k v acc) m acc) =
    fold (\<lambda>(k, v) acc. map_insert k v acc) (filter plain_entry m) (filter plain_entry acc)" for acc
    by (induction m arbitrary: acc) (auto simp: filter_map_insert)
  then show ?thesis by (simp add: value_map_def)
qed

lemma set_value_map: "set (value_map m) \<subseteq> set m"
proof -
  have ins: "set (map_insert k v l) \<subseteq> insert (k, v) (set l)" for k v and l :: "(string \<times> json) list"
    by (induction l) (auto split: if_splits)
  have "set (fold (\<lambda>(k, v) acc. map_insert k v acc) m acc) \<subseteq> set m \<union> set acc" for acc
  proof (induction m arbitrary: acc)
    case (Cons p m)
    obtain k v where p: "p = (k, v)" by (cases p)
    have "set (fold (\<lambda>(k, v) acc. map_insert k v acc) m (map_insert k v acc)) \<subseteq> set m \<union> set (map_insert k v acc)"
      by (rule Cons.IH)
    also have "\<dots> \<subseteq> set m \<union> insert (k, v) (set acc)" using ins by blast
    finally show ?case by (auto simp: p)
  qed simp
  from this [of "[]"] show ?thesis by (simp add: value_map_def)
qed

lemma filter_keys_ignores:
  "\<forall>p\<in>set m. tag_entry p \<longrightarrow> \<not> is_array (snd p) \<Longrightarrow> filter_keys m st = filter_keys (filter plain_entry m) st"
proof (induction m arbitrary: st)
  case (Cons p m)
  obtain k v where p: "p = (k, v)" by (cases p)
  have "filter_key k v st = Done (Ok st)" if "tag_entry p"
    using that Cons.prems by (cases st; cases k) (simp_all add: p tag_entry_def starts_with_def filter_key_def)
  then show ?case using Cons.IH Cons.prems by (cases "tag_entry p") (auto simp: p split: exec.splits result.splits)
qed simp

lemma map_insert_fresh: "k \<notin> fst ` set m \<Longrightarrow> map_insert k v m = m @ [(k, v)]"
  by (induction m) auto

lemma value_map_distinct:
  assumes "distinct (map fst m)"
  shows "value_map m = m"
proof -
  have "distinct (map fst (acc @ m)) \<Longrightarrow> fold (\<lambda>(k, v) acc. map_insert k v acc) m acc = acc @ m" for acc
  proof (induction m arbitrary: acc)
    case (Cons p m)
    then show ?case using Cons.IH [of "acc @ [p]"] by (cases p) (auto simp: map_insert_fresh)
  qed simp
  from this [of "[]"] assms show ?thesis by (simp add: value_map_def)
qed

lemma filter_keys_append:
  "filter_keys (a @ b) st =
     (case filter_keys a st of Panic \<Rightarrow> Panic | Done (Err e) \<Rightarrow> Done (Err e) | Done (Ok st') \<Rightarrow> filter_keys b st')"
  by (induction a st rule: filter_keys.induct) (auto split: exec.splits result.splits)

lemma optional_entry_key: "p \<in> set (optional_entry k ser v) \<Longrightarrow> fst p = k"
  by (auto simp: optional_entry_def split: option.splits)

lemma distinct_optional_entry: "distinct (map fst (optional_entry k ser v))"
  by (simp add: optional_entry_def split: option.splits)

lemma serialize_operand_no_array: "\<not> is_array (serialize_operand order v)"
  by (cases v) (simp_all add: is_array_def)

lemma all_some_strings: "all_some (map (de_string \<circ> JString) xs) = Some xs"
  by (simp add: all_some_eq_Some de_string_def)

lemma all_some_numbers: "all_some (map (de_u64 \<circ> (\<lambda>x. JNumber (PosInt x))) xs) = Some xs"
  by (simp add: all_some_eq_Some)

text \<open>Each optional entry sets its field.\<close>

lemma filter_keys_strings:
  assumes "\<forall>xs. v = Some xs \<longrightarrow> [] \<notin> set xs"
  shows "rf_ids rf = None \<Longrightarrow> filter_keys (optional_entry ''ids'' (JArray \<circ> map JString) v) (rf, ts) = Done (Ok (rf\<lparr>rf_ids := v\<rparr>, ts))"
    and "rf_authors rf = None \<Longrightarrow> filter_keys (optional_entry ''authors'' (JArray \<circ> map JString) v) (rf, ts) = Done (Ok (rf\<lparr>rf_authors := v\<rparr>, ts))"
  using assms by (auto simp: optional_entry_def filter_key_def Let_def all_some_strings split: option.splits)

lemma filter_keys_numbers:
  "rf_kinds rf = None \<Longrightarrow>
     filter_keys (optional_entry ''kinds'' (JArray \<circ> map (JNumber \<circ> PosInt)) ks) (rf, ts) = Done (Ok (rf\<lparr>rf_kinds := ks\<rparr>, ts))"
  "rf_until rf = None \<Longrightarrow> filter_keys (optional_entry ''until'' (JNumber \<circ> PosInt) n) (rf, ts) = Done (Ok (rf\<lparr>rf_until := n\<rparr>, ts))"
  "rf_since rf = None \<Longrightarrow> filter_keys (optional_entry ''since'' (JNumber \<circ> PosInt) n) (rf, ts) = Done (Ok (rf\<lparr>rf_since := n\<rparr>, ts))"
  "rf_limit rf = None \<Longrightarrow> filter_keys (optional_entry ''limit'' (JNumber \<circ> PosInt) n) (rf, ts) = Done (Ok (rf\<lparr>rf_limit := n\<rparr>, ts))"
  by (auto simp: optional_entry_def filter_key_def comp_def all_some_numbers [unfolded comp_def] split: option.splits)

text \<open>Serializing a filter and parsing it again drops its tag conditions, and nothing else. The parser takes only arrays as the values
  of \<^verbatim>\<open>#\<close> keys and ignores the objects the serializer writes, so the filter that comes back matches more. Filters
  without tag conditions survive unchanged.\<close>

theorem filter_serialization_drops_tags:
  assumes "\<forall>xs. rf_ids f = Some xs \<longrightarrow> [] \<notin> set xs" "\<forall>xs. rf_authors f = Some xs \<longrightarrow> [] \<notin> set xs"
  shows "de_filter (serialize_filter order f) = Done (Ok (f\<lparr>rf_tags := None, rf_force_no_match := False\<rparr>))"
proof -
  let ?num = "JNumber \<circ> PosInt" and ?strs = "JArray \<circ> map JString"
  define A where "A = optional_entry ''ids'' ?strs (rf_ids f) @ optional_entry ''kinds'' (JArray \<circ> map ?num) (rf_kinds f) @
        optional_entry ''until'' ?num (rf_until f) @ optional_entry ''since'' ?num (rf_since f) @
        optional_entry ''limit'' ?num (rf_limit f) @ optional_entry ''authors'' ?strs (rf_authors f)"
  define T where "T = (case rf_tags f of None \<Rightarrow> [] | Some ts \<Rightarrow> map (\<lambda>(k, v). (CHR ''#'' # k, serialize_operand order v)) ts)"
  have A: "filter plain_entry A = A" "\<forall>p\<in>set A. \<not> tag_entry p"
    by (auto simp: A_def optional_entry_def tag_entry_def starts_with_def split: option.splits)
  have T: "filter plain_entry T = []" "\<forall>p\<in>set T. \<not> is_array (snd p)"
    by (auto simp: T_def tag_entry_def starts_with_def filter_empty_conv serialize_operand_no_array split: option.splits)
  have "filter_keys (value_map (A @ T)) st = filter_keys (value_map A) st" for st
  proof -
    have "\<forall>p\<in>set (value_map (A @ T)). tag_entry p \<longrightarrow> \<not> is_array (snd p)"
      using set_value_map [of "A @ T"] A(2) T(2) by auto
    from filter_keys_ignores [OF this] show ?thesis by (simp add: filter_value_map A(1) T(1))
  qed
  moreover have "value_map A = A"
    by (rule value_map_distinct) (auto simp: A_def distinct_optional_entry dest!: optional_entry_key)
  moreover have "filter_keys A (empty_filter, None) = Done (Ok (f\<lparr>rf_tags := None, rf_force_no_match := False\<rparr>, None))"
    unfolding A_def filter_keys_append
    by (simp add: filter_keys_strings(1) [OF assms(1)] filter_keys_strings(2) [OF assms(2)] filter_keys_numbers empty_filter_def)
  ultimately show ?thesis by (simp add: de_filter_def serialize_filter_def Let_def A_def T_def)
qed

theorem filter_serialization_drops_tags_witness:
  "de_filter (serialize_filter (\<lambda>_. [''ab'']) (empty_filter\<lparr>rf_kinds := Some [1059], rf_tags := Some [(''p'', Or {|''ab''|})]\<rparr>)) =
     Done (Ok (empty_filter\<lparr>rf_kinds := Some [1059]\<rparr>))"
  using filter_serialization_drops_tags [of "empty_filter\<lparr>rf_kinds := Some [1059], rf_tags := Some [(''p'', Or {|''ab''|})]\<rparr>" "\<lambda>_. [''ab'']"]
  by (simp add: empty_filter_def)

end
