(* ===== verification/Conn.thy ===== *)
theory Conn
  imports Subscription
begin

text \<open>
  Client connection state (\<^verbatim>\<open>src/src/conn.rs\<close>) and CLOSE commands (\<^verbatim>\<open>src/src/close.rs\<close>).
  The subscriptions of a connection are an association list with distinct keys. A fresh
  random identifier (\<^verbatim>\<open>Uuid::new_v4\<close>) and the current time are arguments.
\<close>

section \<open>CLOSE\<close>

record close_cmd =
  cc_cmd :: string
  cc_id :: string

record close =
  close_id :: string

definition close_from :: "close_cmd \<Rightarrow> (close, error) result" where
  "close_from cc = (if cc_cmd cc = ''CLOSE'' then Ok \<lparr>close_id = cc_id cc\<rparr> else Err CommandUnknownError)"

section \<open>The connection\<close>

definition MAX_SUBSCRIPTION_ID_LEN :: nat where
  "MAX_SUBSCRIPTION_ID_LEN = 256"

datatype nip42_auth_state = NoAuth | Challenge string | AuthPubkey string

record client_conn =
  client_ip_addr :: string
  client_id :: string
  subscriptions :: "(string \<times> subscription) list"
  max_subs :: nat
  auth :: nip42_auth_state

definition conn_new :: "string \<Rightarrow> string \<Rightarrow> client_conn" where
  "conn_new ip uuid = \<lparr>client_ip_addr = ip, client_id = uuid, subscriptions = [], max_subs = 32,
     auth = NoAuth\<rparr>"

text \<open>Subscriptions are compared as the derived \<^verbatim>\<open>PartialEq\<close> does.\<close>

definition subscription_eq :: "subscription \<Rightarrow> subscription \<Rightarrow> bool" where
  "subscription_eq s t \<longleftrightarrow> sub_id s = sub_id t \<and> list_all2 filter_eq (sub_filters s) (sub_filters t)"

definition has_subscription :: "client_conn \<Rightarrow> subscription \<Rightarrow> bool" where
  "has_subscription c s = list_ex (\<lambda>(_, x). subscription_eq x s) (subscriptions c)"

definition get_client_prefix :: "client_conn \<Rightarrow> string" where
  "get_client_prefix c = concat (take 8 (chars (client_id c)))"

definition ip :: "client_conn \<Rightarrow> string" where
  "ip c = client_ip_addr c"

definition auth_pubkey :: "client_conn \<Rightarrow> string option" where
  "auth_pubkey c = (case auth c of AuthPubkey pk \<Rightarrow> Some pk | _ \<Rightarrow> None)"

definition auth_challenge :: "client_conn \<Rightarrow> string option" where
  "auth_challenge c = (case auth c of Challenge ch \<Rightarrow> Some ch | _ \<Rightarrow> None)"

definition hm_remove :: "'k \<Rightarrow> ('k \<times> 'v) list \<Rightarrow> ('k \<times> 'v) list" where
  "hm_remove k m = filter (\<lambda>p. fst p \<noteq> k) m"

definition subscribe :: "client_conn \<Rightarrow> subscription \<Rightarrow> client_conn \<times> (unit, error) result" where
  "subscribe c s =
     (let k = get_id s in
      if MAX_SUBSCRIPTION_ID_LEN < length k then (c, Err SubIdMaxLengthError)
      else if k \<in> fst ` set (subscriptions c)
      then (c\<lparr>subscriptions := (k, s) # hm_remove k (subscriptions c)\<rparr>, Ok ())
      else if max_subs c \<le> length (subscriptions c) then (c, Err SubMaxExceededError)
      else (c\<lparr>subscriptions := (k, s) # subscriptions c\<rparr>, Ok ()))"

definition unsubscribe :: "client_conn \<Rightarrow> close \<Rightarrow> client_conn" where
  "unsubscribe c cl = c\<lparr>subscriptions := hm_remove (close_id cl) (subscriptions c)\<rparr>"

definition generate_auth_challenge :: "string \<Rightarrow> client_conn \<Rightarrow> client_conn" where
  "generate_auth_challenge uuid c = c\<lparr>auth := Challenge uuid\<rparr>"

text \<open>The last two-element tag with a given name.\<close>

definition last_pair_value :: "string \<Rightarrow> string list list \<Rightarrow> string option" where
  "last_pair_value name ts =
     fold (\<lambda>t acc. if length t = 2 \<and> hd t = name then Some (t ! 1) else acc) ts None"

text \<open>The cutoffs are \<^verbatim>\<open>u64\<close> arithmetic.\<close>

definition authenticate ::
  "externals \<Rightarrow> u64 \<Rightarrow> event \<Rightarrow> string \<Rightarrow> client_conn \<Rightarrow> client_conn \<times> (unit, error) result" where
  "authenticate X now e relay c =
     (case auth c of
        AuthPubkey _ \<Rightarrow> (c, Ok ())
      | NoAuth \<Rightarrow> (c, Err AuthFailure)
      | Challenge sent_challenge \<Rightarrow>
        (case validate X e of
           Err _ \<Rightarrow> (c, Err AuthFailure)
         | Ok _ \<Rightarrow>
           if ev_kind e \<noteq> 22242 then (c, Err AuthFailure)
           else
             (let past_cutoff = now - 600; future_cutoff = now + 600 in
              if ev_created_at e < past_cutoff \<or> future_cutoff < ev_created_at e
              then (c, Err AuthFailure)
              else if last_pair_value ''challenge'' (ev_tags e) \<noteq> Some sent_challenge
              then (c, Err AuthFailure)
              else (case (Option.bind (last_pair_value ''relay'' (ev_tags e)) (host_str X), host_str X relay) of
                 (Some received_relay, Some our_relay) \<Rightarrow>
                   if received_relay \<noteq> our_relay then (c, Err AuthFailure)
                   else (c\<lparr>auth := AuthPubkey (ev_pubkey e)\<rparr>, Ok ())
               | _ \<Rightarrow> (c, Err AuthFailure)))))"

section \<open>The life of a connection\<close>

text \<open>
  The operations the server performs on a connection, and a run of them from the initial
  state. \<open>auth_ok\<close> says that an event is a valid answer to a challenge at a given time.
\<close>

datatype conn_op =
    OpSubscribe subscription
  | OpUnsubscribe close
  | OpChallenge string
  | OpAuth u64 event string

fun conn_step :: "externals \<Rightarrow> conn_op \<Rightarrow> client_conn \<Rightarrow> client_conn" where
  "conn_step X (OpSubscribe s) c = fst (subscribe c s)"
| "conn_step X (OpUnsubscribe cl) c = unsubscribe c cl"
| "conn_step X (OpChallenge u) c = generate_auth_challenge u c"
| "conn_step X (OpAuth now e relay) c = fst (authenticate X now e relay c)"

inductive reachable :: "externals \<Rightarrow> conn_op list \<Rightarrow> client_conn \<Rightarrow> bool" for X where
  start: "reachable X [] (conn_new i u)"
| step: "reachable X ops c \<Longrightarrow> reachable X (ops @ [op]) (conn_step X op c)"

definition auth_ok :: "externals \<Rightarrow> u64 \<Rightarrow> event \<Rightarrow> string \<Rightarrow> string \<Rightarrow> bool" where
  "auth_ok X now e relay challenge \<longleftrightarrow>
     validate X e = Ok () \<and> ev_kind e = 22242 \<and>
     now - 600 \<le> ev_created_at e \<and> ev_created_at e \<le> now + 600 \<and>
     last_pair_value ''challenge'' (ev_tags e) = Some challenge \<and>
     (\<exists>r h. last_pair_value ''relay'' (ev_tags e) = Some r \<and> host_str X r = Some h \<and> host_str X relay = Some h)"

definition conn_inv :: "client_conn \<Rightarrow> bool" where
  "conn_inv c \<longleftrightarrow> max_subs c = 32 \<and> length (subscriptions c) \<le> max_subs c \<and>
     distinct (map fst (subscriptions c)) \<and>
     (\<forall>(k, s)\<in>set (subscriptions c). sub_id s = k \<and> length k \<le> MAX_SUBSCRIPTION_ID_LEN)"

section \<open>Lemmas\<close>

lemma hm_remove_set: "set (hm_remove k m) = {p \<in> set m. fst p \<noteq> k}"
  by (auto simp: hm_remove_def)

lemma hm_remove_keys: "fst ` set (hm_remove k m) = fst ` set m - {k}"
  by (auto simp: hm_remove_set)

lemma hm_remove_distinct: "distinct (map fst m) \<Longrightarrow> distinct (map fst (hm_remove k m))"
  by (simp add: hm_remove_def distinct_map_filterI)

lemma hm_remove_length_le: "length (hm_remove k m) \<le> length m"
  by (simp add: hm_remove_def)

lemma hm_remove_length_less: "k \<in> fst ` set m \<Longrightarrow> length (hm_remove k m) < length m"
  unfolding hm_remove_def by (auto intro!: length_filter_less)

lemma authenticate_result:
  "authenticate X now e relay c =
     (case auth c of
        AuthPubkey _ \<Rightarrow> (c, Ok ())
      | NoAuth \<Rightarrow> (c, Err AuthFailure)
      | Challenge ch \<Rightarrow> if auth_ok X now e relay ch
          then (c\<lparr>auth := AuthPubkey (ev_pubkey e)\<rparr>, Ok ()) else (c, Err AuthFailure))"
proof (cases "auth c")
  case (Challenge ch)
  show ?thesis
  proof (cases "validate X e")
    case (Ok u)
    show ?thesis
      using Challenge Ok unfolding authenticate_def auth_ok_def
      by (cases "last_pair_value ''relay'' (ev_tags e)"; cases "host_str X relay")
        (auto simp: Let_def not_less split: option.splits)
  qed (use Challenge in \<open>simp add: authenticate_def auth_ok_def\<close>)
qed (simp_all add: authenticate_def)

lemma subscribe_inv:
  assumes "conn_inv c"
  shows "conn_inv (fst (subscribe c s))"
proof (cases "sub_id s \<in> fst ` set (subscriptions c)")
  case True
  with hm_remove_length_less [OF True] hm_remove_keys [of "sub_id s" "subscriptions c"] assms
  show ?thesis
    by (auto simp: conn_inv_def subscribe_def Let_def get_id_def hm_remove_set hm_remove_distinct)
next
  case False
  with assms show ?thesis by (auto simp: conn_inv_def subscribe_def Let_def get_id_def)
qed

lemma unsubscribe_inv: "conn_inv c \<Longrightarrow> conn_inv (unsubscribe c cl)"
  using hm_remove_length_le [of "close_id cl" "subscriptions c"]
  by (auto simp: conn_inv_def unsubscribe_def hm_remove_set hm_remove_distinct)

lemma generate_auth_challenge_inv: "conn_inv c \<Longrightarrow> conn_inv (generate_auth_challenge u c)"
  by (simp add: generate_auth_challenge_def conn_inv_def)

lemma authenticate_inv: "conn_inv c \<Longrightarrow> conn_inv (fst (authenticate X now e relay c))"
  by (auto simp: authenticate_result conn_inv_def split: nip42_auth_state.splits)

lemma conn_step_inv: "conn_inv c \<Longrightarrow> conn_inv (conn_step X op c)"
  by (cases op)
    (simp_all add: subscribe_inv unsubscribe_inv generate_auth_challenge_inv authenticate_inv)

lemma reachable_inv: "reachable X ops c \<Longrightarrow> conn_inv c"
proof (induction rule: reachable.induct)
  case (start i u)
  show ?case by (simp add: conn_new_def conn_inv_def)
qed (rule conn_step_inv)

text \<open>Where the state says \<open>AuthPubkey\<close>, an operation of the past proved it.\<close>

definition proved_by :: "externals \<Rightarrow> conn_op list \<Rightarrow> string \<Rightarrow> bool" where
  "proved_by X ops pk \<longleftrightarrow>
     (\<exists>pre u mid now e relay post. ops = pre @ OpChallenge u # mid @ OpAuth now e relay # post \<and>
        (\<forall>v. OpChallenge v \<notin> set mid) \<and> auth_ok X now e relay u \<and> ev_pubkey e = pk)"

definition challenged_by :: "conn_op list \<Rightarrow> string \<Rightarrow> bool" where
  "challenged_by ops u \<longleftrightarrow> (\<exists>pre mid. ops = pre @ OpChallenge u # mid \<and> (\<forall>v. OpChallenge v \<notin> set mid))"

lemma proved_by_snoc: "proved_by X ops pk \<Longrightarrow> proved_by X (ops @ [op]) pk"
  unfolding proved_by_def by (metis append.assoc append_Cons)

lemma challenged_by_snoc:
  assumes "challenged_by ops u" "\<forall>v. op \<noteq> OpChallenge v"
  shows "challenged_by (ops @ [op]) u"
proof -
  obtain pre mid where "ops = pre @ OpChallenge u # mid" "\<forall>v. OpChallenge v \<notin> set mid"
    using assms(1) by (auto simp: challenged_by_def)
  with assms(2) show ?thesis unfolding challenged_by_def
    by (intro exI [of _ pre] exI [of _ "mid @ [op]"]) auto
qed

lemma challenged_proved:
  assumes "challenged_by ops u" "auth_ok X now e relay u"
  shows "proved_by X (ops @ [OpAuth now e relay]) (ev_pubkey e)"
proof -
  obtain pre mid where "ops = pre @ OpChallenge u # mid" "\<forall>v. OpChallenge v \<notin> set mid"
    using assms(1) by (auto simp: challenged_by_def)
  with assms(2) show ?thesis unfolding proved_by_def
    by (intro exI [of _ pre] exI [of _ u] exI [of _ mid] exI [of _ now] exI [of _ e]
      exI [of _ relay] exI [of _ "[]"]) simp
qed

lemma reachable_auth:
  "reachable X ops c \<Longrightarrow>
     (case auth c of NoAuth \<Rightarrow> True | Challenge u \<Rightarrow> challenged_by ops u
      | AuthPubkey pk \<Rightarrow> proved_by X ops pk)"
proof (induction rule: reachable.induct)
  case (step ops c op)
  show ?case
  proof (cases op)
    case (OpSubscribe s)
    then have "auth (conn_step X op c) = auth c" by (simp add: subscribe_def Let_def)
    with step.IH OpSubscribe show ?thesis
      by (auto simp: proved_by_snoc challenged_by_snoc split: nip42_auth_state.splits)
  next
    case (OpUnsubscribe cl)
    with step.IH show ?thesis
      by (auto simp: unsubscribe_def proved_by_snoc challenged_by_snoc split: nip42_auth_state.splits)
  next
    case (OpChallenge u)
    then show ?thesis
      by (simp add: generate_auth_challenge_def challenged_by_def, intro exI [of _ ops] exI [of _ "[]"]) simp
  next
    case (OpAuth now e relay)
    with step.IH show ?thesis
      by (auto simp: authenticate_result proved_by_snoc challenged_by_snoc challenged_proved
          split: nip42_auth_state.splits)
  qed
qed (simp add: conn_new_def)

section \<open>Properties\<close>

text \<open>C12: A connection is authenticated only by answering a challenge. Whatever a client sends, if
  the connection's state says it is authenticated as a public key, then earlier in its
  history the relay issued a challenge and, with no newer challenge in between, the client
  sent an AUTH event signed by that key, of kind 22242, dated within ten minutes, carrying
  that challenge and naming this relay's host.\<close>

theorem authenticated_only_by_challenge:
  assumes "reachable X ops c" "auth_pubkey c = Some pk"
  shows "\<exists>pre u mid now e relay post. ops = pre @ OpChallenge u # mid @ OpAuth now e relay # post \<and>
      (\<forall>v. OpChallenge v \<notin> set mid) \<and> auth_ok X now e relay u \<and> ev_pubkey e = pk"
  using reachable_auth [OF assms(1)] assms(2)
  by (auto simp: auth_pubkey_def proved_by_def split: nip42_auth_state.splits)

definition demo_auth_event :: event where
  "demo_auth_event = sealed std_ext (demo_event\<lparr>ev_kind := 22242,
     ev_tags := [[''challenge'', ''c1''], [''relay'', ''wss://r'']]\<rparr>)"

lemma demo_auth_ok: "auth_ok std_ext 1200 demo_auth_event ''wss://r'' ''c1''"
proof -
  have "validate std_ext demo_auth_event = Ok ()"
    unfolding demo_auth_event_def
    by (rule validate_sealed) (simp_all add: demo_event_def hexdigits_replicate ascii_defs)
  then show ?thesis
    by (simp add: auth_ok_def demo_auth_event_def last_pair_value_def host_str_def demo_event_def)
qed

definition demo_ops :: "conn_op list" where
  "demo_ops = [OpChallenge ''c1'', OpAuth 1200 demo_auth_event ''wss://r'']"

lemma demo_reachable:
  "\<exists>c. reachable std_ext demo_ops c \<and> auth_pubkey c = Some (ev_pubkey demo_auth_event)"
proof -
  let ?c0 = "conn_new ''ip'' ''uuid''"
  let ?c1 = "conn_step std_ext (OpChallenge ''c1'') ?c0"
  let ?c2 = "conn_step std_ext (OpAuth 1200 demo_auth_event ''wss://r'') ?c1"
  have "reachable std_ext ([] @ [OpChallenge ''c1'']) ?c1"
    by (intro reachable.step reachable.start)
  then have "reachable std_ext (([] @ [OpChallenge ''c1'']) @ [OpAuth 1200 demo_auth_event ''wss://r'']) ?c2"
    by (rule reachable.step)
  moreover have "auth_pubkey ?c2 = Some (ev_pubkey demo_auth_event)"
    by (simp add: authenticate_result generate_auth_challenge_def conn_new_def demo_auth_ok auth_pubkey_def)
  ultimately show ?thesis by (auto simp: demo_ops_def)
qed

theorem authenticated_only_by_challenge_witness:
  "\<exists>pre u mid now e relay post. demo_ops = pre @ OpChallenge u # mid @ OpAuth now e relay # post \<and>
      (\<forall>v. OpChallenge v \<notin> set mid) \<and> auth_ok std_ext now e relay u"
  using demo_reachable authenticated_only_by_challenge by blast

text \<open>In every state a connection can reach, it holds at most 32 subscriptions, at most one
  per identifier, each stored under its own identifier, and no identifier is longer than
  256 bytes.\<close>

theorem subscriptions_bounded:
  assumes "reachable X ops c"
  shows "length (subscriptions c) \<le> 32 \<and> distinct (map fst (subscriptions c)) \<and>
    (\<forall>(k, s)\<in>set (subscriptions c). sub_id s = k \<and> length k \<le> 256)"
  using reachable_inv [OF assms] by (auto simp: conn_inv_def MAX_SUBSCRIPTION_ID_LEN_def)

theorem subscriptions_bounded_witness:
  "\<exists>c. reachable std_ext demo_ops c \<and> length (subscriptions c) \<le> 32"
  using demo_reachable subscriptions_bounded by blast

text \<open>A successful subscribe makes the subscription the one stored under its identifier and
  leaves every other subscription as it was; a refused one (identifier too long, or all 32
  places taken by other identifiers) changes nothing; and unsubscribing removes exactly
  the named identifier.\<close>

theorem subscribe_unsubscribe_effect:
  assumes "conn_inv c"
  shows "(case subscribe c s of
       (c', Ok _) \<Rightarrow> map_of (subscriptions c') = (map_of (subscriptions c))(sub_id s \<mapsto> s)
     | (c', Err er) \<Rightarrow> c' = c \<and> (er = SubIdMaxLengthError \<and> 256 < length (sub_id s)
         \<or> er = SubMaxExceededError \<and> length (subscriptions c) = 32 \<and> sub_id s \<notin> fst ` set (subscriptions c)))
   \<and> map_of (subscriptions (unsubscribe c \<lparr>close_id = k\<rparr>)) = (map_of (subscriptions c))(k := None)"
proof -
  have rm: "map_of (hm_remove k m) = (map_of m)(k := None)" for k :: string and m :: "(string \<times> subscription) list"
    by (induction m) (auto simp: hm_remove_def)
  show ?thesis using assms
    by (auto simp: subscribe_def Let_def get_id_def unsubscribe_def rm conn_inv_def
        MAX_SUBSCRIPTION_ID_LEN_def)
qed

theorem subscribe_unsubscribe_effect_witness:
  "map_of (subscriptions (unsubscribe (conn_new [] []) \<lparr>close_id = ''a''\<rparr>)) ''a'' = None"
proof -
  have "conn_inv (conn_new [] [])" by (simp add: conn_inv_def conn_new_def)
  from subscribe_unsubscribe_effect [OF this, of "\<lparr>sub_id = ''a'', sub_filters = []\<rparr>" "''a''"]
  show ?thesis by simp
qed

end
