(* ===== verification/Admission.thy ===== *)
theory Admission
  imports Event
begin

text \<open>
  Event admission (\<^verbatim>\<open>src/src/admission.rs\<close>): the write-side policies, the pipeline built
  from the settings, and the check in which the first denial wins. A boxed policy object
  is a constructor of \<open>policy\<close>.
\<close>

section \<open>Decisions and policies\<close>

definition LOCKED_KINDS :: "u64 list" where
  "LOCKED_KINDS = [1, 30023]"

definition GIFT_WRAP_KIND :: u64 where
  "GIFT_WRAP_KIND = 1059"

datatype decision = Allow | Deny (deny_reason: string) (auth_required: bool)

definition deny :: "string \<Rightarrow> decision" where
  "deny reason = Deny reason False"

definition deny_auth :: "string \<Rightarrow> decision" where
  "deny_auth reason = Deny reason True"

datatype policy =
    KindWhitelist "u64 list"
  | GiftWrapRetention
  | RestrictedKindAuthors "string list"
  | RequireAuth
  | PubkeyWhitelist "string list"

definition kind_whitelist_check :: "u64 list \<Rightarrow> event \<Rightarrow> decision" where
  "kind_whitelist_check allowed e =
     (if ev_kind e \<in> set allowed then Allow
      else deny (''event kind '' @ show_u64 (ev_kind e) @ '' not accepted by this relay''))"

definition require_auth_check :: "string option \<Rightarrow> decision" where
  "require_auth_check authed =
     (if authed \<noteq> None then Allow else deny_auth ''authentication required to publish events'')"

definition pubkey_whitelist_check :: "string list \<Rightarrow> event \<Rightarrow> decision" where
  "pubkey_whitelist_check allowed e =
     (if ev_pubkey e \<in> set allowed then Allow
      else deny ''pubkey is not allowed to publish to this relay'')"

text \<open>Canonical author keys from operator entries; invalid entries are skipped.\<close>

definition author_entry :: "externals \<Rightarrow> string \<Rightarrow> string option" where
  "author_entry X entry =
     (let e = trim entry in
      if e = [] then None
      else let hex = (if is_nip19 e then nip19_to_hex X e
                      else if length e = 64 \<and> is_hex e then Some (to_lowercase (ulower X) e)
                      else None)
        in case hex of
             Some h \<Rightarrow> if length h = 64 then Some (to_lowercase (ulower X) h) else None
           | None \<Rightarrow> None)"

definition from_entries :: "externals \<Rightarrow> string list \<Rightarrow> string list" where
  "from_entries X entries = List.map_filter (author_entry X) entries"

definition restricted_kind_check :: "externals \<Rightarrow> string list \<Rightarrow> event \<Rightarrow> decision" where
  "restricted_kind_check X authors e =
     (if ev_kind e \<notin> set LOCKED_KINDS then Allow
      else if to_lowercase (ulower X) (ev_pubkey e) \<in> set authors then Allow
      else deny ''this relay accepts public notes only from authorized authors'')"

definition gift_wrap_check :: "event \<Rightarrow> decision" where
  "gift_wrap_check e =
     (if ev_kind e \<noteq> GIFT_WRAP_KIND then Allow
      else if list_ex (\<lambda>t. t \<noteq> [] \<and> hd t = ''expiration'') (ev_tags e)
      then deny ''expiration not allowed on gift wraps''
      else
        (let p_pubkeys = map (\<lambda>t. t ! 1) (filter (\<lambda>t. 2 \<le> length t \<and> t ! 0 = ''p'') (ev_tags e));
             recipient_ok = (case p_pubkeys of [pk] \<Rightarrow> length pk = 64 \<and> is_lower_hex pk | _ \<Rightarrow> False)
         in if \<not> recipient_ok then deny ''gift wrap missing recipient''
            else if length (ev_tags e) \<noteq> 1 then deny ''gift wrap has extraneous tags''
            else Allow))"

fun policy_check :: "externals \<Rightarrow> policy \<Rightarrow> event \<Rightarrow> string option \<Rightarrow> decision" where
  "policy_check X (KindWhitelist allowed) e a = kind_whitelist_check allowed e"
| "policy_check X GiftWrapRetention e a = gift_wrap_check e"
| "policy_check X (RestrictedKindAuthors authors) e a = restricted_kind_check X authors e"
| "policy_check X RequireAuth e a = require_auth_check a"
| "policy_check X (PubkeyWhitelist allowed) e a = pubkey_whitelist_check allowed e"

section \<open>The pipeline\<close>

definition allowed_kinds :: "settings \<Rightarrow> u64 list" where
  "allowed_kinds s =
     (case event_kind_allowlist (s_limits s) of Some ks \<Rightarrow> ks | None \<Rightarrow> DEFAULT_ALLOWED_KINDS)"

definition note_entries :: "settings \<Rightarrow> string list" where
  "note_entries s = (case public_note_authors (s_authorization s) of Some l \<Rightarrow> l | None \<Rightarrow> [])"

definition from_settings :: "externals \<Rightarrow> settings \<Rightarrow> policy list" where
  "from_settings X s =
     [KindWhitelist (allowed_kinds s), GiftWrapRetention,
      RestrictedKindAuthors (from_entries X (note_entries s))]
   @ (if nip42_auth (s_authorization s) \<and> require_auth_to_write (s_authorization s)
      then [RequireAuth] else [])
   @ (if \<not> ptr_enabled (s_pay_to_relay s) then
        (case pubkey_whitelist (s_authorization s) of Some wl \<Rightarrow> [PubkeyWhitelist wl] | None \<Rightarrow> [])
      else [])"

fun admission_check :: "externals \<Rightarrow> policy list \<Rightarrow> event \<Rightarrow> string option \<Rightarrow> decision" where
  "admission_check X [] e a = Allow"
| "admission_check X (p # ps) e a =
     (case policy_check X p e a of Allow \<Rightarrow> admission_check X ps e a | Deny r b \<Rightarrow> Deny r b)"

section \<open>The admission layer as an interface\<close>

text \<open>
  What the websocket handler relies on: an event passes iff every installed policy passes
  it, and a denial is the verdict of the first policy that denies.
\<close>

locale admission_layer =
  fixes verdicts :: "(event \<Rightarrow> string option \<Rightarrow> decision) list"
    and check :: "event \<Rightarrow> string option \<Rightarrow> decision"
  assumes allow_iff: "check e a = Allow \<longleftrightarrow> (\<forall>v\<in>set verdicts. v e a = Allow)"
    and first_denial: "check e a = Deny r b \<Longrightarrow>
      \<exists>pre v post. verdicts = pre @ v # post \<and> v e a = Deny r b \<and> (\<forall>w\<in>set pre. w e a = Allow)"
begin

lemma enforced: "v \<in> set verdicts \<Longrightarrow> check e a = Allow \<Longrightarrow> v e a = Allow"
  using allow_iff by blast

lemma denied: "v \<in> set verdicts \<Longrightarrow> v e a = Deny r b \<Longrightarrow> check e a \<noteq> Allow"
  using allow_iff by fastforce

lemma denial_from_policy: "check e a = Deny r b \<Longrightarrow> \<exists>v\<in>set verdicts. v e a = Deny r b"
  using first_denial by fastforce

text \<open>A denial whose flag only one suffix of the pipeline can raise means the prefix passed.\<close>

lemma prefix_passed:
  assumes "verdicts = pre @ post" "check e a = Deny r b"
    and "\<And>v r'. v \<in> set pre \<Longrightarrow> v e a \<noteq> Deny r' b"
  shows "\<forall>w\<in>set pre. w e a = Allow"
proof -
  obtain pre' v post' where h: "verdicts = pre' @ v # post'" "v e a = Deny r b"
    "\<forall>w\<in>set pre'. w e a = Allow" using first_denial [OF assms(2)] by blast
  have "v \<notin> set pre" using assms(3) h(2) by blast
  moreover have "pre @ post = pre' @ v # post'" using h(1) assms(1) by simp
  ultimately have "\<exists>us. pre' = pre @ us" by (auto simp: append_eq_append_conv2 append_eq_Cons_conv)
  with h(3) show ?thesis by auto
qed

end

lemma admission_check_Allow_iff:
  "admission_check X ps e a = Allow \<longleftrightarrow> (\<forall>p\<in>set ps. policy_check X p e a = Allow)"
  by (induction ps) (auto split: decision.splits)

lemma admission_check_first_denial:
  "admission_check X ps e a = Deny r b \<Longrightarrow>
     \<exists>pre p post. ps = pre @ p # post \<and> policy_check X p e a = Deny r b \<and>
       (\<forall>w\<in>set pre. policy_check X w e a = Allow)"
proof (induction ps)
  case (Cons q qs)
  show ?case
  proof (cases "policy_check X q e a")
    case Allow
    with Cons obtain pre p post where "qs = pre @ p # post" "policy_check X p e a = Deny r b"
      "\<forall>w\<in>set pre. policy_check X w e a = Allow" by auto
    with Allow show ?thesis by (intro exI [of _ "q # pre"] exI [of _ p] exI [of _ post]) auto
  next
    case (Deny r' b')
    with Cons.prems show ?thesis by (intro exI [of _ "[]"] exI [of _ q] exI [of _ qs]) auto
  qed
qed simp

interpretation adm: admission_layer "map (policy_check X) (from_settings X s)"
  "admission_check X (from_settings X s)" for X s
proof unfold_locales
  fix e a r b
  show "(admission_check X (from_settings X s) e a = Allow) =
    (\<forall>v\<in>set (map (policy_check X) (from_settings X s)). v e a = Allow)"
    by (simp add: admission_check_Allow_iff)
  assume "admission_check X (from_settings X s) e a = Deny r b"
  from admission_check_first_denial [OF this] obtain pre p post where
    h: "from_settings X s = pre @ p # post" "policy_check X p e a = Deny r b"
      "\<forall>w\<in>set pre. policy_check X w e a = Allow" by blast
  show "\<exists>pre v post. map (policy_check X) (from_settings X s) = pre @ v # post \<and>
      v e a = Deny r b \<and> (\<forall>w\<in>set pre. w e a = Allow)"
    using h by (intro exI [of _ "map (policy_check X) pre"] exI [of _ "policy_check X p"]
      exI [of _ "map (policy_check X) post"]) simp
qed

section \<open>Lemmas\<close>

lemma from_settings_all:
  "(\<forall>p\<in>set (from_settings X s). P p) \<longleftrightarrow>
     P (KindWhitelist (allowed_kinds s)) \<and> P GiftWrapRetention \<and>
     P (RestrictedKindAuthors (from_entries X (note_entries s))) \<and>
     (nip42_auth (s_authorization s) \<and> require_auth_to_write (s_authorization s) \<longrightarrow> P RequireAuth) \<and>
     (\<not> ptr_enabled (s_pay_to_relay s) \<longrightarrow>
       (case pubkey_whitelist (s_authorization s) of None \<Rightarrow> True | Some wl \<Rightarrow> P (PubkeyWhitelist wl)))"
  by (cases "nip42_auth (s_authorization s) \<and> require_auth_to_write (s_authorization s)";
      cases "ptr_enabled (s_pay_to_relay s)"; cases "pubkey_whitelist (s_authorization s)")
    (auto simp add: from_settings_def)

lemma RequireAuth_installed:
  "RequireAuth \<in> set (from_settings X s) \<longleftrightarrow>
     nip42_auth (s_authorization s) \<and> require_auth_to_write (s_authorization s)"
  using from_settings_all [of X s "\<lambda>p. p \<noteq> RequireAuth"] by (auto split: option.splits)

lemma kind_whitelist_Allow [simp]: "kind_whitelist_check ks e = Allow \<longleftrightarrow> ev_kind e \<in> set ks"
  by (simp add: kind_whitelist_check_def deny_def)

lemma require_auth_Allow [simp]: "require_auth_check a = Allow \<longleftrightarrow> a \<noteq> None"
  by (simp add: require_auth_check_def deny_auth_def)

lemma pubkey_whitelist_Allow [simp]: "pubkey_whitelist_check ks e = Allow \<longleftrightarrow> ev_pubkey e \<in> set ks"
  by (simp add: pubkey_whitelist_check_def deny_def)

lemma restricted_kind_Allow [simp]:
  "restricted_kind_check X au e = Allow \<longleftrightarrow>
     (ev_kind e \<in> {1, 30023} \<longrightarrow> to_lowercase (ulower X) (ev_pubkey e) \<in> set au)"
  by (auto simp: restricted_kind_check_def LOCKED_KINDS_def deny_def)

text \<open>A well-formed gift wrap: its only tag names one recipient in lowercase hexadecimal.\<close>

definition gift_wrap_shape :: "event \<Rightarrow> bool" where
  "gift_wrap_shape e \<longleftrightarrow>
     (\<exists>pk rest. ev_tags e = [''p'' # pk # rest] \<and> length pk = 64 \<and> is_lower_hex pk)"

lemma gift_wrap_Allow:
  assumes "ev_kind e = 1059"
  shows "gift_wrap_check e = Allow \<longleftrightarrow> gift_wrap_shape e"
proof
  assume al: "gift_wrap_check e = Allow"
  with assms obtain t where t: "ev_tags e = [t]"
    by (auto simp: gift_wrap_check_def GIFT_WRAP_KIND_def deny_def Let_def length_Suc_conv
        split: if_splits)
  with al assms have "2 \<le> length t" "t ! 0 = ''p''" "length (t ! 1) = 64" "is_lower_hex (t ! 1)"
    by (auto simp: gift_wrap_check_def GIFT_WRAP_KIND_def deny_def Let_def split: if_splits)
  moreover from this obtain rest where "t = ''p'' # t ! 1 # rest"
    by (cases t; cases "tl t") auto
  ultimately show "gift_wrap_shape e" using t unfolding gift_wrap_shape_def by metis
next
  assume "gift_wrap_shape e"
  then show "gift_wrap_check e = Allow"
    by (auto simp: gift_wrap_shape_def gift_wrap_check_def Let_def)
qed

lemma gift_wrap_other: "ev_kind e \<noteq> 1059 \<Longrightarrow> gift_wrap_check e = Allow"
  by (simp add: gift_wrap_check_def GIFT_WRAP_KIND_def)

lemma gift_wrap_shape_no_expiration: "gift_wrap_shape e \<Longrightarrow> expiration e = None"
  by (auto simp: gift_wrap_shape_def expiration_def first_value_def)

lemma gift_wrap_shape_recipient:
  "gift_wrap_shape e \<Longrightarrow> \<exists>pk. tag_values_by_name e ''p'' = [pk] \<and> length pk = 64 \<and> is_lower_hex pk"
  by (auto simp: gift_wrap_shape_def tag_values_by_name_def)

lemma admission_Allow_iff:
  "admission_check X (from_settings X s) e a = Allow \<longleftrightarrow>
     ev_kind e \<in> set (allowed_kinds s)
   \<and> (ev_kind e = 1059 \<longrightarrow> gift_wrap_shape e)
   \<and> (ev_kind e \<in> {1, 30023} \<longrightarrow> to_lowercase (ulower X) (ev_pubkey e) \<in> set (from_entries X (note_entries s)))
   \<and> (nip42_auth (s_authorization s) \<and> require_auth_to_write (s_authorization s) \<longrightarrow> a \<noteq> None)
   \<and> (\<not> ptr_enabled (s_pay_to_relay s) \<longrightarrow>
        (case pubkey_whitelist (s_authorization s) of None \<Rightarrow> True | Some wl \<Rightarrow> ev_pubkey e \<in> set wl))"
proof -
  have gw: "gift_wrap_check e = Allow \<longleftrightarrow> (ev_kind e = 1059 \<longrightarrow> gift_wrap_shape e)"
    using gift_wrap_Allow gift_wrap_other by blast
  have "admission_check X (from_settings X s) e a = Allow \<longleftrightarrow>
    (\<forall>p\<in>set (from_settings X s). policy_check X p e a = Allow)"
    unfolding adm.allow_iff by simp
  then show ?thesis unfolding from_settings_all by (simp add: gw cong: option.case_cong)
qed

lemma no_auth_hint:
  "policy_check X p e a = Deny r True \<Longrightarrow> p = RequireAuth \<and> a = None"
  by (cases p) (auto simp: kind_whitelist_check_def gift_wrap_check_def restricted_kind_check_def
      pubkey_whitelist_check_def require_auth_check_def deny_def Let_def split: if_splits)

lemma auth_hint_after_shape:
  assumes d: "admission_check X (from_settings X s) e a = Deny r True"
  shows "a = None \<and> nip42_auth (s_authorization s) \<and> require_auth_to_write (s_authorization s) \<and>
      ev_kind e \<in> set (allowed_kinds s) \<and> gift_wrap_check e = Allow"
proof -
  let ?pre = "[KindWhitelist (allowed_kinds s), GiftWrapRetention,
      RestrictedKindAuthors (from_entries X (note_entries s))]"
  have "\<forall>w\<in>set (map (policy_check X) ?pre). w e a = Allow"
  proof (rule adm.prefix_passed [OF _ d])
    show "map (policy_check X) (from_settings X s) =
        map (policy_check X) ?pre @ map (policy_check X) (drop 3 (from_settings X s))"
      by (simp add: from_settings_def)
    show "v e a \<noteq> Deny r' True" if "v \<in> set (map (policy_check X) ?pre)" for v r'
      using that no_auth_hint [of X _ e a r'] by fastforce
  qed
  then have "ev_kind e \<in> set (allowed_kinds s)" "gift_wrap_check e = Allow" by auto
  moreover from adm.denial_from_policy [OF d] obtain q where "q \<in> set (from_settings X s)"
    "policy_check X q e a = Deny r True" by auto
  with no_auth_hint have "RequireAuth \<in> set (from_settings X s)" "a = None" by blast+
  ultimately show ?thesis by (simp add: RequireAuth_installed)
qed

section \<open>Properties\<close>

text \<open>C6: The admission pipeline admits an event exactly when all of these hold: its kind is on
  the configured whitelist (on the built-in Floonet set when none is configured); if it is
  a gift wrap, it has the required shape; if it is a public note (kind 1 or 30023), its
  author is one of the authorized authors; if authentication is required to write, the
  client is authenticated; and on a free relay with an author whitelist the author is on
  it.\<close>

theorem admission_decision:
  "admission_check X (from_settings X s) e a = Allow \<longleftrightarrow>
     ev_kind e \<in> set (case event_kind_allowlist (s_limits s) of Some ks \<Rightarrow> ks | None \<Rightarrow> DEFAULT_ALLOWED_KINDS)
   \<and> (ev_kind e \<noteq> 1059 \<or> gift_wrap_shape e)
   \<and> (ev_kind e \<notin> {1, 30023} \<or> to_lowercase (ulower X) (ev_pubkey e) \<in> set (from_entries X (note_entries s)))
   \<and> (nip42_auth (s_authorization s) \<and> require_auth_to_write (s_authorization s) \<longrightarrow> a \<noteq> None)
   \<and> (\<not> ptr_enabled (s_pay_to_relay s) \<longrightarrow>
        (case pubkey_whitelist (s_authorization s) of None \<Rightarrow> True | Some wl \<Rightarrow> ev_pubkey e \<in> set wl))"
  unfolding admission_Allow_iff allowed_kinds_def note_entries_def by blast

theorem admission_decision_witness:
  "admission_check std_ext (from_settings std_ext default_settings) demo_event None = Allow"
  unfolding admission_decision
  by (simp add: default_settings_def demo_event_def DEFAULT_ALLOWED_KINDS_def gift_wrap_shape_def
      is_lower_hex_iff list_all_iff ascii_defs)



end
