(* ===== verification/Account_Store.thy ===== *)
theory Account_Store
  imports Event
begin

text \<open>
  Accounts and invoices of the SQLite repository (\<^verbatim>\<open>src/src/repo/sqlite.rs\<close>) and the invoice
  types of \<^verbatim>\<open>src/src/payment/mod.rs\<close>. A table is the list of its rows in insertion order. Each
  operation is one transaction: it takes effect as a whole or, on an error, not at all.
  A \<^verbatim>\<open>u64\<close> above \<^verbatim>\<open>i64::MAX\<close> cannot be bound to a statement, a negative or floating column
  cannot be read as \<^verbatim>\<open>u64\<close>. Key objects are represented by their public key text, the time
  \<^verbatim>\<open>strftime('%s','now')\<close> is an argument.
\<close>

section \<open>Types\<close>

datatype invoice_status = Unpaid | Paid | Expired

fun show_status :: "invoice_status \<Rightarrow> string" where
  "show_status Paid = ''Paid''"
| "show_status Unpaid = ''Unpaid''"
| "show_status Expired = ''Expired''"

record invoice_info =
  ii_pubkey :: string
  ii_payment_hash :: string
  ii_bolt11 :: string
  ii_amount :: u64
  ii_status :: invoice_status
  ii_memo :: string
  ii_confirmed_at :: "u64 option"

record account_row =
  acc_pubkey :: string
  acc_admitted :: bool
  acc_balance :: sql_num
  acc_tos_accepted_at :: "int option"

record invoice_row =
  inv_payment_hash :: string
  inv_pubkey :: string
  inv_invoice :: string
  inv_amount :: u64
  inv_status :: string
  inv_description :: string
  inv_created_at :: int
  inv_confirmed_at :: "int option"

record account_db =
  accounts :: "account_row list"
  invoices :: "invoice_row list"

section \<open>SQL arithmetic\<close>

definition in_i64 :: "int \<Rightarrow> bool" where
  "in_i64 n \<longleftrightarrow> - (2 ^ 63) \<le> n \<and> n < 2 ^ 63"

definition balance_add :: "externals \<Rightarrow> sql_num \<Rightarrow> int \<Rightarrow> sql_num" where
  "balance_add X b n =
     (case b of IntCol i \<Rightarrow> if in_i64 (i + n) then IntCol (i + n) else sql_real_add X b n
      | RealCol _ \<Rightarrow> sql_real_add X b n)"

definition get_u64 :: "sql_num \<Rightarrow> (u64, error) result" where
  "get_u64 b =
     (case b of IntCol i \<Rightarrow> if 0 \<le> i then Ok (word_of_int i) else Err (SqlError (OtherSqlError ''IntegralValueOutOfRange''))
      | RealCol _ \<Rightarrow> Err (SqlError (OtherSqlError ''InvalidColumnType'')))"

definition bind_u64 :: "u64 \<Rightarrow> (int, error) result" where
  "bind_u64 w = (if fits_i64 w then Ok (uint w) else Err (SqlError (OtherSqlError ''ToSqlConversionFailure'')))"

section \<open>Accounts\<close>

definition find_account :: "account_db \<Rightarrow> string \<Rightarrow> account_row option" where
  "find_account db pk = List.find (\<lambda>a. acc_pubkey a = pk) (accounts db)"

definition map_account :: "string \<Rightarrow> (account_row \<Rightarrow> account_row) \<Rightarrow> account_db \<Rightarrow> account_db" where
  "map_account pk f db = db\<lparr>accounts := map (\<lambda>a. if acc_pubkey a = pk then f a else a) (accounts db)\<rparr>"

definition create_account :: "string \<Rightarrow> account_db \<Rightarrow> account_db \<times> (bool, error) result" where
  "create_account pk db =
     (if find_account db pk \<noteq> None then (db, Ok False)
      else (db\<lparr>accounts := accounts db @
              [\<lparr>acc_pubkey = pk, acc_admitted = False, acc_balance = IntCol 0, acc_tos_accepted_at = None\<rparr>]\<rparr>,
            Ok True))"

definition admit_account ::
  "externals \<Rightarrow> int \<Rightarrow> string \<Rightarrow> u64 \<Rightarrow> account_db \<Rightarrow> account_db \<times> (unit, error) result" where
  "admit_account X now pk cost db =
     (case bind_u64 cost of
        Err e \<Rightarrow> (db, Err e)
      | Ok c \<Rightarrow>
        (map_account pk (\<lambda>a. a\<lparr>acc_admitted := True, acc_tos_accepted_at := Some now,
           acc_balance := balance_add X (acc_balance a) (- c)\<rparr>) db, Ok ()))"

definition get_account_balance :: "string \<Rightarrow> account_db \<Rightarrow> (bool \<times> u64, error) result" where
  "get_account_balance pk db =
     (case find_account db pk of
        None \<Rightarrow> Err (SqlError QueryReturnedNoRows)
      | Some a \<Rightarrow> map_ok (\<lambda>b. (acc_admitted a, b)) (get_u64 (acc_balance a)))"

definition update_account_balance ::
  "externals \<Rightarrow> string \<Rightarrow> bool \<Rightarrow> u64 \<Rightarrow> account_db \<Rightarrow> account_db \<times> (unit, error) result" where
  "update_account_balance X pk positive new_balance db =
     (case bind_u64 new_balance of
        Err e \<Rightarrow> (db, Err e)
      | Ok n \<Rightarrow>
        (map_account pk (\<lambda>a. a\<lparr>acc_balance := balance_add X (acc_balance a) (if positive then n else - n)\<rparr>) db,
         Ok ()))"

section \<open>Invoices\<close>

definition find_invoice :: "account_db \<Rightarrow> string \<Rightarrow> invoice_row option" where
  "find_invoice db h = List.find (\<lambda>i. inv_payment_hash i = h) (invoices db)"

text \<open>The primary key is the payment hash and the public key references an account.\<close>

definition create_invoice_record ::
  "int \<Rightarrow> string \<Rightarrow> invoice_info \<Rightarrow> account_db \<Rightarrow> account_db \<times> (unit, error) result" where
  "create_invoice_record now pk info db =
     (case bind_u64 (ii_amount info) of
        Err e \<Rightarrow> (db, Err e)
      | Ok _ \<Rightarrow>
        if find_invoice db (ii_payment_hash info) \<noteq> None \<or> find_account db pk = None
        then (db, Err (SqlError (SqliteFailure True)))
        else (db\<lparr>invoices := invoices db @
               [\<lparr>inv_payment_hash = ii_payment_hash info, inv_pubkey = pk, inv_invoice = ii_bolt11 info,
                 inv_amount = ii_amount info, inv_status = show_status (ii_status info),
                 inv_description = ii_memo info, inv_created_at = now, inv_confirmed_at = None\<rparr>]\<rparr>,
              Ok ()))"

definition set_status :: "int \<Rightarrow> string \<Rightarrow> invoice_status \<Rightarrow> account_db \<Rightarrow> account_db" where
  "set_status now h status db =
     db\<lparr>invoices := map (\<lambda>i. if inv_payment_hash i = h
          then (if status = Paid then i\<lparr>inv_status := show_status status, inv_confirmed_at := Some now\<rparr>
                else i\<lparr>inv_status := show_status status\<rparr>)
          else i) (invoices db)\<rparr>"

definition update_invoice ::
  "externals \<Rightarrow> int \<Rightarrow> string \<Rightarrow> invoice_status \<Rightarrow> account_db \<Rightarrow> account_db \<times> (string, error) result" where
  "update_invoice X now payment_hash status db =
     (case find_invoice db payment_hash of
        None \<Rightarrow> (db, Err (SqlError QueryReturnedNoRows))
      | Some row \<Rightarrow>
        (let db1 = set_status now payment_hash status db;
             db2 = (if inv_status row = ''Unpaid'' \<and> status = Paid
                    then map_account (inv_pubkey row)
                      (\<lambda>a. a\<lparr>acc_balance := balance_add X (acc_balance a) (uint (inv_amount row))\<rparr>) db1
                    else db1)
         in (db2, Ok (inv_pubkey row))))"

text \<open>The most recent row, the first inserted among several of the same second.\<close>

definition newest :: "invoice_row list \<Rightarrow> invoice_row option" where
  "newest rows =
     (case rows of [] \<Rightarrow> None
      | r # rs \<Rightarrow> Some (foldl (\<lambda>best i. if inv_created_at best < inv_created_at i then i else best) r rs))"

definition get_unpaid_invoice :: "string \<Rightarrow> account_db \<Rightarrow> (invoice_info option, error) result" where
  "get_unpaid_invoice pk db =
     (case newest (filter (\<lambda>i. inv_pubkey i = pk \<and> inv_status i = ''Unpaid'') (invoices db)) of
        None \<Rightarrow> Err (SqlError QueryReturnedNoRows)
      | Some i \<Rightarrow> Ok (Some \<lparr>ii_pubkey = pk, ii_payment_hash = inv_payment_hash i, ii_bolt11 = inv_invoice i,
          ii_amount = inv_amount i, ii_status = Unpaid, ii_memo = inv_description i,
          ii_confirmed_at = None\<rparr>))"

text \<open>A call that can fail for outside reasons leaves the store as it was.\<close>

definition try_call :: "'e option \<Rightarrow> 's \<times> ('a, 'e) result \<Rightarrow> 's \<Rightarrow> 's \<times> ('a, 'e) result" where
  "try_call fault r st = (case fault of Some e \<Rightarrow> (st, Err e) | None \<Rightarrow> r)"

section \<open>Operation sequences\<close>

datatype acc_op =
    CreateAccount string
  | AdmitAccount int string u64
  | UpdateBalance string bool u64
  | CreateInvoice int string invoice_info
  | UpdateInvoice int string invoice_status

fun acc_step :: "externals \<Rightarrow> acc_op \<Rightarrow> account_db \<Rightarrow> account_db" where
  "acc_step X (CreateAccount pk) db = fst (create_account pk db)"
| "acc_step X (AdmitAccount now pk c) db = fst (admit_account X now pk c db)"
| "acc_step X (UpdateBalance pk pos n) db = fst (update_account_balance X pk pos n db)"
| "acc_step X (CreateInvoice now pk info) db = fst (create_invoice_record now pk info db)"
| "acc_step X (UpdateInvoice now h st) db = fst (update_invoice X now h st db)"

fun admits :: "acc_op \<Rightarrow> string \<Rightarrow> bool" where
  "admits (AdmitAccount now p c) pk \<longleftrightarrow> p = pk \<and> fits_i64 c"
| "admits _ pk \<longleftrightarrow> False"

definition is_admitted :: "account_db \<Rightarrow> string \<Rightarrow> bool" where
  "is_admitted db pk \<longleftrightarrow> (\<exists>a\<in>set (accounts db). acc_pubkey a = pk \<and> acc_admitted a)"

definition has_account :: "account_db \<Rightarrow> string \<Rightarrow> bool" where
  "has_account db pk \<longleftrightarrow> pk \<in> acc_pubkey ` set (accounts db)"

section \<open>Invariant\<close>

definition acc_inv :: "account_db \<Rightarrow> bool" where
  "acc_inv db \<longleftrightarrow>
     distinct (map acc_pubkey (accounts db)) \<and> distinct (map inv_payment_hash (invoices db)) \<and>
     (\<forall>i\<in>set (invoices db). has_account db (inv_pubkey i) \<and> fits_i64 (inv_amount i) \<and>
        inv_status i \<in> {''Paid'', ''Unpaid'', ''Expired''})"

definition empty_db :: account_db where
  "empty_db = \<lparr>accounts = [], invoices = []\<rparr>"

section \<open>Lemmas\<close>

lemma find_account_None: "find_account db pk = None \<longleftrightarrow> \<not> has_account db pk"
  by (auto simp: find_account_def has_account_def find_None_all)

lemma find_invoice_None: "find_invoice db h = None \<longleftrightarrow> h \<notin> inv_payment_hash ` set (invoices db)"
  by (auto simp: find_invoice_def find_None_all)

lemma find_account_Some: "find_account db pk = Some a \<Longrightarrow> a \<in> set (accounts db) \<and> acc_pubkey a = pk"
  unfolding find_account_def by (drule find_Some_iff) simp

lemma find_invoice_Some: "find_invoice db h = Some i \<Longrightarrow> i \<in> set (invoices db) \<and> inv_payment_hash i = h"
  unfolding find_invoice_def by (drule find_Some_iff) simp

lemma map_account_sel [simp]:
  "invoices (map_account pk f db) = invoices db"
  "(\<And>a. acc_pubkey (f a) = acc_pubkey a) \<Longrightarrow> map acc_pubkey (accounts (map_account pk f db)) = map acc_pubkey (accounts db)"
  "(\<And>a. acc_pubkey (f a) = acc_pubkey a) \<Longrightarrow> has_account (map_account pk f db) q = has_account db q"
proof -
  assume f: "\<And>a. acc_pubkey (f a) = acc_pubkey a"
  show *: "map acc_pubkey (accounts (map_account pk f db)) = map acc_pubkey (accounts db)"
    using f by (simp add: map_account_def)
  then have "acc_pubkey ` set (accounts (map_account pk f db)) = acc_pubkey ` set (accounts db)"
    by (metis set_map)
  then show "has_account (map_account pk f db) q = has_account db q" by (simp add: has_account_def)
qed (simp add: map_account_def)

lemma map_account_admitted:
  assumes "\<And>a. acc_pubkey (f a) = acc_pubkey a" "\<And>a. acc_admitted (f a) = (acc_admitted a \<or> b)"
  shows "is_admitted (map_account pk f db) q \<longleftrightarrow> is_admitted db q \<or> b \<and> q = pk \<and> has_account db q"
  unfolding is_admitted_def has_account_def map_account_def by (auto simp: assms simp del: if_image_distrib)

lemma set_status_sel [simp]:
  "accounts (set_status now h st db) = accounts db"
  "map inv_payment_hash (invoices (set_status now h st db)) = map inv_payment_hash (invoices db)"
  "has_account (set_status now h st db) = has_account db"
  "is_admitted (set_status now h st db) = is_admitted db"
  by (simp_all add: set_status_def has_account_def is_admitted_def fun_eq_iff)

lemma set_status_rows:
  "i \<in> set (invoices (set_status now h st db)) \<Longrightarrow>
     \<exists>j\<in>set (invoices db). inv_pubkey i = inv_pubkey j \<and> inv_amount i = inv_amount j \<and>
       (inv_status i = inv_status j \<or> inv_status i = show_status st)"
  by (auto simp: set_status_def split: if_splits)

lemma show_status_cases: "show_status st \<in> {''Paid'', ''Unpaid'', ''Expired''}"
  by (cases st) auto

lemma set_status_inv: "acc_inv db \<Longrightarrow> acc_inv (set_status now h st db)"
  using set_status_rows [of _ now h st db] show_status_cases [of st]
  unfolding acc_inv_def by (simp only: set_status_sel) metis

lemma map_account_inv:
  "(\<And>a. acc_pubkey (f a) = acc_pubkey a) \<Longrightarrow> acc_inv (map_account pk f db) = acc_inv db"
  by (simp add: acc_inv_def)

lemma acc_step_inv: "acc_inv db \<Longrightarrow> acc_inv (acc_step X op db)"
proof (cases op)
  case (CreateAccount pk)
  assume "acc_inv db"
  with CreateAccount show ?thesis
    using find_account_None [of db pk]
    by (auto simp: create_account_def acc_inv_def has_account_def)
next
  case (AdmitAccount now pk c)
  assume "acc_inv db"
  with AdmitAccount show ?thesis by (auto simp: admit_account_def map_account_inv split: result.splits)
next
  case (UpdateBalance pk pos n)
  assume "acc_inv db"
  with UpdateBalance show ?thesis
    by (auto simp: update_account_balance_def map_account_inv split: result.splits)
next
  case (CreateInvoice now pk info)
  assume "acc_inv db"
  with CreateInvoice show ?thesis
    using find_account_None [of db pk] find_invoice_None [of db "ii_payment_hash info"]
      show_status_cases [of "ii_status info"]
    by (auto simp: create_invoice_record_def acc_inv_def has_account_def bind_u64_def split: result.splits if_splits)
next
  case (UpdateInvoice now h st)
  assume "acc_inv db"
  with UpdateInvoice show ?thesis
    by (auto simp: update_invoice_def Let_def map_account_inv set_status_inv split: option.splits)
qed

lemma fold_inv: "acc_inv db \<Longrightarrow> acc_inv (fold (acc_step X) ops db)"
  by (induction ops arbitrary: db) (auto simp: acc_step_inv)

lemma find_map:
  "(\<And>x. P (g x) = P x) \<Longrightarrow> List.find P (map g xs) = map_option g (List.find P xs)"
  by (induction xs) auto

lemma find_map_account:
  assumes "\<And>a. acc_pubkey (f a) = acc_pubkey a"
  shows "find_account (map_account pk f db) q =
    (if q = pk then map_option f (find_account db q) else find_account db q)"
proof -
  have "find_account (map_account pk f db) q =
      map_option (\<lambda>a. if acc_pubkey a = pk then f a else a) (find_account db q)"
    unfolding find_account_def map_account_def by (simp add: find_map assms)
  then show ?thesis
    using find_account_Some [of db q] by (cases "find_account db q") auto
qed

lemma find_account_set_status [simp]: "find_account (set_status now h st db) q = find_account db q"
  by (simp add: find_account_def)

lemma find_invoice_map_account [simp]: "find_invoice (map_account pk f db) h = find_invoice db h"
  by (simp add: find_invoice_def)

lemma find_set_status:
  "find_invoice db h = Some row \<Longrightarrow>
     map_option inv_status (find_invoice (set_status now h st db) h) = Some (show_status st)"
  using find_invoice_Some [of db h row] unfolding find_invoice_def set_status_def
  by (simp add: find_map)

lemma foldl_in: "(\<And>x y. f x y = x \<or> f x y = y) \<Longrightarrow> foldl f x ys \<in> insert x (set ys)"
  by (induction ys arbitrary: x) (force, metis (no_types, lifting) foldl_Cons insert_iff list.simps(15))

lemma newest_in: "newest rows = Some i \<Longrightarrow> i \<in> set rows"
proof (cases rows)
  case (Cons r rs)
  assume "newest rows = Some i"
  moreover have "foldl (\<lambda>best i. if inv_created_at best < inv_created_at i then i else best) r rs \<in> insert r (set rs)"
    by (rule foldl_in) auto
  ultimately show ?thesis using Cons by (simp add: newest_def)
qed (simp add: newest_def)

lemma newest_snoc: "\<forall>i\<in>set rows. inv_created_at i < inv_created_at r \<Longrightarrow> newest (rows @ [r]) = Some r"
proof (cases rows)
  case (Cons x xs)
  assume all: "\<forall>i\<in>set rows. inv_created_at i < inv_created_at r"
  obtain i where i: "newest rows = Some i" using Cons by (simp add: newest_def)
  with all have "inv_created_at i < inv_created_at r" using newest_in by blast
  with Cons i show ?thesis by (simp add: newest_def)
qed (simp add: newest_def)

section \<open>The ledger interface\<close>

text \<open>
  What the payment code relies on: an account, once there, stays; it is admitted exactly by
  an admitting operation that finds it, and never loses the admission.
\<close>

locale ledger =
  fixes admitted :: "'db \<Rightarrow> string \<Rightarrow> bool"
    and known :: "'db \<Rightarrow> string \<Rightarrow> bool"
    and step :: "'op \<Rightarrow> 'db \<Rightarrow> 'db"
    and grants_to :: "'op \<Rightarrow> string \<Rightarrow> bool"
  assumes admitted_step: "admitted (step p db) pk \<longleftrightarrow> admitted db pk \<or> grants_to p pk \<and> known db pk"
    and known_step: "known db pk \<Longrightarrow> known (step p db) pk"
begin

lemma admitted_stays: "admitted db pk \<Longrightarrow> admitted (fold step ps db) pk"
  by (induction ps arbitrary: db) (auto simp: admitted_step)

lemma known_stays: "known db pk \<Longrightarrow> known (fold step ps db) pk"
  by (induction ps arbitrary: db) (auto simp: known_step)

lemma admitted_run:
  "admitted (fold step ps db) pk \<longleftrightarrow> admitted db pk \<or>
     (\<exists>pre p post. ps = pre @ p # post \<and> grants_to p pk \<and> known (fold step pre db) pk)"
proof (induction ps rule: rev_induct)
  case (snoc p ps)
  have "(\<exists>pre q post. ps @ [p] = pre @ q # post \<and> grants_to q pk \<and> known (fold step pre db) pk) \<longleftrightarrow>
      (\<exists>pre q post. ps = pre @ q # post \<and> grants_to q pk \<and> known (fold step pre db) pk) \<or>
      grants_to p pk \<and> known (fold step ps db) pk" (is "?L \<longleftrightarrow> ?R")
  proof
    assume ?L
    then obtain pre q post where "ps @ [p] = pre @ q # post" "grants_to q pk" "known (fold step pre db) pk"
      by blast
    then show ?R by (cases post rule: rev_cases) auto
  next
    assume ?R
    then show ?L by (metis append_Cons append_assoc append_Nil2 append_Nil)
  qed
  with snoc show ?case by (simp add: admitted_step)
qed simp

end

interpretation led: ledger is_admitted has_account "acc_step X" admits for X
proof
  fix p db pk
  show "is_admitted (acc_step X p db) pk \<longleftrightarrow> is_admitted db pk \<or> admits p pk \<and> has_account db pk"
  proof (cases p)
    case (CreateAccount q)
    then show ?thesis by (auto simp: create_account_def is_admitted_def)
  next
    case (AdmitAccount now q c)
    then show ?thesis
      by (auto simp: admit_account_def bind_u64_def map_account_admitted [where b = True])
  next
    case (UpdateBalance q pos n)
    then show ?thesis
      by (auto simp: update_account_balance_def bind_u64_def map_account_admitted [where b = False])
  next
    case (CreateInvoice now q info)
    then show ?thesis
      by (auto simp: create_invoice_record_def is_admitted_def split: result.splits)
  next
    case (UpdateInvoice now h st)
    then show ?thesis
      by (auto simp: update_invoice_def Let_def map_account_admitted [where b = False] split: option.splits)
  qed
next
  fix p db pk
  show "has_account db pk \<Longrightarrow> has_account (acc_step X p db) pk"
    by (cases p) (auto simp: create_account_def admit_account_def update_account_balance_def
        create_invoice_record_def update_invoice_def Let_def has_account_def [of "_\<lparr>accounts := _\<rparr>"]
        has_account_def [of "_\<lparr>invoices := _\<rparr>"] has_account_def [of db] split: result.splits option.splits)
qed

lemma admitted_update_invoice: "is_admitted (fst (update_invoice X now h st db)) pk = is_admitted db pk"
  using led.admitted_step [of X "UpdateInvoice now h st" db pk] by simp

lemma admitted_create_account: "is_admitted (fst (create_account q db)) pk = is_admitted db pk"
  using led.admitted_step [of X "CreateAccount q" db pk] by simp

lemma admitted_create_invoice: "is_admitted (fst (create_invoice_record now q info db)) pk = is_admitted db pk"
  using led.admitted_step [of X "CreateInvoice now q info" db pk] by simp

lemma try_call_fst: "fst (try_call f r st) = (if f = None then fst r else st)"
  by (simp add: try_call_def split: option.splits)

lemma try_call_Ok: "try_call f r st = (st', Ok a) \<longleftrightarrow> f = None \<and> r = (st', Ok a)"
  by (simp add: try_call_def split: option.splits)

lemma unpaid_invoice_account:
  assumes "get_unpaid_invoice pk db = Ok (Some info)" "acc_inv db"
  shows "has_account db pk"
proof -
  obtain i where "newest (filter (\<lambda>i. inv_pubkey i = pk \<and> inv_status i = ''Unpaid'') (invoices db)) = Some i"
    using assms(1) by (auto simp: get_unpaid_invoice_def split: option.splits)
  from newest_in [OF this] show ?thesis using assms(2) by (auto simp: acc_inv_def)
qed

lemma get_account_balance_admitted: "get_account_balance pk db = Ok (True, b) \<Longrightarrow> is_admitted db pk"
  by (auto simp: get_account_balance_def is_admitted_def split: option.splits dest!: find_account_Some)

lemma admit_account_Ok:
  assumes "admit_account X now pk c db = (db', Ok u)" "has_account db pk"
  shows "is_admitted db' pk"
proof -
  have "fits_i64 c" "db' = acc_step X (AdmitAccount now pk c) db"
    using assms(1) by (auto simp: admit_account_def bind_u64_def split: if_splits)
  then show ?thesis using led.admitted_step [of X "AdmitAccount now pk c" db pk] assms(2) by simp
qed

section \<open>Properties\<close>

text \<open>Through any sequence of repository calls starting from the empty database, public keys
  and payment hashes stay unique, every invoice belongs to an account and has a legal status,
  and an account is admitted exactly when some call admitted it while it existed: neither
  creating accounts or invoices nor changing balances or invoice states ever admits anyone.\<close>

theorem account_store_invariant:
  "acc_inv (fold (acc_step X) ops empty_db) \<and>
   (is_admitted (fold (acc_step X) ops empty_db) pk \<longleftrightarrow>
     (\<exists>pre now c post. ops = pre @ AdmitAccount now pk c # post \<and> fits_i64 c \<and>
        has_account (fold (acc_step X) pre empty_db) pk))"
proof
  show "acc_inv (fold (acc_step X) ops empty_db)"
    by (rule fold_inv) (simp add: acc_inv_def empty_db_def)
  have "\<not> is_admitted empty_db pk" by (simp add: is_admitted_def empty_db_def)
  moreover have "admits p pk \<longleftrightarrow> (\<exists>now c. p = AdmitAccount now pk c \<and> fits_i64 c)" for p
    by (cases p) auto
  ultimately show "is_admitted (fold (acc_step X) ops empty_db) pk \<longleftrightarrow>
     (\<exists>pre now c post. ops = pre @ AdmitAccount now pk c # post \<and> fits_i64 c \<and>
        has_account (fold (acc_step X) pre empty_db) pk)"
    unfolding led.admitted_run by auto
qed

text \<open>A payment is credited once. Marking an invoice paid returns its owner, adds its amount
  to the owner's balance exactly if it was unpaid, touches no other account, and marking it
  paid again changes no account.\<close>

theorem invoice_credited_once:
  assumes "find_invoice db h = Some row" "find_account db (inv_pubkey row) = Some a"
    and "acc_balance a = IntCol n" "in_i64 (n + uint (inv_amount row))"
    and "update_invoice X now h Paid db = (db1, r)"
  shows "r = Ok (inv_pubkey row) \<and>
    find_account db1 (inv_pubkey row) =
      Some (a\<lparr>acc_balance := IntCol (if inv_status row = ''Unpaid'' then n + uint (inv_amount row) else n)\<rparr>) \<and>
    (\<forall>q. q \<noteq> inv_pubkey row \<longrightarrow> find_account db1 q = find_account db q) \<and>
    accounts (fst (update_invoice X later h Paid db1)) = accounts db1"
proof -
  have db1: "r = Ok (inv_pubkey row)" "find_account db1 q =
      (if q = inv_pubkey row \<and> inv_status row = ''Unpaid''
       then Some (a\<lparr>acc_balance := IntCol (n + uint (inv_amount row))\<rparr>) else find_account db q)"
    "map_option inv_status (find_invoice db1 h) = Some ''Paid''" for q
    using assms find_set_status [OF assms(1), of now Paid]
    by (auto simp: update_invoice_def Let_def find_map_account balance_add_def)
  then obtain row1 where "find_invoice db1 h = Some row1" "inv_status row1 = ''Paid''" by auto
  then have "accounts (fst (update_invoice X later h Paid db1)) = accounts db1"
    by (simp add: update_invoice_def Let_def)
  with db1 assms(2,3) show ?thesis by auto
qed

definition demo_db :: account_db where
  "demo_db = \<lparr>accounts = [\<lparr>acc_pubkey = ''pk'', acc_admitted = False, acc_balance = IntCol 0, acc_tos_accepted_at = None\<rparr>],
     invoices = [\<lparr>inv_payment_hash = ''h'', inv_pubkey = ''pk'', inv_invoice = ''url'', inv_amount = 7,
       inv_status = ''Unpaid'', inv_description = [], inv_created_at = 1, inv_confirmed_at = None\<rparr>]\<rparr>"

theorem invoice_credited_once_witness:
  "\<exists>db1 a. update_invoice std_ext 2 ''h'' Paid demo_db = (db1, Ok ''pk'') \<and>
     find_account db1 ''pk'' = Some a \<and> acc_balance a = IntCol 7"
proof -
  obtain db1 r where u: "update_invoice std_ext 2 ''h'' Paid demo_db = (db1, r)" by force
  have "r = Ok ''pk'' \<and> (\<exists>a. find_account db1 ''pk'' = Some a \<and> acc_balance a = IntCol 7)"
    using invoice_credited_once [of demo_db "''h''" "hd (invoices demo_db)" "hd (accounts demo_db)" 0, OF _ _ _ _ u]
    by (simp add: demo_db_def find_invoice_def find_account_def in_i64_def)
  with u show ?thesis by auto
qed

text \<open>What is stored can be found again: after an unpaid invoice has been recorded later
  than every other unpaid invoice of the account, looking up the account's outstanding
  invoice returns exactly it.\<close>

theorem unpaid_invoice_found:
  assumes "create_invoice_record now pk info db = (db', Ok ())" "ii_status info = Unpaid"
    and "\<forall>i\<in>set (invoices db). inv_pubkey i = pk \<and> inv_status i = ''Unpaid'' \<longrightarrow> inv_created_at i < now"
  shows "get_unpaid_invoice pk db' = Ok (Some (info\<lparr>ii_pubkey := pk, ii_confirmed_at := None\<rparr>))"
proof -
  let ?row = "\<lparr>inv_payment_hash = ii_payment_hash info, inv_pubkey = pk, inv_invoice = ii_bolt11 info,
     inv_amount = ii_amount info, inv_status = ''Unpaid'', inv_description = ii_memo info,
     inv_created_at = now, inv_confirmed_at = None\<rparr>"
  have "invoices db' = invoices db @ [?row]"
    using assms(1,2) by (auto simp: create_invoice_record_def split: result.splits if_splits)
  moreover have "newest (filter (\<lambda>i. inv_pubkey i = pk \<and> inv_status i = ''Unpaid'') (invoices db) @ [?row]) = Some ?row"
    using assms(3) by (intro newest_snoc) auto
  ultimately show ?thesis using assms(2) by (simp add: get_unpaid_invoice_def)
qed

definition demo_info :: invoice_info where
  "demo_info = \<lparr>ii_pubkey = ''pk'', ii_payment_hash = ''h2'', ii_bolt11 = ''url2'', ii_amount = 9,
     ii_status = Unpaid, ii_memo = ''m'', ii_confirmed_at = None\<rparr>"

theorem unpaid_invoice_found_witness:
  "get_unpaid_invoice ''pk'' (fst (create_invoice_record 5 ''pk'' demo_info demo_db)) = Ok (Some demo_info)"
proof -
  obtain db' where c: "create_invoice_record 5 ''pk'' demo_info demo_db = (db', Ok ())"
    by (simp add: create_invoice_record_def bind_u64_def fits_i64_def demo_info_def demo_db_def
        find_invoice_def find_account_def)
  from unpaid_invoice_found [OF this] c show ?thesis by (simp add: demo_info_def demo_db_def)
qed

end
