(* ===== verification/Event_Store.thy ===== *)
theory Event_Store
  imports Account_Store "HOL-Library.Multiset"
begin

text \<open>
  Event persistence of the SQLite repository (\<^verbatim>\<open>src/src/repo/sqlite.rs\<close>): the event, tag and
  verification tables, \<^verbatim>\<open>persist_event\<close> with replacement (NIP-01, NIP-33) and deletion (NIP-09),
  \<^verbatim>\<open>write_event\<close>, \<^verbatim>\<open>delete_expired\<close> and the verification records. Deleting an event cascades to
  its tag and verification rows. Where a statement orders rows, the order of rows with equal
  keys is not determined: the sorting function \<open>ord\<close> is an argument. The clock of SQLite and
  the failure of a statement (the transaction is then rolled back) are arguments too.
\<close>

section \<open>Tables\<close>

record event_row =
  er_id :: nat
  er_hash :: string
  er_first_seen :: int
  er_created_at :: u64
  er_expires_at :: "u64 option"
  er_author :: string
  er_delegated_by :: "string option"
  er_kind :: u64
  er_hidden :: bool
  er_content :: string

record tag_row =
  tr_event_id :: nat
  tr_name :: string
  tr_value :: string
  tr_created_at :: u64
  tr_kind :: u64

record verif_row =
  vr_id :: nat
  vr_event :: nat
  vr_name :: string
  vr_verified_at :: "int option"
  vr_failed_at :: "int option"
  vr_failure_count :: int

record event_db =
  db_events :: "event_row list"
  db_tags :: "tag_row list"
  db_verifs :: "verif_row list"

text \<open>The row id SQLite chooses: one more than the largest.\<close>

definition next_id :: "nat list \<Rightarrow> nat" where
  "next_id ids = Suc (fold max ids 0)"

definition delete_events :: "(event_row \<Rightarrow> bool) \<Rightarrow> event_db \<Rightarrow> event_db" where
  "delete_events P db =
     (let gone = map er_id (filter P (db_events db)) in
      \<lparr>db_events = filter (\<lambda>r. \<not> P r) (db_events db),
       db_tags = filter (\<lambda>t. tr_event_id t \<notin> set gone) (db_tags db),
       db_verifs = filter (\<lambda>v. vr_event v \<notin> set gone) (db_verifs db)\<rparr>)"

definition hide_events :: "(event_row \<Rightarrow> bool) \<Rightarrow> event_db \<Rightarrow> event_db" where
  "hide_events P db =
     db\<lparr>db_events := map (\<lambda>r. if P r then r\<lparr>er_hidden := True\<rparr> else r) (db_events db)\<rparr>"

type_synonym row_order = "(nat \<times> u64) list \<Rightarrow> (nat \<times> u64) list"

text \<open>\<^verbatim>\<open>ORDER BY created_at DESC\<close>.\<close>

definition sorts_desc :: "row_order \<Rightarrow> bool" where
  "sorts_desc ord \<longleftrightarrow> (\<forall>xs. mset (ord xs) = mset xs \<and> sorted_wrt (\<lambda>a b. snd b \<le> snd a) (ord xs))"

section \<open>persist\_event\<close>

definition bindable :: "event \<Rightarrow> bool" where
  "bindable e \<longleftrightarrow> fits_i64 (ev_created_at e) \<and> fits_i64 (ev_kind e) \<and>
     (case expiration e of None \<Rightarrow> True | Some x \<Rightarrow> fits_i64 x)"

text \<open>Is there a replaceable event that would hide this one?\<close>

definition superseded :: "externals \<Rightarrow> event \<Rightarrow> event_db \<Rightarrow> bool" where
  "superseded X e db \<longleftrightarrow> is_replaceable e \<and>
     (case hex_decode X (ev_pubkey e) of None \<Rightarrow> False
      | Some a \<Rightarrow> fits_i64 (ev_kind e) \<and> fits_i64 (ev_created_at e) \<and>
          list_ex (\<lambda>r. er_author r = a \<and> er_kind r = ev_kind e \<and> ev_created_at e \<le> er_created_at r) (db_events db))"

text \<open>The join of events and tags for one author, kind and \<^verbatim>\<open>d\<close> value.\<close>

definition d_rows :: "string \<Rightarrow> u64 \<Rightarrow> string \<Rightarrow> event_db \<Rightarrow> (event_row \<times> tag_row) list" where
  "d_rows a k d db =
     filter (\<lambda>(r, t). tr_event_id t = er_id r \<and> er_author r = a \<and> er_kind r = k \<and> tr_name t = ''d'' \<and> tr_value t = d)
       (List.product (db_events db) (db_tags db))"

definition param_superseded :: "externals \<Rightarrow> event \<Rightarrow> event_db \<Rightarrow> bool" where
  "param_superseded X e db =
     (case (distinct_param e, hex_decode X (ev_pubkey e)) of
        (Some d, Some a) \<Rightarrow> fits_i64 (ev_kind e) \<and> fits_i64 (ev_created_at e) \<and>
          list_ex (\<lambda>(r, t). ev_created_at e \<le> er_created_at r) (d_rows a (ev_kind e) d db)
      | _ \<Rightarrow> False)"

definition searchable_tags :: "event \<Rightarrow> string list list" where
  "searchable_tags e = filter (\<lambda>t. 2 \<le> length t \<and> single_char_tagname (t ! 0) \<noteq> None) (ev_tags e)"

definition insert_event :: "externals \<Rightarrow> int \<Rightarrow> event \<Rightarrow> string \<Rightarrow> string \<Rightarrow> string \<Rightarrow> event_db \<Rightarrow> event_db" where
  "insert_event X now e h a content db =
     (let i = next_id (map er_id (db_events db)) in
      db\<lparr>db_events := db_events db @
           [\<lparr>er_id = i, er_hash = h, er_first_seen = now, er_created_at = ev_created_at e,
             er_expires_at = expiration e, er_author = a,
             er_delegated_by = Option.bind (ev_delegated_by e) (hex_decode X),
             er_kind = ev_kind e, er_hidden = False, er_content = content\<rparr>],
         db_tags := db_tags db @ map (\<lambda>t. \<lparr>tr_event_id = i, tr_name = t ! 0, tr_value = t ! 1,
             tr_created_at = ev_created_at e, tr_kind = ev_kind e\<rparr>) (searchable_tags e)\<rparr>)"

text \<open>Only the newest replaceable event of an author and kind stays.\<close>

definition drop_replaced :: "row_order \<Rightarrow> event \<Rightarrow> string \<Rightarrow> event_db \<Rightarrow> event_db" where
  "drop_replaced ord e a db =
     (if is_replaceable e then
        (let same = (\<lambda>r. er_kind r = ev_kind e \<and> er_author r = a);
             kept = take 1 (ord (map (\<lambda>r. (er_id r, er_created_at r)) (filter same (db_events db))))
         in delete_events (\<lambda>r. same r \<and> er_id r \<notin> fst ` set kept) db)
      else db)"

text \<open>Of the joined rows of the \<^verbatim>\<open>d\<close> value all but the first are deleted.\<close>

definition drop_param_replaced :: "row_order \<Rightarrow> event \<Rightarrow> string \<Rightarrow> event_db \<Rightarrow> event_db" where
  "drop_param_replaced ord e a db =
     (case distinct_param e of
        None \<Rightarrow> db
      | Some d \<Rightarrow>
        (let old = drop 1 (ord (map (\<lambda>(r, t). (er_id r, tr_created_at t)) (d_rows a (ev_kind e) d db)))
         in delete_events (\<lambda>r. er_kind r = ev_kind e \<and> er_author r = a \<and> er_id r \<in> fst ` set old) db))"

definition deletion_targets :: "externals \<Rightarrow> event \<Rightarrow> string list" where
  "deletion_targets X e =
     List.map_filter (hex_decode X) (filter (\<lambda>x. is_hex x \<and> length x = 64) (tag_values_by_name e ''e''))"

definition hide_targets :: "externals \<Rightarrow> event \<Rightarrow> string \<Rightarrow> event_db \<Rightarrow> event_db" where
  "hide_targets X e a db =
     hide_events (\<lambda>r. er_kind r \<noteq> 5 \<and> er_kind r \<noteq> 1059 \<and> er_author r = a \<and> er_hash r \<in> set (deletion_targets X e)) db"

definition already_deleted :: "event \<Rightarrow> string \<Rightarrow> event_db \<Rightarrow> bool" where
  "already_deleted e a db \<longleftrightarrow>
     list_ex (\<lambda>r. er_author r = a \<and>
       list_ex (\<lambda>t. tr_event_id t = er_id r \<and> tr_name t = ''e'' \<and> tr_kind t = 5 \<and> tr_value t = ev_id e) (db_tags db))
     (db_events db)"

definition apply_deletions :: "externals \<Rightarrow> event \<Rightarrow> string \<Rightarrow> nat \<Rightarrow> event_db \<Rightarrow> event_db \<times> nat" where
  "apply_deletions X e a i db =
     (if ev_kind e = 5 then (hide_targets X e a db, 1)
      else if ev_kind e \<noteq> 1059 \<and> already_deleted e a db then (hide_events (\<lambda>r. er_id r = i) db, 0)
      else (db, 1))"

definition store_event ::
  "externals \<Rightarrow> row_order \<Rightarrow> int \<Rightarrow> event \<Rightarrow> string \<Rightarrow> string \<Rightarrow> string \<Rightarrow> event_db \<Rightarrow> event_db \<times> nat" where
  "store_event X ord now e h a content db =
     (let db1 = insert_event X now e h a content db;
          db2 = drop_replaced ord e a db1;
          db3 = drop_param_replaced ord e a db2
      in apply_deletions X e a (next_id (map er_id (db_events db))) db3)"

definition persist_event ::
  "externals \<Rightarrow> row_order \<Rightarrow> int \<Rightarrow> error option \<Rightarrow> event \<Rightarrow> event_db \<Rightarrow> event_db \<times> (nat, error) result" where
  "persist_event X ord now fault e db =
     (case fault of Some err \<Rightarrow> (db, Err err)
      | None \<Rightarrow>
        if superseded X e db \<or> param_superseded X e db then (db, Ok 0)
        else if \<not> bindable e then (db, Err (SqlError (OtherSqlError ''ToSqlConversionFailure'')))
        else (case (hex_decode X (ev_id e), hex_decode X (ev_pubkey e), event_to_string X e) of
           (Some h, Some a, Some content) \<Rightarrow>
             if h \<in> er_hash ` set (db_events db) then (db, Ok 0)
             else
               (case store_event X ord now e h a content db of (db', n) \<Rightarrow> (db', Ok n))
         | _ \<Rightarrow> (db, Ok 0)))"

text \<open>\<^verbatim>\<open>write_event\<close>: up to ten attempts as long as SQLite reports a failure.\<close>

definition is_sqlite_failure :: "(nat, error) result \<Rightarrow> bool" where
  "is_sqlite_failure r = (case r of Err (SqlError (SqliteFailure _)) \<Rightarrow> True | _ \<Rightarrow> False)"

fun write_attempts ::
  "(error option \<Rightarrow> event_db \<Rightarrow> event_db \<times> (nat, error) result) \<Rightarrow> nat \<Rightarrow> (nat \<Rightarrow> error option) \<Rightarrow> event_db \<Rightarrow>
   event_db \<times> (nat, error) result" where
  "write_attempts att 0 fault db = att (fault 0) db"
| "write_attempts att (Suc n) fault db =
     (case att (fault 0) db of (db', r) \<Rightarrow>
        if is_sqlite_failure r then write_attempts att n (\<lambda>k. fault (Suc k)) db' else (db', r))"

definition write_event ::
  "externals \<Rightarrow> row_order \<Rightarrow> int \<Rightarrow> error option \<Rightarrow> (nat \<Rightarrow> error option) \<Rightarrow> event \<Rightarrow> event_db \<Rightarrow>
   event_db \<times> (nat, error) result" where
  "write_event X ord now pool_fault fault e db =
     (case pool_fault of Some err \<Rightarrow> (db, Err err)
      | None \<Rightarrow> write_attempts (\<lambda>f. persist_event X ord now f e) 9 fault db)"

definition delete_expired :: "u64 \<Rightarrow> event_db \<Rightarrow> event_db \<times> (nat, error) result" where
  "delete_expired now db =
     (if \<not> fits_i64 now then (db, Err (SqlError (OtherSqlError ''ToSqlConversionFailure'')))
      else (let P = (\<lambda>r. case er_expires_at r of None \<Rightarrow> False | Some x \<Rightarrow> x \<le> now)
            in (delete_events P db, Ok (length (filter P (db_events db))))))"

section \<open>Verification records\<close>

definition create_verification_record ::
  "externals \<Rightarrow> int \<Rightarrow> string \<Rightarrow> string \<Rightarrow> event_db \<Rightarrow> event_db \<times> (unit, error) result" where
  "create_verification_record X now event_id name db =
     (case Option.bind (hex_decode X event_id) (\<lambda>h. List.find (\<lambda>r. er_hash r = h) (db_events db)) of
        None \<Rightarrow> (db, Err (SqlError (SqliteFailure True)))
      | Some r \<Rightarrow>
        (db\<lparr>db_verifs := filter (\<lambda>v. vr_name v \<noteq> name) (db_verifs db) @
           [\<lparr>vr_id = next_id (map vr_id (db_verifs db)), vr_event = er_id r, vr_name = name,
             vr_verified_at = Some now, vr_failed_at = None, vr_failure_count = 0\<rparr>]\<rparr>, Ok ()))"

definition on_verif :: "u64 \<Rightarrow> (verif_row \<Rightarrow> verif_row) \<Rightarrow> event_db \<Rightarrow> event_db \<times> (unit, error) result" where
  "on_verif i f db =
     (if fits_i64 i
      then (db\<lparr>db_verifs := map (\<lambda>v. if vr_id v = unat i then f v else v) (db_verifs db)\<rparr>, Ok ())
      else (db, Err (SqlError (OtherSqlError ''ToSqlConversionFailure''))))"

definition update_verification_timestamp :: "int \<Rightarrow> u64 \<Rightarrow> event_db \<Rightarrow> event_db \<times> (unit, error) result" where
  "update_verification_timestamp verif_time i db =
     on_verif i (\<lambda>v. v\<lparr>vr_verified_at := Some verif_time, vr_failure_count := 0\<rparr>) db"

definition fail_verification :: "int \<Rightarrow> u64 \<Rightarrow> event_db \<Rightarrow> event_db \<times> (unit, error) result" where
  "fail_verification fail_time i db =
     on_verif i (\<lambda>v. v\<lparr>vr_failed_at := Some fail_time, vr_failure_count := vr_failure_count v + 1\<rparr>) db"

definition delete_verification :: "u64 \<Rightarrow> event_db \<Rightarrow> event_db \<times> (unit, error) result" where
  "delete_verification i db =
     (if fits_i64 i then (db\<lparr>db_verifs := filter (\<lambda>v. vr_id v \<noteq> unat i) (db_verifs db)\<rparr>, Ok ())
      else (db, Err (SqlError (OtherSqlError ''ToSqlConversionFailure''))))"

section \<open>Invariant\<close>

definition ev_inv :: "event_db \<Rightarrow> bool" where
  "ev_inv db \<longleftrightarrow>
     distinct (map er_id (db_events db)) \<and> distinct (map er_hash (db_events db)) \<and>
     tr_event_id ` set (db_tags db) \<subseteq> er_id ` set (db_events db) \<and>
     distinct (map vr_id (db_verifs db)) \<and> vr_event ` set (db_verifs db) \<subseteq> er_id ` set (db_events db)"

definition empty_events :: event_db where
  "empty_events = \<lparr>db_events = [], db_tags = [], db_verifs = []\<rparr>"

lemma empty_events_sel: "db_events empty_events = []"
  by (simp add: empty_events_def)

section \<open>Lemmas\<close>

lemma fold_max: "n \<le> fold max ids n \<and> (\<forall>i\<in>set ids. i \<le> fold max ids n)" for n :: nat
proof (induction ids arbitrary: n)
  case (Cons a ids)
  from Cons [of "max a n"] show ?case by auto
qed simp

lemma next_id_fresh: "i \<in> set ids \<Longrightarrow> i < next_id ids"
  using fold_max [of 0 ids] by (auto simp: next_id_def)

lemma fresh_event_id: "r \<in> set (db_events db) \<Longrightarrow> er_id r \<noteq> next_id (map er_id (db_events db))"
  using next_id_fresh [of "er_id r" "map er_id (db_events db)"] by auto

lemma fresh_event_id': "next_id (map er_id (db_events db)) \<notin> er_id ` set (db_events db)"
  using fresh_event_id by force

lemma delete_events_sel [simp]:
  "db_events (delete_events P db) = filter (\<lambda>r. \<not> P r) (db_events db)"
  by (simp add: delete_events_def Let_def)

lemma surviving_refs:
  "f ` S \<subseteq> g ` A \<Longrightarrow> f ` {x \<in> S. f x \<notin> g ` {r \<in> A. P r}} \<subseteq> g ` {r \<in> A. \<not> P r}"
  by blast

lemma delete_events_inv: "ev_inv db \<Longrightarrow> ev_inv (delete_events P db)"
  unfolding ev_inv_def delete_events_def Let_def by (simp add: distinct_map_filterI surviving_refs)

lemma hide_events_sel [simp]:
  "map er_id (db_events (hide_events P db)) = map er_id (db_events db)"
  "map er_hash (db_events (hide_events P db)) = map er_hash (db_events db)"
  "db_tags (hide_events P db) = db_tags db" "db_verifs (hide_events P db) = db_verifs db"
  by (simp_all add: hide_events_def)

lemma hide_events_inv: "ev_inv db \<Longrightarrow> ev_inv (hide_events P db)"
  unfolding ev_inv_def by (metis hide_events_sel set_map)

lemma insert_event_inv:
  assumes "ev_inv db" "h \<notin> er_hash ` set (db_events db)"
  shows "ev_inv (insert_event X now e h a content db)"
  using assms fresh_event_id [of _ db]
  by (force simp: ev_inv_def insert_event_def Let_def)

lemma drop_replaced_inv: "ev_inv db \<Longrightarrow> ev_inv (drop_replaced ord e a db)"
  by (simp add: drop_replaced_def Let_def delete_events_inv)

lemma drop_param_replaced_inv: "ev_inv db \<Longrightarrow> ev_inv (drop_param_replaced ord e a db)"
  by (simp add: drop_param_replaced_def Let_def delete_events_inv split: option.splits)

lemma apply_deletions_inv: "ev_inv db \<Longrightarrow> ev_inv (fst (apply_deletions X e a i db))"
  by (simp add: apply_deletions_def hide_targets_def hide_events_inv)

lemma store_event_inv:
  "ev_inv db \<Longrightarrow> h \<notin> er_hash ` set (db_events db) \<Longrightarrow> ev_inv (fst (store_event X ord now e h a content db))"
  by (simp add: store_event_def Let_def apply_deletions_inv drop_param_replaced_inv drop_replaced_inv insert_event_inv)

lemma persist_cases:
  assumes "persist_event X ord now fault e db = (db', r)"
  obtains (unchanged) "db' = db" "r = Ok 0 \<or> (\<exists>x. r = Err x)"
  | (stored) h a content n where "hex_decode X (ev_id e) = Some h" "hex_decode X (ev_pubkey e) = Some a"
      "event_to_string X e = Some content" "h \<notin> er_hash ` set (db_events db)" "\<not> superseded X e db"
      "\<not> param_superseded X e db" "bindable e" "store_event X ord now e h a content db = (db', n)" "r = Ok n"
proof (cases "fault = None \<and> \<not> superseded X e db \<and> \<not> param_superseded X e db \<and> bindable e")
  case True
  then show thesis
    using assms unchanged stored unfolding persist_event_def
    by (auto split: option.splits if_splits prod.splits)
next
  case False
  then show thesis using assms unchanged unfolding persist_event_def by (auto split: option.splits if_splits)
qed

lemma persist_inv:
  assumes "ev_inv db"
  shows "ev_inv (fst (persist_event X ord now fault e db))"
proof (cases "persist_event X ord now fault e db")
  case (Pair db' r)
  then show ?thesis
  proof (cases rule: persist_cases)
    case (stored h a content n)
    with store_event_inv [OF assms stored(4), of X ord now e a content] Pair show ?thesis by simp
  qed (use assms Pair in simp)
qed

lemma write_attempts_inv:
  "(\<And>f d. ev_inv d \<Longrightarrow> ev_inv (fst (att f d))) \<Longrightarrow> ev_inv db \<Longrightarrow> ev_inv (fst (write_attempts att n fault db))"
proof (induction n arbitrary: fault db)
  case (Suc n)
  obtain db' r where a: "att (fault 0) db = (db', r)" by force
  with Suc.prems have "ev_inv db'" by (metis fst_conv)
  with Suc.IH [of db'] Suc.prems a show ?case by simp
qed simp

lemma on_verif_inv:
  assumes "\<And>v. vr_id (f v) = vr_id v" "\<And>v. vr_event (f v) = vr_event v" "ev_inv db"
  shows "ev_inv (fst (on_verif i f db))"
proof -
  let ?g = "\<lambda>v. if vr_id v = unat i then f v else v"
  have "map vr_id (map ?g vs) = map vr_id vs" for vs using assms(1) by (simp add: comp_def)
  moreover have "vr_event ` set (map ?g vs) = vr_event ` set vs" for vs
    by (simp add: image_image assms(2) if_distrib [of vr_event] del: if_image_distrib cong: if_cong)
  ultimately show ?thesis
    using assms(3) unfolding ev_inv_def on_verif_def
    by (simp del: map_map set_map list.set_map)
qed

section \<open>Operation sequences\<close>

datatype ev_op =
    WriteEvent int "error option" "nat \<Rightarrow> error option" event
  | DeleteExpired u64
  | CreateVerification int string string
  | UpdateVerification int u64
  | FailVerification int u64
  | DeleteVerification u64

fun ev_step :: "externals \<Rightarrow> row_order \<Rightarrow> ev_op \<Rightarrow> event_db \<Rightarrow> event_db" where
  "ev_step X ord (WriteEvent now pf f e) db = fst (write_event X ord now pf f e db)"
| "ev_step X ord (DeleteExpired now) db = fst (delete_expired now db)"
| "ev_step X ord (CreateVerification now i n) db = fst (create_verification_record X now i n db)"
| "ev_step X ord (UpdateVerification t i) db = fst (update_verification_timestamp t i db)"
| "ev_step X ord (FailVerification t i) db = fst (fail_verification t i db)"
| "ev_step X ord (DeleteVerification i) db = fst (delete_verification i db)"

lemma create_verification_inv: "ev_inv db \<Longrightarrow> ev_inv (fst (create_verification_record X now i n db))"
proof -
  assume inv: "ev_inv db"
  have "next_id (map vr_id (db_verifs db)) \<notin> vr_id ` set (db_verifs db)"
    using next_id_fresh [of _ "map vr_id (db_verifs db)"] by fastforce
  with inv show ?thesis
    unfolding ev_inv_def create_verification_record_def
    by (auto simp: distinct_map_filterI split: option.splits bind_splits dest!: find_Some_iff)
qed

lemma ev_step_inv: "ev_inv db \<Longrightarrow> ev_inv (ev_step X ord p db)"
proof (cases p)
  case (WriteEvent now pf f e)
  assume "ev_inv db"
  then have "ev_inv (fst (write_attempts (\<lambda>f. persist_event X ord now f e) 9 f db))"
    by (intro write_attempts_inv persist_inv)
  with WriteEvent \<open>ev_inv db\<close> show ?thesis by (simp add: write_event_def split: option.splits)
next
  case (DeleteVerification i)
  assume "ev_inv db"
  then have "ev_inv (db\<lparr>db_verifs := filter P (db_verifs db)\<rparr>)" for P
    unfolding ev_inv_def by (auto simp: distinct_map_filterI)
  with \<open>ev_inv db\<close> DeleteVerification show ?thesis by (simp add: delete_verification_def)
qed (auto simp: delete_expired_def Let_def delete_events_inv create_verification_inv
    update_verification_timestamp_def fail_verification_def intro: on_verif_inv)

lemma ev_run_inv: "ev_inv db \<Longrightarrow> ev_inv (fold (ev_step X ord) ps db)"
  by (induction ps arbitrary: db) (auto simp: ev_step_inv)

section \<open>Gift wraps\<close>

lemma gift_wrap_not_replaced: "ev_kind e = 1059 \<Longrightarrow> \<not> is_replaceable e \<and> distinct_param e = None"
  by (simp add: is_replaceable_def distinct_param_def is_param_replaceable_def)

lemma drop_replaced_kept:
  "r \<in> set (db_events db) \<Longrightarrow> er_kind r = 1059 \<Longrightarrow> r \<in> set (db_events (drop_replaced ord e a db))"
  by (auto simp: drop_replaced_def Let_def is_replaceable_def)

lemma drop_param_replaced_kept:
  "r \<in> set (db_events db) \<Longrightarrow> er_kind r = 1059 \<Longrightarrow> r \<in> set (db_events (drop_param_replaced ord e a db))"
  by (auto simp: drop_param_replaced_def Let_def distinct_param_def is_param_replaceable_def split: option.splits if_splits)

lemma hide_events_kept: "r \<in> set (db_events db) \<Longrightarrow> \<not> P r \<Longrightarrow> r \<in> set (db_events (hide_events P db))"
  by (force simp: hide_events_def)

lemma hide_events_mem:
  "r \<in> set (db_events (hide_events P db)) \<Longrightarrow>
     \<exists>r0\<in>set (db_events db). r = (if P r0 then r0\<lparr>er_hidden := True\<rparr> else r0)"
  unfolding hide_events_def by (auto simp del: if_image_distrib)

lemma apply_deletions_kept:
  "r \<in> set (db_events db) \<Longrightarrow> er_kind r = 1059 \<Longrightarrow> er_id r \<noteq> i \<or> ev_kind e = 1059 \<Longrightarrow>
     r \<in> set (db_events (fst (apply_deletions X e a i db)))"
  by (auto simp: apply_deletions_def hide_targets_def intro: hide_events_kept)

lemma store_event_kept:
  assumes "r \<in> set (db_events db)" "er_kind r = 1059"
  shows "r \<in> set (db_events (fst (store_event X ord now e h a content db)))"
proof -
  have "r \<in> set (db_events (insert_event X now e h a content db))"
    using assms(1) by (simp add: insert_event_def Let_def)
  with assms fresh_event_id [OF assms(1)] show ?thesis
    unfolding store_event_def Let_def
    by (intro apply_deletions_kept drop_param_replaced_kept drop_replaced_kept) auto
qed

lemma persist_kept:
  assumes "r \<in> set (db_events db)" "er_kind r = 1059"
  shows "r \<in> set (db_events (fst (persist_event X ord now fault e db)))"
proof (cases "persist_event X ord now fault e db")
  case (Pair db' x)
  then show ?thesis
  proof (cases rule: persist_cases)
    case (stored h a content n)
    with store_event_kept [OF assms, of X ord now e h a content] Pair show ?thesis by simp
  qed (use assms Pair in simp)
qed

lemma write_attempts_kept:
  "(\<And>f d. r \<in> set (db_events d) \<Longrightarrow> r \<in> set (db_events (fst (att f d)))) \<Longrightarrow> r \<in> set (db_events db) \<Longrightarrow>
     r \<in> set (db_events (fst (write_attempts att n fault db)))"
proof (induction n arbitrary: fault db)
  case (Suc n)
  obtain db' x where a: "att (fault 0) db = (db', x)" by force
  with Suc.prems have "r \<in> set (db_events db')" by (metis fst_conv)
  with Suc.IH [of db'] Suc.prems a show ?case by simp
qed simp

text \<open>A stored gift wrap without expiration outlives every operation, unchanged.\<close>

lemma gift_wrap_step:
  assumes "r \<in> set (db_events db)" "er_kind r = 1059" "er_expires_at r = None"
  shows "r \<in> set (db_events (ev_step X ord p db))"
proof (cases p)
  case (WriteEvent now pf f e)
  have "r \<in> set (db_events (fst (write_attempts (\<lambda>f. persist_event X ord now f e) 9 f db)))"
    using assms(1) persist_kept [OF _ assms(2)] by (intro write_attempts_kept)
  with WriteEvent assms(1) show ?thesis by (simp add: write_event_def split: option.splits)
qed (use assms in \<open>auto simp: delete_expired_def Let_def create_verification_record_def
    update_verification_timestamp_def fail_verification_def on_verif_def delete_verification_def split: option.splits\<close>)

lemma gift_wrap_run:
  "r \<in> set (db_events db) \<Longrightarrow> er_kind r = 1059 \<Longrightarrow> er_expires_at r = None \<Longrightarrow>
     r \<in> set (db_events (fold (ev_step X ord) ps db))"
  by (induction ps arbitrary: db) (auto simp: gift_wrap_step)

section \<open>Replacement\<close>

lemma sorts_desc_hd:
  assumes "sorts_desc ord" "x \<in> set xs" "\<forall>y\<in>set xs. y \<noteq> x \<longrightarrow> snd y < snd x" "distinct xs"
  shows "take 1 (ord xs) = [x]" "set (drop 1 (ord xs)) = set xs - {x}"
proof -
  have m: "mset (ord xs) = mset xs" and s: "sorted_wrt (\<lambda>a b. snd b \<le> snd a) (ord xs)"
    using assms(1) by (simp_all add: sorts_desc_def)
  have set: "set (ord xs) = set xs" using m by (metis set_mset_mset)
  have d: "distinct (ord xs)" using m assms(4) by (metis mset_eq_imp_distinct_iff)
  obtain y ys where o: "ord xs = y # ys" using set assms(2) by (cases "ord xs") auto
  have "y = x"
  proof (rule ccontr)
    assume "y \<noteq> x"
    then have "x \<in> set ys" using o set assms(2) by auto
    with s o have "snd x \<le> snd y" by auto
    moreover have "snd y < snd x" using assms(3) \<open>y \<noteq> x\<close> o set by auto
    ultimately show False by simp
  qed
  then show "take 1 (ord xs) = [x]" "set (drop 1 (ord xs)) = set xs - {x}" using o d set by auto
qed

definition new_row :: "externals \<Rightarrow> int \<Rightarrow> event \<Rightarrow> string \<Rightarrow> string \<Rightarrow> string \<Rightarrow> event_db \<Rightarrow> event_row" where
  "new_row X now e h a content db =
     \<lparr>er_id = next_id (map er_id (db_events db)), er_hash = h, er_first_seen = now, er_created_at = ev_created_at e,
      er_expires_at = expiration e, er_author = a, er_delegated_by = Option.bind (ev_delegated_by e) (hex_decode X),
      er_kind = ev_kind e, er_hidden = False, er_content = content\<rparr>"

lemma new_row_sel [simp]:
  "er_id (new_row X now e h a c db) = next_id (map er_id (db_events db))" "er_hash (new_row X now e h a c db) = h"
  "er_created_at (new_row X now e h a c db) = ev_created_at e" "er_author (new_row X now e h a c db) = a"
  "er_kind (new_row X now e h a c db) = ev_kind e" "\<not> er_hidden (new_row X now e h a c db)"
  "er_expires_at (new_row X now e h a c db) = expiration e" "er_content (new_row X now e h a c db) = c"
  by (simp_all add: new_row_def)

lemma insert_event_events: "db_events (insert_event X now e h a content db) = db_events db @ [new_row X now e h a content db]"
  by (simp add: insert_event_def new_row_def Let_def)

lemma drop_replaced_newest:
  assumes "sorts_desc ord" "is_replaceable e" "distinct (map er_id (db_events db))"
    and "\<forall>r\<in>set (db_events db). er_author r = a \<and> er_kind r = ev_kind e \<longrightarrow> er_created_at r < ev_created_at e"
  shows "db_events (drop_replaced ord e a (insert_event X now e h a content db)) =
    filter (\<lambda>r. \<not> (er_author r = a \<and> er_kind r = ev_kind e)) (db_events db) @ [new_row X now e h a content db]"
proof -
  let ?n = "new_row X now e h a content db"
  let ?same = "\<lambda>r. er_kind r = ev_kind e \<and> er_author r = a"
  let ?xs = "map (\<lambda>r. (er_id r, er_created_at r)) (filter ?same (db_events db @ [?n]))"
  have d: "distinct (map er_id (db_events db @ [?n]))"
    using assms(3) fresh_event_id' [of db] by simp
  then have "distinct (map er_id (filter ?same (db_events db @ [?n])))" by (rule distinct_map_filterI)
  then have dx: "distinct ?xs" by (auto simp: distinct_map inj_on_def)
  have "take 1 (ord ?xs) = [(er_id ?n, er_created_at ?n)]"
    using assms(4) by (intro sorts_desc_hd(1) [OF assms(1) _ _ dx]) auto
  then show ?thesis
    using assms(2) fresh_event_id [of _ db]
    by (auto simp: drop_replaced_def Let_def insert_event_events intro!: filter_cong)
qed

lemma not_superseded:
  assumes "\<not> superseded X e db" "is_replaceable e" "hex_decode X (ev_pubkey e) = Some a" "bindable e"
  shows "\<forall>r\<in>set (db_events db). er_author r = a \<and> er_kind r = ev_kind e \<longrightarrow> er_created_at r < ev_created_at e"
  using assms by (auto simp: superseded_def bindable_def list_ex_iff not_le)

lemma store_event_id_fresh:
  "r \<in> set (db_events db) \<Longrightarrow> er_id r \<noteq> er_id (new_row X now e h a content db)"
  using fresh_event_id by simp

lemma insert_event_tags:
  "db_tags (insert_event X now e h a content db) = db_tags db @ map (\<lambda>t. \<lparr>tr_event_id = next_id (map er_id (db_events db)),
     tr_name = t ! 0, tr_value = t ! 1, tr_created_at = ev_created_at e, tr_kind = ev_kind e\<rparr>) (searchable_tags e)"
  by (simp add: insert_event_def Let_def)

text \<open>The last step of storing leaves the identity of the rows alone.\<close>

lemma apply_deletions_hashes:
  "er_hash ` set (db_events (fst (apply_deletions X e a i db))) = er_hash ` set (db_events db)"
  unfolding apply_deletions_def hide_targets_def by (simp, metis hide_events_sel(2) set_map)

lemma persist_into_empty:
  assumes "sorts_desc ord" "hex_decode X (ev_id e) = Some h" "hex_decode X (ev_pubkey e) = Some a"
    "event_to_string X e = Some c" "bindable e" "ev_kind e \<noteq> 5" "distinct_param e = None"
  shows "\<exists>db'. persist_event X ord now None e empty_events = (db', Ok 1) \<and>
    db_events db' = [new_row X now e h a c empty_events]"
proof -
  let ?i = "insert_event X now e h a c empty_events"
  have "db_events (drop_replaced ord e a ?i) = [new_row X now e h a c empty_events]"
  proof (cases "is_replaceable e")
    case True
    then show ?thesis
      using drop_replaced_newest [OF assms(1) True, of empty_events a X now h c] by (simp add: empty_events_def)
  qed (simp add: drop_replaced_def insert_event_events, simp add: empty_events_def)
  moreover have "\<forall>t\<in>set (db_tags (drop_replaced ord e a ?i)). tr_kind t = ev_kind e"
    by (auto simp: drop_replaced_def Let_def delete_events_def insert_event_tags empty_events_def)
  then have "\<not> already_deleted e a (drop_replaced ord e a ?i)"
    using assms(6) by (auto simp: already_deleted_def list_ex_iff)
  moreover have "\<not> superseded X e empty_events" "\<not> param_superseded X e empty_events"
    using assms(7) by (auto simp: superseded_def param_superseded_def empty_events_def split: option.splits)
  ultimately show ?thesis
    using assms by (simp add: persist_event_def store_event_def Let_def drop_param_replaced_def apply_deletions_def)
      (simp add: empty_events_def)
qed

definition std_ord :: row_order where
  "std_ord xs = rev (sort_key snd xs)"

lemma std_ord_sorts: "sorts_desc std_ord"
proof -
  have "sorted_wrt (\<lambda>a b. snd b \<le> snd a) (rev (sort_key snd xs))" for xs :: "(nat \<times> u64) list"
    using sorted_sort_key [of snd xs] by (simp add: sorted_wrt_rev sorted_map)
  then show ?thesis by (simp add: sorts_desc_def std_ord_def)
qed

definition demo_profile :: event where
  "demo_profile = demo_event\<lparr>ev_id := replicate 64 CHR ''0'', ev_kind := 0, ev_tags := []\<rparr>"

lemma persist_demo:
  assumes "e = demo_event\<lparr>ev_id := replicate 64 CHR ''0'', ev_kind := k, ev_tags := ts\<rparr>" "k \<noteq> 5"
    "\<not> is_param_replaceable e" "bindable e"
  shows "\<exists>db' h a c. persist_event std_ext std_ord 7 None e empty_events = (db', Ok 1) \<and>
    db_events db' = [new_row std_ext 7 e h a c empty_events] \<and> hex_decode std_ext (ev_pubkey e) = Some a"
proof -
  obtain h a where d: "hex_decode std_ext (ev_id e) = Some h" "hex_decode std_ext (ev_pubkey e) = Some a"
    using std_hex_dec_64 [of "ev_id e"] std_hex_dec_64 [of "ev_pubkey e"] assms(1)
    by (auto simp: demo_event_def hexdigits_replicate ascii_defs)
  obtain c where c: "event_to_string std_ext e = Some c"
    by (simp add: event_to_string_def std_json_to_string_def)
  have "ev_kind e \<noteq> 5" "distinct_param e = None" using assms by (simp_all add: distinct_param_def)
  from persist_into_empty [OF std_ord_sorts d c assms(4) this, of 7] d(2) show ?thesis by blast
qed

section \<open>Deletion\<close>

lemma persist_deletion:
  assumes "persist_event X ord now None e db = (db', Ok 1)" "ev_kind e = 5" "hex_decode X (ev_pubkey e) = Some a"
  shows "\<exists>h content. hex_decode X (ev_id e) = Some h \<and> db' = hide_targets X e a (insert_event X now e h a content db)"
  using assms(1)
proof (cases rule: persist_cases)
  case (stored h a' content n)
  have "\<not> is_replaceable e" "distinct_param e = None"
    using assms(2) by (simp_all add: is_replaceable_def distinct_param_def is_param_replaceable_def)
  with stored assms show ?thesis
    by (auto simp: store_event_def Let_def drop_replaced_def drop_param_replaced_def apply_deletions_def)
qed simp

lemma target_of_tag:
  assumes "t \<in> set (ev_tags e)" "1 < length t" "t ! 0 = ''e''" "t ! 1 = i" "is_hex i" "length i = 64" "hex_decode X i = Some h"
  shows "h \<in> set (deletion_targets X e)"
proof -
  have "hd t = ''e''" using assms(2,3) by (cases t) auto
  then have "i \<in> set (filter (\<lambda>x. is_hex x \<and> length x = 64) (tag_values_by_name e ''e''))"
    using assms(1-6) by (auto simp: tag_values_by_name_def)
  then show ?thesis using assms(7) by (force simp: deletion_targets_def List.map_filter_def)
qed

text \<open>A stored deletion request by \<open>a\<close> that names \<open>v\<close>.\<close>

definition deletion_mark :: "string \<Rightarrow> string \<Rightarrow> event_db \<Rightarrow> bool" where
  "deletion_mark a v db \<longleftrightarrow>
     (\<exists>r\<in>set (db_events db). er_author r = a \<and> er_kind r = 5 \<and>
        (\<exists>g\<in>set (db_tags db). tr_event_id g = er_id r \<and> tr_name g = ''e'' \<and> tr_kind g = 5 \<and> tr_value g = v))"

lemma deletion_mark_delete:
  assumes "deletion_mark a v db" "ev_inv db" "\<And>r. P r \<Longrightarrow> er_kind r \<noteq> 5"
  shows "deletion_mark a v (delete_events P db)"
proof -
  from assms(1) obtain r g where r: "r \<in> set (db_events db)" "er_author r = a" "er_kind r = 5"
    and g: "g \<in> set (db_tags db)" "tr_event_id g = er_id r" "tr_name g = ''e''" "tr_kind g = 5" "tr_value g = v"
    unfolding deletion_mark_def by blast
  have np: "\<not> P r" using assms(3) r(3) by blast
  have "er_id r \<notin> er_id ` {x \<in> set (db_events db). P x}"
    using assms(2) r(1) np by (auto simp: ev_inv_def distinct_map dest: inj_onD)
  then have "g \<in> set (db_tags (delete_events P db))" using g by (auto simp: delete_events_def Let_def)
  moreover have "r \<in> set (db_events (delete_events P db))" using r(1) np by simp
  ultimately show ?thesis using r g unfolding deletion_mark_def by blast
qed

lemma deletion_mark_insert: "deletion_mark a v db \<Longrightarrow> deletion_mark a v (insert_event X now e h b c db)"
  unfolding deletion_mark_def insert_event_events insert_event_tags by auto

lemma deletion_mark_already: "deletion_mark a (ev_id e) db \<Longrightarrow> already_deleted e a db"
  unfolding deletion_mark_def already_deleted_def list_ex_iff by blast

lemma drops_mark:
  assumes "deletion_mark a v db" "ev_inv db" "ev_kind e \<noteq> 5"
  shows "deletion_mark a v (drop_param_replaced ord e b (drop_replaced ord e b db))"
proof -
  have "deletion_mark a v (drop_replaced ord e b db)"
    unfolding drop_replaced_def Let_def using assms by (auto intro: deletion_mark_delete)
  moreover have "ev_inv (drop_replaced ord e b db)" using assms(2) by (rule drop_replaced_inv)
  ultimately show ?thesis
    unfolding drop_param_replaced_def Let_def using assms(3)
    by (auto intro: deletion_mark_delete split: option.splits)
qed

lemma drops_subset:
  "set (db_events (drop_param_replaced ord e b (drop_replaced ord e b db))) \<subseteq> set (db_events db)"
  by (auto simp: drop_param_replaced_def drop_replaced_def Let_def split: option.splits if_splits)

lemma single_char_e: "single_char_tagname ''e'' = Some ''e''"
  by (simp add: single_char_tagname_def)

section \<open>Parameterized replacement\<close>

lemma drop_one_twice:
  assumes "sorts_desc ord" "2 \<le> length (filter (\<lambda>y. y = x) xs)"
  shows "x \<in> set (drop 1 (ord xs))"
proof -
  have "mset (ord xs) = mset xs" using assms(1) by (simp add: sorts_desc_def)
  then have "length (filter (\<lambda>y. y = x) (ord xs)) = length (filter (\<lambda>y. y = x) xs)"
    by (metis mset_filter size_mset)
  with assms(2) have "2 \<le> length (filter (\<lambda>y. y = x) (ord xs))" by simp
  then have "filter (\<lambda>y. y = x) (drop 1 (ord xs)) \<noteq> []" by (cases "ord xs") (auto split: if_splits)
  then show ?thesis by (metis (full_types) filter_False)
qed

lemma product_snoc: "List.product (xs @ [x]) ys = List.product xs ys @ map (Pair x) ys"
  by (induction xs) auto

lemma d_rows_new:
  assumes "k = ev_kind e" "i = next_id (map er_id (db_events db))"
  shows "length (filter (\<lambda>t. 2 \<le> length t \<and> t ! 0 = ''d'' \<and> t ! 1 = d) (ev_tags e)) \<le>
    length (filter (\<lambda>y. y = (i, ev_created_at e))
      (map (\<lambda>(r, t). (er_id r, tr_created_at t)) (d_rows a k d (insert_event X now e h a content db))))"
proof -
  let ?n = "new_row X now e h a content db"
  let ?mk = "\<lambda>t. \<lparr>tr_event_id = i, tr_name = t ! 0, tr_value = t ! 1, tr_created_at = ev_created_at e, tr_kind = ev_kind e\<rparr>"
  let ?S = "\<lambda>(r, t). tr_event_id t = er_id r \<and> er_author r = a \<and> er_kind r = k \<and> tr_name t = ''d'' \<and> tr_value t = d"
  let ?f = "\<lambda>(r, t). (er_id r, tr_created_at t)"
  have sd: "single_char_tagname ''d'' = Some ''d''" by (simp add: single_char_tagname_def)
  have "filter (\<lambda>t. 2 \<le> length t \<and> t ! 0 = ''d'' \<and> t ! 1 = d) (ev_tags e) =
      filter (\<lambda>t. t ! 0 = ''d'' \<and> t ! 1 = d) (searchable_tags e)"
    by (auto simp: searchable_tags_def sd intro!: filter_cong)
  then have "length (filter (\<lambda>t. 2 \<le> length t \<and> t ! 0 = ''d'' \<and> t ! 1 = d) (ev_tags e)) =
      length (filter (\<lambda>y. y = (i, ev_created_at e)) (map ?f (filter ?S (map (Pair ?n) (map ?mk (searchable_tags e))))))"
    using assms by (simp add: filter_map comp_def)
  also have "\<dots> \<le> length (filter (\<lambda>y. y = (i, ev_created_at e))
      (map ?f (filter ?S (List.product (db_events db @ [?n]) (db_tags db @ map ?mk (searchable_tags e))))))"
    by (simp add: product_snoc)
  also have "List.product (db_events db @ [?n]) (db_tags db @ map ?mk (searchable_tags e)) =
      List.product (db_events (insert_event X now e h a content db)) (db_tags (insert_event X now e h a content db))"
    using assms(2) by (simp add: insert_event_events insert_event_tags)
  finally show ?thesis by (simp add: d_rows_def)
qed

section \<open>Properties\<close>

text \<open>C15: Through any sequence of writes, expiry sweeps and verification updates starting from
  the empty database, row ids and event hashes stay unique, and every tag row and every
  verification record refers to a stored event.\<close>

theorem event_store_invariant: "ev_inv (fold (ev_step X ord) ps empty_events)"
  by (rule ev_run_inv) (simp add: ev_inv_def empty_events_def)

text \<open>C17: A replaceable event replaces. When storing one succeeds, it was strictly newer than
  every stored event of the same author and kind, and afterwards it is the only one of them;
  the events of other authors and kinds are exactly as before.\<close>

theorem replaceable_keeps_newest:
  assumes "ev_inv db" "sorts_desc ord" "is_replaceable e"
    and "persist_event X ord now None e db = (db', Ok 1)" "hex_decode X (ev_pubkey e) = Some a"
  shows "(\<forall>r\<in>set (db_events db). er_author r = a \<and> er_kind r = ev_kind e \<longrightarrow> er_created_at r < ev_created_at e) \<and>
    (\<exists>h content. db_events db' =
      filter (\<lambda>r. \<not> (er_author r = a \<and> er_kind r = ev_kind e)) (db_events db) @ [new_row X now e h a content db])"
  using assms(4)
proof (cases rule: persist_cases)
  case (stored h a' content n)
  then have [simp]: "a' = a" "n = 1" using assms(5) by auto
  note old = not_superseded [OF stored(5) assms(3,5) stored(7)]
  have "distinct_param e = None" using assms(3) kind_classes_disjoint [of e] by (simp add: distinct_param_def)
  then have "db_events db' = db_events (drop_replaced ord e a (insert_event X now e h a content db))"
    using stored(8) assms(3)
    by (auto simp: store_event_def Let_def drop_param_replaced_def apply_deletions_def is_replaceable_def split: if_splits)
  also have "\<dots> = filter (\<lambda>r. \<not> (er_author r = a \<and> er_kind r = ev_kind e)) (db_events db) @ [new_row X now e h a content db]"
    using assms(1) by (intro drop_replaced_newest [OF assms(2,3) _ old]) (simp add: ev_inv_def)
  finally show ?thesis using old by blast
qed simp

theorem replaceable_keeps_newest_witness:
  "\<exists>db' h a c. persist_event std_ext std_ord 7 None demo_profile empty_events = (db', Ok 1) \<and>
     db_events db' = [new_row std_ext 7 demo_profile h a c empty_events]"
proof -
  have k: "is_replaceable demo_profile" "bindable demo_profile"
    by (simp_all add: demo_profile_def is_replaceable_def bindable_def fits_i64_def expiration_def first_value_def demo_event_def)
  then have "\<not> is_param_replaceable demo_profile" using kind_classes_disjoint by blast
  with k obtain db' a where p: "persist_event std_ext std_ord 7 None demo_profile empty_events = (db', Ok 1)"
    "hex_decode std_ext (ev_pubkey demo_profile) = Some a"
    using persist_demo [OF demo_profile_def] by auto
  have "ev_inv empty_events" by (simp add: ev_inv_def empty_events_def)
  from replaceable_keeps_newest [OF this std_ord_sorts k(1) p] p show ?thesis by (auto simp: empty_events_def)
qed

text \<open>C18: A deletion request hides exactly what its author may delete. Storing a kind 5 event
  changes no row but those of the same author that it names by id, and of these neither
  other deletion requests nor gift wraps: they are marked hidden, and the request itself is
  added.\<close>

theorem deletion_hides_only_own:
  assumes "ev_kind e = 5" "hex_decode X (ev_pubkey e) = Some a" "persist_event X ord now None e db = (db', Ok 1)"
  shows "\<exists>h content. db_events db' =
    map (\<lambda>r. if er_kind r \<noteq> 5 \<and> er_kind r \<noteq> 1059 \<and> er_author r = a \<and> er_hash r \<in> set (deletion_targets X e)
            then r\<lparr>er_hidden := True\<rparr> else r) (db_events db) @ [new_row X now e h a content db]"
proof -
  obtain h content where "db' = hide_targets X e a (insert_event X now e h a content db)"
    using persist_deletion [OF assms(3,1,2)] by blast
  then have "db_events db' =
    map (\<lambda>r. if er_kind r \<noteq> 5 \<and> er_kind r \<noteq> 1059 \<and> er_author r = a \<and> er_hash r \<in> set (deletion_targets X e)
            then r\<lparr>er_hidden := True\<rparr> else r) (db_events db) @ [new_row X now e h a content db]"
    using assms(1) by (simp add: hide_targets_def hide_events_def insert_event_events)
  then show ?thesis by blast
qed

definition demo_deletion :: event where
  "demo_deletion = demo_event\<lparr>ev_id := replicate 64 CHR ''1'', ev_kind := 5, ev_tags := [[''e'', replicate 64 CHR ''0'']]\<rparr>"

lemma demo_deletion_stored:
  "\<exists>db1 a. persist_event std_ext std_ord 9 None demo_deletion empty_events = (db1, Ok 1) \<and>
     hex_decode std_ext (ev_pubkey demo_deletion) = Some a"
proof -
  obtain h a where d: "hex_decode std_ext (ev_id demo_deletion) = Some h" "hex_decode std_ext (ev_pubkey demo_deletion) = Some a"
    using std_hex_dec_64 [of "ev_id demo_deletion"] std_hex_dec_64 [of "ev_pubkey demo_deletion"]
    by (auto simp: demo_deletion_def demo_event_def hexdigits_replicate ascii_defs)
  obtain c where c: "event_to_string std_ext demo_deletion = Some c"
    by (simp add: event_to_string_def std_json_to_string_def)
  have "bindable demo_deletion" "distinct_param demo_deletion = None" "\<not> superseded std_ext demo_deletion empty_events"
    "\<not> param_superseded std_ext demo_deletion empty_events" "ev_kind demo_deletion = 5" "\<not> is_replaceable demo_deletion"
    by (simp_all add: demo_deletion_def demo_event_def bindable_def fits_i64_def expiration_def first_value_def
        distinct_param_def is_param_replaceable_def superseded_def param_superseded_def is_replaceable_def)
  with d c show ?thesis
    by (simp add: persist_event_def store_event_def Let_def drop_replaced_def drop_param_replaced_def apply_deletions_def)
      (simp add: empty_events_def)
qed

theorem deletion_hides_only_own_witness:
  "\<exists>db1 h a c. persist_event std_ext std_ord 9 None demo_deletion empty_events = (db1, Ok 1) \<and>
     db_events db1 = [new_row std_ext 9 demo_deletion h a c empty_events]"
proof -
  obtain db1 a where p: "persist_event std_ext std_ord 9 None demo_deletion empty_events = (db1, Ok 1)"
    "hex_decode std_ext (ev_pubkey demo_deletion) = Some a" using demo_deletion_stored by blast
  have "ev_kind demo_deletion = 5" by (simp add: demo_deletion_def)
  from deletion_hides_only_own [OF this p(2,1)] p(1) show ?thesis by (auto simp: empty_events_def)
qed

text \<open>A stored deletion request hides its targets and leaves its mark; an event that arrives under a mark is hidden.\<close>

lemma deletion_hides_stored:
  assumes "r \<in> set (db_events (hide_targets X d a (insert_event X now d h a content db)))"
    and "er_hash r \<noteq> h" "er_hash r \<in> set (deletion_targets X d)"
    and "\<forall>q\<in>set (db_events db). er_hash q = er_hash r \<longrightarrow> er_author q = a \<and> er_kind q \<noteq> 5 \<and> er_kind q \<noteq> 1059"
  shows "er_hidden r"
proof -
  let ?P = "\<lambda>r. er_kind r \<noteq> 5 \<and> er_kind r \<noteq> 1059 \<and> er_author r = a \<and> er_hash r \<in> set (deletion_targets X d)"
  obtain r0 where r0: "r0 \<in> set (db_events (insert_event X now d h a content db))"
    "r = (if ?P r0 then r0\<lparr>er_hidden := True\<rparr> else r0)"
    using hide_events_mem assms(1) unfolding hide_targets_def by blast
  then have h: "er_hash r0 = er_hash r" by simp
  have "r0 \<in> set (db_events db) \<or> r0 = new_row X now d h a content db"
    using r0(1) by (simp only: insert_event_events set_append set_simps Un_iff insert_iff empty_iff) simp
  with h assms(2) have "r0 \<in> set (db_events db)" by auto
  with assms(3,4) h have "?P r0" by simp
  with r0(2) show ?thesis by (simp only: if_True) simp
qed

lemma deletion_leaves_mark:
  assumes "ev_kind d = 5" "t \<in> set (ev_tags d)" "1 < length t" "t ! 0 = ''e''"
  shows "deletion_mark a (t ! 1) (hide_targets X d a (insert_event X now d h a content db))" (is "deletion_mark a _ ?db")
proof -
  let ?n = "new_row X now d h a content db"
  have "?n \<in> set (db_events ?db)"
    unfolding hide_targets_def by (rule hide_events_kept) (simp_all add: insert_event_events assms(1))
  moreover have "t \<in> set (searchable_tags d)" using assms(2-4) by (simp add: searchable_tags_def single_char_e)
  then have "\<exists>g\<in>set (db_tags ?db). tr_event_id g = er_id ?n \<and> tr_name g = ''e'' \<and> tr_kind g = 5 \<and> tr_value g = t ! 1"
    unfolding hide_targets_def hide_events_sel insert_event_tags using assms(1,4) by (force simp: Bex_def)
  ultimately show ?thesis unfolding deletion_mark_def using assms(1) by (intro bexI [of _ ?n]) simp_all
qed

lemma marked_arrival_hidden:
  assumes "ev_inv db" "deletion_mark a (ev_id e) db" "ev_kind e \<noteq> 5" "ev_kind e \<noteq> 1059" "hex_decode X (ev_pubkey e) = Some a"
    and "\<forall>r\<in>set (db_events db). hex_decode X (ev_id e) = Some (er_hash r) \<longrightarrow> er_hidden r"
    and "persist_event X ord now None e db = (db', Ok n)"
  shows "n = 0 \<and> (\<forall>r\<in>set (db_events db'). hex_decode X (ev_id e) = Some (er_hash r) \<longrightarrow> er_hidden r)"
  using assms(7)
proof (cases rule: persist_cases)
  case unchanged
  then show ?thesis using assms(6) by auto
next
  case (stored h a' content n')
  then have [simp]: "a' = a" "n' = n" using assms(5) by auto
  let ?i = "insert_event X now e h a content db"
  let ?db3 = "drop_param_replaced ord e a (drop_replaced ord e a ?i)"
  have "deletion_mark a (ev_id e) ?db3"
    using assms(2,3) insert_event_inv [OF assms(1) stored(4)] by (intro drops_mark deletion_mark_insert) simp_all
  then have "already_deleted e a ?db3" by (rule deletion_mark_already)
  with stored(8) assms(3,4) have n: "n = 0" "db' = hide_events (\<lambda>r. er_id r = next_id (map er_id (db_events db))) ?db3"
    by (auto simp: store_event_def Let_def apply_deletions_def)
  have "er_hidden r" if r: "r \<in> set (db_events db')" "er_hash r = h" for r
  proof -
    from r(1) n(2) obtain r3 where r3: "r3 \<in> set (db_events ?db3)"
      "r = (if er_id r3 = next_id (map er_id (db_events db)) then r3\<lparr>er_hidden := True\<rparr> else r3)"
      using hide_events_mem by blast
    then have "er_hash r3 = h" using r(2) by (simp split: if_splits)
    moreover have "r3 \<in> set (db_events ?i)" using r3(1) drops_subset by blast
    ultimately have "r3 = new_row X now e h a content db" using stored(4) by (auto simp: insert_event_events)
    then show ?thesis using r3(2) by simp
  qed
  with n(1) stored(1) show ?thesis by auto
qed

text \<open>A deletion holds for events that arrive later. Once an author's deletion request naming
  an event is stored, the event, whether it was already stored or arrives next, is hidden,
  and writing it reports nothing new, so it is not sent to subscribers. (Gift wraps and
  deletion requests are exempt.)\<close>

theorem deletion_covers_later_arrival:
  assumes "ev_kind d = 5" "persist_event X ord now None d db = (db1, Ok 1)"
    and "hex_decode X (ev_pubkey d) = Some a" "hex_decode X (ev_pubkey e) = Some a"
    and "t \<in> set (ev_tags d)" "1 < length t" "t ! 0 = ''e''" "t ! 1 = ev_id e" "is_hex (ev_id e)" "length (ev_id e) = 64"
    and "ev_kind e \<noteq> 5" "ev_kind e \<noteq> 1059"
    and "\<forall>r\<in>set (db_events db). hex_decode X (ev_id e) = Some (er_hash r) \<longrightarrow> er_author r = a \<and> er_kind r = ev_kind e"
    and "hex_decode X (ev_id d) \<noteq> hex_decode X (ev_id e)"
    and "persist_event X ord later None e db1 = (db2, Ok n)" "ev_inv db"
  shows "n = 0 \<and> (\<forall>r\<in>set (db_events db2). hex_decode X (ev_id e) = Some (er_hash r) \<longrightarrow> er_hidden r)"
proof -
  obtain hd content where d: "hex_decode X (ev_id d) = Some hd"
    "db1 = hide_targets X d a (insert_event X now d hd a content db)"
    using persist_deletion [OF assms(2,1,3)] by blast
  have "er_hidden r" if r: "r \<in> set (db_events db1)" "hex_decode X (ev_id e) = Some (er_hash r)" for r
  proof (rule deletion_hides_stored [OF r(1) [unfolded d(2)]])
    show "er_hash r \<noteq> hd" using r(2) d(1) assms(14) by auto
    show "er_hash r \<in> set (deletion_targets X d)" using target_of_tag [OF assms(5-10)] r(2) by simp
    show "\<forall>q\<in>set (db_events db). er_hash q = er_hash r \<longrightarrow> er_author q = a \<and> er_kind q \<noteq> 5 \<and> er_kind q \<noteq> 1059"
      using assms(11-13) r(2) by auto
  qed
  moreover have "ev_inv db1" using persist_inv [OF assms(16), of X ord now None d] assms(2) by simp
  moreover have "deletion_mark a (ev_id e) db1"
    using deletion_leaves_mark [OF assms(1,5-7)] assms(8) unfolding d(2) by metis
  ultimately show ?thesis using marked_arrival_hidden [OF _ _ assms(11,12,4) _ assms(15)] by blast
qed

definition demo_note :: event where
  "demo_note = demo_event\<lparr>ev_id := replicate 64 CHR ''0'', ev_kind := 7, ev_tags := []\<rparr>"

lemma demo_note_hex: "is_hex (ev_id demo_note)" "length (ev_id demo_note) = 64"
  by (simp_all add: demo_note_def is_hex_iff hexdigits_replicate ascii_defs)

theorem deletion_covers_later_arrival_witness:
  "\<exists>db1 db2. persist_event std_ext std_ord 9 None demo_deletion empty_events = (db1, Ok 1) \<and>
     persist_event std_ext std_ord 10 None demo_note db1 = (db2, Ok 0)"
proof -
  obtain db1 a where d: "persist_event std_ext std_ord 9 None demo_deletion empty_events = (db1, Ok 1)"
    "hex_decode std_ext (ev_pubkey demo_deletion) = Some a" using demo_deletion_stored by blast
  have k: "ev_kind demo_deletion = 5" "ev_kind demo_note \<noteq> 5" "ev_kind demo_note \<noteq> 1059"
    by (simp_all add: demo_deletion_def demo_note_def)
  have a: "hex_decode std_ext (ev_pubkey demo_note) = Some a" using d(2) by (simp add: demo_deletion_def demo_note_def)
  have t: "[''e'', replicate 64 CHR ''0''] \<in> set (ev_tags demo_deletion)" by (simp add: demo_deletion_def)
  have inv: "ev_inv empty_events" by (simp add: ev_inv_def empty_events_def)
  obtain h0 where h0: "hex_dec (ev_id demo_note) = Some h0"
    using std_hex_dec_64 demo_note_hex by (auto simp: is_hex_iff)
  have "map to_ascii_lower (ev_id demo_note) \<noteq> map to_ascii_lower (ev_id demo_deletion)"
    by (simp add: demo_note_def demo_deletion_def ascii_defs)
  then have ne: "hex_decode std_ext (ev_id demo_deletion) \<noteq> hex_decode std_ext (ev_id demo_note)"
    using hex_dec_inj [OF h0, of "ev_id demo_deletion"] h0 by auto
  have b: "bindable demo_note" "\<not> superseded std_ext demo_note db1" "\<not> param_superseded std_ext demo_note db1"
    by (simp_all add: demo_note_def demo_event_def bindable_def fits_i64_def expiration_def first_value_def
        superseded_def param_superseded_def distinct_param_def is_param_replaceable_def is_replaceable_def)
  obtain c where c: "event_to_string std_ext demo_note = Some c"
    by (simp add: event_to_string_def std_json_to_string_def)
  obtain db2 n where p: "persist_event std_ext std_ord 10 None demo_note db1 = (db2, Ok n)"
    using a b c h0 unfolding persist_event_def
    by (cases "store_event std_ext std_ord 10 demo_note h0 a c db1"; cases "h0 \<in> er_hash ` set (db_events db1)") auto
  have "n = 0 \<and> (\<forall>r\<in>set (db_events db2). hex_decode std_ext (ev_id demo_note) = Some (er_hash r) \<longrightarrow> er_hidden r)"
    by (rule deletion_covers_later_arrival [OF k(1) d(1,2) a t _ _ _ demo_note_hex k(2,3) _ ne p inv])
      (simp_all add: demo_note_def empty_events_def)
  with d(1) p show ?thesis by auto
qed

text \<open>Writing retries up to ten times. If SQLite fails the first k attempts (k below ten) and
  the next one meets no failure, the outcome of the write is that of one undisturbed
  attempt; if it fails ten times, nothing is stored and the last failure is reported.\<close>

theorem write_event_retries:
  assumes "\<forall>j<k. \<exists>c. fault j = Some (SqlError (SqliteFailure c))"
  shows "(k < 10 \<and> fault k = None \<longrightarrow>
      write_event X ord now None fault e db = persist_event X ord now None e db) \<and>
    (k = 10 \<longrightarrow> (\<exists>c. write_event X ord now None fault e db = (db, Err (SqlError (SqliteFailure c)))))"
proof -
  let ?att = "\<lambda>f. persist_event X ord now f e"
  have fail: "?att (Some (SqlError (SqliteFailure c))) d = (d, Err (SqlError (SqliteFailure c)))" for c d
    by (simp add: persist_event_def)
  have clean: "\<not> is_sqlite_failure (snd (?att None db))"
    by (auto simp: is_sqlite_failure_def persist_event_def split: option.splits if_splits prod.splits)
  have ok: "\<forall>j<k. \<exists>c. fault j = Some (SqlError (SqliteFailure c)) \<Longrightarrow> fault k = None \<Longrightarrow> k \<le> n \<Longrightarrow>
      write_attempts ?att n fault db = ?att None db" for k n fault
  proof (induction n arbitrary: k fault)
    case (Suc n)
    show ?case
    proof (cases k)
      case 0
      with Suc.prems clean show ?thesis by (cases "?att None db") simp
    next
      case (Suc k')
      with Suc.prems obtain c where "fault 0 = Some (SqlError (SqliteFailure c))" by blast
      moreover have "write_attempts ?att n (\<lambda>j. fault (Suc j)) db = ?att None db"
        using Suc Suc.prems by (intro Suc.IH [of k']) auto
      ultimately show ?thesis by (simp add: fail is_sqlite_failure_def)
    qed
  qed simp
  have bad: "\<forall>j\<le>n. \<exists>c. fault j = Some (SqlError (SqliteFailure c)) \<Longrightarrow>
      \<exists>c. write_attempts ?att n fault db = (db, Err (SqlError (SqliteFailure c)))" for n fault
  proof (induction n arbitrary: fault)
    case (Suc n)
    then obtain c where "fault 0 = Some (SqlError (SqliteFailure c))" by blast
    with Suc.IH [of "\<lambda>j. fault (Suc j)"] Suc.prems show ?case by (auto simp: fail is_sqlite_failure_def)
  qed (auto simp: fail)
  show ?thesis
    using ok [of k fault 9] bad [of 9 fault] assms by (auto simp: write_event_def)
qed

theorem write_event_retries_witness:
  "write_event std_ext std_ord 1 None (\<lambda>j. if j < 3 then Some (SqlError (SqliteFailure False)) else None) demo_note empty_events =
     persist_event std_ext std_ord 1 None demo_note empty_events"
proof -
  let ?f = "\<lambda>j :: nat. if j < 3 then Some (SqlError (SqliteFailure False)) else None"
  have "\<forall>j<3. \<exists>c. ?f j = Some (SqlError (SqliteFailure c))" by auto
  from write_event_retries [OF this, of std_ext std_ord 1 demo_note empty_events] show ?thesis by simp
qed

text \<open>A repeated \<^verbatim>\<open>d\<close> tag loses the event. When a parameterized replaceable event carries its
  identifying \<^verbatim>\<open>d\<close> tag twice, storing it reports success, yet the cleanup of older versions
  also deletes the event itself: it is not in the database afterwards.\<close>

theorem duplicate_d_tag_loses_event:
  assumes "ev_inv db" "sorts_desc ord" "distinct_param e = Some d"
    and "2 \<le> length (filter (\<lambda>t. 2 \<le> length t \<and> t ! 0 = ''d'' \<and> t ! 1 = d) (ev_tags e))"
    and "hex_decode X (ev_id e) = Some h" "persist_event X ord now None e db = (db', Ok 1)"
  shows "h \<notin> er_hash ` set (db_events db')"
  using assms(6)
proof (cases rule: persist_cases)
  case (stored h' a content n)
  then have [simp]: "h' = h" using assms(5) by simp
  let ?i = "next_id (map er_id (db_events db))"
  let ?ins = "insert_event X now e h a content db"
  have nr: "\<not> is_replaceable e"
    using assms(3) kind_classes_disjoint [of e] by (auto simp: distinct_param_def split: if_splits)
  let ?P = "\<lambda>r. er_kind r = ev_kind e \<and> er_author r = a \<and> er_id r \<in> fst ` set
    (drop 1 (ord (map (\<lambda>(r, t). (er_id r, tr_created_at t)) (d_rows a (ev_kind e) d ?ins))))"
  have "(?i, ev_created_at e) \<in> set (drop 1 (ord (map (\<lambda>(r, t). (er_id r, tr_created_at t)) (d_rows a (ev_kind e) d ?ins))))"
    using d_rows_new [of "ev_kind e" e ?i db d a X now h content] assms(4) by (intro drop_one_twice [OF assms(2)]) simp
  then have P: "?P (new_row X now e h a content db)" by (auto intro: rev_image_eqI)
  have "er_hash ` set (db_events db') = er_hash ` set (db_events (delete_events ?P ?ins))"
    using stored(8) nr assms(3) apply_deletions_hashes [of X e a ?i "delete_events ?P ?ins"]
    by (simp add: store_event_def Let_def drop_replaced_def drop_param_replaced_def)
  also have "\<dots> \<subseteq> er_hash ` set (db_events db)"
    using P by (auto simp: insert_event_events)
  finally show ?thesis using stored(4) by auto
qed simp

definition demo_twice :: event where
  "demo_twice = demo_event\<lparr>ev_id := replicate 64 CHR ''0'', ev_kind := 30023, ev_tags := [[''d'', ''x''], [''d'', ''x'']]\<rparr>"

theorem duplicate_d_tag_loses_event_witness:
  "\<exists>db' h. persist_event std_ext std_ord 9 None demo_twice empty_events = (db', Ok 1) \<and>
     hex_decode std_ext (ev_id demo_twice) = Some h \<and> h \<notin> er_hash ` set (db_events db')"
proof -
  obtain h a where d: "hex_decode std_ext (ev_id demo_twice) = Some h" "hex_decode std_ext (ev_pubkey demo_twice) = Some a"
    using std_hex_dec_64 [of "ev_id demo_twice"] std_hex_dec_64 [of "ev_pubkey demo_twice"]
    by (auto simp: demo_twice_def demo_event_def hexdigits_replicate ascii_defs)
  obtain c where c: "event_to_string std_ext demo_twice = Some c"
    by (simp add: event_to_string_def std_json_to_string_def)
  have k: "bindable demo_twice" "distinct_param demo_twice = Some ''x''" "\<not> superseded std_ext demo_twice empty_events"
    "\<not> param_superseded std_ext demo_twice empty_events" "ev_kind demo_twice = 30023" "\<not> is_replaceable demo_twice"
    by (auto simp: demo_twice_def demo_event_def bindable_def fits_i64_def expiration_def first_value_def d_rows_def
        distinct_param_def is_param_replaceable_def superseded_def param_superseded_def is_replaceable_def empty_events_def
        split: option.splits)
  have "\<forall>t\<in>set (db_tags (drop_param_replaced std_ord demo_twice a (insert_event std_ext 9 demo_twice h a c empty_events))). tr_kind t = 30023"
    by (auto simp: drop_param_replaced_def Let_def delete_events_def insert_event_tags empty_events_def k split: option.splits)
  then have "\<not> already_deleted demo_twice a (drop_param_replaced std_ord demo_twice a (insert_event std_ext 9 demo_twice h a c empty_events))"
    by (auto simp: already_deleted_def list_ex_iff)
  with d c k obtain db' where p: "persist_event std_ext std_ord 9 None demo_twice empty_events = (db', Ok 1)"
    by (simp add: persist_event_def store_event_def Let_def drop_replaced_def apply_deletions_def
        empty_events_sel)
  have inv: "ev_inv empty_events" by (simp add: ev_inv_def empty_events_def)
  have "2 \<le> length (filter (\<lambda>t. 2 \<le> length t \<and> t ! 0 = ''d'' \<and> t ! 1 = ''x'') (ev_tags demo_twice))"
    by (simp add: demo_twice_def)
  from duplicate_d_tag_loses_event [OF inv std_ord_sorts k(2) this d(1) p] d(1) p show ?thesis by blast
qed

end
