(* ===== verification/Nip05.thy ===== *)
theory Nip05
  imports Event_Store Subscription "HOL-Library.Option_ord" "HOL-Library.Product_Lexorder"
begin

text \<open>
  NIP-05 verification of authors (\<^verbatim>\<open>src/src/nip05.rs\<close>, \<^verbatim>\<open>get_nip05_addr\<close> of
  \<^verbatim>\<open>src/src/event.rs\<close> and the queries for verification records of \<^verbatim>\<open>src/src/repo/sqlite.rs\<close>).
  The web request, the parser of URIs, the clocks and the failures of repository calls are
  arguments, collected in a record. Times are nanoseconds since the epoch.
\<close>

section \<open>Names\<close>

record nip05_name =
  n5_local :: string
  n5_domain :: string

definition is_domain_only :: "nip05_name \<Rightarrow> bool" where
  "is_domain_only n \<longleftrightarrow> n5_local n = ''_''"

definition to_url :: "(string \<Rightarrow> bool) \<Rightarrow> nip05_name \<Rightarrow> string option" where
  "to_url parses n =
     (let u = ''https://'' @ n5_domain n @ ''/.well-known/nostr.json?name='' @ n5_local n
      in if parses u then Some u else None)"

definition nip05_try_from :: "externals \<Rightarrow> string \<Rightarrow> (nip05_name, error) result" where
  "nip05_try_from X inet =
     (case split_on CHR ''@'' inet of
        [local, domain] \<Rightarrow>
          if list_all (\<lambda>x. is_alphanumeric (ualnum X) x \<or> x = ''_'' \<or> x = ''-'' \<or> x = ''.'') (chars local) then
            if list_all (\<lambda>x. is_alphanumeric (ualnum X) x \<or> x = ''-'' \<or> x = ''.'') (chars domain)
            then Ok \<lparr>n5_local = local, n5_domain = domain\<rparr>
            else Err (CustomError ''invalid character in domain part'')
          else Err (CustomError ''invalid character in local part'')
      | _ \<Rightarrow> Err (CustomError ''too many/few components''))"

definition nip05_to_string :: "nip05_name \<Rightarrow> string" where
  "nip05_to_string n = n5_local n @ ''@'' @ n5_domain n"

text \<open>Lookup in a JSON object held as a \<^verbatim>\<open>serde_json::Value\<close>: a repeated key has its last value.\<close>

definition value_get :: "(string \<times> json) list \<Rightarrow> string \<Rightarrow> json option" where
  "value_get m k = map_of (value_map m) k"

fun str_contains :: "string \<Rightarrow> string \<Rightarrow> bool" where
  "str_contains [] p = (p = [])"
| "str_contains (c # s) p = (starts_with (c # s) p \<or> str_contains s p)"

definition get_nip05_addr :: "externals \<Rightarrow> event \<Rightarrow> nip05_name option" where
  "get_nip05_addr X e =
     (if is_kind_metadata e \<and> str_contains (ev_content e) (CHR 0x22 # ''nip05'' @ [CHR 0x22]) then
        Option.bind (json_from_str X (ev_content e)) (\<lambda>v.
        Option.bind (as_object v) (\<lambda>m.
        Option.bind (value_get m ''nip05'') (\<lambda>n.
        Option.bind (as_str n) (\<lambda>s. ok (nip05_try_from X s)))))
      else None)"

definition body_contains_user :: "externals \<Rightarrow> string \<Rightarrow> string \<Rightarrow> string \<Rightarrow> (bool, error) result" where
  "body_contains_user X username addr bytes =
     (case json_from_str X bytes of
        None \<Rightarrow> Err (JsonParseFailed [])
      | Some body \<Rightarrow>
        (case Option.bind (Option.bind (as_object body) (\<lambda>m. value_get m ''names'')) as_object of
           None \<Rightarrow> Err (CustomError ''not a map'')
         | Some names \<Rightarrow> Ok (Option.bind (value_get names username) as_str = Some addr)))"

definition is_domain_allowed :: "string \<Rightarrow> string list option \<Rightarrow> string list option \<Rightarrow> bool" where
  "is_domain_allowed domain whitelist blacklist =
     (case whitelist of
        Some wl \<Rightarrow> domain \<in> set wl
      | None \<Rightarrow> (case blacklist of Some bl \<Rightarrow> domain \<notin> set bl | None \<Rightarrow> True))"

section \<open>Web verification\<close>

datatype web_status = Verified | DomainNotAllowed | Unknown | Unverified

text \<open>What the request ends with: nothing in five seconds, an error, or a response with its
  status, the upper bound of its size and its body, if the body can be read.\<close>

datatype web_reply = TimedOut | RequestFailed error | Reply nat "u64 option" "string option"

definition MAX_ALLOWED_RESPONSE_SIZE :: u64 where
  "MAX_ALLOWED_RESPONSE_SIZE = 1024 * 1024"

definition judge_reply :: "externals \<Rightarrow> nip05_name \<Rightarrow> string \<Rightarrow> web_reply \<Rightarrow> (web_status, error) result" where
  "judge_reply X nip pubkey reply =
     (case reply of
        TimedOut \<Rightarrow> Ok Unknown
      | RequestFailed e \<Rightarrow> Err e
      | Reply status bound body \<Rightarrow>
        if \<not> (200 \<le> status \<and> status < 300) then Ok Unknown
        else (case bound of
           None \<Rightarrow> Ok Unknown
         | Some n \<Rightarrow>
           if MAX_ALLOWED_RESPONSE_SIZE < n then Ok Unknown
           else if status = 200 then
             (case body of
                None \<Rightarrow> Ok Unknown
              | Some bytes \<Rightarrow>
                (case body_contains_user X (n5_local nip) pubkey bytes of
                   Ok True \<Rightarrow> Ok Verified
                 | Ok False \<Rightarrow> Ok Unverified
                 | Err _ \<Rightarrow> Ok Unknown))
           else Ok Unknown))"

record web =
  web_uri_ok :: "string \<Rightarrow> bool"
  web_fetch :: "string \<Rightarrow> web_reply"

definition get_web_verification_res ::
  "externals \<Rightarrow> verified_users_settings \<Rightarrow> web \<Rightarrow> nip05_name \<Rightarrow> string \<Rightarrow> (web_status, error) result" where
  "get_web_verification_res X vu W nip pubkey =
     (if \<not> is_domain_allowed (n5_domain nip) (domain_whitelist vu) (domain_blacklist vu) then Ok DomainNotAllowed
      else (case to_url (web_uri_ok W) nip of
         None \<Rightarrow> Err (CustomError ''invalid NIP-05 URL'')
       | Some url \<Rightarrow> judge_reply X nip pubkey (web_fetch W url)))"

definition get_web_verification ::
  "externals \<Rightarrow> verified_users_settings \<Rightarrow> web \<Rightarrow> nip05_name \<Rightarrow> string \<Rightarrow> web_status" where
  "get_web_verification X vu W nip pubkey =
     (case get_web_verification_res X vu W nip pubkey of Ok s \<Rightarrow> s | Err _ \<Rightarrow> Unknown)"

definition get_web_verification_from_event ::
  "externals \<Rightarrow> verified_users_settings \<Rightarrow> web \<Rightarrow> event \<Rightarrow> web_status" where
  "get_web_verification_from_event X vu W e =
     (case get_nip05_addr X e of None \<Rightarrow> Unknown | Some nip \<Rightarrow> get_web_verification X vu W nip (ev_pubkey e))"

section \<open>Verification records\<close>

record verification_record =
  vc_rowid :: u64
  vc_name :: nip05_name
  vc_address :: string
  vc_event :: string
  vc_event_created :: u64
  vc_last_success :: "u64 option"
  vc_last_failure :: "u64 option"
  vc_failure_count :: u64

text \<open>\<^verbatim>\<open>SystemTime\<close> minus a duration, as seconds since the epoch: a time before the epoch counts as
  zero, one before the representable range is a panic.\<close>

definition seconds_before :: "int \<Rightarrow> duration \<Rightarrow> u64 exec" where
  "seconds_before now d =
     (let t = now - int d in
      if t < - (2 ^ 63) * 10 ^ 9 then Panic
      else Done (if t < 0 then 0 else word_of_int (t div 10 ^ 9)))"

definition is_current :: "int \<Rightarrow> duration \<Rightarrow> verification_record \<Rightarrow> bool exec" where
  "is_current now d v =
     (case vc_last_success v of
        None \<Rightarrow> Done False
      | Some s \<Rightarrow> map_exec (\<lambda>cutoff. cutoff < s) (seconds_before now d))"

definition record_is_valid :: "int \<Rightarrow> verified_users_settings \<Rightarrow> verification_record \<Rightarrow> bool exec" where
  "record_is_valid now vu v =
     (let allowed = is_domain_allowed (n5_domain (vc_name v)) (domain_whitelist vu) (domain_blacklist vu) in
      case verify_expiration_duration vu of
        None \<Rightarrow> Done allowed
      | Some d \<Rightarrow> map_exec (\<lambda>cur. cur \<and> allowed) (is_current now d v))"

section \<open>Queries for records\<close>

type_synonym verif_join = "event_row \<times> verif_row"

definition verif_rows :: "event_db \<Rightarrow> verif_join list" where
  "verif_rows db = filter (\<lambda>(r, v). er_id r = vr_event v) (List.product (db_events db) (db_verifs db))"

definition col_u64 :: "int option \<Rightarrow> u64 option" where
  "col_u64 c = (case c of None \<Rightarrow> None | Some i \<Rightarrow> if 0 \<le> i then Some (word_of_int i) else None)"

definition read_record :: "externals \<Rightarrow> string \<Rightarrow> verif_join \<Rightarrow> (verification_record, error) result" where
  "read_record X addr rv =
     (case rv of (r, v) \<Rightarrow>
        if vr_failure_count v < 0 then Err (SqlError (OtherSqlError ''IntegralValueOutOfRange''))
        else map_ok (\<lambda>n. \<lparr>vc_rowid = of_nat (vr_id v), vc_name = n, vc_address = addr, vc_event = hex_encode X (er_hash r),
               vc_event_created = er_created_at r, vc_last_success = col_u64 (vr_verified_at v),
               vc_last_failure = col_u64 (vr_failed_at v), vc_failure_count = word_of_int (vr_failure_count v)\<rparr>)
             (nip05_try_from X (vr_name v)))"

definition latest_key :: "verif_join \<Rightarrow> u64 \<times> int option \<times> int option" where
  "latest_key rv = (er_created_at (fst rv), vr_verified_at (snd rv), vr_failed_at (snd rv))"

definition oldest_key :: "verif_join \<Rightarrow> int option \<times> int option" where
  "oldest_key rv = (vr_verified_at (snd rv), vr_failed_at (snd rv))"

type_synonym verif_order = "verif_join list \<Rightarrow> verif_join list"

text \<open>\<^verbatim>\<open>ORDER BY\<close> on such a key; the order of rows with equal keys is open.\<close>

definition orders_latest :: "verif_order \<Rightarrow> bool" where
  "orders_latest ord \<longleftrightarrow> (\<forall>xs. mset (ord xs) = mset xs \<and> sorted_wrt (\<lambda>a b. latest_key b \<le> latest_key a) (ord xs))"

definition orders_oldest :: "verif_order \<Rightarrow> bool" where
  "orders_oldest ord \<longleftrightarrow> (\<forall>xs. mset (ord xs) = mset xs \<and> sorted_wrt (\<lambda>a b. oldest_key a \<le> oldest_key b) (ord xs))"

definition get_latest_user_verification ::
  "externals \<Rightarrow> verif_order \<Rightarrow> string \<Rightarrow> event_db \<Rightarrow> (verification_record, error) result" where
  "get_latest_user_verification X ord pub_key db =
     (case ord (filter (\<lambda>(r, v). hex_decode X pub_key = Some (er_author r)) (verif_rows db)) of
        [] \<Rightarrow> Err (SqlError QueryReturnedNoRows)
      | rv # _ \<Rightarrow> read_record X pub_key rv)"

definition due :: "u64 \<Rightarrow> verif_row \<Rightarrow> bool" where
  "due before v \<longleftrightarrow> (case vr_verified_at v of None \<Rightarrow> True | Some t \<Rightarrow> t < uint before) \<and>
     (case vr_failed_at v of None \<Rightarrow> True | Some t \<Rightarrow> t < uint before)"

definition get_oldest_user_verification ::
  "externals \<Rightarrow> verif_order \<Rightarrow> u64 \<Rightarrow> event_db \<Rightarrow> (verification_record, error) result" where
  "get_oldest_user_verification X ord before db =
     (if \<not> fits_i64 before then Err (SqlError (OtherSqlError ''ToSqlConversionFailure''))
      else (case ord (filter (\<lambda>(r, v). due before v) (verif_rows db)) of
         [] \<Rightarrow> Err (SqlError QueryReturnedNoRows)
       | rv # _ \<Rightarrow> read_record X (hex_encode X (er_author (fst rv))) rv))"

section \<open>The verifier\<close>

datatype verif_call = AtLatest | AtOldest | AtUpdate | AtFail | AtDelete | AtCreate

record verifier_env =
  ve_web :: web
  ve_now :: int
  ve_sql_now :: int
  ve_jitter :: int
  ve_fault :: "verif_call \<Rightarrow> error option"
  ve_pool_fault :: "error option"
  ve_write_fault :: "nat \<Rightarrow> error option"
  ve_order :: row_order
  ve_latest :: verif_order
  ve_oldest :: verif_order

text \<open>The state of the verifier: the repository, the events it broadcast and the start and period of
  its interval.\<close>

record verifier_state =
  vs_db :: event_db
  vs_sent :: "event list"
  vs_interval :: "duration \<times> duration"

definition wait_after_finish :: duration where
  "wait_after_finish = from_secs (60 * 10)"

definition http_wait_duration :: duration where
  "http_wait_duration = from_secs 1"

definition verifier_new :: "event_db \<Rightarrow> verifier_state" where
  "verifier_new db = \<lparr>vs_db = db, vs_sent = [], vs_interval = (0, http_wait_duration)\<rparr>"

definition verif_update ::
  "error option \<Rightarrow> (event_db \<Rightarrow> event_db \<times> (unit, error) result) \<Rightarrow> verifier_state \<Rightarrow> verifier_state \<times> (unit, error) result" where
  "verif_update fault op st =
     (case fault of
        Some e \<Rightarrow> (st, Err e)
      | None \<Rightarrow> (case op (vs_db st) of (db, r) \<Rightarrow> (st\<lparr>vs_db := db\<rparr>, r)))"

definition create_new_verified_user ::
  "externals \<Rightarrow> verified_users_settings \<Rightarrow> verifier_env \<Rightarrow> string \<Rightarrow> event \<Rightarrow> verifier_state \<Rightarrow>
   verifier_state \<times> (unit, error) result" where
  "create_new_verified_user X vu E name e st =
     (let st1 =
        (if vu_is_enabled vu then
           (case write_event X (ve_order E) (ve_sql_now E) (ve_pool_fault E) (ve_write_fault E) e (vs_db st) of
              (db, Ok updated) \<Rightarrow>
                (if updated \<noteq> 0 then st\<lparr>vs_db := db, vs_sent := vs_sent st @ [e]\<rparr> else st\<lparr>vs_db := db\<rparr>)
            | (db, Err _) \<Rightarrow> st\<lparr>vs_db := db\<rparr>)
         else st)
      in verif_update (ve_fault E AtCreate) (create_verification_record X (ve_sql_now E) (ev_id e) name) st1)"

definition on_metadata ::
  "externals \<Rightarrow> verified_users_settings \<Rightarrow> verifier_env \<Rightarrow> event \<Rightarrow> verifier_state \<Rightarrow> verifier_state \<times> (unit, error) result" where
  "on_metadata X vu E e st =
     (case get_nip05_addr X e of
        None \<Rightarrow> (st, Ok ())
      | Some naddr \<Rightarrow>
        (let check_verified = (case ve_fault E AtLatest of Some err \<Rightarrow> Err err
               | None \<Rightarrow> get_latest_user_verification X (ve_latest E) (ev_pubkey e) (vs_db st)) in
         if (case check_verified of Ok last_check \<Rightarrow> ev_created_at e \<le> vc_event_created last_check | Err _ \<Rightarrow> False)
         then (st, Ok ())
         else if get_web_verification_from_event X vu (ve_web E) e = Verified
         then create_new_verified_user X vu E (nip05_to_string naddr) e st
         else (st, Ok ())))"

definition reverify_duration :: "verified_users_settings \<Rightarrow> duration" where
  "reverify_duration vu =
     (case verify_update_frequency_duration vu of Some d \<Rightarrow> d | None \<Rightarrow> from_secs (60 * 60 * 6))"

definition apply_reverify ::
  "externals \<Rightarrow> verified_users_settings \<Rightarrow> verifier_env \<Rightarrow> verification_record \<Rightarrow> verifier_state \<Rightarrow>
   verifier_state \<times> (unit, error) result" where
  "apply_reverify X vu E v st =
     (let give_up = verif_update (ve_fault E AtDelete) (delete_verification (vc_rowid v)) st in
      case get_web_verification X vu (ve_web E) (vc_name v) (vc_address v) of
        Verified \<Rightarrow> verif_update (ve_fault E AtUpdate) (update_verification_timestamp (ve_jitter E) (vc_rowid v)) st
      | Unverified \<Rightarrow> give_up
      | _ \<Rightarrow>
        if max_consecutive_failures vu \<le> unat (vc_failure_count v) then give_up
        else verif_update (ve_fault E AtFail) (fail_verification (ve_jitter E) (vc_rowid v)) st)"

definition do_reverify ::
  "externals \<Rightarrow> verified_users_settings \<Rightarrow> verifier_env \<Rightarrow> verifier_state \<Rightarrow> (verifier_state \<times> (unit, error) result) exec" where
  "do_reverify X vu E st =
     map_exec (\<lambda>earliest.
       (case (case ve_fault E AtOldest of Some err \<Rightarrow> Err err
              | None \<Rightarrow> get_oldest_user_verification X (ve_oldest E) earliest (vs_db st)) of
          Ok v \<Rightarrow> apply_reverify X vu E v st
        | Err e \<Rightarrow>
          if is_no_rows e then (st\<lparr>vs_interval := (wait_after_finish, http_wait_duration)\<rparr>, Ok ())
          else (st, Ok ())))
     (seconds_before (ve_now E) (reverify_duration vu))"

datatype verifier_msg = Metadata event | Lagged | ChannelGone | Tick

fun verifier_run_internal ::
  "externals \<Rightarrow> verified_users_settings \<Rightarrow> verifier_env \<Rightarrow> verifier_msg \<Rightarrow> verifier_state \<Rightarrow>
   (verifier_state \<times> (unit, error) result) exec" where
  "verifier_run_internal X vu E (Metadata e) st = Done (on_metadata X vu E e st)"
| "verifier_run_internal X vu E Lagged st = Done (st, Ok ())"
| "verifier_run_internal X vu E ChannelGone st = Done (st, Err ChannelClosed)"
| "verifier_run_internal X vu E Tick st = do_reverify X vu E st"

text \<open>The loop around it ends when the channel is closed; every other error is only logged.\<close>

fun verifier_run ::
  "externals \<Rightarrow> verified_users_settings \<Rightarrow> (verifier_env \<times> verifier_msg) list \<Rightarrow> verifier_state \<Rightarrow> verifier_state exec" where
  "verifier_run X vu [] st = Done st"
| "verifier_run X vu ((E, m) # ms) st =
     (case verifier_run_internal X vu E m st of
        Panic \<Rightarrow> Panic
      | Done (st', Err ChannelClosed) \<Rightarrow> Done st'
      | Done (st', _) \<Rightarrow> verifier_run X vu ms st')"

section \<open>Lemmas on names\<close>

definition local_ok :: "externals \<Rightarrow> string \<Rightarrow> bool" where
  "local_ok X s \<longleftrightarrow> list_all (\<lambda>x. is_alphanumeric (ualnum X) x \<or> x = ''_'' \<or> x = ''-'' \<or> x = ''.'') (chars s)"

definition domain_ok :: "externals \<Rightarrow> string \<Rightarrow> bool" where
  "domain_ok X s \<longleftrightarrow> list_all (\<lambda>x. is_alphanumeric (ualnum X) x \<or> x = ''-'' \<or> x = ''.'') (chars s)"

text \<open>The names the parser accepts, and that it accepts nothing else.\<close>

definition nip05_wf :: "externals \<Rightarrow> nip05_name \<Rightarrow> bool" where
  "nip05_wf X n \<longleftrightarrow> local_ok X (n5_local n) \<and> domain_ok X (n5_domain n) \<and>
     CHR ''@'' \<notin> set (n5_local n) \<and> CHR ''@'' \<notin> set (n5_domain n)"

lemma nip05_try_from_Ok: "nip05_try_from X s = Ok n \<longleftrightarrow> s = nip05_to_string n \<and> nip05_wf X n"
proof
  assume h: "nip05_try_from X s = Ok n"
  then obtain a b where ab: "split_on CHR ''@'' s = [a, b]"
    by (auto simp: nip05_try_from_def split: list.splits)
  with h have "local_ok X a" "domain_ok X b" "n = \<lparr>n5_local = a, n5_domain = b\<rparr>"
    by (auto simp: nip05_try_from_def local_ok_def domain_ok_def split: if_splits)
  moreover have "s = a @ ''@'' @ b" using join_split_on [of "CHR ''@''" s] ab by simp
  moreover have "CHR ''@'' \<notin> set a" "CHR ''@'' \<notin> set b"
    using split_on_parts [of _ "CHR ''@''" s] ab by simp_all
  ultimately show "s = nip05_to_string n \<and> nip05_wf X n"
    by (simp add: nip05_to_string_def nip05_wf_def)
next
  assume h: "s = nip05_to_string n \<and> nip05_wf X n"
  then have "split_on CHR ''@'' s = [n5_local n, n5_domain n]"
    by (simp add: nip05_to_string_def nip05_wf_def split_on_delim split_on_no_delim)
  with h show "nip05_try_from X s = Ok n"
    by (simp add: nip05_try_from_def nip05_wf_def local_ok_def domain_ok_def)
qed

section \<open>What a verification rests on\<close>

text \<open>The domain of the name is allowed and its document, served with status 200 and of at most
  one MiB, maps the local part to the key.\<close>

definition attested :: "externals \<Rightarrow> verified_users_settings \<Rightarrow> web \<Rightarrow> nip05_name \<Rightarrow> string \<Rightarrow> bool" where
  "attested X vu W n key \<longleftrightarrow> is_domain_allowed (n5_domain n) (domain_whitelist vu) (domain_blacklist vu) \<and>
     (\<exists>url bound body. to_url (web_uri_ok W) n = Some url \<and> web_fetch W url = Reply 200 (Some bound) (Some body) \<and>
        bound \<le> 1024 * 1024 \<and> body_contains_user X (n5_local n) key body = Ok True)"

lemma verified_attested: "get_web_verification X vu W n key = Verified \<longleftrightarrow> attested X vu W n key"
  by (auto simp: get_web_verification_def get_web_verification_res_def judge_reply_def attested_def
      MAX_ALLOWED_RESPONSE_SIZE_def not_less split: option.splits result.splits web_reply.splits if_splits bool.splits)

lemma verified_event:
  "get_web_verification_from_event X vu W e = Verified \<longleftrightarrow>
     (\<exists>n. get_nip05_addr X e = Some n \<and> attested X vu W n (ev_pubkey e))"
  by (auto simp: get_web_verification_from_event_def verified_attested split: option.splits)

lemma nip05_addr_wf: "get_nip05_addr X e = Some n \<Longrightarrow> nip05_wf X n"
  by (auto simp: get_nip05_addr_def nip05_try_from_Ok split: if_splits bind_splits)

lemma verif_update_cases:
  "fst (verif_update fault op st) = (if fault = None then st\<lparr>vs_db := fst (op (vs_db st))\<rparr> else st)"
  by (auto simp: verif_update_def split: option.splits prod.splits)

lemma on_verif_mem:
  "v \<in> set (db_verifs (fst (on_verif i f db))) \<Longrightarrow>
     \<exists>u\<in>set (db_verifs db). v = u \<or> fits_i64 i \<and> vr_id u = unat i \<and> v = f u"
  by (auto simp: on_verif_def split: if_splits)

lemma delete_verifs: "set (db_verifs (delete_events P db)) \<subseteq> set (db_verifs db)"
  by (auto simp: delete_events_def Let_def)

lemma persist_verifs:
  assumes "persist_event X ord now f e db = (db', r)"
  shows "set (db_verifs db') \<subseteq> set (db_verifs db)"
  using assms
proof (cases rule: persist_cases)
  case (stored h a content n)
  let ?d1 = "insert_event X now e h a content db"
  have "set (db_verifs (drop_replaced ord e a ?d1)) \<subseteq> set (db_verifs ?d1)"
    by (simp add: drop_replaced_def Let_def delete_verifs)
  moreover have "set (db_verifs (drop_param_replaced ord e a d)) \<subseteq> set (db_verifs d)" for d
    by (simp add: drop_param_replaced_def Let_def delete_verifs split: option.splits)
  moreover have "db_verifs (fst (apply_deletions X e a i d)) = db_verifs d" for i d
    by (simp add: apply_deletions_def hide_targets_def)
  moreover have "db_verifs ?d1 = db_verifs db" by (simp add: insert_event_def Let_def)
  moreover have "db' = fst (store_event X ord now e h a content db)" using stored(8) by simp
  ultimately show ?thesis unfolding store_event_def Let_def by (metis order_trans)
qed simp

lemma write_event_verifs:
  "set (db_verifs (fst (write_event X ord now pf fl e db))) \<subseteq> set (db_verifs db)"
proof -
  have "set (db_verifs (fst (persist_event X ord now f e d))) \<subseteq> set (db_verifs d)" for f d
    by (cases "persist_event X ord now f e d" rule: prod.exhaust) (simp add: persist_verifs)
  then have "set (db_verifs (fst (write_attempts (\<lambda>f. persist_event X ord now f e) n fl db))) \<subseteq> set (db_verifs db)" for n
  proof (induction n arbitrary: fl db)
    case (Suc n)
    obtain db' r where p: "persist_event X ord now (fl 0) e db = (db', r)" by force
    have "set (db_verifs db') \<subseteq> set (db_verifs db)" using Suc.prems [of "fl 0" db] p by simp
    moreover have "set (db_verifs (fst (write_attempts (\<lambda>f. persist_event X ord now f e) n (\<lambda>k. fl (Suc k)) db'))) \<subseteq> set (db_verifs db')"
      using Suc by blast
    ultimately show ?case using p by auto
  qed simp
  then show ?thesis by (simp add: write_event_def split: option.splits)
qed

text \<open>Row numbers are signed 64-bit integers.\<close>

definition verifs_ok :: "event_db \<Rightarrow> bool" where
  "verifs_ok db \<longleftrightarrow> ev_inv db \<and> list_all (\<lambda>v. vr_id v < 2 ^ 63) (db_verifs db)"

lemma read_record_Ok:
  "read_record X a (r, v) = Ok c \<Longrightarrow> vc_rowid c = of_nat (vr_id v) \<and> vc_address c = a \<and>
     nip05_try_from X (vr_name v) = Ok (vc_name c) \<and> 0 \<le> vr_failure_count v \<and>
     vc_failure_count c = word_of_int (vr_failure_count v)"
  by (auto simp: read_record_def split: if_splits)

lemma mset_hd_mem: "mset (ord xs) = mset xs \<Longrightarrow> ord xs = y # ys \<Longrightarrow> y \<in> set xs"
  by (metis list.set_intros(1) set_mset_mset)

lemma oldest_Ok:
  assumes "get_oldest_user_verification X ord before db = Ok c" "orders_oldest ord"
  obtains r v where "r \<in> set (db_events db)" "v \<in> set (db_verifs db)" "er_id r = vr_event v" "due before v"
    "vc_rowid c = of_nat (vr_id v)" "vc_address c = hex_encode X (er_author r)"
    "nip05_try_from X (vr_name v) = Ok (vc_name c)" "vc_failure_count c = word_of_int (vr_failure_count v)"
    "0 \<le> vr_failure_count v"
proof -
  let ?rows = "filter (\<lambda>(r, v). due before v) (verif_rows db)"
  obtain r v rest where o: "ord ?rows = (r, v) # rest"
    and rd: "read_record X (hex_encode X (er_author r)) (r, v) = Ok c"
    using assms(1) by (auto simp: get_oldest_user_verification_def split: if_splits list.splits)
  have "mset (ord ?rows) = mset ?rows" using assms(2) unfolding orders_oldest_def by blast
  then have "(r, v) \<in> set ?rows" using o by (rule mset_hd_mem)
  then show thesis using that read_record_Ok [OF rd] by (auto simp: verif_rows_def)
qed

lemma same_verif:
  assumes "verifs_ok db" "v \<in> set (db_verifs db)" "u \<in> set (db_verifs db)" "vr_id u = unat (of_nat (vr_id v) :: u64)"
  shows "u = v"
proof -
  have "vr_id v < 2 ^ 63" using assms(1,2) by (auto simp: verifs_ok_def list_all_iff)
  then have "unat (of_nat (vr_id v) :: u64) = vr_id v" by (simp add: unat_of_nat)
  with assms show ?thesis by (auto simp: verifs_ok_def ev_inv_def distinct_map dest: inj_onD)
qed

lemma reverify_cases:
  assumes "do_reverify X vu E st = Done (st', r)" "orders_oldest (ve_oldest E)"
  obtains (same) "vs_db st' = vs_db st"
  | (found) before c where "get_oldest_user_verification X (ve_oldest E) before (vs_db st) = Ok c"
      "st' = fst (apply_reverify X vu E c st)"
  using assms(1) that by (auto simp: do_reverify_def split: option.splits result.splits if_splits)

lemma create_user_state:
  "\<exists>st1. set (db_verifs (vs_db st1)) \<subseteq> set (db_verifs (vs_db st)) \<and>
     fst (create_new_verified_user X vu E name e st) =
       fst (verif_update (ve_fault E AtCreate) (create_verification_record X (ve_sql_now E) (ev_id e) name) st1)"
proof (cases "write_event X (ve_order E) (ve_sql_now E) (ve_pool_fault E) (ve_write_fault E) e (vs_db st)")
  case (Pair db w)
  then have sub: "set (db_verifs db) \<subseteq> set (db_verifs (vs_db st))"
    using write_event_verifs [of X "ve_order E" "ve_sql_now E" "ve_pool_fault E" "ve_write_fault E" e "vs_db st"] by simp
  let ?st1 = "if vu_is_enabled vu then (case w of Ok u \<Rightarrow> if u \<noteq> 0 then st\<lparr>vs_db := db, vs_sent := vs_sent st @ [e]\<rparr>
    else st\<lparr>vs_db := db\<rparr> | Err _ \<Rightarrow> st\<lparr>vs_db := db\<rparr>) else st"
  show ?thesis
    using sub Pair by (intro exI [of _ ?st1]) (auto simp: create_new_verified_user_def Let_def split: result.splits)
qed

lemma created_record:
  assumes "v \<in> set (db_verifs (vs_db (fst (verif_update f (create_verification_record X now i name) st1))))"
    "v \<notin> S" "set (db_verifs (vs_db st1)) \<subseteq> S"
  obtains ev where "ev \<in> set (db_events (vs_db (fst (verif_update f (create_verification_record X now i name) st1))))"
    "er_id ev = vr_event v" "vr_name v = name" "hex_decode X i = Some (er_hash ev)"
proof -
  have "db_events (fst (create_verification_record X now i name d)) = db_events d" for d
    by (simp add: create_verification_record_def split: option.splits)
  then have "db_events (vs_db (fst (verif_update f (create_verification_record X now i name) st1))) = db_events (vs_db st1)"
    by (simp add: verif_update_cases)
  moreover have "\<exists>ev\<in>set (db_events (vs_db st1)). er_id ev = vr_event v \<and> vr_name v = name \<and> hex_decode X i = Some (er_hash ev)"
    using assms unfolding verif_update_cases create_verification_record_def
    by (auto split: if_splits option.splits bind_splits dest!: find_Some_iff)
  ultimately show thesis using that by auto
qed

lemma reverified_record:
  assumes "get_oldest_user_verification X (ve_oldest E) before (vs_db st) = Ok c" "orders_oldest (ve_oldest E)"
    "verifs_ok (vs_db st)" "v \<in> set (db_verifs (vs_db (fst (apply_reverify X vu E c st))))"
  shows "(\<exists>u\<in>set (db_verifs (vs_db st)). vr_name u = vr_name v \<and> vr_event u = vr_event v \<and> vr_verified_at u = vr_verified_at v) \<or>
    (\<exists>n ev. nip05_try_from X (vr_name v) = Ok n \<and> ev \<in> set (db_events (vs_db (fst (apply_reverify X vu E c st)))) \<and>
       er_id ev = vr_event v \<and> attested X vu (ve_web E) n (hex_encode X (er_author ev)))"
proof -
  obtain r w where rw: "r \<in> set (db_events (vs_db st))" "w \<in> set (db_verifs (vs_db st))" "er_id r = vr_event w"
    "vc_rowid c = of_nat (vr_id w)" "vc_address c = hex_encode X (er_author r)" "nip05_try_from X (vr_name w) = Ok (vc_name c)"
    using oldest_Ok [OF assms(1,2)] by metis
  show ?thesis
  proof (cases "get_web_verification X vu (ve_web E) (vc_name c) (vc_address c) = Verified \<and> ve_fault E AtUpdate = None")
    case True
    then have st: "fst (apply_reverify X vu E c st) =
        st\<lparr>vs_db := fst (on_verif (vc_rowid c) (\<lambda>v. v\<lparr>vr_verified_at := Some (ve_jitter E), vr_failure_count := 0\<rparr>) (vs_db st))\<rparr>"
      by (simp add: apply_reverify_def Let_def verif_update_cases update_verification_timestamp_def)
    with assms(4) on_verif_mem obtain u where u: "u \<in> set (db_verifs (vs_db st))"
      "v = u \<or> vr_id u = unat (vc_rowid c) \<and> v = u\<lparr>vr_verified_at := Some (ve_jitter E), vr_failure_count := 0\<rparr>"
      by fastforce
    moreover have "u = w" if "vr_id u = unat (vc_rowid c)" using same_verif [OF assms(3) rw(2) u(1)] that rw(4) by simp
    moreover have "r \<in> set (db_events (vs_db (fst (apply_reverify X vu E c st))))" using rw(1) st by (simp add: on_verif_def)
    moreover have "attested X vu (ve_web E) (vc_name c) (hex_encode X (er_author r))"
      using True rw(5) by (simp add: verified_attested)
    ultimately show ?thesis using rw by auto
  next
    case False
    then have "\<exists>u\<in>set (db_verifs (vs_db st)). vr_name u = vr_name v \<and> vr_event u = vr_event v \<and> vr_verified_at u = vr_verified_at v"
      using assms(4) unfolding apply_reverify_def Let_def
      by (auto simp: verif_update_cases delete_verification_def fail_verification_def dest!: on_verif_mem
          split: web_status.splits if_splits)
    then show ?thesis ..
  qed
qed

lemma created_counts:
  "v \<in> set (db_verifs (fst (create_verification_record X now i name db))) \<Longrightarrow> v \<in> set (db_verifs db) \<or> vr_failure_count v = 0"
  by (auto simp: create_verification_record_def split: option.splits)

lemma metadata_counts:
  assumes "v \<in> set (db_verifs (vs_db (fst (on_metadata X vu E e st))))"
  shows "v \<in> set (db_verifs (vs_db st)) \<or> vr_failure_count v = 0"
proof (cases "fst (on_metadata X vu E e st) = st")
  case False
  then obtain name where cr: "fst (on_metadata X vu E e st) = fst (create_new_verified_user X vu E name e st)"
    by (auto simp: on_metadata_def Let_def split: option.splits if_splits)
  obtain st1 where "set (db_verifs (vs_db st1)) \<subseteq> set (db_verifs (vs_db st))"
    "fst (create_new_verified_user X vu E name e st) =
       fst (verif_update (ve_fault E AtCreate) (create_verification_record X (ve_sql_now E) (ev_id e) name) st1)"
    using create_user_state by metis
  with assms cr show ?thesis by (auto simp: verif_update_cases split: if_splits dest: created_counts)
qed (use assms in simp)

definition counts_within :: "nat \<Rightarrow> event_db \<Rightarrow> bool" where
  "counts_within n db \<longleftrightarrow> list_all (\<lambda>v. vr_failure_count v \<le> int n) (db_verifs db)"

lemma reverify_counts:
  assumes "get_oldest_user_verification X (ve_oldest E) before (vs_db st) = Ok c" "orders_oldest (ve_oldest E)"
    "verifs_ok (vs_db st)" "counts_within (max_consecutive_failures vu) (vs_db st)" "max_consecutive_failures vu < 2 ^ 64"
    "v \<in> set (db_verifs (vs_db (fst (apply_reverify X vu E c st))))"
  shows "vr_failure_count v \<le> int (max_consecutive_failures vu)"
proof -
  obtain r w where w: "w \<in> set (db_verifs (vs_db st))" "vc_rowid c = of_nat (vr_id w)"
    "vc_failure_count c = word_of_int (vr_failure_count w)" "0 \<le> vr_failure_count w"
    using oldest_Ok [OF assms(1,2)] by metis
  have le: "vr_failure_count u \<le> int (max_consecutive_failures vu)" if "u \<in> set (db_verifs (vs_db st))" for u
    using assms(4) that by (simp add: counts_within_def list_all_iff)
  have "unat (vc_failure_count c) = nat (vr_failure_count w)"
    using w(3,4) le [OF w(1)] assms(5) by (simp add: unat_eq_nat_uint uint_word_of_int)
  moreover have "u = w" if "u \<in> set (db_verifs (vs_db st))" "vr_id u = unat (vc_rowid c)" for u
    using same_verif [OF assms(3) w(1) that(1)] that(2) w(2) by simp
  ultimately show ?thesis
    using assms(6) le w(4) unfolding apply_reverify_def Let_def
    by (auto simp: verif_update_cases delete_verification_def fail_verification_def update_verification_timestamp_def
        dest!: on_verif_mem split: web_status.splits if_splits)
qed

section \<open>Properties\<close>

text \<open>C39: A NIP-05 address is read back from its printed form: the parser accepts exactly the
  strings that print a name with one \<^verbatim>\<open>@\<close>, an alphanumeric local part (with underscore, hyphen
  and dot) and an alphanumeric domain (with hyphen and dot), and returns that name.\<close>

theorem nip05_name_roundtrip: "nip05_try_from X s = Ok n \<longleftrightarrow> s = nip05_to_string n \<and> nip05_wf X n"
  by (rule nip05_try_from_Ok)

text \<open>C32: Nobody is verified without their domain. After any step of the verifier, every
  verification record either is an old one whose time of verification did not change, or the
  domain of its name is allowed and answered this step's request with a document that maps
  the local part to the author's key: to the key of the metadata event the record was created
  for, or, for a record verified again, to the author of the event the record refers to.\<close>

theorem verification_needs_domain:
  assumes "verifier_run_internal X vu E m st = Done (st', r)" "v \<in> set (db_verifs (vs_db st'))"
    and "verifs_ok (vs_db st)" "orders_oldest (ve_oldest E)"
  shows "(\<exists>u\<in>set (db_verifs (vs_db st)). vr_name u = vr_name v \<and> vr_event u = vr_event v \<and> vr_verified_at u = vr_verified_at v) \<or>
    (\<exists>n ev. nip05_try_from X (vr_name v) = Ok n \<and> ev \<in> set (db_events (vs_db st')) \<and> er_id ev = vr_event v \<and>
       (case m of
          Metadata e \<Rightarrow> get_nip05_addr X e = Some n \<and> hex_decode X (ev_id e) = Some (er_hash ev) \<and>
            attested X vu (ve_web E) n (ev_pubkey e)
        | _ \<Rightarrow> attested X vu (ve_web E) n (hex_encode X (er_author ev))))"
proof (cases m)
  case (Metadata e)
  show ?thesis
  proof (cases "v \<in> set (db_verifs (vs_db st))")
    case False
    with assms(1,2) Metadata have nz: "st' \<noteq> st" by auto
    then obtain n where n: "get_nip05_addr X e = Some n" "attested X vu (ve_web E) n (ev_pubkey e)"
      and cr: "st' = fst (create_new_verified_user X vu E (nip05_to_string n) e st)"
      using assms(1) Metadata by (auto simp: on_metadata_def verified_event Let_def split: option.splits if_splits)
    obtain st1 where old: "set (db_verifs (vs_db st1)) \<subseteq> set (db_verifs (vs_db st))"
      and st': "st' = fst (verif_update (ve_fault E AtCreate)
        (create_verification_record X (ve_sql_now E) (ev_id e) (nip05_to_string n)) st1)"
      using create_user_state [of st X vu E "nip05_to_string n" e] cr by metis
    from created_record [OF _ _ old] assms(2) st' False obtain ev where "ev \<in> set (db_events (vs_db st'))" "er_id ev = vr_event v"
      "vr_name v = nip05_to_string n" "hex_decode X (ev_id e) = Some (er_hash ev)" by metis
    then show ?thesis
      using n nip05_addr_wf [OF n(1)] Metadata nip05_try_from_Ok [of X "nip05_to_string n" n] by auto
  qed blast
next
  case Tick
  with assms(1) have "do_reverify X vu E st = Done (st', r)" by simp
  from this assms(4) show ?thesis
  proof (cases rule: reverify_cases)
    case (found before c)
    from reverified_record [OF found(1) assms(4,3)] found(2) assms(2) Tick show ?thesis by auto
  qed (use assms(2) in auto)
qed (use assms in auto)

definition demo_name :: nip05_name where
  "demo_name = \<lparr>n5_local = ''bob'', n5_domain = ''example.com''\<rparr>"

definition demo_meta :: event where
  "demo_meta = \<lparr>ev_id = ''00'', ev_pubkey = ''aa'', ev_delegated_by = None, ev_created_at = 1000, ev_kind = 0, ev_tags = [],
     ev_content = CHR 0x22 # ''nip05'' @ [CHR 0x22], ev_sig = [], ev_tagidx = None\<rparr>"

definition demo_x :: externals where
  "demo_x = std_ext\<lparr>json_from_str := (\<lambda>s. Some (if s = ''doc'' then JObject [(''names'', JObject [(''bob'', JString ''aa'')])]
     else JObject [(''nip05'', JString ''bob@example.com'')]))\<rparr>"

definition demo_vu :: verified_users_settings where
  "demo_vu = (s_verified_users default_settings)\<lparr>vu_mode := Passive\<rparr>"

definition demo_ve :: verifier_env where
  "demo_ve = \<lparr>ve_web = \<lparr>web_uri_ok = (\<lambda>_. True), web_fetch = (\<lambda>_. Reply 200 (Some 3) (Some ''doc''))\<rparr>, ve_now = 0, ve_sql_now = 7,
     ve_jitter = 7, ve_fault = (\<lambda>_. None), ve_pool_fault = None, ve_write_fault = (\<lambda>_. None), ve_order = std_ord,
     ve_latest = (\<lambda>xs. rev (sort_key latest_key xs)), ve_oldest = sort_key oldest_key\<rparr>"

definition demo_vdb :: event_db where
  "demo_vdb = \<lparr>db_events = [\<lparr>er_id = 1, er_hash = [char_of (0::nat)], er_first_seen = 5, er_created_at = 1000, er_expires_at = None,
     er_author = [CHR 0xAA], er_delegated_by = None, er_kind = 0, er_hidden = False, er_content = ''c''\<rparr>],
     db_tags = [], db_verifs = []\<rparr>"

definition demo_vrow :: verif_row where
  "demo_vrow = \<lparr>vr_id = 1, vr_event = 1, vr_name = ''bob@example.com'', vr_verified_at = Some 7, vr_failed_at = None, vr_failure_count = 0\<rparr>"

lemma orders_oldest_std: "orders_oldest (sort_key oldest_key)"
  using sorted_sort_key [of oldest_key] by (simp add: orders_oldest_def sorted_map)

lemma demo_addr: "get_nip05_addr demo_x demo_meta = Some demo_name"
  by (simp add: get_nip05_addr_def demo_meta_def demo_x_def is_kind_metadata_def value_get_def value_map_def
      nip05_try_from_def chars_ascii ascii_defs is_alphanumeric_def demo_name_def starts_with_def)

lemma demo_doc: "body_contains_user demo_x ''bob'' ''aa'' ''doc'' = Ok True"
  by (simp add: body_contains_user_def demo_x_def value_get_def value_map_def)

lemma demo_attested: "attested demo_x demo_vu (ve_web demo_ve) demo_name ''aa''"
  using demo_doc
  by (simp add: attested_def demo_vu_def default_settings_def is_domain_allowed_def demo_ve_def to_url_def demo_name_def)

lemma demo_step:
  "verifier_run_internal demo_x demo_vu demo_ve (Metadata demo_meta) (verifier_new demo_vdb) =
     Done ((verifier_new demo_vdb)\<lparr>vs_db := demo_vdb\<lparr>db_verifs := [demo_vrow]\<rparr>\<rparr>, Ok ())"
proof -
  have "get_latest_user_verification demo_x (ve_latest demo_ve) (ev_pubkey demo_meta) demo_vdb = Err (SqlError QueryReturnedNoRows)"
    by (simp add: get_latest_user_verification_def verif_rows_def demo_vdb_def demo_ve_def)
  moreover have "get_web_verification_from_event demo_x demo_vu (ve_web demo_ve) demo_meta = Verified"
    unfolding verified_event using demo_addr demo_attested by (simp add: demo_meta_def)
  moreover have "\<not> vu_is_enabled demo_vu" by (simp add: demo_vu_def vu_is_enabled_def)
  moreover have "hex_decode demo_x ''00'' = Some [char_of (0::nat)]"
    by (simp add: demo_x_def std_ext_def hex_val_def ascii_defs)
  then have "create_verification_record demo_x 7 ''00'' ''bob@example.com'' demo_vdb = (demo_vdb\<lparr>db_verifs := [demo_vrow]\<rparr>, Ok ())"
    by (simp add: create_verification_record_def demo_vdb_def demo_vrow_def next_id_def)
  moreover have "nip05_to_string demo_name = ''bob@example.com''" by (simp add: nip05_to_string_def demo_name_def)
  ultimately show ?thesis
    by (simp add: on_metadata_def demo_addr verifier_new_def create_new_verified_user_def verif_update_def)
      (simp add: demo_ve_def demo_meta_def)
qed

theorem verification_needs_domain_witness:
  "\<exists>n. nip05_try_from demo_x ''bob@example.com'' = Ok n \<and> attested demo_x demo_vu (ve_web demo_ve) n ''aa''"
proof -
  have "verifs_ok (vs_db (verifier_new demo_vdb))" by (simp add: verifs_ok_def ev_inv_def verifier_new_def demo_vdb_def)
  moreover have "orders_oldest (ve_oldest demo_ve)" by (simp add: demo_ve_def orders_oldest_std)
  ultimately show ?thesis
    using verification_needs_domain [OF demo_step, of demo_vrow]
    by (auto simp: verifier_new_def demo_vdb_def demo_vrow_def demo_meta_def)
qed

text \<open>A name that cannot be verified is given up. No step of the verifier lets a record's count
  of consecutive failures grow beyond the configured maximum: at the maximum the record is
  deleted instead.\<close>

theorem failure_count_bounded:
  assumes "verifier_run_internal X vu E m st = Done (st', r)" "verifs_ok (vs_db st)" "orders_oldest (ve_oldest E)"
    and "max_consecutive_failures vu < 2 ^ 64" "counts_within (max_consecutive_failures vu) (vs_db st)"
  shows "counts_within (max_consecutive_failures vu) (vs_db st')"
proof (cases m)
  case (Metadata e)
  with assms(1) have st': "st' = fst (on_metadata X vu E e st)" by simp
  have "vr_failure_count v \<le> int (max_consecutive_failures vu)" if "v \<in> set (db_verifs (vs_db st'))" for v
    using metadata_counts [of v X vu E e st] that st' assms(5) by (auto simp: counts_within_def list_all_iff)
  then show ?thesis by (simp add: counts_within_def list_all_iff)
next
  case Tick
  with assms(1) have "do_reverify X vu E st = Done (st', r)" by simp
  from this assms(3) show ?thesis
  proof (cases rule: reverify_cases)
    case (found before c)
    from reverify_counts [OF found(1) assms(3,2,5,4)] found(2) show ?thesis by (simp add: counts_within_def list_all_iff)
  qed (use assms(5) in \<open>simp add: counts_within_def\<close>)
qed (use assms in auto)

theorem failure_count_bounded_witness: "counts_within 20 (demo_vdb\<lparr>db_verifs := [demo_vrow]\<rparr>)"
proof -
  have "verifs_ok (vs_db (verifier_new demo_vdb))" by (simp add: verifs_ok_def ev_inv_def verifier_new_def demo_vdb_def)
  moreover have "orders_oldest (ve_oldest demo_ve)" by (simp add: demo_ve_def orders_oldest_std)
  moreover have "max_consecutive_failures demo_vu = 20" by (simp add: demo_vu_def default_settings_def)
  moreover have "counts_within 20 (vs_db (verifier_new demo_vdb))" by (simp add: counts_within_def verifier_new_def demo_vdb_def)
  ultimately show ?thesis using failure_count_bounded [OF demo_step] by simp
qed

end
