(* ===== verification/Authz.thy ===== *)
theory Authz
  imports Nip05
begin

text \<open>
  The client of the remote admission service (\<^verbatim>\<open>src/src/nauthz.rs\<close>). The service itself and the
  transport are arguments: whether a connection attempt succeeds and the answer to a request.
\<close>

section \<open>Requests and replies\<close>

record grpc_event =
  ge_id :: string
  ge_pubkey :: string
  ge_sig :: string
  ge_created_at :: u64
  ge_kind :: u64
  ge_content :: string
  ge_tags :: "string list list"

record event_request =
  rq_event :: grpc_event
  rq_ip_addr :: string
  rq_origin :: "string option"
  rq_user_agent :: "string option"
  rq_auth_pubkey :: "string option"
  rq_nip05 :: "nip05_name option"

record event_reply =
  rp_decision :: int
  rp_message :: "string option"

definition permitted :: "event_reply \<Rightarrow> bool" where
  "permitted r \<longleftrightarrow> rp_decision r = 1"

definition tags_to_protobuf :: "string list list \<Rightarrow> string list list" where
  "tags_to_protobuf ts = map (\<lambda>x. x) ts"

section \<open>The service connection\<close>

record authz_service =
  as_server_addr :: string
  as_connected :: bool

definition ready_connection :: "bool \<Rightarrow> authz_service \<Rightarrow> authz_service" where
  "ready_connection reachable_now c = (if as_connected c then c else c\<lparr>as_connected := reachable_now\<rparr>)"

definition authz_connect :: "bool \<Rightarrow> string \<Rightarrow> authz_service" where
  "authz_connect reachable_now addr =
     ready_connection reachable_now \<lparr>as_server_addr = addr, as_connected = False\<rparr>"

definition admit_event ::
  "externals \<Rightarrow> bool \<Rightarrow> (event_request \<Rightarrow> (event_reply, error) result) \<Rightarrow> event \<Rightarrow> string \<Rightarrow> string option \<Rightarrow>
   string option \<Rightarrow> nip05_name option \<Rightarrow> string option \<Rightarrow> authz_service \<Rightarrow> authz_service \<times> (event_reply, error) result" where
  "admit_event X reachable_now event_admit e addr origin user_agent nip05 auth c =
     (let c1 = ready_connection reachable_now c in
      (c1, case hex_decode X (ev_id e) of
         None \<Rightarrow> Err (HexError (ev_id e))
       | Some id_blob \<Rightarrow>
      (case hex_decode X (ev_pubkey e) of
         None \<Rightarrow> Err (HexError (ev_pubkey e))
       | Some pubkey_blob \<Rightarrow>
      (case hex_decode X (ev_sig e) of
         None \<Rightarrow> Err (HexError (ev_sig e))
       | Some sig_blob \<Rightarrow>
         if as_connected c1 then
           event_admit \<lparr>rq_event = \<lparr>ge_id = id_blob, ge_pubkey = pubkey_blob, ge_sig = sig_blob,
               ge_created_at = ev_created_at e, ge_kind = ev_kind e, ge_content = ev_content e,
               ge_tags = tags_to_protobuf (ev_tags e)\<rparr>,
             rq_ip_addr = addr, rq_origin = origin, rq_user_agent = user_agent, rq_auth_pubkey = auth, rq_nip05 = nip05\<rparr>
         else Err AuthzError))))"

lemma ready_stays_connected: "as_connected c \<Longrightarrow> ready_connection b c = c"
  by (simp add: ready_connection_def)

text \<open>A reply comes only from the service, asked about exactly this event.\<close>

lemma admit_event_Ok:
  assumes "admit_event X b event_admit e addr org ua n5 auth c = (c', Ok reply)"
  obtains rq where "event_admit rq = Ok reply" "hex_decode X (ev_id e) = Some (ge_id (rq_event rq))"
    "hex_decode X (ev_pubkey e) = Some (ge_pubkey (rq_event rq))" "ge_kind (rq_event rq) = ev_kind e"
    "ge_content (rq_event rq) = ev_content e" "rq_nip05 rq = n5" "rq_auth_pubkey rq = auth" "as_connected c'"
  using assms that by (auto simp: admit_event_def Let_def split: option.splits if_splits)

end
