(* ===== verification/Payment.thy ===== *)
theory Payment
  imports Account_Store
begin

text \<open>
  Payments for admission (\<^verbatim>\<open>src/src/payment/mod.rs\<close>) and the GoblinPay processor
  (\<^verbatim>\<open>src/src/payment/goblinpay.rs\<close>). The handler's state is the account store together with
  what it has sent: payment messages, stored and broadcast events. The answers of the
  processor, database failures and the encrypted direct messages that the \<^verbatim>\<open>nostr\<close> package
  builds are the record \<open>pay_env\<close>; each call site has its own failure.
\<close>

section \<open>The GoblinPay processor\<close>

definition status_from :: "string \<Rightarrow> invoice_status" where
  "status_from status = (if status = ''paid'' then Paid else if status = ''open'' then Unpaid else Expired)"

record gp_request =
  gp_method :: string
  gp_uri :: string
  gp_auth :: string
  gp_content_type :: "string option"
  gp_body :: string

record gp_processor =
  gp_base_url :: string
  gp_token :: string

definition gp_new :: "string \<Rightarrow> string \<Rightarrow> gp_processor" where
  "gp_new base_url api_token = \<lparr>gp_base_url = trim_end_matches CHR ''/'' base_url, gp_token = api_token\<rparr>"

text \<open>The fields of an invoice response: id, pay URL and status.\<close>

fun de_invoice_response :: "json \<Rightarrow> (string \<times> string \<times> string) option" where
  "de_invoice_response (JObject m) =
     Option.bind (Option.bind (field1 m ''invoice_id'') de_string) (\<lambda>i.
     Option.bind (Option.bind (field1 m ''pay_url'') de_string) (\<lambda>u.
     Option.bind (Option.bind (field1 m ''status'') de_string) (\<lambda>s. Some (i, u, s))))"
| "de_invoice_response (JArray [a, b, c]) =
     Option.bind (de_string a) (\<lambda>i. Option.bind (de_string b) (\<lambda>u. Option.bind (de_string c) (\<lambda>s. Some (i, u, s))))"
| "de_invoice_response _ = None"

text \<open>The network: whether a string is a URI, and the answer (status and body) to a request.\<close>

record gp_net =
  uri_ok :: "string \<Rightarrow> bool"
  gp_send :: "gp_request \<Rightarrow> (nat \<times> string, error) result"

definition gp_exchange :: "externals \<Rightarrow> gp_net \<Rightarrow> string \<Rightarrow> gp_request \<Rightarrow> (string \<times> string \<times> string, error) result" where
  "gp_exchange X N what rq =
     (if \<not> uri_ok N (gp_uri rq) then Err (CustomError ''invalid goblinpay url'')
      else (case gp_send N rq of
         Err e \<Rightarrow> Err e
       | Ok (status, body) \<Rightarrow>
         if \<not> (200 \<le> status \<and> status < 300)
         then Err (CustomError (''goblinpay '' @ what @ '' invoice failed: HTTP '' @ show_nat status))
         else (case Option.bind (json_from_str X body) de_invoice_response of
            None \<Rightarrow> Err (JsonParseFailed ''invoice response'')
          | Some r \<Rightarrow> Ok r)))"

definition gp_get_invoice ::
  "externals \<Rightarrow> gp_net \<Rightarrow> gp_processor \<Rightarrow> string \<Rightarrow> u64 \<Rightarrow> (invoice_info, error) result" where
  "gp_get_invoice X N P pubkey amount =
     (let memo = ''floonet relay: '' @ pubkey;
          body = JObject [(''amount_grin'', JNumber (PosInt amount)), (''order_ref'', JString (''floonet:'' @ pubkey)),
                          (''memo'', JString memo)]
      in if \<not> uri_ok N (gp_base_url P @ ''/invoice'') then Err (CustomError ''invalid goblinpay url'')
      else (case json_to_string X body of
        None \<Rightarrow> Err (JsonParseFailed ''invoice body'')
      | Some text \<Rightarrow>
        (case gp_exchange X N ''create'' \<lparr>gp_method = ''POST'', gp_uri = gp_base_url P @ ''/invoice'',
                gp_auth = ''Bearer '' @ gp_token P, gp_content_type = Some ''application/json'', gp_body = text\<rparr> of
           Err e \<Rightarrow> Err e
         | Ok (iid, url, status) \<Rightarrow>
           Ok \<lparr>ii_pubkey = pubkey, ii_payment_hash = iid, ii_bolt11 = url, ii_amount = amount,
               ii_status = status_from status, ii_memo = memo, ii_confirmed_at = None\<rparr>)))"

definition gp_safe_id :: "string \<Rightarrow> bool" where
  "gp_safe_id h \<longleftrightarrow> list_all (\<lambda>ch. case ch of [c] \<Rightarrow>
     is_ascii_alphanumeric c \<or> c = CHR ''-'' \<or> c = CHR ''_'' | _ \<Rightarrow> False) (chars h)"

definition gp_check_invoice ::
  "externals \<Rightarrow> gp_net \<Rightarrow> gp_processor \<Rightarrow> string \<Rightarrow> (invoice_status, error) result" where
  "gp_check_invoice X N P h =
     (if \<not> gp_safe_id h then Err (CustomError ''invalid invoice id'')
      else map_ok (\<lambda>(_, _, status). status_from status)
        (gp_exchange X N ''check'' \<lparr>gp_method = ''GET'', gp_uri = gp_base_url P @ ''/invoice/'' @ h,
           gp_auth = ''Bearer '' @ gp_token P, gp_content_type = None, gp_body = []\<rparr>))"

section \<open>The payment handler\<close>

datatype payment_message =
    NewAccount string
  | CheckAccount string
  | AccountAdmitted string
  | InvoiceMsg string invoice_info
  | InvoicePaid string

record 'r pay_state =
  ps_repo :: 'r
  ps_sent :: "payment_message list"
  ps_stored :: "event list"
  ps_broadcast :: "event list"

datatype pay_call = AtCreateAccount | AtUnpaid | AtCreateInvoice | AtCheckUpdate | AtPaidUpdate | AtAdmit

record pay_env =
  pe_sql_now :: int
  pe_fault :: "pay_call \<Rightarrow> error option"
  pe_check_invoice :: "string \<Rightarrow> (invoice_status, error) result"
  pe_get_invoice :: "string \<Rightarrow> u64 \<Rightarrow> (invoice_info, error) result"
  pe_have_keys :: bool \<comment> \<open>a secret key is configured\<close>
  pe_direct_msg :: "string \<Rightarrow> string \<Rightarrow> (event, error) result" \<comment> \<open>recipient, text\<close>
  pe_write_event :: "event \<Rightarrow> (unit, error) result"

definition keys_of :: "externals \<Rightarrow> string \<Rightarrow> (string, error) result" where
  "keys_of X pk = (case pk_from_str X pk of None \<Rightarrow> Err (NostrKeyError pk) | Some k \<Rightarrow> Ok k)"

definition check_invoice_status ::
  "externals \<Rightarrow> pay_env \<Rightarrow> string \<Rightarrow> account_db \<Rightarrow> account_db \<times> (invoice_status, error) result" where
  "check_invoice_status X E h db =
     (case pe_check_invoice E h of
        Err e \<Rightarrow> (db, Err e)
      | Ok status \<Rightarrow>
        (case try_call (pe_fault E AtCheckUpdate) (update_invoice X (pe_sql_now E) h status db) db of
           (db', Err e) \<Rightarrow> (db', Err e)
         | (db', Ok _) \<Rightarrow> (db', Ok status)))"

definition send_admission_message ::
  "externals \<Rightarrow> pay_env \<Rightarrow> settings \<Rightarrow> string \<Rightarrow> invoice_info \<Rightarrow> 'r pay_state \<Rightarrow> 'r pay_state \<times> (unit, error) result" where
  "send_admission_message X E s pubkey info st =
     (if \<not> pe_have_keys E then (st, Err (CustomError ''Nostr key not defined''))
      else (case keys_of X pubkey of
        Err e \<Rightarrow> (st, Err e)
      | Ok pk \<Rightarrow>
     (case pe_direct_msg E pk (terms_message (s_pay_to_relay s)) of
        Err e \<Rightarrow> (st, Err e)
      | Ok msg_ev \<Rightarrow>
     (case pe_direct_msg E pk (ii_bolt11 info) of
        Err e \<Rightarrow> (st, Err e)
      | Ok inv_ev \<Rightarrow>
     (case pe_write_event E msg_ev of
        Err e \<Rightarrow> (st, Err e)
      | Ok _ \<Rightarrow>
        (let st1 = st\<lparr>ps_stored := ps_stored st @ [msg_ev]\<rparr> in
         case pe_write_event E inv_ev of
           Err e \<Rightarrow> (st1, Err e)
         | Ok _ \<Rightarrow> (st1\<lparr>ps_stored := ps_stored st1 @ [inv_ev],
                        ps_broadcast := ps_broadcast st @ [msg_ev, inv_ev]\<rparr>, Ok ())))))))"

text \<open>The second half of \<^verbatim>\<open>get_invoice_info\<close>: a new invoice from the processor.\<close>

definition request_invoice ::
  "externals \<Rightarrow> pay_env \<Rightarrow> settings \<Rightarrow> string \<Rightarrow> string \<Rightarrow> u64 \<Rightarrow> account_db pay_state \<Rightarrow> account_db pay_state \<times> (invoice_info, error) result" where
  "request_invoice X E s pubkey key amount st =
     (case pe_get_invoice E key amount of
        Err e \<Rightarrow> (st, Err e)
      | Ok info \<Rightarrow>
     (case try_call (pe_fault E AtCreateInvoice)
             (create_invoice_record (pe_sql_now E) key info (ps_repo st)) (ps_repo st) of
        (db2, Err e) \<Rightarrow> (st\<lparr>ps_repo := db2\<rparr>, Err e)
      | (db2, Ok _) \<Rightarrow>
        if direct_message (s_pay_to_relay s) then
          (case send_admission_message X E s pubkey info (st\<lparr>ps_repo := db2\<rparr>) of
             (st3, Err e) \<Rightarrow> (st3, Err e)
           | (st3, Ok _) \<Rightarrow> (st3, Ok info))
        else (st\<lparr>ps_repo := db2\<rparr>, Ok info)))"

definition get_invoice_info ::
  "externals \<Rightarrow> pay_env \<Rightarrow> settings \<Rightarrow> string \<Rightarrow> u64 \<Rightarrow> account_db pay_state \<Rightarrow> account_db pay_state \<times> (invoice_info, error) result" where
  "get_invoice_info X E s pubkey amount st =
     (case keys_of X pubkey of
        Err e \<Rightarrow> (st, Err e)
      | Ok key \<Rightarrow>
     (case try_call (pe_fault E AtCreateAccount) (create_account key (ps_repo st)) (ps_repo st) of
        (db, Err e) \<Rightarrow> (st\<lparr>ps_repo := db\<rparr>, Err e)
      | (db, Ok created) \<Rightarrow>
     (case (if \<not> created \<and> pe_fault E AtUnpaid = None then get_unpaid_invoice key db else Ok None) of
        Ok (Some info) \<Rightarrow> (st\<lparr>ps_repo := db\<rparr>, Ok info)
      | _ \<Rightarrow> request_invoice X E s pubkey key amount (st\<lparr>ps_repo := db\<rparr>))))"

definition send_msg :: "payment_message \<Rightarrow> 'r pay_state \<Rightarrow> 'r pay_state" where
  "send_msg m st = st\<lparr>ps_sent := ps_sent st @ [m]\<rparr>"

text \<open>One received message (\<^verbatim>\<open>run_internal\<close>).\<close>

fun run_internal ::
  "externals \<Rightarrow> pay_env \<Rightarrow> settings \<Rightarrow> payment_message \<Rightarrow> account_db pay_state \<Rightarrow> account_db pay_state \<times> (unit, error) result" where
  "run_internal X E s (NewAccount pubkey) st =
     (case get_invoice_info X E s pubkey (admission_cost (s_pay_to_relay s)) st of
        (st1, Err e) \<Rightarrow> (st1, Err e)
      | (st1, Ok info) \<Rightarrow> (send_msg (InvoiceMsg pubkey info) st1, Ok ()))"
| "run_internal X E s (CheckAccount pubkey) st =
     (case keys_of X pubkey of
        Err e \<Rightarrow> (st, Err e)
      | Ok keys \<Rightarrow>
        (case (if pe_fault E AtUnpaid = None then get_unpaid_invoice keys (ps_repo st) else Ok None) of
           Ok (Some info) \<Rightarrow>
             (case check_invoice_status X E (ii_payment_hash info) (ps_repo st) of
                (db, Err e) \<Rightarrow> (st\<lparr>ps_repo := db\<rparr>, Err e)
              | (db, Ok Paid) \<Rightarrow>
                (case try_call (pe_fault E AtAdmit)
                        (admit_account X (pe_sql_now E) keys (admission_cost (s_pay_to_relay s)) db) db of
                   (db2, Err e) \<Rightarrow> (st\<lparr>ps_repo := db2\<rparr>, Err e)
                 | (db2, Ok _) \<Rightarrow> (send_msg (AccountAdmitted pubkey) (st\<lparr>ps_repo := db2\<rparr>), Ok ()))
              | (db, Ok _) \<Rightarrow> (send_msg (InvoiceMsg pubkey info) (st\<lparr>ps_repo := db\<rparr>), Ok ()))
         | _ \<Rightarrow>
           (case get_invoice_info X E s pubkey (admission_cost (s_pay_to_relay s)) st of
              (st1, Err e) \<Rightarrow> (st1, Err e)
            | (st1, Ok info) \<Rightarrow> (send_msg (InvoiceMsg pubkey info) st1, Ok ()))))"
| "run_internal X E s (InvoicePaid h) st =
     (case check_invoice_status X E h (ps_repo st) of
        (db, Err e) \<Rightarrow> (st\<lparr>ps_repo := db\<rparr>, Err e)
      | (db, Ok status) \<Rightarrow>
        if status = Paid then
          (case try_call (pe_fault E AtPaidUpdate) (update_invoice X (pe_sql_now E) h Paid db) db of
             (db2, Err e) \<Rightarrow> (st\<lparr>ps_repo := db2\<rparr>, Err e)
           | (db2, Ok pubkey) \<Rightarrow>
             (case keys_of X pubkey of
                Err e \<Rightarrow> (st\<lparr>ps_repo := db2\<rparr>, Err e)
              | Ok key \<Rightarrow>
                (case try_call (pe_fault E AtAdmit)
                        (admit_account X (pe_sql_now E) key (admission_cost (s_pay_to_relay s)) db2) db2 of
                   (db3, Err e) \<Rightarrow> (st\<lparr>ps_repo := db3\<rparr>, Err e)
                 | (db3, Ok _) \<Rightarrow> (st\<lparr>ps_repo := db3\<rparr>, Ok ()))))
        else (st\<lparr>ps_repo := db\<rparr>, Ok ()))"
| "run_internal X E s (AccountAdmitted pk) st = (st, Ok ())"
| "run_internal X E s (InvoiceMsg pk info) st = (st, Ok ())"

section \<open>Lemmas\<close>

lemma gp_safe_id_iff:
  "gp_safe_id h \<longleftrightarrow> list_all (\<lambda>c. is_ascii_alphanumeric c \<or> c = CHR ''-'' \<or> c = CHR ''_'') h"
proof
  assume "gp_safe_id h"
  then show "list_all (\<lambda>c. is_ascii_alphanumeric c \<or> c = CHR ''-'' \<or> c = CHR ''_'') h"
    unfolding gp_safe_id_def by (rule chars_singletons)
next
  assume h: "list_all (\<lambda>c. is_ascii_alphanumeric c \<or> c = CHR ''-'' \<or> c = CHR ''_'') h"
  then have "chars h = map (\<lambda>c. [c]) h"
    by (intro chars_ascii) (auto simp: list_all_iff ascii_defs)
  with h show "gp_safe_id h" by (simp add: gp_safe_id_def list_all_iff)
qed

lemma admit_admitted:
  "is_admitted (fst (admit_account X now pk c db)) q \<Longrightarrow> is_admitted db q \<or> q = pk"
  using led.admitted_step [of X "AdmitAccount now pk c" db q] by auto

lemma check_status_Ok:
  "check_invoice_status X E h db = (db', Ok status) \<Longrightarrow>
     pe_check_invoice E h = Ok status \<and> (\<exists>pk. update_invoice X (pe_sql_now E) h status db = (db', Ok pk))"
  by (auto simp: check_invoice_status_def try_call_Ok split: result.splits prod.splits)

lemma check_status_admitted: "is_admitted (fst (check_invoice_status X E h db)) q = is_admitted db q"
proof (cases "pe_check_invoice E h")
  case (Ok status)
  let ?c = "try_call (pe_fault E AtCheckUpdate) (update_invoice X (pe_sql_now E) h status db) db"
  have "fst (check_invoice_status X E h db) = fst ?c"
    using Ok by (simp add: check_invoice_status_def split: prod.splits result.splits)
  then show ?thesis by (simp add: try_call_fst admitted_update_invoice)
qed (simp add: check_invoice_status_def)

lemma update_invoice_Ok:
  "update_invoice X now h status db = (db', Ok pk) \<Longrightarrow> \<exists>row. find_invoice db h = Some row \<and> inv_pubkey row = pk"
  by (auto simp: update_invoice_def Let_def split: option.splits)

lemma find_update_invoice:
  assumes "update_invoice X now h status db = (db', Ok pk)"
  shows "\<exists>row. find_invoice db' h = Some row \<and> inv_pubkey row = pk \<and> inv_status row = show_status status"
proof -
  obtain row where row: "find_invoice db h = Some row" "inv_pubkey row = pk"
    using update_invoice_Ok [OF assms] by blast
  have "find_invoice db' h = find_invoice (set_status now h status db) h"
    using assms row by (auto simp: update_invoice_def Let_def split: if_splits)
  moreover have "find_invoice (set_status now h status db) h =
      Some (if status = Paid then row\<lparr>inv_status := show_status status, inv_confirmed_at := Some now\<rparr>
            else row\<lparr>inv_status := show_status status\<rparr>)"
    using row find_invoice_Some [OF row(1)] unfolding find_invoice_def set_status_def by (simp add: find_map)
  ultimately show ?thesis using row by simp
qed

lemma send_admission_repo: "ps_repo (fst (send_admission_message X E s pk info st)) = ps_repo st"
  by (simp add: send_admission_message_def Let_def split: result.splits)

lemma request_invoice_admitted:
  "is_admitted (ps_repo (fst (request_invoice X E s pk key amount st))) q = is_admitted (ps_repo st) q"
proof (cases "pe_get_invoice E key amount")
  case (Ok info)
  let ?d = "try_call (pe_fault E AtCreateInvoice) (create_invoice_record (pe_sql_now E) key info (ps_repo st)) (ps_repo st)"
  have "ps_repo (fst (request_invoice X E s pk key amount st)) = fst ?d"
    using Ok send_admission_repo [of X E s pk info "st\<lparr>ps_repo := fst ?d\<rparr>"]
    by (auto simp: request_invoice_def split: prod.splits result.splits)
  then show ?thesis by (simp add: try_call_fst admitted_create_invoice)
qed (simp add: request_invoice_def)

lemma get_invoice_info_admitted:
  "is_admitted (ps_repo (fst (get_invoice_info X E s pk amount st))) q = is_admitted (ps_repo st) q"
proof (cases "keys_of X pk")
  case (Ok key)
  let ?c = "try_call (pe_fault E AtCreateAccount) (create_account key (ps_repo st)) (ps_repo st)"
  obtain db r where c: "?c = (db, r)" by force
  have "is_admitted db q = is_admitted (ps_repo st) q"
    using arg_cong [OF c, of fst] by (auto simp: try_call_fst admitted_create_account split: if_splits)
  then show ?thesis
    using Ok c by (simp add: get_invoice_info_def request_invoice_admitted split: result.splits option.splits)
qed (simp add: get_invoice_info_def)

lemma unpaid_invoice_row:
  assumes "get_unpaid_invoice pk db = Ok (Some info)" "acc_inv db" "find_invoice db (ii_payment_hash info) = Some row"
  shows "inv_pubkey row = pk"
proof -
  obtain i where i: "newest (filter (\<lambda>i. inv_pubkey i = pk \<and> inv_status i = ''Unpaid'') (invoices db)) = Some i"
    "ii_payment_hash info = inv_payment_hash i"
    using assms(1) by (auto simp: get_unpaid_invoice_def split: option.splits)
  from newest_in [OF i(1)] have mem: "i \<in> set (invoices db)" "inv_pubkey i = pk" by auto
  moreover have "row \<in> set (invoices db)" "inv_payment_hash row = inv_payment_hash i"
    using find_invoice_Some [OF assms(3)] i(2) by simp_all
  moreover have "inj_on inv_payment_hash (set (invoices db))" using assms(2) by (simp add: acc_inv_def distinct_map)
  ultimately have "row = i" by (auto dest: inj_onD)
  with mem show ?thesis by simp
qed

lemma try_admit_admitted:
  "try_call f (admit_account X now pk c db) db = (db2, r) \<Longrightarrow> is_admitted db2 q \<Longrightarrow> is_admitted db q \<or> q = pk"
  using admit_admitted [of X now pk c db q] by (auto simp: try_call_def split: option.splits)

lemma check_account_admits:
  assumes "run_internal X E s m st = (st', r)" "is_admitted (ps_repo st') q" "\<not> is_admitted (ps_repo st) q"
    "m = CheckAccount pk"
  obtains keys info db where "get_unpaid_invoice keys (ps_repo st) = Ok (Some info)" "q = keys"
    "check_invoice_status X E (ii_payment_hash info) (ps_repo st) = (db, Ok Paid)"
proof (cases "keys_of X pk")
  case (Ok keys)
  let ?i = "if pe_fault E AtUnpaid = None then get_unpaid_invoice keys (ps_repo st) else Ok None"
  show thesis
  proof (cases "\<exists>info. ?i = Ok (Some info)")
    case True
    then obtain info where i: "?i = Ok (Some info)" by blast
    then have g: "get_unpaid_invoice keys (ps_repo st) = Ok (Some info)" by (simp split: if_splits)
    obtain db x where c: "check_invoice_status X E (ii_payment_hash info) (ps_repo st) = (db, x)" by force
    have a: "\<not> is_admitted db q" using check_status_admitted [of X E "ii_payment_hash info" "ps_repo st" q] c assms(3) by simp
    have "x = Ok Paid \<and> q = keys"
      using assms(1,2,4) Ok i c a
      by (auto simp: send_msg_def split: result.splits invoice_status.splits prod.splits dest: try_admit_admitted)
    with that g c show thesis by blast
  next
    case False
    have "is_admitted (ps_repo (fst (get_invoice_info X E s pk (admission_cost (s_pay_to_relay s)) st))) q"
      using assms(1,2,4) Ok False
      by (auto simp: send_msg_def split: result.splits prod.splits option.splits if_splits)
    with assms(3) show thesis by (simp add: get_invoice_info_admitted)
  qed
next
  case (Err e)
  with assms show thesis by simp
qed

lemma invoice_paid_admits:
  assumes "run_internal X E s m st = (st', r)" "is_admitted (ps_repo st') q" "\<not> is_admitted (ps_repo st) q"
    "m = InvoicePaid h"
  obtains db db2 pk where "check_invoice_status X E h (ps_repo st) = (db, Ok Paid)"
    "update_invoice X (pe_sql_now E) h Paid db = (db2, Ok pk)" "keys_of X pk = Ok q"
proof -
  obtain db x where c: "check_invoice_status X E h (ps_repo st) = (db, x)" by force
  have a: "\<not> is_admitted db q" using check_status_admitted [of X E h "ps_repo st" q] c assms(3) by simp
  let ?u = "try_call (pe_fault E AtPaidUpdate) (update_invoice X (pe_sql_now E) h Paid db) db"
  obtain db2 y where u: "?u = (db2, y)" by force
  have a2: "\<not> is_admitted db2 q" using arg_cong [OF u, of fst] a by (auto simp: try_call_fst admitted_update_invoice split: if_splits)
  have "x = Ok Paid \<and> (\<exists>pk. y = Ok pk \<and> keys_of X pk = Ok q)"
    using assms(1,2,4) c u a a2 by (auto split: result.splits prod.splits if_splits dest: try_admit_admitted)
  with u c that show thesis by (auto simp: try_call_Ok)
qed

lemma update_invoice_balance:
  assumes "find_invoice db h = Some row" "find_account db (inv_pubkey row) = Some a" "acc_balance a = IntCol n"
    "in_i64 (n + uint (inv_amount row))"
  shows "\<exists>db' row'. update_invoice X now h Paid db = (db', Ok (inv_pubkey row)) \<and>
    find_account db' (inv_pubkey row) =
      Some (a\<lparr>acc_balance := IntCol (if inv_status row = ''Unpaid'' then n + uint (inv_amount row) else n)\<rparr>) \<and>
    find_invoice db' h = Some row' \<and> inv_pubkey row' = inv_pubkey row \<and> inv_status row' = ''Paid'' \<and> inv_amount row' = inv_amount row"
proof -
  have "find_invoice (set_status now h Paid db) h = Some (row\<lparr>inv_status := ''Paid'', inv_confirmed_at := Some now\<rparr>)"
    using assms(1) find_invoice_Some [OF assms(1)] unfolding find_invoice_def set_status_def by (simp add: find_map)
  then show ?thesis using assms
    by (auto simp: update_invoice_def Let_def find_map_account balance_add_def)
qed

text \<open>A callback for a paid invoice, without failures: the account is admitted and charged.\<close>

lemma paid_callback:
  assumes "pe_check_invoice E h = Ok Paid" "\<And>c. pe_fault E c = None" "fits_i64 c" "c = admission_cost (s_pay_to_relay s)"
    and "find_invoice (ps_repo st) h = Some row" "pk_from_str X (inv_pubkey row) = Some (inv_pubkey row)"
    and "find_account (ps_repo st) (inv_pubkey row) = Some a" "acc_balance a = IntCol n"
    and "m = (if inv_status row = ''Unpaid'' then n + uint (inv_amount row) else n)"
    and "in_i64 (n + uint (inv_amount row))" "in_i64 (m + uint (inv_amount row))" "in_i64 (m - uint c)"
  shows "\<exists>st' row'. run_internal X E s (InvoicePaid h) st = (st', Ok ()) \<and>
    find_invoice (ps_repo st') h = Some row' \<and> inv_pubkey row' = inv_pubkey row \<and> inv_status row' = ''Paid'' \<and>
    inv_amount row' = inv_amount row \<and>
    find_account (ps_repo st') (inv_pubkey row) =
      Some (a\<lparr>acc_admitted := True, acc_tos_accepted_at := Some (pe_sql_now E), acc_balance := IntCol (m - uint c)\<rparr>)"
proof -
  obtain db1 row1 where one: "update_invoice X (pe_sql_now E) h Paid (ps_repo st) = (db1, Ok (inv_pubkey row))"
    "find_account db1 (inv_pubkey row) = Some (a\<lparr>acc_balance := IntCol m\<rparr>)"
    "find_invoice db1 h = Some row1" "inv_pubkey row1 = inv_pubkey row" "inv_status row1 = ''Paid''" "inv_amount row1 = inv_amount row"
    using update_invoice_balance [OF assms(5,7,8,10), of X "pe_sql_now E"] assms(9) by blast
  obtain db2 row2 where two: "update_invoice X (pe_sql_now E) h Paid db1 = (db2, Ok (inv_pubkey row))"
    "find_account db2 (inv_pubkey row) = Some (a\<lparr>acc_balance := IntCol m\<rparr>)"
    "find_invoice db2 h = Some row2" "inv_pubkey row2 = inv_pubkey row" "inv_status row2 = ''Paid''" "inv_amount row2 = inv_amount row"
    using update_invoice_balance [OF one(3), of "a\<lparr>acc_balance := IntCol m\<rparr>" m X "pe_sql_now E"] one assms(11) by auto
  show ?thesis
    using assms(1-4,6,12) one two
    by (simp add: check_invoice_status_def try_call_def keys_of_def admit_account_def bind_u64_def
        find_map_account balance_add_def)
qed

section \<open>Properties\<close>

text \<open>The payment server alone decides. The GoblinPay processor reports an invoice paid only
  after an exchange with the configured server, over a URL whose last segment is the checked
  invoice id (letters, digits, dash and underscore only), that succeeded and carried exactly
  the status paid; unknown states count as expired, and an unsafe id is refused unsent.\<close>

theorem goblinpay_paid_only_confirmed:
  "(gp_check_invoice X N P h = Ok Paid \<longleftrightarrow>
     gp_safe_id h \<and> uri_ok N (gp_base_url P @ ''/invoice/'' @ h) \<and>
     (\<exists>status body i u. gp_send N \<lparr>gp_method = ''GET'', gp_uri = gp_base_url P @ ''/invoice/'' @ h,
         gp_auth = ''Bearer '' @ gp_token P, gp_content_type = None, gp_body = []\<rparr> = Ok (status, body) \<and>
       200 \<le> status \<and> status < 300 \<and>
       Option.bind (json_from_str X body) de_invoice_response = Some (i, u, ''paid''))) \<and>
   (gp_safe_id h \<longleftrightarrow> list_all (\<lambda>c. is_ascii_alphanumeric c \<or> c = CHR ''-'' \<or> c = CHR ''_'') h)"
proof
  have p: "status_from t = Paid \<longleftrightarrow> t = ''paid''" for t by (simp add: status_from_def)
  show "gp_check_invoice X N P h = Ok Paid \<longleftrightarrow>
     gp_safe_id h \<and> uri_ok N (gp_base_url P @ ''/invoice/'' @ h) \<and>
     (\<exists>status body i u. gp_send N \<lparr>gp_method = ''GET'', gp_uri = gp_base_url P @ ''/invoice/'' @ h,
         gp_auth = ''Bearer '' @ gp_token P, gp_content_type = None, gp_body = []\<rparr> = Ok (status, body) \<and>
       200 \<le> status \<and> status < 300 \<and>
       Option.bind (json_from_str X body) de_invoice_response = Some (i, u, ''paid''))"
    by (auto simp: gp_check_invoice_def gp_exchange_def p split: result.splits option.splits if_splits prod.splits)
qed (rule gp_safe_id_iff)

text \<open>Nobody is admitted unpaid. Whatever message the payment handler processes (a forged
  callback included) and whatever calls fail, an account that becomes admitted belongs to an
  invoice of the database that the payment processor reported paid during that step.\<close>

theorem payment_admits_only_paid:
  assumes "acc_inv (ps_repo st)" "run_internal X E s m st = (st', r)"
    and "is_admitted (ps_repo st') q" "\<not> is_admitted (ps_repo st) q"
  shows "\<exists>h row. find_invoice (ps_repo st) h = Some row \<and> pe_check_invoice E h = Ok Paid \<and>
    (inv_pubkey row = q \<or> pk_from_str X (inv_pubkey row) = Some q)"
proof (cases m)
  case (NewAccount pk)
  then have "is_admitted (ps_repo st') q = is_admitted (ps_repo st) q"
    using assms(2) get_invoice_info_admitted [of X E s pk "admission_cost (s_pay_to_relay s)" st q]
    by (auto simp: send_msg_def split: prod.splits result.splits)
  with assms(3,4) show ?thesis by simp
next
  case (CheckAccount pk)
  from assms(2-4) CheckAccount obtain keys info db where
    k: "get_unpaid_invoice keys (ps_repo st) = Ok (Some info)" "q = keys"
      "check_invoice_status X E (ii_payment_hash info) (ps_repo st) = (db, Ok Paid)"
    by (rule check_account_admits)
  from check_status_Ok [OF k(3)] obtain p where u: "pe_check_invoice E (ii_payment_hash info) = Ok Paid"
    "update_invoice X (pe_sql_now E) (ii_payment_hash info) Paid (ps_repo st) = (db, Ok p)" by blast
  from update_invoice_Ok [OF u(2)] obtain row where "find_invoice (ps_repo st) (ii_payment_hash info) = Some row" by blast
  with unpaid_invoice_row [OF k(1) assms(1) this] k(2) u(1) show ?thesis by blast
next
  case (InvoicePaid h)
  from assms(2-4) InvoicePaid obtain db db2 pk where
    k: "check_invoice_status X E h (ps_repo st) = (db, Ok Paid)"
      "update_invoice X (pe_sql_now E) h Paid db = (db2, Ok pk)" "keys_of X pk = Ok q"
    by (rule invoice_paid_admits)
  from check_status_Ok [OF k(1)] obtain p where u: "pe_check_invoice E h = Ok Paid"
    "update_invoice X (pe_sql_now E) h Paid (ps_repo st) = (db, Ok p)" by blast
  from update_invoice_Ok [OF u(2)] find_update_invoice [OF u(2)] update_invoice_Ok [OF k(2)]
  obtain row where "find_invoice (ps_repo st) h = Some row" "inv_pubkey row = pk" by auto
  moreover have "pk_from_str X pk = Some q" using k(3) by (auto simp: keys_of_def split: option.splits)
  ultimately show ?thesis using u(1) by blast
qed (use assms in auto)

definition pay_demo :: pay_env where
  "pay_demo = \<lparr>pe_sql_now = 9, pe_fault = (\<lambda>_. None), pe_check_invoice = (\<lambda>_. Ok Paid),
     pe_get_invoice = (\<lambda>_ _. Err UnknownError), pe_have_keys = False, pe_direct_msg = (\<lambda>_ _. Err UnknownError),
     pe_write_event = (\<lambda>_. Ok ())\<rparr>"

definition pay_demo_state :: "account_db pay_state" where
  "pay_demo_state = \<lparr>ps_repo = \<lparr>accounts = [\<lparr>acc_pubkey = replicate 64 CHR ''a'', acc_admitted = False,
         acc_balance = IntCol 0, acc_tos_accepted_at = None\<rparr>],
       invoices = [\<lparr>inv_payment_hash = ''h'', inv_pubkey = replicate 64 CHR ''a'', inv_invoice = ''url'', inv_amount = 4200,
         inv_status = ''Unpaid'', inv_description = [], inv_created_at = 1, inv_confirmed_at = None\<rparr>]\<rparr>,
     ps_sent = [], ps_stored = [], ps_broadcast = []\<rparr>"

lemma pay_demo_facts:
  "pe_check_invoice pay_demo h = Ok Paid" "pe_fault pay_demo c = None"
  "admission_cost (s_pay_to_relay default_settings) = 4200" "fits_i64 (4200 :: u64)" "in_i64 0" "in_i64 4200"
  "in_i64 8400" "in_i64 (-4200)"
  "find_invoice (ps_repo pay_demo_state) ''h'' = Some (hd (invoices (ps_repo pay_demo_state)))"
  "inv_pubkey (hd (invoices (ps_repo pay_demo_state))) = replicate 64 CHR ''a''"
  "inv_amount (hd (invoices (ps_repo pay_demo_state))) = 4200"
  "inv_status (hd (invoices (ps_repo pay_demo_state))) = ''Unpaid''"
  "find_account (ps_repo pay_demo_state) (replicate 64 CHR ''a'') = Some (hd (accounts (ps_repo pay_demo_state)))"
  "acc_balance (hd (accounts (ps_repo pay_demo_state))) = IntCol 0"
  "\<not> is_admitted (ps_repo pay_demo_state) (replicate 64 CHR ''a'')" "acc_inv (ps_repo pay_demo_state)"
  by (simp_all add: pay_demo_def pay_demo_state_def default_settings_def fits_i64_def in_i64_def
      find_invoice_def find_account_def is_admitted_def acc_inv_def has_account_def)

theorem payment_admits_only_paid_witness:
  "\<exists>st'. run_internal std_ext pay_demo default_settings (InvoicePaid ''h'') pay_demo_state = (st', Ok ()) \<and>
     is_admitted (ps_repo st') (replicate 64 CHR ''a'') \<and>
     (\<exists>h row. find_invoice (ps_repo pay_demo_state) h = Some row \<and> pe_check_invoice pay_demo h = Ok Paid)"
proof -
  obtain st' row' where r: "run_internal std_ext pay_demo default_settings (InvoicePaid ''h'') pay_demo_state = (st', Ok ())"
    "find_account (ps_repo st') (replicate 64 CHR ''a'') = Some (hd (accounts (ps_repo pay_demo_state))\<lparr>acc_admitted := True,
       acc_tos_accepted_at := Some (pe_sql_now pay_demo), acc_balance := IntCol 0\<rparr>)"
    using paid_callback [OF pay_demo_facts(1,2,4) _ pay_demo_facts(9), of default_settings std_ext
        "hd (accounts (ps_repo pay_demo_state))" 0 4200] by (auto simp: pay_demo_facts)
  then have "is_admitted (ps_repo st') (replicate 64 CHR ''a'')"
    by (auto simp: is_admitted_def dest!: find_account_Some)
  with payment_admits_only_paid [OF pay_demo_facts(16) r(1) this pay_demo_facts(15)] r(1) show ?thesis by blast
qed

text \<open>A repeated callback charges again. When the callback for a paid invoice of exactly the
  admission cost is processed twice, the account is admitted with balance zero after the
  first, and after the second the cost has been subtracted once more, the balance is
  negative, and reading the account fails.\<close>

theorem repeated_callback_locks_account:
  assumes "pe_check_invoice E h = Ok Paid" "\<forall>k. pe_fault E k = None" "fits_i64 c" "c = admission_cost (s_pay_to_relay s)" "0 < c"
    and "find_invoice (ps_repo st) h = Some row" "pk_from_str X (inv_pubkey row) = Some (inv_pubkey row)"
    and "inv_status row = ''Unpaid''" "inv_amount row = c"
    and "find_account (ps_repo st) (inv_pubkey row) = Some a" "acc_balance a = IntCol 0"
    and "in_i64 (2 * uint c)"
  shows "\<exists>st1 st2. run_internal X E s (InvoicePaid h) st = (st1, Ok ()) \<and>
    get_account_balance (inv_pubkey row) (ps_repo st1) = Ok (True, 0) \<and>
    run_internal X E s (InvoicePaid h) st1 = (st2, Ok ()) \<and>
    (\<exists>e. get_account_balance (inv_pubkey row) (ps_repo st2) = Err e)"
proof -
  have i: "in_i64 (uint c)" "in_i64 0" "in_i64 (- uint c)" "in_i64 (uint c + uint c)"
    using assms(12) uint_ge_0 [of c] unfolding in_i64_def by linarith+
  have pos: "0 < uint c" using assms(5) by (simp add: word_less_def)
  obtain st1 row1 where one: "run_internal X E s (InvoicePaid h) st = (st1, Ok ())"
    "find_invoice (ps_repo st1) h = Some row1" "inv_pubkey row1 = inv_pubkey row" "inv_status row1 = ''Paid''" "inv_amount row1 = c"
    "find_account (ps_repo st1) (inv_pubkey row) = Some (a\<lparr>acc_admitted := True, acc_tos_accepted_at := Some (pe_sql_now E), acc_balance := IntCol 0\<rparr>)"
    using paid_callback [OF assms(1) _ assms(3,4,6,7,10,11) refl] assms(2,8,9) i by auto
  obtain st2 where two: "run_internal X E s (InvoicePaid h) st1 = (st2, Ok ())"
    "\<exists>b. find_account (ps_repo st2) (inv_pubkey row) = Some b \<and> acc_balance b = IntCol (- uint c)"
    using paid_callback [OF assms(1) _ assms(3,4) one(2), of X "a\<lparr>acc_admitted := True, acc_tos_accepted_at := Some (pe_sql_now E), acc_balance := IntCol 0\<rparr>" 0 0]
      assms(2,7) one i by auto
  show ?thesis
    using one two pos by (intro exI [of _ st1] exI [of _ st2]) (auto simp: get_account_balance_def get_u64_def)
qed

theorem repeated_callback_locks_account_witness:
  "\<exists>st1 st2 e. run_internal std_ext pay_demo default_settings (InvoicePaid ''h'') pay_demo_state = (st1, Ok ()) \<and>
     run_internal std_ext pay_demo default_settings (InvoicePaid ''h'') st1 = (st2, Ok ()) \<and>
     get_account_balance (replicate 64 CHR ''a'') (ps_repo st2) = Err e"
  using repeated_callback_locks_account [OF pay_demo_facts(1) _ pay_demo_facts(4) _ _ pay_demo_facts(9), of default_settings std_ext
      "hd (accounts (ps_repo pay_demo_state))"] by (auto simp: pay_demo_facts)

end
