(* ===== verification/Db_Writer.thy ===== *)
theory Db_Writer
  imports Authz Payment
begin

text \<open>
  The event writer (\<^verbatim>\<open>src/src/db.rs\<close>, \<^verbatim>\<open>db_writer\<close>): the task that takes submitted events one by
  one, decides whether they are stored, and answers the client. Its state is the repository, the
  connection to the admission service and everything it has sent: notices to clients, events
  to subscribers and to the NIP-05 verifier, messages to the payment task. The clock, the
  failures of repository calls and the admission service are arguments.
\<close>

section \<open>State\<close>

record submitted_event =
  sm_event :: event
  sm_source_ip :: string
  sm_origin :: "string option"
  sm_user_agent :: "string option"
  sm_auth_pubkey :: "string option"

record writer_state =
  ws_events :: event_db
  ws_accounts :: account_db
  ws_authz :: "authz_service option"
  ws_notices :: "notice list"
  ws_bcast :: "event list"
  ws_metadata :: "event list"
  ws_payments :: "payment_message list"

datatype writer_call = AtBalance | AtVerification | AtCharge

record writer_env =
  we_now :: int
  we_sql_now :: int
  we_fault :: "writer_call \<Rightarrow> error option"
  we_pool_fault :: "error option"
  we_write_fault :: "nat \<Rightarrow> error option"
  we_order :: row_order
  we_latest :: verif_order
  we_reachable :: bool
  we_event_admit :: "event_request \<Rightarrow> (event_reply, error) result"

text \<open>The quota of the rate limiter: events per minute as a \<^verbatim>\<open>u32\<close>; the product wraps in a
  release build and a zero quota is a panic.\<close>

definition writer_quota :: "nat option \<Rightarrow> u32 option exec" where
  "writer_quota messages_per_s =
     (case messages_per_s of
        None \<Rightarrow> Done None
      | Some rps \<Rightarrow>
        if 0 < rps then (let quota = of_nat rps * 60 in if quota = 0 then Panic else Done (Some quota))
        else Done None)"

definition writer_new :: "settings \<Rightarrow> bool \<Rightarrow> event_db \<Rightarrow> account_db \<Rightarrow> writer_state" where
  "writer_new s reachable_now evs accs =
     \<lparr>ws_events = evs, ws_accounts = accs,
      ws_authz = map_option (authz_connect reachable_now) (event_admission_server (s_grpc s)),
      ws_notices = [], ws_bcast = [], ws_metadata = [], ws_payments = []\<rparr>"

section \<open>The checks\<close>

text \<open>A check lets an event pass with what it found out, or drops it with the notices for the client
  and the messages for the payment task.\<close>

datatype 'a gate = Pass 'a | Drop "notice list" "payment_message list"

definition kinds_gate :: "settings \<Rightarrow> event \<Rightarrow> unit gate" where
  "kinds_gate s e =
     (if (case event_kind_blacklist (s_limits s) of None \<Rightarrow> False | Some ks \<Rightarrow> ev_kind e \<in> set ks)
      then Drop [notice_blocked (ev_id e) ''event kind is blocked by relay''] []
      else if (case event_kind_allowlist (s_limits s) of None \<Rightarrow> False | Some ks \<Rightarrow> ev_kind e \<notin> set ks)
      then Drop [notice_blocked (ev_id e) ''event kind is blocked by relay''] []
      else Pass ())"

definition whitelisted :: "settings \<Rightarrow> event \<Rightarrow> bool" where
  "whitelisted s e = (case pubkey_whitelist (s_authorization s) of None \<Rightarrow> False | Some ws \<Rightarrow> ev_pubkey e \<in> set ws)"

definition account_gate ::
  "externals \<Rightarrow> settings \<Rightarrow> writer_env \<Rightarrow> event \<Rightarrow> account_db \<Rightarrow> u64 option gate exec" where
  "account_gate X s E e db =
     (let i = ev_id e in
      if \<not> ptr_enabled (s_pay_to_relay s) then
        (if pubkey_whitelist (s_authorization s) \<noteq> None \<and> \<not> whitelisted s e
         then Done (Drop [notice_blocked i ''pubkey is not allowed to publish to this relay''] [])
         else Done (Pass None))
      else if whitelisted s e then Done (Pass None)
      else (case keys_of X (ev_pubkey e) of
         Err _ \<Rightarrow> Panic
       | Ok key \<Rightarrow>
         Done (case (case we_fault E AtBalance of Some err \<Rightarrow> Err err | None \<Rightarrow> get_account_balance key db) of
            Ok (admitted, balance) \<Rightarrow>
              if \<not> admitted
              then Drop [notice_blocked i ''User is not admitted''] [CheckAccount (ev_pubkey e)]
              else if balance < cost_per_event (s_pay_to_relay s)
              then Drop [notice_blocked i ''Insufficient balance''] []
              else Pass (Some balance)
          | Err err \<Rightarrow>
            if is_no_rows err then
              Drop [notice_error i ''Pubkey not registered'']
                (if sign_ups (s_pay_to_relay s) \<and> direct_message (s_pay_to_relay s) then [NewAccount (ev_pubkey e)] else [])
            else Drop [notice_error i ''relay experienced an error checking your admission status''] [])))"

definition author_verification ::
  "externals \<Rightarrow> writer_env \<Rightarrow> event \<Rightarrow> event_db \<Rightarrow> (verification_record, error) result" where
  "author_verification X E e db =
     (case we_fault E AtVerification of
        Some err \<Rightarrow> Err err
      | None \<Rightarrow> get_latest_user_verification X (we_latest E) (ev_pubkey e) db)"

definition nip05_gate ::
  "externals \<Rightarrow> settings \<Rightarrow> writer_env \<Rightarrow> event \<Rightarrow> event_db \<Rightarrow> nip05_name option gate exec" where
  "nip05_gate X s E e db =
     (let vu = s_verified_users s; validation = author_verification X E e db in
      if \<not> vu_is_active vu then Done (Pass None)
      else if \<not> vu_is_enabled vu then Done (Pass (map_option vc_name (ok validation)))
      else (case validation of
         Ok uv \<Rightarrow>
           map_exec (\<lambda>valid. if valid then Pass (Some (vc_name uv))
               else Drop [notice_blocked (ev_id e) ''NIP-05 verification is no longer valid (expired/wrong domain)''] [])
             (record_is_valid (we_now E) vu uv)
       | Err err \<Rightarrow>
         Done (if is_no_rows err
               then Drop [notice_blocked (ev_id e) ''NIP-05 verification needed to publish events''] []
               else Drop [] [])))"

definition grpc_gate ::
  "externals \<Rightarrow> writer_env \<Rightarrow> submitted_event \<Rightarrow> nip05_name option \<Rightarrow> authz_service option \<Rightarrow>
   authz_service option \<times> unit gate" where
  "grpc_gate X E sub nip05_address grpc_client =
     (case grpc_client of
        None \<Rightarrow> (None, Pass ())
      | Some c \<Rightarrow>
        (case admit_event X (we_reachable E) (we_event_admit E) (sm_event sub) (sm_source_ip sub) (sm_origin sub)
                (sm_user_agent sub) nip05_address (sm_auth_pubkey sub) c of
           (c', Ok decision) \<Rightarrow>
             (Some c', if permitted decision then Pass ()
                else Drop [notice_blocked (ev_id (sm_event sub)) (case rp_message decision of Some m \<Rightarrow> m | None \<Rightarrow> [])] [])
         | (c', Err _) \<Rightarrow> (Some c', Pass ())))"

section \<open>Publishing\<close>

text \<open>Storing (or, for an ephemeral event, only broadcasting); the flag says whether the event counts
  as written.\<close>

definition publish :: "externals \<Rightarrow> settings \<Rightarrow> writer_env \<Rightarrow> event \<Rightarrow> writer_state \<Rightarrow> writer_state \<times> bool" where
  "publish X s E e st =
     (let st1 = (if vu_is_active (s_verified_users s) \<and> is_kind_metadata e
                 then st\<lparr>ws_metadata := ws_metadata st @ [e]\<rparr> else st) in
      if is_ephemeral e then
        (st1\<lparr>ws_bcast := ws_bcast st @ [e], ws_notices := ws_notices st @ [notice_saved (ev_id e)]\<rparr>, True)
      else (case write_event X (we_order E) (we_sql_now E) (we_pool_fault E) (we_write_fault E) e (ws_events st) of
         (db, Ok updated) \<Rightarrow>
           if updated = 0
           then (st1\<lparr>ws_events := db, ws_notices := ws_notices st @ [notice_duplicate (ev_id e)]\<rparr>, False)
           else (st1\<lparr>ws_events := db, ws_bcast := ws_bcast st @ [e],
                     ws_notices := ws_notices st @ [notice_saved (ev_id e)]\<rparr>, True)
       | (db, Err _) \<Rightarrow>
         (st1\<lparr>ws_events := db, ws_notices := ws_notices st @
            [notice_error (ev_id e) ''relay experienced an error trying to publish the latest event'']\<rparr>, False)))"

text \<open>The author pays for a written event unless posting is free or the author is whitelisted. A
  failure here ends the writer.\<close>

definition charge ::
  "externals \<Rightarrow> settings \<Rightarrow> writer_env \<Rightarrow> event \<Rightarrow> u64 option \<Rightarrow> writer_state \<Rightarrow> writer_state \<times> (unit, error) result" where
  "charge X s E e user_balance st =
     (if ptr_enabled (s_pay_to_relay s) \<and> 0 < cost_per_event (s_pay_to_relay s) \<and> user_balance \<noteq> None then
        (case keys_of X (ev_pubkey e) of
           Err err \<Rightarrow> (st, Err err)
         | Ok key \<Rightarrow>
           (case try_call (we_fault E AtCharge)
                   (update_account_balance X key False (cost_per_event (s_pay_to_relay s)) (ws_accounts st)) (ws_accounts st) of
              (db, r) \<Rightarrow> (st\<lparr>ws_accounts := db\<rparr>, r)))
      else (st, Ok ()))"

definition dropped :: "notice list \<Rightarrow> payment_message list \<Rightarrow> writer_state \<Rightarrow> writer_state" where
  "dropped ns ps st = st\<lparr>ws_notices := ws_notices st @ ns, ws_payments := ws_payments st @ ps\<rparr>"

definition writer_step ::
  "externals \<Rightarrow> settings \<Rightarrow> writer_env \<Rightarrow> submitted_event \<Rightarrow> writer_state \<Rightarrow> (writer_state \<times> (unit, error) result) exec" where
  "writer_step X s E sub st =
     (let e = sm_event sub in
      case kinds_gate s e of
        Drop ns ps \<Rightarrow> Done (dropped ns ps st, Ok ())
      | Pass _ \<Rightarrow>
     (case account_gate X s E e (ws_accounts st) of
        Panic \<Rightarrow> Panic
      | Done (Drop ns ps) \<Rightarrow> Done (dropped ns ps st, Ok ())
      | Done (Pass user_balance) \<Rightarrow>
     (case nip05_gate X s E e (ws_events st) of
        Panic \<Rightarrow> Panic
      | Done (Drop ns ps) \<Rightarrow> Done (dropped ns ps st, Ok ())
      | Done (Pass nip05_address) \<Rightarrow>
     (case grpc_gate X E sub nip05_address (ws_authz st) of
        (c, Drop ns ps) \<Rightarrow> Done (dropped ns ps (st\<lparr>ws_authz := c\<rparr>), Ok ())
      | (c, Pass _) \<Rightarrow>
     (case publish X s E e (st\<lparr>ws_authz := c\<rparr>) of
        (st1, True) \<Rightarrow> Done (charge X s E e user_balance st1)
      | (st1, False) \<Rightarrow> Done (st1, Ok ()))))))"

text \<open>The loop: it ends when the channel closes, and with the first error.\<close>

fun db_writer ::
  "externals \<Rightarrow> settings \<Rightarrow> (writer_env \<times> submitted_event) list \<Rightarrow> writer_state \<Rightarrow> (writer_state \<times> (unit, error) result) exec" where
  "db_writer X s [] st = Done (st, Ok ())"
| "db_writer X s ((E, sub) # subs) st =
     (case writer_step X s E sub st of
        Panic \<Rightarrow> Panic
      | Done (st', Err e) \<Rightarrow> Done (st', Err e)
      | Done (st', Ok _) \<Rightarrow> db_writer X s subs st')"

section \<open>Lemmas\<close>

lemma kinds_gate_Pass:
  "kinds_gate s e = Pass u \<longleftrightarrow>
     (\<forall>ks. event_kind_blacklist (s_limits s) = Some ks \<longrightarrow> ev_kind e \<notin> set ks) \<and>
     (\<forall>ks. event_kind_allowlist (s_limits s) = Some ks \<longrightarrow> ev_kind e \<in> set ks)"
  by (auto simp: kinds_gate_def split: option.splits)

lemma account_gate_Pass:
  assumes "account_gate X s E e db = Done (Pass b)"
  shows "if ptr_enabled (s_pay_to_relay s) \<and> \<not> whitelisted s e
    then \<exists>key balance. keys_of X (ev_pubkey e) = Ok key \<and> get_account_balance key db = Ok (True, balance) \<and>
      cost_per_event (s_pay_to_relay s) \<le> balance \<and> b = Some balance
    else b = None \<and> (ptr_enabled (s_pay_to_relay s) \<or> pubkey_whitelist (s_authorization s) = None \<or> whitelisted s e)"
  using assms by (auto simp: account_gate_def Let_def not_less split: if_splits result.splits option.splits)

lemma nip05_gate_Pass:
  assumes "nip05_gate X s E e db = Done (Pass a)" "vu_is_enabled (s_verified_users s)"
  shows "\<exists>uv. get_latest_user_verification X (we_latest E) (ev_pubkey e) db = Ok uv \<and>
    record_is_valid (we_now E) (s_verified_users s) uv = Done True"
proof -
  have "vu_is_active (s_verified_users s)" using assms(2) by (simp add: vu_is_active_def vu_is_enabled_def)
  with assms show ?thesis
    by (auto simp: nip05_gate_def author_verification_def Let_def split: if_splits result.splits option.splits)
qed

definition notice_id :: "notice \<Rightarrow> string option" where
  "notice_id n = (case n of EventResult r \<Rightarrow> Some (event_result.er_id r) | _ \<Rightarrow> None)"

lemma notice_ids [simp]:
  "notice_id (notice_saved i) = Some i" "notice_id (notice_duplicate i) = Some i" "notice_id (notice_blocked i m) = Some i"
  "notice_id (notice_error i m) = Some i"
  "notice_blocked i m \<noteq> notice_saved j" "notice_error i m \<noteq> notice_saved j" "notice_duplicate i \<noteq> notice_saved j"
  by (simp_all add: notice_defs notice_id_def)

text \<open>Every drop answers the client with one refusal, except a failed lookup of the verification.\<close>

lemma gate_notices:
  "kinds_gate s e = Drop ns ps \<Longrightarrow> \<exists>m. ns = [notice_blocked (ev_id e) m]"
  "account_gate X s E e adb = Done (Drop ns ps) \<Longrightarrow> \<exists>m. ns = [notice_blocked (ev_id e) m] \<or> ns = [notice_error (ev_id e) m]"
  "nip05_gate X s E e db = Done (Drop ns ps) \<Longrightarrow> (\<exists>m. ns = [notice_blocked (ev_id e) m]) \<or>
     ns = [] \<and> vu_is_enabled (s_verified_users s) \<and> (\<exists>err. author_verification X E e db = Err err \<and> \<not> is_no_rows err)"
  "grpc_gate X E sub addr c = (c', Drop ns ps) \<Longrightarrow> \<exists>m. ns = [notice_blocked (ev_id (sm_event sub)) m]"
  by (auto simp: kinds_gate_def account_gate_def nip05_gate_def grpc_gate_def Let_def
      split: if_splits result.splits option.splits prod.splits)

lemma publish_spec:
  assumes "publish X s E e st = (st', w)"
  shows "ws_accounts st' = ws_accounts st" "ws_payments st' = ws_payments st" "ws_authz st' = ws_authz st"
    "w \<Longrightarrow> ws_bcast st' = ws_bcast st @ [e] \<and> ws_notices st' = ws_notices st @ [notice_saved (ev_id e)]"
    "\<not> w \<Longrightarrow> ws_bcast st' = ws_bcast st \<and> (\<exists>m. ws_notices st' = ws_notices st @ [notice_duplicate (ev_id e)] \<or>
       ws_notices st' = ws_notices st @ [notice_error (ev_id e) m])"
  using assms unfolding publish_def Let_def by (auto split: if_splits prod.splits result.splits)

lemma charge_spec:
  assumes "charge X s E e b st = (st', r)"
  shows "ws_bcast st' = ws_bcast st" "ws_notices st' = ws_notices st" "ws_events st' = ws_events st"
    "ws_payments st' = ws_payments st" "ws_authz st' = ws_authz st"
  using assms unfolding charge_def by (auto split: if_splits prod.splits result.splits)

text \<open>A step either drops the event at one of the checks or publishes it.\<close>

lemma writer_step_gated:
  assumes "kinds_gate s (sm_event sub) = Pass u" "account_gate X s E (sm_event sub) (ws_accounts st) = Done (Pass b)"
    "nip05_gate X s E (sm_event sub) (ws_events st) = Done (Pass a)"
  shows "writer_step X s E sub st =
    (case grpc_gate X E sub a (ws_authz st) of
       (c, Drop ns ps) \<Rightarrow> Done (dropped ns ps (st\<lparr>ws_authz := c\<rparr>), Ok ())
     | (c, Pass _) \<Rightarrow> (case publish X s E (sm_event sub) (st\<lparr>ws_authz := c\<rparr>) of
         (st1, w) \<Rightarrow> Done (if w then charge X s E (sm_event sub) b st1 else (st1, Ok ()))))"
  using assms by (simp add: writer_step_def split: prod.splits gate.splits)

lemma writer_step_cases:
  assumes "writer_step X s E sub st = Done (st', r)"
  obtains (drop) ns ps c where "st' = dropped ns ps (st\<lparr>ws_authz := c\<rparr>)" "r = Ok ()"
      "(\<exists>m. ns = [notice_blocked (ev_id (sm_event sub)) m] \<or> ns = [notice_error (ev_id (sm_event sub)) m]) \<or>
       ns = [] \<and> vu_is_enabled (s_verified_users s) \<and>
         (\<exists>err. author_verification X E (sm_event sub) (ws_events st) = Err err \<and> \<not> is_no_rows err)"
  | (publish) b a c st1 w where "kinds_gate s (sm_event sub) = Pass ()"
      "account_gate X s E (sm_event sub) (ws_accounts st) = Done (Pass b)"
      "nip05_gate X s E (sm_event sub) (ws_events st) = Done (Pass a)" "grpc_gate X E sub a (ws_authz st) = (c, Pass ())"
      "publish X s E (sm_event sub) (st\<lparr>ws_authz := c\<rparr>) = (st1, w)"
      "(st', r) = (if w then charge X s E (sm_event sub) b st1 else (st1, Ok ()))"
proof (cases "kinds_gate s (sm_event sub)")
  case (Drop ns ps)
  with assms have "st' = dropped ns ps (st\<lparr>ws_authz := ws_authz st\<rparr>)" "r = Ok ()" by (auto simp: writer_step_def)
  with drop gate_notices(1) [OF Drop] show thesis by blast
next
  case k: (Pass u)
  show thesis
  proof (cases "account_gate X s E (sm_event sub) (ws_accounts st)")
    case a: (Done g)
    show thesis
    proof (cases g)
      case (Drop ns ps)
      with assms k a have "st' = dropped ns ps (st\<lparr>ws_authz := ws_authz st\<rparr>)" "r = Ok ()" by (auto simp: writer_step_def)
      with drop gate_notices(2) [of X s E "sm_event sub" "ws_accounts st" ns ps] a Drop show thesis by blast
    next
      case b: (Pass b)
      show thesis
      proof (cases "nip05_gate X s E (sm_event sub) (ws_events st)")
        case n: (Done h)
        show thesis
        proof (cases h)
          case (Drop ns ps)
          with assms k a b n have "st' = dropped ns ps (st\<lparr>ws_authz := ws_authz st\<rparr>)" "r = Ok ()"
            by (auto simp: writer_step_def)
          with drop gate_notices(3) [of X s E "sm_event sub" "ws_events st" ns ps] n Drop show thesis by blast
        next
          case (Pass addr)
          note g = writer_step_gated [of s sub u X E st b addr]
          show thesis
          proof (cases "grpc_gate X E sub addr (ws_authz st)")
            case c: (Pair c q)
            with g assms k a b n Pass gate_notices(4) [of X E sub addr "ws_authz st" c] drop publish show thesis
              by (cases q; cases "publish X s E (sm_event sub) (st\<lparr>ws_authz := c\<rparr>)") (auto; blast)+
          qed
        qed
      qed (use assms k a b in \<open>simp add: writer_step_def\<close>)
    qed
  qed (use assms k in \<open>simp add: writer_step_def\<close>)
qed

text \<open>Balances are signed 64-bit integers.\<close>

definition balances_i64 :: "account_db \<Rightarrow> bool" where
  "balances_i64 db = list_all (\<lambda>a. case acc_balance a of IntCol i \<Rightarrow> in_i64 i | RealCol _ \<Rightarrow> True) (accounts db)"

lemma debit_balance:
  assumes "get_account_balance key db = Ok (adm, balance)" "cost \<le> balance" "balances_i64 db"
  shows "snd (update_account_balance X key False cost db) = Ok ()"
    "get_account_balance key (fst (update_account_balance X key False cost db)) = Ok (adm, balance - cost)"
    "k \<noteq> key \<Longrightarrow> get_account_balance k (fst (update_account_balance X key False cost db)) = get_account_balance k db"
proof -
  obtain a i where a: "find_account db key = Some a" "acc_balance a = IntCol i" "0 \<le> i" "adm = acc_admitted a"
      "balance = word_of_int i"
    using assms(1) by (auto simp: get_account_balance_def get_u64_def split: option.splits sql_num.splits if_splits)
  have i: "i < 2 ^ 63" using assms(3) find_account_Some [OF a(1)] a(2)
    by (auto simp: balances_i64_def list_all_iff in_i64_def dest: bspec)
  then have ub: "uint balance = i" using a(3,5) by (simp add: uint_word_of_int)
  have c: "uint cost \<le> i" using assms(2) ub by (simp add: word_le_def)
  then have f: "fits_i64 cost" using i by (simp add: fits_i64_def word_less_def)
  have "balance - cost = word_of_int (i - uint cost)" using a(5) by (simp add: wi_hom_sub [symmetric])
  moreover have "in_i64 (i - uint cost)" using c i a(3) uint_ge_0 [of cost] unfolding in_i64_def by linarith
  ultimately show "snd (update_account_balance X key False cost db) = Ok ()"
    "get_account_balance key (fst (update_account_balance X key False cost db)) = Ok (adm, balance - cost)"
    "k \<noteq> key \<Longrightarrow> get_account_balance k (fst (update_account_balance X key False cost db)) = get_account_balance k db"
    using a c f
    by (auto simp: update_account_balance_def bind_u64_def get_account_balance_def find_map_account balance_add_def get_u64_def
        split: option.splits)
qed

section \<open>An example\<close>

definition demo_eph :: event where
  "demo_eph = demo_event\<lparr>ev_id := ''00'', ev_kind := 20001\<rparr>"

definition demo_sub :: submitted_event where
  "demo_sub = \<lparr>sm_event = demo_eph, sm_source_ip = ''::1'', sm_origin = None, sm_user_agent = None, sm_auth_pubkey = None\<rparr>"

definition demo_free :: settings where
  "demo_free = default_settings\<lparr>s_limits := (s_limits default_settings)\<lparr>event_kind_allowlist := None\<rparr>\<rparr>"

definition demo_paid :: settings where
  "demo_paid = demo_free\<lparr>s_pay_to_relay := (s_pay_to_relay default_settings)\<lparr>ptr_enabled := True, cost_per_event := 5\<rparr>\<rparr>"

definition demo_we :: "error option \<Rightarrow> writer_env" where
  "demo_we charge_fault = \<lparr>we_now = 0, we_sql_now = 7, we_fault = (\<lambda>c. if c = AtCharge then charge_fault else None),
     we_pool_fault = None, we_write_fault = (\<lambda>_. None), we_order = std_ord, we_latest = (\<lambda>xs. rev (sort_key latest_key xs)),
     we_reachable = True, we_event_admit = (\<lambda>_. Err AuthzError)\<rparr>"

definition demo_accs :: account_db where
  "demo_accs = \<lparr>accounts = [\<lparr>acc_pubkey = replicate 64 CHR ''a'', acc_admitted = True, acc_balance = IntCol 9,
     acc_tos_accepted_at = None\<rparr>], invoices = []\<rparr>"

definition demo_ws :: "settings \<Rightarrow> writer_state" where
  "demo_ws s = writer_new s True empty_events demo_accs"

lemma demo_ephemeral: "is_ephemeral demo_eph" "\<not> is_kind_metadata demo_eph"
  by (simp_all add: demo_eph_def is_ephemeral_def is_kind_metadata_def)

lemma demo_free_step:
  "writer_step std_ext demo_free (demo_we None) demo_sub (demo_ws demo_free) =
     Done ((demo_ws demo_free)\<lparr>ws_bcast := [demo_eph], ws_notices := [notice_saved ''00'']\<rparr>, Ok ())"
proof -
  have "kinds_gate demo_free demo_eph = Pass ()" by (simp add: kinds_gate_def demo_free_def default_settings_def)
  moreover have "account_gate std_ext demo_free (demo_we None) demo_eph demo_accs = Done (Pass None)"
    by (simp add: account_gate_def demo_free_def default_settings_def)
  moreover have "nip05_gate std_ext demo_free (demo_we None) demo_eph empty_events = Done (Pass None)"
    by (simp add: nip05_gate_def demo_free_def default_settings_def vu_is_active_def)
  moreover have "ws_authz (demo_ws demo_free) = None"
    by (simp add: demo_ws_def writer_new_def demo_free_def default_settings_def)
  moreover have "ev_id demo_eph = ''00''" by (simp add: demo_eph_def)
  moreover have "charge std_ext demo_free (demo_we None) demo_eph None x = (x, Ok ())" for x by (simp add: charge_def)
  ultimately show ?thesis
    by (simp add: writer_step_def demo_sub_def grpc_gate_def publish_def demo_ephemeral demo_ws_def writer_new_def)
qed

lemma demo_paid_step:
  "\<exists>st' r. writer_step std_ext demo_paid (demo_we f) demo_sub (demo_ws demo_paid) = Done (st', r) \<and>
     ws_bcast st' \<noteq> ws_bcast (demo_ws demo_paid)"
proof -
  have "kinds_gate demo_paid demo_eph = Pass ()" by (simp add: kinds_gate_def demo_paid_def demo_free_def default_settings_def)
  moreover have "account_gate std_ext demo_paid (demo_we f) demo_eph demo_accs = Done (Pass (Some 9))"
    by (simp add: account_gate_def demo_paid_def demo_free_def default_settings_def whitelisted_def keys_of_def demo_eph_def
        demo_event_def demo_we_def get_account_balance_def find_account_def demo_accs_def get_u64_def)
  moreover have "nip05_gate std_ext demo_paid (demo_we f) demo_eph empty_events = Done (Pass None)"
    by (simp add: nip05_gate_def demo_paid_def demo_free_def default_settings_def vu_is_active_def)
  moreover have "ws_authz (demo_ws demo_paid) = None"
    by (simp add: demo_ws_def writer_new_def demo_paid_def demo_free_def default_settings_def)
  moreover obtain st1 where p: "publish std_ext demo_paid (demo_we f) demo_eph (demo_ws demo_paid) = (st1, True)"
    by (simp add: publish_def demo_ephemeral)
  moreover obtain st' r where c: "charge std_ext demo_paid (demo_we f) demo_eph (Some 9) st1 = (st', r)" by force
  moreover have "ws_bcast st' \<noteq> ws_bcast (demo_ws demo_paid)"
    using charge_spec(1) [OF c] publish_spec(4) [OF p] by simp
  ultimately show ?thesis
    by (simp add: writer_step_def demo_sub_def grpc_gate_def demo_ws_def writer_new_def)
qed

lemma demo_paid_facts:
  "ptr_enabled (s_pay_to_relay demo_paid)" "\<not> whitelisted demo_paid (sm_event demo_sub)"
  "0 < cost_per_event (s_pay_to_relay demo_paid)" "balances_i64 (ws_accounts (demo_ws demo_paid))"
  by (simp_all add: demo_paid_def demo_free_def default_settings_def whitelisted_def balances_i64_def demo_ws_def writer_new_def
      demo_accs_def in_i64_def)

section \<open>Properties\<close>

text \<open>C8: Only permitted events are published. When a step of the writer stores or broadcasts an
  event, its kind is not blacklisted and is on the allow list if there is one; its author is
  whitelisted if there is a whitelist, or, on a paid relay, is admitted with a balance that
  covers the price; if NIP-05 verification is required the author has a valid record; and the
  admission service, if it answered, permitted it.\<close>

theorem writer_publishes_only_permitted:
  assumes "writer_step X s E sub st = Done (st', r)" "ws_bcast st' \<noteq> ws_bcast st \<or> ws_events st' \<noteq> ws_events st"
  shows "(\<forall>ks. event_kind_blacklist (s_limits s) = Some ks \<longrightarrow> ev_kind (sm_event sub) \<notin> set ks) \<and>
    (\<forall>ks. event_kind_allowlist (s_limits s) = Some ks \<longrightarrow> ev_kind (sm_event sub) \<in> set ks) \<and>
    (\<not> ptr_enabled (s_pay_to_relay s) \<longrightarrow> pubkey_whitelist (s_authorization s) = None \<or> whitelisted s (sm_event sub)) \<and>
    (ptr_enabled (s_pay_to_relay s) \<and> \<not> whitelisted s (sm_event sub) \<longrightarrow>
       (\<exists>key balance. keys_of X (ev_pubkey (sm_event sub)) = Ok key \<and>
          get_account_balance key (ws_accounts st) = Ok (True, balance) \<and> cost_per_event (s_pay_to_relay s) \<le> balance)) \<and>
    (vu_is_enabled (s_verified_users s) \<longrightarrow>
       (\<exists>uv. get_latest_user_verification X (we_latest E) (ev_pubkey (sm_event sub)) (ws_events st) = Ok uv \<and>
          record_is_valid (we_now E) (s_verified_users s) uv = Done True)) \<and>
    (\<exists>addr. \<forall>c reply. ws_authz st = Some c \<and>
       snd (admit_event X (we_reachable E) (we_event_admit E) (sm_event sub) (sm_source_ip sub) (sm_origin sub)
         (sm_user_agent sub) addr (sm_auth_pubkey sub) c) = Ok reply \<longrightarrow> permitted reply)"
  using assms(1)
proof (cases rule: writer_step_cases)
  case (drop ns ps c)
  with assms(2) show ?thesis by (simp add: dropped_def)
next
  case (publish b a c st1 w)
  have "\<forall>c reply. ws_authz st = Some c \<and>
       snd (admit_event X (we_reachable E) (we_event_admit E) (sm_event sub) (sm_source_ip sub) (sm_origin sub)
         (sm_user_agent sub) a (sm_auth_pubkey sub) c) = Ok reply \<longrightarrow> permitted reply"
    using publish(4) by (auto simp: grpc_gate_def split: prod.splits result.splits if_splits)
  moreover have "(\<not> ptr_enabled (s_pay_to_relay s) \<longrightarrow> pubkey_whitelist (s_authorization s) = None \<or> whitelisted s (sm_event sub)) \<and>
    (ptr_enabled (s_pay_to_relay s) \<and> \<not> whitelisted s (sm_event sub) \<longrightarrow>
       (\<exists>key balance. keys_of X (ev_pubkey (sm_event sub)) = Ok key \<and>
          get_account_balance key (ws_accounts st) = Ok (True, balance) \<and> cost_per_event (s_pay_to_relay s) \<le> balance))"
    using account_gate_Pass [OF publish(2)] by (auto split: if_splits)
  ultimately show ?thesis
    using publish(1) nip05_gate_Pass [OF publish(3)] unfolding kinds_gate_Pass by blast
qed

theorem writer_publishes_only_permitted_witness:
  "pubkey_whitelist (s_authorization demo_free) = None \<or> whitelisted demo_free (sm_event demo_sub)"
proof -
  have "\<not> ptr_enabled (s_pay_to_relay demo_free)" by (simp add: demo_free_def default_settings_def)
  moreover have "ws_bcast ((demo_ws demo_free)\<lparr>ws_bcast := [demo_eph], ws_notices := [notice_saved ''00'']\<rparr>) \<noteq> ws_bcast (demo_ws demo_free)"
    by (simp add: demo_ws_def writer_new_def)
  ultimately show ?thesis using writer_publishes_only_permitted [OF demo_free_step] by blast
qed



text \<open>C30: Posting costs exactly the price. On a paid relay, a step for an author who is not
  whitelisted takes the configured price from the author's balance (which covered it, so it
  cannot go negative) exactly when the event was published, and touches no other account.\<close>

theorem posting_is_charged_exactly:
  assumes "writer_step X s E sub st = Done (st', r)" "ptr_enabled (s_pay_to_relay s)" "\<not> whitelisted s (sm_event sub)"
    and "we_fault E AtCharge = None" "balances_i64 (ws_accounts st)"
  shows "if ws_bcast st' = ws_bcast st then ws_accounts st' = ws_accounts st
    else (\<exists>key balance. keys_of X (ev_pubkey (sm_event sub)) = Ok key \<and>
      get_account_balance key (ws_accounts st) = Ok (True, balance) \<and> cost_per_event (s_pay_to_relay s) \<le> balance \<and>
      get_account_balance key (ws_accounts st') = Ok (True, balance - cost_per_event (s_pay_to_relay s)) \<and>
      (\<forall>k. k \<noteq> key \<longrightarrow> get_account_balance k (ws_accounts st') = get_account_balance k (ws_accounts st)))"
  using assms(1)
proof (cases rule: writer_step_cases)
  case (drop ns ps c)
  then show ?thesis by (simp add: dropped_def)
next
  case (publish b a c st1 w)
  let ?cost = "cost_per_event (s_pay_to_relay s)"
  have acc: "ws_accounts st1 = ws_accounts st" using publish_spec(1) [OF publish(5)] by simp
  show ?thesis
  proof (cases w)
    case True
    obtain key balance where k: "keys_of X (ev_pubkey (sm_event sub)) = Ok key" "?cost \<le> balance" "b = Some balance"
      "get_account_balance key (ws_accounts st) = Ok (True, balance)"
      using account_gate_Pass [OF publish(2)] assms(2,3) by auto
    note d = debit_balance [OF k(4,2) assms(5), where X = X]
    have ch: "charge X s E (sm_event sub) b st1 = (st', r)" using publish(6) True by simp
    have "ws_accounts st' = (if 0 < ?cost then fst (update_account_balance X key False ?cost (ws_accounts st)) else ws_accounts st)"
      using ch k(1,3) assms(2,4) acc by (auto simp: charge_def try_call_def split: if_splits prod.splits)
    moreover have "balance - ?cost = balance" if "\<not> 0 < ?cost" using that by (simp add: word_gt_0)
    ultimately have "get_account_balance key (ws_accounts st') = Ok (True, balance - ?cost)"
      "\<forall>q. q \<noteq> key \<longrightarrow> get_account_balance q (ws_accounts st') = get_account_balance q (ws_accounts st)"
      using d k(4) by (auto split: if_splits)
    moreover have "ws_bcast st' \<noteq> ws_bcast st"
      using charge_spec(1) [OF ch] publish_spec(4) [OF publish(5) True] by simp
    ultimately show ?thesis using k by auto
  next
    case False
    then show ?thesis using publish(6) acc publish_spec(5) [OF publish(5) False] by simp
  qed
qed

theorem posting_is_charged_exactly_witness:
  "\<exists>st' r key. writer_step std_ext demo_paid (demo_we None) demo_sub (demo_ws demo_paid) = Done (st', r) \<and>
     (\<exists>balance. get_account_balance key (ws_accounts st') = Ok (True, balance - 5))"
proof -
  obtain st' r where st: "writer_step std_ext demo_paid (demo_we None) demo_sub (demo_ws demo_paid) = Done (st', r)"
    "ws_bcast st' \<noteq> ws_bcast (demo_ws demo_paid)" using demo_paid_step by blast
  have "we_fault (demo_we None) AtCharge = None" by (simp add: demo_we_def)
  from posting_is_charged_exactly [OF st(1) demo_paid_facts(1,2) this demo_paid_facts(4)] st show ?thesis
    by (auto simp: demo_paid_def)
qed

text \<open>A failed charge stops the relay from storing anything more. When taking the price fails
  after the event was published, the client has been told that the event was saved, the
  author keeps the money, and the writer task ends with the error: none of the events that
  wait behind it is processed.\<close>

theorem failed_charge_ends_writer:
  assumes "writer_step X s E sub st = Done (st', r)" "ws_bcast st' \<noteq> ws_bcast st"
    and "ptr_enabled (s_pay_to_relay s)" "\<not> whitelisted s (sm_event sub)" "0 < cost_per_event (s_pay_to_relay s)"
    and "we_fault E AtCharge = Some err"
  shows "db_writer X s ((E, sub) # subs) st = Done (st', Err err) \<and> ws_accounts st' = ws_accounts st \<and>
    ws_notices st' = ws_notices st @ [notice_saved (ev_id (sm_event sub))]"
  using assms(1)
proof (cases rule: writer_step_cases)
  case (drop ns ps c)
  with assms(2) show ?thesis by (simp add: dropped_def)
next
  case (publish b a c st1 w)
  have w: w using assms(2) publish(6) publish_spec(5) [OF publish(5)] by (cases w) auto
  obtain key balance where k: "keys_of X (ev_pubkey (sm_event sub)) = Ok key" "b = Some balance"
    using account_gate_Pass [OF publish(2)] assms(3,4) by auto
  have ch: "charge X s E (sm_event sub) b st1 = (st', r)" using publish(6) w by simp
  then have "r = Err err" "st' = st1"
    using k assms(3,5,6) by (auto simp: charge_def try_call_def)
  with assms(1) publish_spec(1) [OF publish(5)] publish_spec(4) [OF publish(5) w] show ?thesis by simp
qed

theorem failed_charge_ends_writer_witness:
  "\<exists>st'. db_writer std_ext demo_paid [(demo_we (Some UnknownError), demo_sub), (demo_we None, demo_sub)] (demo_ws demo_paid) =
     Done (st', Err UnknownError)"
proof -
  obtain st' r where st: "writer_step std_ext demo_paid (demo_we (Some UnknownError)) demo_sub (demo_ws demo_paid) = Done (st', r)"
    "ws_bcast st' \<noteq> ws_bcast (demo_ws demo_paid)" using demo_paid_step by blast
  have "we_fault (demo_we (Some UnknownError)) AtCharge = Some UnknownError" by (simp add: demo_we_def)
  from failed_charge_ends_writer [OF st demo_paid_facts(1-3) this] show ?thesis by blast
qed

text \<open>The bounds of the write quota. A configured rate of events per second becomes a quota of
  sixty times as much per minute without overflow up to 71582788 per second; beyond that the
  product wraps, and start-up panics exactly for the multiples of 2^30.\<close>

theorem writer_quota_bounds:
  assumes "0 < rps" "rps < 2 ^ 32"
  shows "(rps \<le> 71582788 \<longrightarrow> (\<exists>q. writer_quota (Some rps) = Done (Some q) \<and> unat q = rps * 60)) \<and>
    (writer_quota (Some rps) = Panic \<longleftrightarrow> 2 ^ 30 dvd rps)"
proof -
  let ?q = "of_nat rps * 60 :: u32"
  have uq: "unat ?q = rps * 60 mod 2 ^ 32"
  proof -
    have "?q = of_nat (rps * 60)" by simp
    then show ?thesis by (simp only: unat_of_nat) simp
  qed
  have "?q = 0 \<longleftrightarrow> (2 ^ 32 :: nat) dvd rps * 60"
    using uq by (metis dvd_eq_mod_eq_0 unat_eq_zero)
  also have "\<dots> \<longleftrightarrow> (2 ^ 30 :: nat) dvd rps"
  proof -
    have "(2 ^ 32 :: nat) dvd rps * 60 \<longleftrightarrow> 4 * 2 ^ 30 dvd 4 * (rps * 15)" by simp
    also have "\<dots> \<longleftrightarrow> (2 ^ 30 :: nat) dvd rps * 15" by (rule nat_mult_dvd_cancel1) simp
    also have "\<dots> \<longleftrightarrow> (2 ^ 30 :: nat) dvd rps"
    proof -
      have "coprime ((2 :: nat) ^ 30) 15" by (simp add: coprime_power_left_iff) (simp add: coprime_iff_gcd_eq_1 gcd_non_0_nat)
      then show ?thesis by (simp add: coprime_dvd_mult_left_iff)
    qed
    finally show ?thesis .
  qed
  finally have z: "?q = 0 \<longleftrightarrow> (2 ^ 30 :: nat) dvd rps" .
  have "unat ?q = rps * 60" if "rps \<le> 71582788" using that uq by simp
  moreover from this have "?q \<noteq> 0" if "rps \<le> 71582788" using that assms(1) by (metis mult_is_0 neq0_conv unat_0 zero_neq_numeral)
  ultimately show ?thesis using assms(1) z by (simp add: writer_quota_def Let_def)
qed

theorem writer_quota_bounds_witness: "writer_quota (Some (2 ^ 30)) = Panic"
  using writer_quota_bounds [of "2 ^ 30"] by simp

end
