(* ===== verification/Sqlite_Query.thy ===== *)
theory Sqlite_Query
  imports Subscription Event_Store
begin

text \<open>
  Translation of a subscription filter to SQL and its evaluation (\<^verbatim>\<open>src/src/repo/sqlite.rs\<close>:
  \<^verbatim>\<open>override_index\<close>, \<^verbatim>\<open>query_from_filter\<close>, \<^verbatim>\<open>repeat_vars\<close>, \<^verbatim>\<open>query_subscription\<close>). A condition of the
  generated statement is a value of type \<open>clause\<close> that carries its parameters; it is rendered to
  the SQL text and parameter list the source builds, and evaluated on the tables as SQL does.
\<close>

section \<open>Clauses\<close>

datatype sql_param = PBlob "string option" | PText string | PInt u64

record tag_extra =
  te_kinds :: "u64 list option"
  te_since :: "u64 option"
  te_until :: "u64 option"

datatype clause =
    CAuthors "string option list"
  | CIds "string option list"
  | CFalse
  | CKinds "u64 list"
  | CTagIn string "string list" tag_extra
  | CTagIs string string tag_extra
  | CSince u64
  | CUntil u64
  | CAlive u64

definition override_index :: "req_filter \<Rightarrow> string option" where
  "override_index f =
     (if rf_ids f \<noteq> None then Some ''event_hash_index''
      else if (case rf_kinds f of None \<Rightarrow> False | Some ks \<Rightarrow> 1 < length ks) \<and> rf_since f = None \<and>
        rf_until f = None \<and> rf_tags f = None \<and> rf_authors f = None
      then Some ''kind_created_at_index''
      else if rf_authors f \<noteq> None then
        (if rf_since f = None \<and> rf_until f = None \<and> rf_limit f = None then
           (if rf_kinds f = None then Some ''author_index'' else Some ''author_kind_index'')
         else Some ''author_created_at_index'')
      else None)"

definition list_clause :: "(string option list \<Rightarrow> clause) \<Rightarrow> externals \<Rightarrow> string list option \<Rightarrow> clause list" where
  "list_clause mk X vs =
     (case vs of None \<Rightarrow> [] | Some v \<Rightarrow> if v = [] then [CFalse] else [mk (map (hex_decode X) v)])"

definition filter_extra :: "req_filter \<Rightarrow> tag_extra" where
  "filter_extra f = \<lparr>te_kinds = rf_kinds f, te_since = rf_since f, te_until = rf_until f\<rparr>"

definition tag_clauses :: "req_filter \<Rightarrow> rchar \<times> tag_operand \<Rightarrow> clause list" where
  "tag_clauses f kv =
     (if operand_set (snd kv) = {||} then []
      else (case snd kv of
         Or v \<Rightarrow> [CTagIn (fst kv) (sorted_list_of_fset v) (filter_extra f)]
       | And v \<Rightarrow> map (\<lambda>x. CTagIs (fst kv) x (filter_extra f)) (sorted_list_of_fset v)))"

definition opt_list :: "('a \<Rightarrow> 'b) \<Rightarrow> 'a option \<Rightarrow> 'b list" where
  "opt_list g x = (case x of None \<Rightarrow> [] | Some a \<Rightarrow> [g a])"

definition filter_clauses :: "externals \<Rightarrow> u64 \<Rightarrow> req_filter \<Rightarrow> clause list" where
  "filter_clauses X now f =
     list_clause CAuthors X (rf_authors f) @ opt_list CKinds (rf_kinds f) @ list_clause CIds X (rf_ids f) @
     (case rf_tags f of None \<Rightarrow> [] | Some m \<Rightarrow> concat (map (tag_clauses f) (sort_key fst m))) @
     opt_list CSince (rf_since f) @ opt_list CUntil (rf_until f) @ [CAlive now]"

section \<open>Rendering\<close>

definition repeat_vars :: "nat \<Rightarrow> string" where
  "repeat_vars n =
     (if n = 0 then [] else butlast (butlast (concat (replicate n ''?, ''))))"

definition show_list :: "u64 list \<Rightarrow> string" where
  "show_list ks = join '', '' (map show_u64 ks)"

definition extra_parts :: "tag_extra \<Rightarrow> string list" where
  "extra_parts x =
     opt_list (\<lambda>ks. ''AND kind IN ('' @ show_list ks @ '')'') (te_kinds x) @
     opt_list (\<lambda>t. ''AND created_at >= '' @ show_u64 t) (te_since x) @
     opt_list (\<lambda>t. ''AND created_at <= '' @ show_u64 t) (te_until x)"

definition tag_subquery :: "string \<Rightarrow> tag_extra \<Rightarrow> string" where
  "tag_subquery first x =
     ''e.id IN (SELECT t.event_id FROM tag t WHERE ('' @ join '' '' (first # extra_parts x) @ ''))''"

fun render :: "clause \<Rightarrow> string" where
  "render (CAuthors vs) = ''('' @ join '' OR '' (map (\<lambda>_. ''author=?'') vs) @ '')''"
| "render (CIds vs) = ''('' @ join '' OR '' (map (\<lambda>_. ''event_hash=?'') vs) @ '')''"
| "render CFalse = ''false''"
| "render (CKinds ks) = ''kind IN ('' @ show_list ks @ '')''"
| "render (CTagIn name vs x) = tag_subquery (''name=? AND value IN ('' @ repeat_vars (length vs) @ '')'') x"
| "render (CTagIs name v x) = tag_subquery ''name=? AND value=?'' x"
| "render (CSince t) = ''created_at >= '' @ show_u64 t"
| "render (CUntil t) = ''created_at <= '' @ show_u64 t"
| "render (CAlive now) = ''(expires_at IS NULL OR expires_at > ?)''"

fun clause_params :: "clause \<Rightarrow> sql_param list" where
  "clause_params (CAuthors vs) = map PBlob vs"
| "clause_params (CIds vs) = map PBlob vs"
| "clause_params (CTagIn name vs x) = PText name # map PText vs"
| "clause_params (CTagIs name v x) = [PText name, PText v]"
| "clause_params (CAlive now) = [PInt now]"
| "clause_params _ = []"

definition query_from_filter :: "externals \<Rightarrow> u64 \<Rightarrow> req_filter \<Rightarrow> string \<times> sql_param list \<times> string option" where
  "query_from_filter X now f =
     (if rf_force_no_match f then (''SELECT e.content FROM event e WHERE 1=0'', [], None)
      else
        (let idx = override_index f;
             idx_stmt = (case idx of None \<Rightarrow> [] | Some i \<Rightarrow> ''INDEXED BY '' @ i);
             cs = filter_clauses X now f
         in (''SELECT e.content FROM event e '' @ idx_stmt @ '' WHERE hidden!=TRUE'' @
               '' AND '' @ join '' AND '' (map render cs) @
               (case rf_limit f of
                  Some lim \<Rightarrow> '' ORDER BY e.created_at DESC LIMIT '' @ show_u64 lim
                | None \<Rightarrow> '' ORDER BY e.created_at ASC''),
             concat (map clause_params cs), idx)))"

section \<open>Evaluation\<close>

definition extra_holds :: "tag_extra \<Rightarrow> tag_row \<Rightarrow> bool" where
  "extra_holds x t \<longleftrightarrow>
     (case te_kinds x of None \<Rightarrow> True | Some ks \<Rightarrow> tr_kind t \<in> set ks) \<and>
     (case te_since x of None \<Rightarrow> True | Some s \<Rightarrow> s \<le> tr_created_at t) \<and>
     (case te_until x of None \<Rightarrow> True | Some u \<Rightarrow> tr_created_at t \<le> u)"

fun holds :: "event_db \<Rightarrow> event_row \<Rightarrow> clause \<Rightarrow> bool" where
  "holds db r (CAuthors vs) = (Some (er_author r) \<in> set vs)"
| "holds db r (CIds vs) = (Some (er_hash r) \<in> set vs)"
| "holds db r CFalse = False"
| "holds db r (CKinds ks) = (er_kind r \<in> set ks)"
| "holds db r (CTagIn name vs x) =
     list_ex (\<lambda>t. tr_event_id t = er_id r \<and> tr_name t = name \<and> tr_value t \<in> set vs \<and> extra_holds x t) (db_tags db)"
| "holds db r (CTagIs name v x) =
     list_ex (\<lambda>t. tr_event_id t = er_id r \<and> tr_name t = name \<and> tr_value t = v \<and> extra_holds x t) (db_tags db)"
| "holds db r (CSince t) = (t \<le> er_created_at r)"
| "holds db r (CUntil t) = (er_created_at r \<le> t)"
| "holds db r (CAlive now) = (case er_expires_at r of None \<Rightarrow> True | Some x \<Rightarrow> now < x)"

definition selects :: "externals \<Rightarrow> u64 \<Rightarrow> req_filter \<Rightarrow> event_db \<Rightarrow> event_row \<Rightarrow> bool" where
  "selects X now f db r \<longleftrightarrow>
     \<not> rf_force_no_match f \<and> \<not> er_hidden r \<and> list_all (holds db r) (filter_clauses X now f)"

text \<open>
  The rows in the order of the statement. Binding a time that is no 64-bit signed integer and
  a limit that is none are errors of the statement.
\<close>

definition run_query ::
  "externals \<Rightarrow> row_order \<Rightarrow> u64 \<Rightarrow> req_filter \<Rightarrow> event_db \<Rightarrow> (string list, error) result" where
  "run_query X ord now f db =
     (let rows = filter (selects X now f db) (db_events db);
          desc = map fst (ord (map (\<lambda>r. (er_id r, er_created_at r)) rows));
          content = (\<lambda>ids. List.map_filter (\<lambda>i. map_option er_content (List.find (\<lambda>r. er_id r = i) rows)) ids)
      in if rf_force_no_match f then Ok []
      else if \<not> fits_i64 now then Err (SqlError (OtherSqlError ''ToSqlConversionFailure''))
      else (case rf_limit f of
         None \<Rightarrow> Ok (content (rev desc))
       | Some lim \<Rightarrow> if fits_i64 lim then Ok (content (take (unat lim) desc))
                     else Err (SqlError (OtherSqlError ''datatype mismatch''))))"

text \<open>
  \<^verbatim>\<open>query_subscription\<close>: the results of the filters one after another, then the end marker, an
  event \<^verbatim>\<open>EOSE\<close>. What the query meets on its way is an argument: whether it waited for
  more than five seconds or was abandoned before it started, whether the pool has a
  connection, the clock and the snapshot of the database at each filter, and before which
  rows the reader is stopped (a checkpoint, a slow or departed client).
\<close>

record query_result =
  qr_sub_id :: string
  qr_event :: string

record query_env =
  qe_shed :: bool
  qe_conn :: bool
  qe_now :: "nat \<Rightarrow> u64"
  qe_db :: "nat \<Rightarrow> event_db"
  qe_stop :: "nat \<Rightarrow> bool"

fun send_rows :: "(nat \<Rightarrow> bool) \<Rightarrow> nat \<Rightarrow> string \<Rightarrow> string list \<Rightarrow> query_result list \<times> bool" where
  "send_rows stop n i [] = ([], True)"
| "send_rows stop n i (c # cs) =
     (if stop n then ([], False)
      else (case send_rows stop (Suc n) i cs of (out, fin) \<Rightarrow> (\<lparr>qr_sub_id = i, qr_event = c\<rparr> # out, fin)))"

fun query_filters ::
  "externals \<Rightarrow> row_order \<Rightarrow> query_env \<Rightarrow> nat \<Rightarrow> nat \<Rightarrow> string \<Rightarrow> req_filter list \<Rightarrow> query_result list" where
  "query_filters X ord E k n i [] = [\<lparr>qr_sub_id = i, qr_event = ''EOSE''\<rparr>]"
| "query_filters X ord E k n i (f # fs) =
     (case run_query X ord (qe_now E k) f (qe_db E k) of
        Err _ \<Rightarrow> []
      | Ok rows \<Rightarrow>
        (case send_rows (qe_stop E) n i rows of
           (out, fin) \<Rightarrow> out @ (if fin then query_filters X ord E (Suc k) (n + length rows) i fs else [])))"

definition query_subscription ::
  "externals \<Rightarrow> row_order \<Rightarrow> query_env \<Rightarrow> subscription \<Rightarrow> query_result list" where
  "query_subscription X ord E s =
     (if qe_shed E then []
      else if qe_conn E then query_filters X ord E 0 0 (get_id s) (sub_filters s)
      else [\<lparr>qr_sub_id = get_id s, qr_event = ''EOSE''\<rparr>])"

end
