(* ===== verification/Session.thy ===== *)
theory Session
  imports Conn Admission Db_Writer Sqlite_Query
begin

text \<open>
  The websocket session (\<^verbatim>\<open>src/src/server.rs\<close>: \<^verbatim>\<open>convert_to_msg\<close>, \<^verbatim>\<open>make_notice_message\<close>,
  \<^verbatim>\<open>allowed_to_send\<close>, \<^verbatim>\<open>nostr_server\<close>). One round of the select loop is a step on the session
  state: the connection, the running queries, and everything that left the session (messages
  to the client, events for the writer, queries for the repository, cancellations). The clock
  and whether sending to the client succeeds are arguments. Waiting of the rate limiter and the
  metrics have no effect on the state.
\<close>

section \<open>Messages from the client\<close>

datatype nostr_message = EventMsg event_cmd | SubMsg subscription | CloseMsg close_cmd

fun de_event_cmd :: "json \<Rightarrow> event_cmd option" where
  "de_event_cmd (JObject m) =
     Option.bind (Option.bind (field1 m ''cmd'') de_string) (\<lambda>c.
     Option.bind (Option.bind (field1 m ''event'') de_event) (\<lambda>e. Some \<lparr>ec_cmd = c, ec_event = e\<rparr>))"
| "de_event_cmd (JArray [a, b]) =
     Option.bind (de_string a) (\<lambda>c. Option.bind (de_event b) (\<lambda>e. Some \<lparr>ec_cmd = c, ec_event = e\<rparr>))"
| "de_event_cmd _ = None"

fun de_close_cmd :: "json \<Rightarrow> close_cmd option" where
  "de_close_cmd (JObject m) =
     Option.bind (Option.bind (field1 m ''cmd'') de_string) (\<lambda>c.
     Option.bind (Option.bind (field1 m ''id'') de_string) (\<lambda>i. Some \<lparr>cc_cmd = c, cc_id = i\<rparr>))"
| "de_close_cmd (JArray [a, b]) =
     Option.bind (de_string a) (\<lambda>c. Option.bind (de_string b) (\<lambda>i. Some \<lparr>cc_cmd = c, cc_id = i\<rparr>))"
| "de_close_cmd _ = None"

text \<open>The untagged enum: the variants are tried in their order.\<close>

definition de_nostr_message :: "json \<Rightarrow> nostr_message option exec" where
  "de_nostr_message v =
     (case de_event_cmd v of
        Some ec \<Rightarrow> Done (Some (EventMsg ec))
      | None \<Rightarrow>
        (case de_subscription v of
           Panic \<Rightarrow> Panic
         | Done (Ok s) \<Rightarrow> Done (Some (SubMsg s))
         | Done (Err _) \<Rightarrow> Done (map_option CloseMsg (de_close_cmd v))))"

definition convert_to_msg :: "externals \<Rightarrow> string \<Rightarrow> nat option \<Rightarrow> (nostr_message, error) result exec" where
  "convert_to_msg X msg max_size =
     (case (case json_from_str X msg of None \<Rightarrow> Done None | Some v \<Rightarrow> de_nostr_message v) of
        Panic \<Rightarrow> Panic
      | Done None \<Rightarrow> Done (Err ProtoParseError)
      | Done (Some m) \<Rightarrow>
        (case m of
           EventMsg _ \<Rightarrow>
             (case max_size of
                Some n \<Rightarrow> if n < length msg \<and> 0 < n then Done (Err (EventMaxLengthError (length msg))) else Done (Ok m)
              | None \<Rightarrow> Done (Ok m))
         | _ \<Rightarrow> Done (Ok m)))"

section \<open>Messages to the client\<close>

datatype out_msg = OutNotice notice | OutEvent string string | OutEose string | OutPing

definition notice_json :: "notice \<Rightarrow> json" where
  "notice_json n =
     (case n of
        Message msg \<Rightarrow> JArray [JString ''NOTICE'', JString msg]
      | EventResult r \<Rightarrow> JArray [JString ''OK'', JString (event_result.er_id r), JBool (to_bool (er_status r)), JString (er_msg r)]
      | AuthChallenge c \<Rightarrow> JArray [JString ''AUTH'', JString c])"

definition dq :: string where
  "dq = [CHR 0x22]"

text \<open>The text of a frame; \<^verbatim>\<open>None\<close> for a ping.\<close>

fun wire :: "externals \<Rightarrow> out_msg \<Rightarrow> string option" where
  "wire X (OutNotice n) = json_to_string X (notice_json n)"
| "wire X (OutEvent subesc ev) = Some (''['' @ dq @ ''EVENT'' @ dq @ '','' @ dq @ subesc @ dq @ '','' @ ev @ '']'')"
| "wire X (OutEose subesc) = Some (''['' @ dq @ ''EOSE'' @ dq @ '','' @ dq @ subesc @ dq @ '']'')"
| "wire X OutPing = None"

definition strip_quotes :: "string \<Rightarrow> string" where
  "strip_quotes s = filter (\<lambda>c. c \<noteq> CHR 0x22) s"

definition allowed_to_send :: "externals \<Rightarrow> string \<Rightarrow> client_conn \<Rightarrow> settings \<Rightarrow> bool" where
  "allowed_to_send X event_str c s =
     (if nip42_dms (s_authorization s) then
        (case event_from_str X event_str of
           Some e \<Rightarrow>
             if ev_kind e = 4 \<or> ev_kind e = 44 \<or> ev_kind e = 1059 then
               (case (auth_pubkey c, tag_values_by_name e ''p'') of
                  (Some pk, recipient # _) \<Rightarrow> recipient = pk \<or> ev_pubkey e = pk
                | _ \<Rightarrow> False)
             else True
         | None \<Rightarrow> False)
      else True)"

section \<open>The session\<close>

record client_info =
  ci_remote_ip :: string
  ci_user_agent :: "string option"
  ci_origin :: "string option"

text \<open>A started query is known by a number; \<open>se_running\<close> maps a subscription to the number of the
  query that can be cancelled for it.\<close>

record session =
  se_conn :: client_conn
  se_running :: "(string \<times> nat) list"
  se_next :: nat
  se_queries :: "(nat \<times> subscription) list"
  se_cancelled :: "nat list"
  se_submitted :: "submitted_event list"
  se_out :: "out_msg list"
  se_published :: nat
  se_received :: nat
  se_last_message :: nat

datatype ws_frame =
    WsText string
  | WsBinary
  | WsPingPong
  | WsTooLong nat nat
  | WsClosed
  | WsIoError
  | WsOther

datatype session_in =
    Shutdown
  | PingTick
  | NoticeIn notice
  | QueryIn query_result
  | Broadcast event
  | WsNext ws_frame

record session_env =
  sv_now :: u64
  sv_instant :: nat
  sv_send_ok :: "nat \<Rightarrow> bool"

text \<open>A step ends with the new state and whether the loop goes on.\<close>

type_synonym step_result = "session \<times> bool"

definition send_client :: "bool \<Rightarrow> out_msg \<Rightarrow> session \<Rightarrow> step_result" where
  "send_client sent m st = (if sent then (st\<lparr>se_out := se_out st @ [m]\<rparr>, True) else (st, False))"

definition send_notice :: "session_env \<Rightarrow> notice \<Rightarrow> session \<Rightarrow> step_result" where
  "send_notice E n st = send_client (sv_send_ok E 0) (OutNotice n) st"

definition max_quiet_time :: nat where
  "max_quiet_time = from_secs (60 * 20)"

definition on_query_result :: "externals \<Rightarrow> settings \<Rightarrow> session_env \<Rightarrow> query_result \<Rightarrow> session \<Rightarrow> step_result" where
  "on_query_result X s E q st =
     (let subesc = strip_quotes (qr_sub_id q) in
      if qr_event q = ''EOSE'' then send_client (sv_send_ok E 0) (OutEose subesc) st
      else if allowed_to_send X (qr_event q) (se_conn st) s
      then send_client (sv_send_ok E 0) (OutEvent subesc (qr_event q)) (st\<lparr>se_received := se_received st + 1\<rparr>)
      else (st, True))"

fun deliver ::
  "externals \<Rightarrow> settings \<Rightarrow> (nat \<Rightarrow> bool) \<Rightarrow> event \<Rightarrow> (string \<times> subscription) list \<Rightarrow> session \<Rightarrow> step_result" where
  "deliver X s send_ok e [] st = (st, True)"
| "deliver X s send_ok e ((k, sub) # subs) st =
     (if \<not> interested_in_event sub e then deliver X s send_ok e subs st
      else (case event_to_string X e of
         None \<Rightarrow> deliver X s send_ok e subs st
       | Some event_str \<Rightarrow>
         if allowed_to_send X event_str (se_conn st) s then
           (case send_client (send_ok 0) (OutEvent (strip_quotes k) event_str) st of
              (st', True) \<Rightarrow> deliver X s (\<lambda>i. send_ok (Suc i)) e subs st'
            | (st', False) \<Rightarrow> (st', False))
         else deliver X s send_ok e subs st))"

definition on_event ::
  "externals \<Rightarrow> settings \<Rightarrow> policy list \<Rightarrow> client_info \<Rightarrow> session_env \<Rightarrow> event \<Rightarrow> session \<Rightarrow> step_result" where
  "on_event X s adm ci E e st =
     (if is_expired (sv_now E) e then send_notice E (notice_invalid (ev_id e) ''The event has already expired'') st
      else if is_valid_timestamp (sv_now E) (reject_future_seconds (s_options s)) e then
        (case admission_check X adm e (auth_pubkey (se_conn st)) of
           Allow \<Rightarrow>
             (st\<lparr>se_submitted := se_submitted st @
                  [\<lparr>sm_event = e, sm_source_ip = ip (se_conn st), sm_origin = ci_origin ci, sm_user_agent = ci_user_agent ci,
                    sm_auth_pubkey = Option.bind (auth_pubkey (se_conn st)) (hex_decode X)\<rparr>],
                 se_published := se_published st + 1\<rparr>, True)
         | Deny reason req \<Rightarrow>
             send_notice E (if req then notice_auth_required (ev_id e) reason else notice_blocked (ev_id e) reason) st)
      else (case reject_future_seconds (s_options s) of
         Some fut \<Rightarrow>
           send_notice E (notice_invalid (ev_id e) (''The event created_at field is out of the acceptable range (+'' @
             show_u64 fut @ ''sec) for this relay.'')) st
       | None \<Rightarrow> (st, True)))"

definition on_auth :: "externals \<Rightarrow> settings \<Rightarrow> session_env \<Rightarrow> string \<Rightarrow> event \<Rightarrow> session \<Rightarrow> step_result" where
  "on_auth X s E evid e st =
     (if nip42_auth (s_authorization s) then
        (case relay_url (s_info s) of
           None \<Rightarrow> (st, True)
         | Some relay \<Rightarrow>
           (case authenticate X (sv_now E) e relay (se_conn st) of
              (c, Ok _) \<Rightarrow> send_notice E (notice_saved (ev_id e)) (st\<lparr>se_conn := c\<rparr>)
            | (c, Err err) \<Rightarrow>
              send_notice E (notice_restricted (ev_id e) (''authentication error: '' @ display_error err)) (st\<lparr>se_conn := c\<rparr>)))
      else send_notice E (notice_invalid evid (display_error CommandUnknownError)) st)"

definition on_subscribe :: "settings \<Rightarrow> session_env \<Rightarrow> subscription \<Rightarrow> session \<Rightarrow> step_result" where
  "on_subscribe s E sub st =
     (if has_subscription (se_conn st) sub then (st, True)
      else if limit_scrapers (s_limits s) \<and> is_scraper sub then send_client (sv_send_ok E 0) (OutEose (sub_id sub)) st
      else (case subscribe (se_conn st) sub of
         (c, Ok _) \<Rightarrow>
           (let n = se_next st;
                previous = map_of (se_running st) (sub_id sub);
                st1 = st\<lparr>se_conn := c, se_next := Suc n,
                  se_running := (sub_id sub, n) # hm_remove (sub_id sub) (se_running st),
                  se_cancelled := se_cancelled st @ (case previous of Some p \<Rightarrow> [p] | None \<Rightarrow> [])\<rparr>
            in (if needs_historical_events sub then st1\<lparr>se_queries := se_queries st @ [(n, sub)]\<rparr> else st1, True))
       | (c, Err e) \<Rightarrow> send_notice E (notice_message (''Subscription error: '' @ display_error e)) (st\<lparr>se_conn := c\<rparr>)))"

definition on_close :: "session_env \<Rightarrow> close_cmd \<Rightarrow> session \<Rightarrow> step_result" where
  "on_close E cc st =
     (case close_from cc of
        Ok c \<Rightarrow>
          (st\<lparr>se_cancelled := se_cancelled st @ (case map_of (se_running st) (close_id c) of Some n \<Rightarrow> [n] | None \<Rightarrow> []),
              se_running := hm_remove (close_id c) (se_running st), se_conn := unsubscribe (se_conn st) c\<rparr>, True)
      | Err _ \<Rightarrow> send_notice E (notice_message ''could not parse command'') st)"

definition on_text ::
  "externals \<Rightarrow> settings \<Rightarrow> policy list \<Rightarrow> client_info \<Rightarrow> session_env \<Rightarrow> string \<Rightarrow> session \<Rightarrow> step_result exec" where
  "on_text X s adm ci E m st =
     (case convert_to_msg X m (max_event_bytes (s_limits s)) of
        Panic \<Rightarrow> Panic
      | Done (Ok (EventMsg ec)) \<Rightarrow>
        (case event_wrapper_from X ec of
           Panic \<Rightarrow> Panic
         | Done (Ok (WrappedEvent e)) \<Rightarrow> Done (on_event X s adm ci E e st)
         | Done (Ok (WrappedAuth e)) \<Rightarrow> Done (on_auth X s E (event_id ec) e st)
         | Done (Err err) \<Rightarrow> Done (send_notice E (notice_invalid (event_id ec) (display_error err)) st))
      | Done (Ok (SubMsg sub)) \<Rightarrow> Done (on_subscribe s E sub st)
      | Done (Ok (CloseMsg cc)) \<Rightarrow> Done (on_close E cc st)
      | Done (Err ConnError) \<Rightarrow> Done (st, False)
      | Done (Err (EventMaxLengthError n)) \<Rightarrow> Done (send_notice E (notice_message ''event exceeded max size'') st)
      | Done (Err ProtoParseError) \<Rightarrow> Done (send_notice E (notice_message ''could not parse command'') st)
      | Done (Err _) \<Rightarrow> Done (st, True))"

definition on_frame ::
  "externals \<Rightarrow> settings \<Rightarrow> policy list \<Rightarrow> client_info \<Rightarrow> session_env \<Rightarrow> ws_frame \<Rightarrow> session \<Rightarrow> step_result exec" where
  "on_frame X s adm ci E fr st =
     (let st1 = st\<lparr>se_last_message := sv_instant E\<rparr> in
      case fr of
        WsText m \<Rightarrow> on_text X s adm ci E m st1
      | WsBinary \<Rightarrow> Done (send_notice E (notice_message ''binary messages are not accepted'') st1)
      | WsPingPong \<Rightarrow> Done (st1, True)
      | WsTooLong n mx \<Rightarrow>
          Done (send_notice E (notice_message (''message too large ('' @ show_nat n @ '' > '' @ show_nat mx @ '')'')) st1)
      | _ \<Rightarrow> Done (st1, False))"

fun session_step ::
  "externals \<Rightarrow> settings \<Rightarrow> policy list \<Rightarrow> client_info \<Rightarrow> session_env \<Rightarrow> session_in \<Rightarrow> session \<Rightarrow> step_result exec" where
  "session_step X s adm ci E Shutdown st = Done (st, False)"
| "session_step X s adm ci E PingTick st =
     (if max_quiet_time < sv_instant E - se_last_message st then Done (st, False)
      else Done (send_client (sv_send_ok E 0) OutPing st))"
| "session_step X s adm ci E (NoticeIn n) st = Done (send_notice E n st)"
| "session_step X s adm ci E (QueryIn q) st = Done (on_query_result X s E q st)"
| "session_step X s adm ci E (Broadcast e) st = Done (deliver X s (sv_send_ok E) e (subscriptions (se_conn st)) st)"
| "session_step X s adm ci E (WsNext fr) st = on_frame X s adm ci E fr st"

definition session_new :: "settings \<Rightarrow> client_info \<Rightarrow> string \<Rightarrow> string \<Rightarrow> session_env \<Rightarrow> session" where
  "session_new s ci client_uuid challenge E =
     (let c = conn_new (ci_remote_ip ci) client_uuid;
          st = \<lparr>se_conn = c, se_running = [], se_next = 0, se_queries = [], se_cancelled = [], se_submitted = [], se_out = [],
                se_published = 0, se_received = 0, se_last_message = sv_instant E\<rparr>
      in if nip42_auth (s_authorization s)
         then fst (send_notice E (AuthChallenge challenge) (st\<lparr>se_conn := generate_auth_challenge challenge c\<rparr>))
         else st)"

text \<open>After the loop every query that can still be cancelled is.\<close>

definition cleanup :: "session \<Rightarrow> session" where
  "cleanup st = st\<lparr>se_cancelled := se_cancelled st @ map snd (se_running st), se_running := []\<rparr>"

text \<open>\<^verbatim>\<open>nostr_server\<close> on the inputs it receives; a session whose inputs end without a reason to stop
  is still running, and the flag says so.\<close>

fun session_loop ::
  "externals \<Rightarrow> settings \<Rightarrow> policy list \<Rightarrow> client_info \<Rightarrow> (session_env \<times> session_in) list \<Rightarrow> session \<Rightarrow> step_result exec" where
  "session_loop X s adm ci [] st = Done (st, True)"
| "session_loop X s adm ci ((E, i) # ins) st =
     (case session_step X s adm ci E i st of
        Panic \<Rightarrow> Panic
      | Done (st', True) \<Rightarrow> session_loop X s adm ci ins st'
      | Done (st', False) \<Rightarrow> Done (cleanup st', False))"

definition nostr_server ::
  "externals \<Rightarrow> settings \<Rightarrow> policy list \<Rightarrow> client_info \<Rightarrow> string \<Rightarrow> string \<Rightarrow> session_env \<Rightarrow>
   (session_env \<times> session_in) list \<Rightarrow> step_result exec" where
  "nostr_server X s adm ci client_uuid challenge E ins =
     session_loop X s adm ci ins (session_new s ci client_uuid challenge E)"

end
