(* ===== verification/Session_Properties.thy ===== *)
theory Session_Properties
  imports Session
begin

text \<open>
  What the websocket session of \<^verbatim>\<open>src/src/server.rs\<close> guarantees over a whole connection. A
  session runs one step per input; the locale \<open>session_rule\<close> carries what every step keeps to
  the end of the session, and its interpretations are the facts the properties rest on:
  who a session believes its client to be, what it sends, what it submits to the writer, and
  what becomes of its queries.
\<close>

section \<open>Invariants of a session\<close>

locale session_rule =
  fixes X :: externals and s :: settings and adm :: "policy list" and ci :: client_info
    and Q :: "session_env \<Rightarrow> session_in \<Rightarrow> bool" and P :: "session \<Rightarrow> bool"
  assumes step_keeps: "Q E i \<Longrightarrow> P st \<Longrightarrow> session_step X s adm ci E i st = Done (st', go) \<Longrightarrow> P st'"
begin

lemma loop_keeps:
  "\<forall>(E, i)\<in>set ins. Q E i \<Longrightarrow> P st \<Longrightarrow> session_loop X s adm ci ins st = Done (st', go) \<Longrightarrow>
   \<exists>st1. P st1 \<and> st' = (if go then st1 else cleanup st1)"
proof (induction ins arbitrary: st)
  case (Cons p ins)
  obtain E i where p: "p = (E, i)" by force
  from Cons.prems(3) p obtain st1 go1 where s1: "session_step X s adm ci E i st = Done (st1, go1)"
    by (auto split: exec.splits)
  with step_keeps [OF _ Cons.prems(2) s1] Cons.prems(1) p have "P st1" by simp
  with s1 p Cons show ?case by (cases go1) auto
qed simp

lemma session_keeps:
  assumes "nostr_server X s adm ci u ch E0 ins = Done (st, go)" "P (session_new s ci u ch E0)"
    and "\<And>E i. (E, i) \<in> set ins \<Longrightarrow> Q E i"
  obtains st1 where "P st1" "st = (if go then st1 else cleanup st1)"
proof -
  have "\<forall>(E, i)\<in>set ins. Q E i" using assms(3) by blast
  from loop_keeps [OF this assms(2)] assms(1) that show ?thesis by (auto simp: nostr_server_def)
qed

end

section \<open>Effects of the handlers\<close>

text \<open>Sending changes nothing but what was sent.\<close>

lemma send_client_cases:
  assumes "send_client b m st = (st', go)"
  obtains "go" "b" "st' = st\<lparr>se_out := se_out st @ [m]\<rparr>" | "\<not> go" "\<not> b" "st' = st"
  using assms by (auto simp: send_client_def split: if_splits)

lemma send_client_sel [simp]:
  "se_conn (fst (send_client b m st)) = se_conn st" "se_running (fst (send_client b m st)) = se_running st"
  "se_next (fst (send_client b m st)) = se_next st" "se_queries (fst (send_client b m st)) = se_queries st"
  "se_cancelled (fst (send_client b m st)) = se_cancelled st" "se_submitted (fst (send_client b m st)) = se_submitted st"
  by (simp_all add: send_client_def)

lemma send_client_out: "set (se_out (fst (send_client b m st))) \<subseteq> insert m (set (se_out st))"
  by (auto simp: send_client_def)

lemma send_notice_sel [simp]:
  "se_conn (fst (send_notice E n st)) = se_conn st" "se_running (fst (send_notice E n st)) = se_running st"
  "se_next (fst (send_notice E n st)) = se_next st" "se_queries (fst (send_notice E n st)) = se_queries st"
  "se_cancelled (fst (send_notice E n st)) = se_cancelled st" "se_submitted (fst (send_notice E n st)) = se_submitted st"
  by (simp_all add: send_notice_def)

text \<open>What a live event makes the session send.\<close>

definition live_messages :: "externals \<Rightarrow> settings \<Rightarrow> event \<Rightarrow> client_conn \<Rightarrow> (string \<times> subscription) list \<Rightarrow> out_msg list" where
  "live_messages X s e c subs =
     (case event_to_string X e of
        Some str \<Rightarrow> if allowed_to_send X str c s
          then map (\<lambda>(k, _). OutEvent (strip_quotes k) str) (filter (\<lambda>(_, sub). interested_in_event sub e) subs) else []
      | None \<Rightarrow> [])"

text \<open>How many sends succeed before the first that fails.\<close>

fun sent_before_failure :: "(nat \<Rightarrow> bool) \<Rightarrow> nat \<Rightarrow> nat" where
  "sent_before_failure f 0 = 0"
| "sent_before_failure f (Suc n) = (if f 0 then Suc (sent_before_failure (\<lambda>i. f (Suc i)) n) else 0)"

lemma sent_before_failure_le: "sent_before_failure f n \<le> n"
  by (induction f n rule: sent_before_failure.induct) auto

lemma sent_before_failure_prefix: "i < sent_before_failure f n \<Longrightarrow> f i"
  by (induction f n arbitrary: i rule: sent_before_failure.induct) (auto simp: less_Suc_eq_0_disj split: if_splits)

lemma sent_before_failure_stop: "sent_before_failure f n < n \<Longrightarrow> \<not> f (sent_before_failure f n)"
  by (induction f n rule: sent_before_failure.induct) (auto split: if_splits)

lemma deliver_spec:
  "deliver X s f e subs st =
     (let ms = live_messages X s e (se_conn st) subs; n = sent_before_failure f (length ms)
      in (st\<lparr>se_out := se_out st @ take n ms\<rparr>, n = length ms))"
proof (induction X s f e subs st rule: deliver.induct)
  case (2 X s f e k sub subs st)
  show ?case
  proof (cases "\<exists>str. interested_in_event sub e \<and> event_to_string X e = Some str \<and> allowed_to_send X str (se_conn st) s")
    case True
    then obtain str where h: "interested_in_event sub e" "event_to_string X e = Some str" "allowed_to_send X str (se_conn st) s"
      by blast
    then have "live_messages X s e (se_conn st) ((k, sub) # subs) =
        OutEvent (strip_quotes k) str # live_messages X s e (se_conn st) subs"
      by (simp add: live_messages_def)
    with h 2 show ?thesis by (simp add: send_client_def Let_def)
  next
    case False
    then have "live_messages X s e (se_conn st) ((k, sub) # subs) = live_messages X s e (se_conn st) subs"
      by (auto simp: live_messages_def split: option.splits)
    with False 2 show ?thesis by (auto split: option.splits)
  qed
qed (simp add: live_messages_def split: option.splits)

section \<open>A step as one effect\<close>

text \<open>
  The part of the state that matters beyond what was sent, and the five things a step can do
  to it. Every step of the loop is one of them.
\<close>

definition core :: "session \<Rightarrow> session" where
  "core st = st\<lparr>se_out := [], se_published := 0, se_received := 0, se_last_message := 0\<rparr>"

lemma core_eq:
  "core st = core st' \<longleftrightarrow>
     se_conn st = se_conn st' \<and> se_running st = se_running st' \<and> se_next st = se_next st' \<and>
     se_queries st = se_queries st' \<and> se_cancelled st = se_cancelled st' \<and> se_submitted st = se_submitted st'"
  by (cases st; cases st') (auto simp: core_def)

text \<open>Whether an event may be handed to the writer for a client known as \<open>a\<close>.\<close>

definition admissible :: "externals \<Rightarrow> settings \<Rightarrow> policy list \<Rightarrow> session_env \<Rightarrow> string option \<Rightarrow> event \<Rightarrow> bool" where
  "admissible X s adm E a e \<longleftrightarrow> validate X e = Ok () \<and> \<not> is_expired (sv_now E) e \<and>
     is_valid_timestamp (sv_now E) (reject_future_seconds (s_options s)) e \<and> admission_check X adm e a = Allow"

definition submission :: "externals \<Rightarrow> client_info \<Rightarrow> client_conn \<Rightarrow> event \<Rightarrow> submitted_event" where
  "submission X ci c e = \<lparr>sm_event = e, sm_source_ip = ip c, sm_origin = ci_origin ci, sm_user_agent = ci_user_agent ci,
     sm_auth_pubkey = Option.bind (auth_pubkey c) (hex_decode X)\<rparr>"

definition subscribed :: "client_conn \<Rightarrow> subscription \<Rightarrow> session \<Rightarrow> session" where
  "subscribed c sub st = st\<lparr>se_conn := c, se_next := Suc (se_next st),
     se_running := (sub_id sub, se_next st) # hm_remove (sub_id sub) (se_running st),
     se_cancelled := se_cancelled st @ (case map_of (se_running st) (sub_id sub) of Some p \<Rightarrow> [p] | None \<Rightarrow> []),
     se_queries := se_queries st @ (if needs_historical_events sub then [(se_next st, sub)] else [])\<rparr>"

definition closed :: "close \<Rightarrow> session \<Rightarrow> session" where
  "closed c st = st\<lparr>se_cancelled := se_cancelled st @ (case map_of (se_running st) (close_id c) of Some n \<Rightarrow> [n] | None \<Rightarrow> []),
     se_running := hm_remove (close_id c) (se_running st), se_conn := unsubscribe (se_conn st) c\<rparr>"

inductive effect :: "externals \<Rightarrow> settings \<Rightarrow> policy list \<Rightarrow> client_info \<Rightarrow> session_env \<Rightarrow> session \<Rightarrow> session \<Rightarrow> bool"
  for X s adm ci E where
  nothing: "core st' = core st \<Longrightarrow> effect X s adm ci E st st'"
| authenticated: "relay_url (s_info s) = Some relay \<Longrightarrow> nip42_auth (s_authorization s) \<Longrightarrow>
    core st' = core (st\<lparr>se_conn := fst (authenticate X (sv_now E) e relay (se_conn st))\<rparr>) \<Longrightarrow> effect X s adm ci E st st'"
| submitted: "admissible X s adm E (auth_pubkey (se_conn st)) e \<Longrightarrow>
    core st' = core (st\<lparr>se_submitted := se_submitted st @ [submission X ci (se_conn st) e]\<rparr>) \<Longrightarrow> effect X s adm ci E st st'"
| subscription: "subscribe (se_conn st) sub = (c, Ok ()) \<Longrightarrow> core st' = core (subscribed c sub st) \<Longrightarrow> effect X s adm ci E st st'"
| closing: "core st' = core (closed c st) \<Longrightarrow> effect X s adm ci E st st'"

text \<open>New event messages are events the client may see.\<close>

definition sends_allowed :: "externals \<Rightarrow> settings \<Rightarrow> session \<Rightarrow> session \<Rightarrow> bool" where
  "sends_allowed X s st st' \<longleftrightarrow> (\<forall>k str. OutEvent k str \<in> set (se_out st') \<longrightarrow>
     OutEvent k str \<in> set (se_out st) \<or> allowed_to_send X str (se_conn st) s)"

lemma sends_allowed_refl: "se_out st' = se_out st \<Longrightarrow> sends_allowed X s st st'"
  by (simp add: sends_allowed_def)

lemma sends_allowed_client:
  assumes "se_out st1 = se_out st" "\<forall>k str. m = OutEvent k str \<longrightarrow> allowed_to_send X str (se_conn st) s"
  shows "sends_allowed X s st (fst (send_client b m st1))"
  using assms send_client_out [of b m st1] by (auto simp: sends_allowed_def)

lemma sends_allowed_notice: "se_out st1 = se_out st \<Longrightarrow> sends_allowed X s st (fst (send_notice E n st1))"
  unfolding send_notice_def by (rule sends_allowed_client) simp_all

definition good_step :: "externals \<Rightarrow> settings \<Rightarrow> policy list \<Rightarrow> client_info \<Rightarrow> session_env \<Rightarrow> session \<Rightarrow> session \<Rightarrow> bool" where
  "good_step X s adm ci E st st' \<longleftrightarrow> effect X s adm ci E st st' \<and> sends_allowed X s st st'"

lemma idle_step: "core st' = core st \<Longrightarrow> se_out st' = se_out st \<Longrightarrow> good_step X s adm ci E st st'"
  by (simp add: good_step_def effect.nothing sends_allowed_refl)

lemma client_step:
  assumes "core st1 = core st" "se_out st1 = se_out st" "\<forall>k str. m = OutEvent k str \<longrightarrow> allowed_to_send X str (se_conn st) s"
  shows "good_step X s adm ci E st (fst (send_client b m st1))"
proof -
  have "core (fst (send_client b m st1)) = core st" using assms(1) by (simp add: core_eq)
  then show ?thesis using sends_allowed_client [OF assms(2,3)] by (simp add: good_step_def effect.nothing)
qed

lemma notice_step:
  "core st1 = core st \<Longrightarrow> se_out st1 = se_out st \<Longrightarrow> good_step X s adm ci E st (fst (send_notice E' n st1))"
  unfolding send_notice_def by (rule client_step) simp_all

text \<open>A wrapped event carries the content that was validated.\<close>

lemma wrapped_event_valid:
  assumes "event_wrapper_from X ec = Done (Ok (WrappedEvent e))"
  shows "validate X e = Ok ()"
proof -
  from assms have v: "validate X (ec_event ec) = Ok ()" and u: "update_delegation X (build_index (ec_event ec)) = Done e"
    by (auto simp: event_wrapper_from_def split: if_splits result.splits)
  from v update_delegation_fields [OF u] show ?thesis
    by (simp add: validate_Ok_iff to_canonical_def canonical_value_def tags_to_canonical_def)
qed

lemma on_event_step:
  assumes "validate X e = Ok ()" "core st1 = core st" "se_out st1 = se_out st"
  shows "good_step X s adm ci E st (fst (on_event X s adm ci E e st1))"
proof (cases "admissible X s adm E (auth_pubkey (se_conn st)) e")
  case True
  let ?st = "fst (on_event X s adm ci E e st1)"
  have "core ?st = core (st\<lparr>se_submitted := se_submitted st @ [submission X ci (se_conn st) e]\<rparr>)" "se_out ?st = se_out st"
    using True assms by (auto simp: on_event_def admissible_def core_eq submission_def)
  then show ?thesis by (simp add: good_step_def effect.submitted [OF True] sends_allowed_refl)
next
  case False
  have "se_conn st1 = se_conn st" using assms by (simp add: core_eq)
  with assms False show ?thesis
    by (auto simp: on_event_def admissible_def idle_step notice_step split: decision.split option.split)
qed

lemma on_auth_step:
  assumes "core st1 = core st" "se_out st1 = se_out st"
  shows "good_step X s adm ci E st (fst (on_auth X s E evid e st1))"
proof (cases "nip42_auth (s_authorization s) \<and> relay_url (s_info s) \<noteq> None")
  case True
  then obtain relay where r: "relay_url (s_info s) = Some relay" "nip42_auth (s_authorization s)" by blast
  obtain c res where a: "authenticate X (sv_now E) e relay (se_conn st) = (c, res)" by force
  let ?st = "fst (on_auth X s E evid e st1)"
  have "se_conn st1 = se_conn st" using assms by (simp add: core_eq)
  with a r have "\<exists>n. ?st = fst (send_notice E n (st1\<lparr>se_conn := c\<rparr>))" by (cases res) (auto simp: on_auth_def)
  then obtain n where n: "?st = fst (send_notice E n (st1\<lparr>se_conn := c\<rparr>))" by blast
  have "core ?st = core (st\<lparr>se_conn := fst (authenticate X (sv_now E) e relay (se_conn st))\<rparr>)"
    using assms unfolding n core_eq by (simp add: a)
  moreover have "sends_allowed X s st ?st" using assms unfolding n by (simp add: sends_allowed_notice)
  ultimately show ?thesis by (simp add: good_step_def effect.authenticated [OF r])
next
  case False
  with assms show ?thesis by (auto simp: on_auth_def idle_step notice_step split: option.split)
qed

lemma on_subscribe_step:
  assumes "core st1 = core st" "se_out st1 = se_out st"
  shows "good_step X s adm ci E st (fst (on_subscribe s E sub st1))"
proof -
  have c: "se_conn st1 = se_conn st" using assms by (simp add: core_eq)
  obtain c' res where sb: "subscribe (se_conn st) sub = (c', res)" by force
  let ?known = "has_subscription (se_conn st) sub" and ?scraper = "limit_scrapers (s_limits s) \<and> is_scraper sub"
  consider "?known" | "\<not> ?known" "?scraper" | err where "\<not> ?known" "\<not> ?scraper" "res = Err err"
    | "\<not> ?known" "\<not> ?scraper" "res = Ok ()" by (cases res) auto
  then show ?thesis
  proof cases
    case 4
    let ?st = "fst (on_subscribe s E sub st1)"
    have "core ?st = core (subscribed c' sub st)" "se_out ?st = se_out st"
      using 4 c sb assms by (auto simp: on_subscribe_def Let_def subscribed_def core_eq)
    then show ?thesis using sb 4 by (auto simp: good_step_def effect.subscription sends_allowed_refl)
  next
    case 3
    then have "c' = se_conn st" using sb by (auto simp: subscribe_def Let_def split: if_splits)
    with c assms have "core (st1\<lparr>se_conn := c'\<rparr>) = core st" by (simp add: core_eq)
    with 3 c sb assms show ?thesis by (auto simp: on_subscribe_def notice_step)
  qed (use c assms in \<open>auto simp: on_subscribe_def idle_step client_step\<close>)
qed

lemma on_close_step:
  assumes "core st1 = core st" "se_out st1 = se_out st"
  shows "good_step X s adm ci E st (fst (on_close E cc st1))"
proof (cases "close_from cc")
  case (Ok c)
  with assms have "core (fst (on_close E cc st1)) = core (closed c st)" "se_out (fst (on_close E cc st1)) = se_out st"
    by (auto simp: on_close_def closed_def core_eq)
  then show ?thesis by (simp add: good_step_def effect.closing sends_allowed_refl)
qed (use assms in \<open>simp add: on_close_def notice_step\<close>)

lemma on_text_step:
  assumes "on_text X s adm ci E m st1 = Done p" "core st1 = core st" "se_out st1 = se_out st"
  shows "good_step X s adm ci E st (fst p)"
proof -
  obtain r where r: "convert_to_msg X m (max_event_bytes (s_limits s)) = Done r"
    using assms(1) by (auto simp: on_text_def split: exec.splits)
  show ?thesis
  proof (cases r)
    case (Ok msg)
    show ?thesis
    proof (cases msg)
      case (EventMsg ec)
      with Ok r assms(1) obtain w where w: "event_wrapper_from X ec = Done w" by (auto simp: on_text_def split: exec.splits)
      from r Ok EventMsg w assms wrapped_event_valid [of X ec] show ?thesis
        by (auto simp: on_text_def on_event_step on_auth_step notice_step split: result.splits event_wrapper.splits)
    qed (use r Ok assms in \<open>auto simp: on_text_def on_subscribe_step on_close_step\<close>)
  next
    case (Err err)
    with r assms show ?thesis
      by (cases err) (auto simp: on_text_def notice_step idle_step)
  qed
qed

lemma session_step_good:
  assumes "session_step X s adm ci E i st = Done p"
  shows "good_step X s adm ci E st (fst p)"
proof (cases i)
  case (Broadcast e)
  let ?ms = "live_messages X s e (se_conn st) (subscriptions (se_conn st))"
  from assms Broadcast obtain n where p: "fst p = st\<lparr>se_out := se_out st @ take n ?ms\<rparr>"
    by (auto simp: deliver_spec Let_def)
  have "sends_allowed X s st (fst p)"
    using set_take_subset [of n ?ms] unfolding p
    by (auto simp: sends_allowed_def live_messages_def split: option.splits if_splits)
  then show ?thesis unfolding p by (simp add: good_step_def effect.nothing core_eq)
next
  case (QueryIn q)
  with assms show ?thesis
    by (auto simp: on_query_result_def Let_def client_step idle_step core_eq)
next
  case (WsNext fr)
  have "core (st\<lparr>se_last_message := sv_instant E\<rparr>) = core st" by (simp add: core_eq)
  with WsNext assms show ?thesis
    by (cases fr) (auto simp: on_frame_def Let_def idle_step notice_step dest: on_text_step)
next
  case PingTick
  with assms show ?thesis by (auto simp: idle_step client_step split: if_splits)
qed (use assms in \<open>auto simp: idle_step notice_step\<close>)

lemma cleanup_sel [simp]:
  "se_conn (cleanup st) = se_conn st" "se_out (cleanup st) = se_out st" "se_submitted (cleanup st) = se_submitted st"
  "se_queries (cleanup st) = se_queries st" "se_cancelled (cleanup st) = se_cancelled st @ map snd (se_running st)"
  by (simp_all add: cleanup_def)

lemma session_new_sel [simp]:
  "se_running (session_new s ci u ch E) = []" "se_next (session_new s ci u ch E) = 0"
  "se_queries (session_new s ci u ch E) = []" "se_cancelled (session_new s ci u ch E) = []"
  "se_submitted (session_new s ci u ch E) = []"
  "se_conn (session_new s ci u ch E) =
     (if nip42_auth (s_authorization s) then generate_auth_challenge ch (conn_new (ci_remote_ip ci) u)
      else conn_new (ci_remote_ip ci) u)"
  by (simp_all add: session_new_def Let_def)

lemma session_new_out: "OutEvent k str \<notin> set (se_out (session_new s ci u ch E))"
  by (simp add: session_new_def Let_def send_notice_def send_client_def)

section \<open>Who the client is\<close>

text \<open>A key is proved in a session when one of its inputs came at a time at which an event signed
  by that key answered the session's challenge for this relay.\<close>

definition proved_key :: "externals \<Rightarrow> settings \<Rightarrow> string \<Rightarrow> session_env set \<Rightarrow> string \<Rightarrow> bool" where
  "proved_key X s ch Es pk \<longleftrightarrow> (\<exists>E\<in>Es. \<exists>a relay. relay_url (s_info s) = Some relay \<and> auth_ok X (sv_now E) a relay ch \<and> ev_pubkey a = pk)"

definition auth_inv :: "externals \<Rightarrow> settings \<Rightarrow> string \<Rightarrow> session_env set \<Rightarrow> client_conn \<Rightarrow> bool" where
  "auth_inv X s ch Es c \<longleftrightarrow>
     (case auth c of NoAuth \<Rightarrow> True | Challenge u \<Rightarrow> u = ch | AuthPubkey pk \<Rightarrow> proved_key X s ch Es pk)"

lemma subscribe_auth [simp]: "auth (fst (subscribe c sub)) = auth c"
  by (simp add: subscribe_def Let_def)

lemma subscribe_auth': "subscribe c sub = (c', r) \<Longrightarrow> auth c' = auth c"
  using subscribe_auth [of c sub] by simp

lemma auth_inv_authenticate:
  assumes "auth_inv X s ch Es c" "E \<in> Es" "relay_url (s_info s) = Some relay"
  shows "auth_inv X s ch Es (fst (authenticate X (sv_now E) e relay c))"
  using assms by (auto simp: auth_inv_def authenticate_result proved_key_def split: nip42_auth_state.splits)

lemma effect_auth:
  assumes "effect X s adm ci E st st'" "auth_inv X s ch Es (se_conn st)" "E \<in> Es"
  shows "auth_inv X s ch Es (se_conn st') \<and> (auth_pubkey (se_conn st) = None \<or> auth_pubkey (se_conn st') = auth_pubkey (se_conn st))"
  using assms
proof (cases rule: effect.cases)
  case (authenticated relay e)
  then have c: "se_conn st' = fst (authenticate X (sv_now E) e relay (se_conn st))" by (simp add: core_eq)
  show ?thesis unfolding c using auth_inv_authenticate [OF assms(2,3) authenticated(1)]
    by (auto simp: authenticate_result auth_pubkey_def split: nip42_auth_state.splits)
qed (auto simp: core_eq subscribed_def closed_def unsubscribe_def auth_inv_def auth_pubkey_def dest: subscribe_auth')

lemma allowed_to_send_mono:
  "allowed_to_send X str c s \<Longrightarrow> auth_pubkey c = None \<or> auth_pubkey c' = auth_pubkey c \<Longrightarrow> allowed_to_send X str c' s"
  by (auto simp: allowed_to_send_def split: if_splits option.splits list.splits)

text \<open>Everything that left the session is consistent with who the client turned out to be.\<close>

definition client_inv :: "externals \<Rightarrow> settings \<Rightarrow> policy list \<Rightarrow> string \<Rightarrow> session_env set \<Rightarrow> session \<Rightarrow> bool" where
  "client_inv X s adm ch Es st \<longleftrightarrow> auth_inv X s ch Es (se_conn st) \<and>
     (\<forall>k str. OutEvent k str \<in> set (se_out st) \<longrightarrow> allowed_to_send X str (se_conn st) s) \<and>
     (\<forall>sm\<in>set (se_submitted st). \<exists>E\<in>Es. \<exists>a. (a = None \<or> auth_pubkey (se_conn st) = a) \<and> admissible X s adm E a (sm_event sm))"

lemma client_inv_step:
  assumes "E \<in> Es" "client_inv X s adm ch Es st" "session_step X s adm ci E i st = Done (st', go)"
  shows "client_inv X s adm ch Es st'"
proof -
  have g: "effect X s adm ci E st st'" "sends_allowed X s st st'"
    using session_step_good [OF assms(3)] by (simp_all add: good_step_def)
  have au: "auth_inv X s ch Es (se_conn st')" and mono: "auth_pubkey (se_conn st) = None \<or> auth_pubkey (se_conn st') = auth_pubkey (se_conn st)"
    using effect_auth [OF g(1)] assms by (auto simp: client_inv_def)
  have "allowed_to_send X str (se_conn st') s" if "OutEvent k str \<in> set (se_out st')" for k str
    using that g(2) assms(2) allowed_to_send_mono [OF _ mono] unfolding sends_allowed_def client_inv_def by blast
  moreover have "\<exists>E\<in>Es. \<exists>a. (a = None \<or> auth_pubkey (se_conn st') = a) \<and> admissible X s adm E a (sm_event sm)"
    if sm: "sm \<in> set (se_submitted st')" for sm
  proof -
    from g(1) sm have "sm \<in> set (se_submitted st) \<or> admissible X s adm E (auth_pubkey (se_conn st)) (sm_event sm)"
      by (cases rule: effect.cases) (auto simp: core_eq submission_def subscribed_def closed_def)
    with assms(1,2) mono show ?thesis unfolding client_inv_def by metis
  qed
  ultimately show ?thesis using au by (simp add: client_inv_def)
qed

interpretation client: session_rule X s adm ci "\<lambda>E i. E \<in> Es" "client_inv X s adm ch Es" for X s adm ci Es ch
  by unfold_locales (rule client_inv_step)

lemma session_client_inv:
  assumes "nostr_server X s adm ci u ch E0 ins = Done (st, go)"
  shows "client_inv X s adm ch (fst ` set ins) st"
proof -
  have "client_inv X s adm ch (fst ` set ins) (session_new s ci u ch E0)"
    by (auto simp: client_inv_def session_new_out auth_inv_def generate_auth_challenge_def conn_new_def)
  note start = this
  show ?thesis
  proof (rule client.session_keeps [OF assms start])
    show "E \<in> fst ` set ins" if "(E, i) \<in> set ins" for E i using that by force
  qed (simp add: client_inv_def split: if_splits)
qed

section \<open>What becomes of queries\<close>

text \<open>Every query ever started is cancelled or still runs for its subscription.\<close>

definition stopped :: "string \<Rightarrow> (string \<times> nat) list \<Rightarrow> nat list" where
  "stopped k r = (case map_of r k of Some n \<Rightarrow> [n] | None \<Rightarrow> [])"

definition queries_inv ::
  "(string \<times> nat) list \<Rightarrow> nat \<Rightarrow> (nat \<times> subscription) list \<Rightarrow> nat list \<Rightarrow> (string \<times> subscription) list \<Rightarrow> bool" where
  "queries_inv r nx qs cs subs \<longleftrightarrow> distinct (map fst r) \<and> distinct (cs @ map snd r) \<and>
     (\<forall>n\<in>set (cs @ map snd r). n < nx) \<and>
     (\<forall>(n, sub)\<in>set qs. n \<in> set cs \<or> (sub_id sub, n) \<in> set r \<and> (sub_id sub, sub) \<in> set subs)"

lemma stopped_remove: "distinct (map fst r) \<Longrightarrow> mset (stopped k r) + mset (map snd (hm_remove k r)) = mset (map snd r)"
proof (induction r)
  case (Cons p r)
  obtain k' n where p: "p = (k', n)" by force
  show ?case
  proof (cases "k' = k")
    case True
    with Cons.prems p have "k \<notin> fst ` set r" by auto
    then have "hm_remove k r = r" by (auto simp: hm_remove_def filter_id_conv)
    with True p show ?thesis by (simp add: stopped_def hm_remove_def)
  qed (use Cons p in \<open>simp add: stopped_def hm_remove_def\<close>)
qed (simp add: stopped_def hm_remove_def)

lemma queries_inv_stop:
  assumes q: "queries_inv r nx qs cs subs" and keep: "\<And>k' sub. (k', sub) \<in> set subs \<Longrightarrow> k' \<noteq> k \<Longrightarrow> (k', sub) \<in> set subs'"
  shows "queries_inv (hm_remove k r) nx qs (cs @ stopped k r) subs'"
proof -
  have dr: "distinct (map fst r)" using q by (simp add: queries_inv_def)
  have ms: "mset ((cs @ stopped k r) @ map snd (hm_remove k r)) = mset (cs @ map snd r)"
    using stopped_remove [OF dr, of k] by simp
  then have d: "distinct ((cs @ stopped k r) @ map snd (hm_remove k r))"
    and e: "set ((cs @ stopped k r) @ map snd (hm_remove k r)) = set (cs @ map snd r)"
    using q unfolding queries_inv_def by (metis mset_eq_imp_distinct_iff, metis mset_eq_setD)
  have f: "n \<in> set (cs @ stopped k r) \<or> (sub_id sub, n) \<in> set (hm_remove k r) \<and> (sub_id sub, sub) \<in> set subs'"
    if m: "(n, sub) \<in> set qs" for n sub
  proof (cases "n \<in> set cs")
    case False
    with q m have h: "(sub_id sub, n) \<in> set r" "(sub_id sub, sub) \<in> set subs" by (auto simp: queries_inv_def)
    show ?thesis
    proof (cases "sub_id sub = k")
      case True
      with h dr have "map_of r k = Some n" by simp
      then show ?thesis by (simp add: stopped_def)
    qed (use h keep in \<open>auto simp: hm_remove_set\<close>)
  qed simp
  show ?thesis unfolding queries_inv_def
  proof (intro conjI d)
    show "\<forall>n\<in>set ((cs @ stopped k r) @ map snd (hm_remove k r)). n < nx"
      unfolding e using q by (simp add: queries_inv_def)
  qed (use dr f in \<open>auto simp: hm_remove_distinct\<close>)
qed

lemma queries_inv_start:
  assumes "queries_inv r nx qs cs subs" "k \<notin> fst ` set r" "sub_id sub = k" "(k, sub) \<in> set subs"
  shows "queries_inv ((k, nx) # r) (Suc nx) (qs @ (if b then [(nx, sub)] else [])) cs subs"
proof -
  have "nx \<notin> set (cs @ map snd r)" using assms(1) unfolding queries_inv_def by blast
  with assms show ?thesis by (auto simp: queries_inv_def less_Suc_eq)
qed

definition query_inv :: "session \<Rightarrow> bool" where
  "query_inv st \<longleftrightarrow> conn_inv (se_conn st) \<and>
     queries_inv (se_running st) (se_next st) (se_queries st) (se_cancelled st) (subscriptions (se_conn st))"

lemma query_inv_effect:
  assumes "effect X s adm ci E st st'" "query_inv st"
  shows "query_inv st'"
  using assms(1)
proof (cases rule: effect.cases)
  case (authenticated relay e)
  have "subscriptions (fst (authenticate X (sv_now E) e relay (se_conn st))) = subscriptions (se_conn st)"
    by (simp add: authenticate_result split: nip42_auth_state.split)
  with authenticated(3) assms(2) show ?thesis by (simp add: query_inv_def core_eq authenticate_inv)
next
  case (subscription sub c)
  let ?subs = "subscriptions c" and ?k = "sub_id sub"
  have c: "(?k, sub) \<in> set ?subs" "\<And>k' x. (k', x) \<in> set (subscriptions (se_conn st)) \<Longrightarrow> k' \<noteq> ?k \<Longrightarrow> (k', x) \<in> set ?subs"
    using subscription(1) by (auto simp: subscribe_def Let_def get_id_def hm_remove_set split: if_splits)
  have inv: "queries_inv (hm_remove ?k (se_running st)) (se_next st) (se_queries st) (se_cancelled st @ stopped ?k (se_running st)) ?subs"
    using assms(2) c(2) by (intro queries_inv_stop [where subs = "subscriptions (se_conn st)"]) (auto simp: query_inv_def)
  have "conn_inv c" using subscribe_inv [of "se_conn st" sub] assms(2) subscription(1) by (simp add: query_inv_def)
  moreover have "?k \<notin> fst ` set (hm_remove ?k (se_running st))" by (auto simp: hm_remove_set)
  ultimately show ?thesis using subscription(2) queries_inv_start [OF inv _ refl c(1)]
    by (simp add: query_inv_def core_eq subscribed_def stopped_def)
next
  case (closing c)
  have "queries_inv (hm_remove (close_id c) (se_running st)) (se_next st) (se_queries st)
      (se_cancelled st @ stopped (close_id c) (se_running st)) (subscriptions (unsubscribe (se_conn st) c))"
    using assms(2) by (intro queries_inv_stop [where subs = "subscriptions (se_conn st)"])
      (auto simp: query_inv_def unsubscribe_def hm_remove_set)
  with closing assms(2) show ?thesis by (simp add: query_inv_def core_eq closed_def stopped_def unsubscribe_inv)
qed (use assms(2) in \<open>simp_all add: query_inv_def core_eq\<close>)

interpretation queries: session_rule X s adm ci "\<lambda>E i. True" query_inv for X s adm ci
  by unfold_locales (use session_step_good query_inv_effect in \<open>fastforce simp: good_step_def\<close>)

section \<open>An example session\<close>

text \<open>A client authenticates, publishes a gift wrap, subscribes, receives its own gift wrap from the
  store and leaves.\<close>

definition demo_text :: "json \<Rightarrow> string" where
  "demo_text v = the (json_to_string std_ext v)"

definition demo_sess :: settings where
  "demo_sess = default_settings\<lparr>s_info := (s_info default_settings)\<lparr>relay_url := Some ''wss://r''\<rparr>,
     s_authorization := (s_authorization default_settings)\<lparr>nip42_auth := True, nip42_dms := True, require_auth_to_write := True\<rparr>,
     s_limits := (s_limits default_settings)\<lparr>max_event_bytes := None\<rparr>\<rparr>"

definition demo_ci :: client_info where
  "demo_ci = \<lparr>ci_remote_ip = ''::1'', ci_user_agent = None, ci_origin = None\<rparr>"

definition demo_sv :: session_env where
  "demo_sv = \<lparr>sv_now = 1200, sv_instant = 0, sv_send_ok = (\<lambda>_. True)\<rparr>"

definition demo_wrap :: event where
  "demo_wrap = sealed std_ext demo_event"

definition demo_filters :: subscription where
  "demo_filters = \<lparr>sub_id = ''some-id'', sub_filters = [empty_filter\<lparr>rf_kinds := Some [1984]\<rparr>]\<rparr>"

definition demo_ins :: "session_in list" where
  "demo_ins = [WsNext (WsText (demo_text (JArray [JString ''AUTH'', event_to_json demo_auth_event]))),
     WsNext (WsText (demo_text (JArray [JString ''EVENT'', event_to_json demo_wrap]))),
     WsNext (WsText (demo_text demo_req)),
     QueryIn \<lparr>qr_sub_id = ''some-id'', qr_event = demo_text (event_to_json demo_wrap)\<rparr>,
     WsNext WsClosed]"

lemma demo_text_parses [simp]: "std_json_from_str (demo_text v) = Some v"
  by (simp add: demo_text_def std_json_to_string_def std_json_from_str_def)

lemma demo_sess_sel [simp]:
  "relay_url (s_info demo_sess) = Some ''wss://r''" "nip42_auth (s_authorization demo_sess)"
  "nip42_dms (s_authorization demo_sess)" "max_event_bytes (s_limits demo_sess) = None"
  "\<not> limit_scrapers (s_limits demo_sess)" "reject_future_seconds (s_options demo_sess) = None"
  by (simp_all add: demo_sess_def default_settings_def)

lemma demo_convert:
  "convert_to_msg std_ext (demo_text (JArray [JString c, event_to_json e])) None =
     Done (Ok (EventMsg \<lparr>ec_cmd = c, ec_event = e\<lparr>ev_delegated_by := None, ev_tagidx := None\<rparr>\<rparr>))"
  "convert_to_msg std_ext (demo_text demo_req) None = Done (Ok (SubMsg demo_filters))"
proof -
  have "de_event_cmd demo_req = None" by (simp add: demo_req_def)
  then show "convert_to_msg std_ext (demo_text demo_req) None = Done (Ok (SubMsg demo_filters))"
    by (simp add: convert_to_msg_def de_nostr_message_def demo_req_parses demo_filters_def)
qed (simp add: convert_to_msg_def de_nostr_message_def de_event_to_json de_string_def)

definition demo_conn :: client_conn where
  "demo_conn = (conn_new ''::1'' ''u'')\<lparr>auth := AuthPubkey (replicate 64 CHR ''a'')\<rparr>"

lemma demo_auth_step:
  "authenticate std_ext 1200 demo_auth_event ''wss://r'' (generate_auth_challenge ''c1'' (conn_new ''::1'' ''u'')) = (demo_conn, Ok ())"
  by (simp add: authenticate_result generate_auth_challenge_def conn_new_def demo_conn_def demo_auth_ok)
    (simp add: demo_auth_event_def demo_event_def)

lemma demo_wrapped:
  "event_wrapper_from std_ext \<lparr>ec_cmd = ''EVENT'', ec_event = demo_wrap\<rparr> = Done (Ok (WrappedEvent (build_index demo_wrap)))"
proof -
  have "delegated_author std_ext (build_index demo_wrap) = Done None"
    by (simp add: delegated_author_def delegation_tag_def demo_wrap_def demo_event_def)
  then show ?thesis
    by (simp add: event_wrapper_from_def demo_wrap_def demo_event_valid update_delegation_def)
      (simp add: sealed_def demo_event_def build_index_def)
qed

lemma demo_admitted:
  assumes "ev_kind e = 1059" "ev_tags e = ev_tags demo_wrap"
  shows "admission_check std_ext (from_settings std_ext demo_sess) e (Some pk) = Allow"
proof -
  have "gift_wrap_shape e"
    using assms by (simp add: gift_wrap_shape_def demo_wrap_def demo_event_def is_lower_hex_iff list_all_iff ascii_defs)
  with assms show ?thesis
    by (simp add: admission_Allow_iff demo_sess_def default_settings_def allowed_kinds_def DEFAULT_ALLOWED_KINDS_def)
qed

lemma demo_own_wrap: "allowed_to_send std_ext (demo_text (event_to_json demo_wrap)) (demo_conn\<lparr>subscriptions := subs\<rparr>) demo_sess"
  by (simp add: allowed_to_send_def event_from_str_def de_event_to_json demo_wrap_def demo_event_def tag_values_by_name_def
      auth_pubkey_def demo_conn_def)

lemma demo_subscribe: "subscribe demo_conn demo_filters = (demo_conn\<lparr>subscriptions := [(''some-id'', demo_filters)]\<rparr>, Ok ())"
  by (simp add: subscribe_def Let_def get_id_def demo_filters_def MAX_SUBSCRIPTION_ID_LEN_def demo_conn_def conn_new_def)

lemma demo_plain [simp]:
  "demo_auth_event\<lparr>ev_delegated_by := None, ev_tagidx := None\<rparr> = demo_auth_event"
  "demo_wrap\<lparr>ev_delegated_by := None, ev_tagidx := None\<rparr> = demo_wrap"
  by (simp_all add: demo_auth_event_def demo_wrap_def sealed_def demo_event_def)

lemma demo_session:
  "\<exists>st. nostr_server std_ext demo_sess (from_settings std_ext demo_sess) demo_ci ''u'' ''c1'' demo_sv
       (map (Pair demo_sv) demo_ins) = Done (st, False) \<and>
     map sm_event (se_submitted st) = [build_index demo_wrap] \<and> se_queries st = [(0, demo_filters)] \<and>
     OutEvent ''some-id'' (demo_text (event_to_json demo_wrap)) \<in> set (se_out st)"
proof -
  let ?e = "build_index demo_wrap"
  have e: "ev_kind ?e = 1059" "ev_tags ?e = ev_tags demo_wrap" by (simp_all, simp add: demo_wrap_def demo_event_def)
  have nexp: "\<not> is_expired n ?e" for n
    by (simp add: is_expired_def expiration_def first_value_def demo_wrap_def demo_event_def)
  have pk: "auth_pubkey demo_conn = Some (replicate 64 CHR ''a'')" by (simp add: auth_pubkey_def demo_conn_def)
  have sub0: "\<not> has_subscription demo_conn demo_filters" "needs_historical_events demo_filters"
    by (simp_all add: has_subscription_def demo_conn_def conn_new_def needs_historical_events_def demo_filters_def empty_filter_def)
  have aw: "event_wrapper_from std_ext \<lparr>ec_cmd = ''AUTH'', ec_event = demo_auth_event\<rparr> = Done (Ok (WrappedAuth demo_auth_event))"
    by (simp add: event_wrapper_from_def)
  have ne: "demo_text v \<noteq> ''EOSE''" for v
    by (cases "to_nat v") (simp_all add: demo_text_def std_json_to_string_def)
  have ids: "sub_id demo_filters = ''some-id''" by (simp add: demo_filters_def)
  show ?thesis
    by (simp add: nostr_server_def demo_ins_def session_new_def Let_def demo_sv_def demo_ci_def on_frame_def on_text_def
        demo_convert aw demo_wrapped on_auth_def demo_auth_step send_notice_def send_client_def nexp on_event_def is_valid_timestamp_def
        demo_admitted [OF e] pk on_subscribe_def sub0 demo_subscribe ids on_query_result_def ne demo_own_wrap strip_quotes_def cleanup_def hm_remove_def)
qed

section \<open>Properties\<close>

text \<open>C4: With direct-message protection on, no session sends a direct message or gift wrap (kind 4, 44
  or 1059), neither from the store nor live, unless the client proved, by a signed answer
  to this session's challenge that names this relay, a key that is the message's author or its
  first recipient.\<close>

theorem private_events_only_to_parties:
  assumes "nostr_server X s adm ci u ch E0 ins = Done (st, go)" "nip42_dms (s_authorization s)"
    and "OutEvent k str \<in> set (se_out st)" "event_from_str X str = Some e" "ev_kind e \<in> {4, 44, 1059}"
  shows "\<exists>E i a relay. (E, i) \<in> set ins \<and> relay_url (s_info s) = Some relay \<and> auth_ok X (sv_now E) a relay ch \<and>
      (ev_pubkey a = ev_pubkey e \<or> (\<exists>more. tag_values_by_name e ''p'' = ev_pubkey a # more))"
proof -
  have inv: "auth_inv X s ch (fst ` set ins) (se_conn st)" "allowed_to_send X str (se_conn st) s"
    using session_client_inv [OF assms(1)] assms(3) by (auto simp: client_inv_def)
  from inv(2) assms(2,4,5) obtain pk recipient more where
    pk: "auth_pubkey (se_conn st) = Some pk" "tag_values_by_name e ''p'' = recipient # more" "recipient = pk \<or> ev_pubkey e = pk"
    by (auto simp: allowed_to_send_def split: option.splits list.splits)
  from pk(1) inv(1) have "proved_key X s ch (fst ` set ins) pk"
    by (auto simp: auth_inv_def auth_pubkey_def split: nip42_auth_state.splits)
  with pk show ?thesis by (auto simp: proved_key_def) blast+
qed

theorem private_events_only_to_parties_witness:
  "\<exists>E i a relay. (E, i) \<in> set (map (Pair demo_sv) demo_ins) \<and> relay_url (s_info demo_sess) = Some relay \<and>
     auth_ok std_ext (sv_now E) a relay ''c1'' \<and>
     (ev_pubkey a = ev_pubkey demo_wrap \<or> (\<exists>more. tag_values_by_name demo_wrap ''p'' = ev_pubkey a # more))"
proof -
  obtain st where st: "nostr_server std_ext demo_sess (from_settings std_ext demo_sess) demo_ci ''u'' ''c1'' demo_sv
       (map (Pair demo_sv) demo_ins) = Done (st, False)"
    "OutEvent ''some-id'' (demo_text (event_to_json demo_wrap)) \<in> set (se_out st)" using demo_session by blast
  show ?thesis
    by (rule private_events_only_to_parties [OF st(1) _ st(2)])
      (simp_all add: event_from_str_def de_event_to_json, simp add: demo_wrap_def demo_event_def)
qed





text \<open>C25: A session never leaks queries. When the connection has ended, every query it started has been
  told to stop; while it runs, a query that has not been told to stop belongs to a
  subscription the client still has, so at most 32 are running; and no query is told to stop
  twice.\<close>

theorem queries_end_with_connection:
  assumes "nostr_server X s adm ci u ch E0 ins = Done (st, go)"
  shows "(\<not> go \<longrightarrow> fst ` set (se_queries st) \<subseteq> set (se_cancelled st)) \<and>
      (\<forall>n sub. (n, sub) \<in> set (se_queries st) \<and> n \<notin> set (se_cancelled st) \<longrightarrow>
         (sub_id sub, sub) \<in> set (subscriptions (se_conn st))) \<and>
      card (fst ` set (se_queries st) - set (se_cancelled st)) \<le> 32 \<and> distinct (se_cancelled st)"
proof -
  have start: "query_inv (session_new s ci u ch E0)"
    by (simp add: query_inv_def queries_inv_def conn_inv_def conn_new_def generate_auth_challenge_def)
  obtain st1 where st1: "query_inv st1" "st = (if go then st1 else cleanup st1)"
    using queries.session_keeps [OF assms start] by blast
  then have sub: "(sub_id sb, sb) \<in> set (subscriptions (se_conn st)) \<and> (sub_id sb, n) \<in> set (se_running st1) \<and> n \<notin> set (se_cancelled st1)"
    if "(n, sb) \<in> set (se_queries st)" "n \<notin> set (se_cancelled st)" for n sb
    using that by (auto simp: query_inv_def queries_inv_def split: if_splits)
  show ?thesis
  proof (intro conjI impI)
    show "fst ` set (se_queries st) \<subseteq> set (se_cancelled st)" if "\<not> go"
    proof
      fix n
      assume "n \<in> fst ` set (se_queries st)"
      then obtain sb where "(n, sb) \<in> set (se_queries st1)" using st1(2) by (auto split: if_splits)
      then have "n \<in> set (se_cancelled st1) \<or> (sub_id sb, n) \<in> set (se_running st1)"
        using st1(1) by (auto simp: query_inv_def queries_inv_def)
      then show "n \<in> set (se_cancelled st)" using that st1(2) by force
    qed
    let ?keys = "fst ` set (subscriptions (se_conn st))"
    let ?L = "filter (\<lambda>p. fst p \<in> ?keys) (se_running st1)"
    have "fst ` set (se_queries st) - set (se_cancelled st) \<subseteq> snd ` set ?L" using sub by force
    then have "card (fst ` set (se_queries st) - set (se_cancelled st)) \<le> card (set ?L)"
      by (meson List.finite_set card_image_le card_mono finite_imageI order_trans)
    also have "\<dots> = card (fst ` set ?L)"
      using st1(1) by (intro card_image [symmetric]) (auto simp: query_inv_def queries_inv_def distinct_map inj_on_def)
    also have "\<dots> \<le> card ?keys" by (intro card_mono) auto
    also have "\<dots> \<le> length (subscriptions (se_conn st))"
      by (metis card_length length_map list.set_map)
    also have "\<dots> \<le> 32" using st1 by (auto simp: query_inv_def conn_inv_def)
    finally show "card (fst ` set (se_queries st) - set (se_cancelled st)) \<le> 32" .
    show "distinct (se_cancelled st)"
      using st1 by (auto simp: query_inv_def queries_inv_def)
  qed (use sub in blast)
qed

theorem queries_end_with_connection_witness:
  "\<exists>st. nostr_server std_ext demo_sess (from_settings std_ext demo_sess) demo_ci ''u'' ''c1'' demo_sv
       (map (Pair demo_sv) demo_ins) = Done (st, False) \<and> 0 \<in> set (se_cancelled st)"
proof -
  obtain st where st: "nostr_server std_ext demo_sess (from_settings std_ext demo_sess) demo_ci ''u'' ''c1'' demo_sv
       (map (Pair demo_sv) demo_ins) = Done (st, False)" "se_queries st = [(0, demo_filters)]"
    using demo_session by blast
  from queries_end_with_connection [OF st(1)] st show ?thesis by auto
qed

end
