(* ===== verification/Query_Properties.thy ===== *)
theory Query_Properties
  imports Sqlite_Query
begin

text \<open>
  What the generated SQL means. The text of a statement depends on the numbers of a filter and on
  how many strings it has, never on the strings: these are bound to the placeholders. A stored
  row answers a filter exactly when the live match would deliver its event, for filters
  whose ids and authors are complete.
\<close>

section \<open>Placeholders\<close>

lemma count_list_join:
  "count_list sep c = 0 \<Longrightarrow> count_list (join sep ws) c = sum_list (map (\<lambda>w. count_list w c) ws)"
  by (induction sep ws rule: join.induct) simp_all

lemma count_list_concat: "count_list (concat xs) c = sum_list (map (\<lambda>x. count_list x c) xs)"
  by (induction xs) simp_all

lemma digits_no_placeholder: "count_list (show_u64 w) CHR ''?'' = 0"
proof -
  have "CHR ''?'' \<notin> set (show_nat (unat w))"
    using show_nat_digits [of "unat w"] by (auto simp: list_all_iff is_ascii_digit_def)
  then show ?thesis by (simp add: show_u64_def count_list_0_iff)
qed

lemma show_list_no_placeholder: "count_list (show_list ks) CHR ''?'' = 0"
  by (simp add: show_list_def count_list_join digits_no_placeholder comp_def)

lemma butlast2_append: "butlast (butlast (xs @ [a, b])) = xs"
  by (simp add: butlast_append)

lemma repeat_vars_placeholders: "count_list (repeat_vars n) CHR ''?'' = n"
proof (cases n)
  case (Suc m)
  have "concat (replicate n ''?, '') = (concat (replicate m ''?, '') @ ''?'') @ [CHR '','', CHR '' '']"
    using Suc by (simp add: replicate_append_same [symmetric])
  then have "repeat_vars n = concat (replicate m ''?, '') @ ''?''"
    using Suc by (simp only: repeat_vars_def butlast2_append) simp
  then show ?thesis using Suc by (simp add: count_list_concat sum_list_replicate)
qed (simp add: repeat_vars_def)

lemma extra_no_placeholder: "sum_list (map (\<lambda>w. count_list w CHR ''?'') (extra_parts x)) = 0"
  by (auto simp: extra_parts_def opt_list_def digits_no_placeholder show_list_no_placeholder split: option.splits)

lemma tag_subquery_placeholders:
  "count_list (tag_subquery first x) CHR ''?'' = count_list first CHR ''?''"
  using extra_no_placeholder [of x]
  by (simp add: tag_subquery_def count_list_join del: join.simps)

lemma render_placeholders: "count_list (render c) CHR ''?'' = length (clause_params c)"
proof (cases c)
  case (CAuthors vs)
  then show ?thesis by (simp add: count_list_join comp_def sum_list_triv)
next
  case (CIds vs)
  then show ?thesis by (simp add: count_list_join comp_def sum_list_triv)
qed (simp_all add: tag_subquery_placeholders repeat_vars_placeholders digits_no_placeholder show_list_no_placeholder)

lemma override_index_no_placeholder: "override_index f = Some i \<Longrightarrow> count_list i CHR ''?'' = 0"
  by (auto simp: override_index_def split: if_splits)

lemma query_placeholders:
  "count_list (fst (query_from_filter X now f)) CHR ''?'' = length (fst (snd (query_from_filter X now f)))"
  using override_index_no_placeholder [of f]
  by (auto simp: query_from_filter_def Let_def count_list_join render_placeholders length_concat comp_def
      digits_no_placeholder simp del: join.simps split: option.splits)

section \<open>Shape of a filter\<close>

definition tag_shape :: "tag_map option \<Rightarrow> (bool \<times> nat) list option" where
  "tag_shape ts = map_option (\<lambda>m. map (\<lambda>(k, v). (case v of And _ \<Rightarrow> True | Or _ \<Rightarrow> False, fcard (operand_set v))) (sort_key fst m)) ts"

text \<open>Everything of a filter but its strings: of those only how many there are.\<close>

definition filter_shape where
  "filter_shape f = (map_option length (rf_ids f), rf_kinds f, rf_since f, rf_until f, map_option length (rf_authors f),
     rf_limit f, tag_shape (rf_tags f), rf_force_no_match f)"

lemma same_None: "map_option f x = map_option g y \<Longrightarrow> x = None \<longleftrightarrow> y = None"
  by (cases x; cases y) auto

lemma shape_override: "filter_shape f = filter_shape g \<Longrightarrow> override_index f = override_index g"
proof -
  assume h: "filter_shape f = filter_shape g"
  then have "map_option length (rf_ids f) = map_option length (rf_ids g)"
    "map_option length (rf_authors f) = map_option length (rf_authors g)" "tag_shape (rf_tags f) = tag_shape (rf_tags g)"
    by (simp_all add: filter_shape_def)
  then have "rf_ids f = None \<longleftrightarrow> rf_ids g = None" "rf_authors f = None \<longleftrightarrow> rf_authors g = None"
    "rf_tags f = None \<longleftrightarrow> rf_tags g = None"
    by (auto simp: tag_shape_def dest: same_None)
  with h show ?thesis by (simp add: override_index_def filter_shape_def)
qed

lemma list_clause_text:
  assumes "map_option length vs = map_option length ws" "\<And>us us'. length us = length us' \<Longrightarrow> render (mk us) = render (mk us')"
  shows "map render (list_clause mk X vs) = map render (list_clause mk Y ws)"
proof (cases vs)
  case (Some v)
  with assms(1) obtain w where w: "ws = Some w" "length v = length w" by (cases ws) auto
  then have "render (mk (map (hex_decode X) v)) = render (mk (map (hex_decode Y) w))" by (intro assms(2)) simp
  moreover have "v = [] \<longleftrightarrow> w = []" using w(2) by auto
  ultimately show ?thesis using Some w(1) by (simp add: list_clause_def)
qed (use assms(1) in \<open>simp add: list_clause_def\<close>)

lemma map_const_length: "length us = length us' \<Longrightarrow> map (\<lambda>_. c) us = map (\<lambda>_. c) us'"
  by (simp add: map_replicate_const)

lemma tag_clauses_text:
  assumes "filter_extra f = filter_extra g" "fcard (operand_set v) = fcard (operand_set w)"
    "(case v of And _ \<Rightarrow> True | Or _ \<Rightarrow> False) = (case w of And _ \<Rightarrow> True | Or _ \<Rightarrow> False)"
  shows "map render (tag_clauses f (k, v)) = map render (tag_clauses g (l, w))"
proof -
  have e: "operand_set v = {||} \<longleftrightarrow> operand_set w = {||}" using assms(2) by (metis fcard_0_eq)
  have len: "length (sorted_list_of_fset a) = fcard a" for a :: "string fset"
    by (simp add: sorted_list_of_fset.rep_eq fcard.rep_eq)
  show ?thesis
    using assms e by (cases v; cases w) (auto simp: tag_clauses_def len comp_def intro!: map_const_length)
qed

lemma tags_text:
  assumes "filter_extra f = filter_extra g" "tag_shape (Some m) = tag_shape (Some m')"
  shows "map render (concat (map (tag_clauses f) (sort_key fst m))) = map render (concat (map (tag_clauses g) (sort_key fst m')))"
proof -
  have "map (\<lambda>(k, v). (case v of And _ \<Rightarrow> True | Or _ \<Rightarrow> False, fcard (operand_set v))) xs =
      map (\<lambda>(k, v). (case v of And _ \<Rightarrow> True | Or _ \<Rightarrow> False, fcard (operand_set v))) ys \<Longrightarrow>
    map render (concat (map (tag_clauses f) xs)) = map render (concat (map (tag_clauses g) ys))" for xs ys
  proof (induction xs arbitrary: ys)
    case (Cons x xs)
    then obtain y ys' where y: "ys = y # ys'" by (cases ys) auto
    obtain k v l w where p: "x = (k, v)" "y = (l, w)" by (metis prod.exhaust)
    have "map render (tag_clauses f x) = map render (tag_clauses g y)"
      unfolding p using Cons.prems y p by (intro tag_clauses_text [OF assms(1)]) auto
    moreover have "map render (concat (map (tag_clauses f) xs)) = map render (concat (map (tag_clauses g) ys'))"
      using Cons y by simp
    ultimately show ?case using y by (simp only: list.map concat.simps map_append)
  qed simp
  with assms(2) show ?thesis by (simp add: tag_shape_def)
qed

lemma shape_text:
  assumes "filter_shape f = filter_shape g"
  shows "map render (filter_clauses X now f) = map render (filter_clauses Y now' g)"
proof -
  have e: "filter_extra f = filter_extra g" using assms by (simp add: filter_shape_def filter_extra_def)
  have t: "tag_shape (rf_tags f) = tag_shape (rf_tags g)" using assms by (simp add: filter_shape_def)
  have "map render (case rf_tags f of None \<Rightarrow> [] | Some m \<Rightarrow> concat (map (tag_clauses f) (sort_key fst m))) =
    map render (case rf_tags g of None \<Rightarrow> [] | Some m \<Rightarrow> concat (map (tag_clauses g) (sort_key fst m)))"
    using t tags_text [OF e] by (cases "rf_tags f"; cases "rf_tags g") (auto simp: tag_shape_def)
  moreover have "map render (list_clause CAuthors X (rf_authors f)) = map render (list_clause CAuthors Y (rf_authors g))"
    "map render (list_clause CIds X (rf_ids f)) = map render (list_clause CIds Y (rf_ids g))"
    using assms by (auto simp: filter_shape_def intro!: list_clause_text map_const_length arg_cong [where f = "join _"])
  ultimately show ?thesis
    using assms by (simp add: filter_clauses_def filter_shape_def)
qed

section \<open>Properties of the text\<close>

text \<open>C22: No string of a client reaches the text of an SQL statement. Two filters that differ
  only in their strings (ids, authors, tag names and values) give the same statement and the
  same forced index, whatever they contain; and every statement has exactly as many
  placeholders as it has parameters, so every string is bound to one.\<close>

theorem query_text_free_of_strings:
  assumes "filter_shape f = filter_shape g"
  shows "fst (query_from_filter X now f) = fst (query_from_filter Y now' g) \<and>
    snd (snd (query_from_filter X now f)) = snd (snd (query_from_filter Y now' g)) \<and>
    count_list (fst (query_from_filter X now f)) CHR ''?'' = length (fst (snd (query_from_filter X now f)))"
proof -
  have "rf_limit f = rf_limit g" "rf_force_no_match f = rf_force_no_match g"
    using assms by (simp_all add: filter_shape_def)
  with shape_text [OF assms, of X now Y now'] shape_override [OF assms] query_placeholders [of X now f]
  show ?thesis by (auto simp: query_from_filter_def Let_def)
qed

definition demo_filter :: "string \<Rightarrow> string \<Rightarrow> string \<Rightarrow> req_filter" where
  "demo_filter a k v = empty_filter\<lparr>rf_authors := Some [a], rf_tags := Some [(k, Or {|v|})]\<rparr>"

theorem query_text_free_of_strings_witness:
  "fst (query_from_filter std_ext 7 (demo_filter ''ab'' ''p'' ''x'')) =
   fst (query_from_filter std_ext 7 (demo_filter ''1=1'' ''t'' ''x); DROP TABLE event''))"
proof -
  have "filter_shape (demo_filter a k v) = filter_shape (demo_filter b l w)" for a k v b l w
    by (simp add: filter_shape_def demo_filter_def empty_filter_def tag_shape_def fcard.rep_eq)
  from query_text_free_of_strings [OF this] show ?thesis by blast
qed

section \<open>Rows and the events they store\<close>

definition tag_rows :: "nat \<Rightarrow> event \<Rightarrow> tag_row set" where
  "tag_rows i e = (\<lambda>t. \<lparr>tr_event_id = i, tr_name = t ! 0, tr_value = t ! 1, tr_created_at = ev_created_at e,
     tr_kind = ev_kind e\<rparr>) ` set (searchable_tags e)"

definition stores :: "externals \<Rightarrow> event_db \<Rightarrow> event_row \<Rightarrow> event \<Rightarrow> bool" where
  "stores X db r e \<longleftrightarrow> hex_decode X (ev_id e) = Some (er_hash r) \<and> hex_decode X (ev_pubkey e) = Some (er_author r) \<and>
     er_kind r = ev_kind e \<and> er_created_at r = ev_created_at e \<and> er_expires_at r = expiration e \<and>
     event_to_string X e = Some (er_content r) \<and> {t \<in> set (db_tags db). tr_event_id t = er_id r} = tag_rows (er_id r) e"

definition faithful :: "(event \<Rightarrow> bool) \<Rightarrow> externals \<Rightarrow> event_db \<Rightarrow> bool" where
  "faithful P X db \<longleftrightarrow> (\<forall>r\<in>set (db_events db). \<exists>e. P e \<and> stores X db r e)"

lemma stores_hidden: "stores X db (r\<lparr>er_hidden := b\<rparr>) e = stores X db r e"
  by (simp add: stores_def)

lemma faithful_cong:
  "db_events d = db_events db \<Longrightarrow> db_tags d = db_tags db \<Longrightarrow> faithful P X d = faithful P X db"
  by (simp add: faithful_def stores_def)

lemma faithful_delete:
  assumes "faithful P X db" "ev_inv db"
  shows "faithful P X (delete_events Q db)"
proof -
  have "{t \<in> set (db_tags (delete_events Q db)). tr_event_id t = er_id r} = {t \<in> set (db_tags db). tr_event_id t = er_id r}"
    if "r \<in> set (db_events db)" "\<not> Q r" for r
    using that assms(2) by (auto simp: delete_events_def Let_def ev_inv_def distinct_map dest: inj_onD)
  with assms(1) show ?thesis by (fastforce simp: faithful_def stores_def)
qed

lemma faithful_hide:
  assumes "faithful P X db"
  shows "faithful P X (hide_events Q db)"
proof -
  have t: "db_tags (hide_events Q db) = db_tags db" by simp
  have "\<exists>e. P e \<and> stores X (hide_events Q db) r e" if "r \<in> set (db_events (hide_events Q db))" for r
  proof -
    from hide_events_mem [OF that] obtain r0 where r0: "r0 \<in> set (db_events db)"
      "r = (if Q r0 then r0\<lparr>er_hidden := True\<rparr> else r0)" by blast
    from assms r0(1) obtain e where e: "P e" "stores X db r0 e" by (auto simp: faithful_def)
    have "stores X (hide_events Q db) r0 e" using e(2) unfolding stores_def t .
    then have "stores X (hide_events Q db) r e" using r0(2) by (simp add: stores_hidden)
    with e(1) show ?thesis by blast
  qed
  then show ?thesis by (simp add: faithful_def)
qed

lemma faithful_insert:
  assumes "faithful P X db" "ev_inv db" "P e" "hex_decode X (ev_id e) = Some h" "hex_decode X (ev_pubkey e) = Some a"
    "event_to_string X e = Some c"
  shows "faithful P X (insert_event X now e h a c db)"
proof -
  let ?i = "next_id (map er_id (db_events db))"
  have old: "tr_event_id t \<noteq> ?i" if "t \<in> set (db_tags db)" for t
    using that assms(2) fresh_event_id' [of db] unfolding ev_inv_def by (metis image_eqI subsetD)
  have tags: "set (db_tags (insert_event X now e h a c db)) = set (db_tags db) \<union> tag_rows ?i e"
    by (simp add: insert_event_tags tag_rows_def)
  have ids: "tr_event_id t = ?i" if "t \<in> tag_rows ?i e" for t using that by (auto simp: tag_rows_def)
  have "{t \<in> set (db_tags (insert_event X now e h a c db)). tr_event_id t = ?i} = tag_rows ?i e"
    unfolding tags using old ids by blast
  then have new: "stores X (insert_event X now e h a c db) (new_row X now e h a c db) e"
    using assms(4-6) by (simp add: stores_def)
  have keep: "{t \<in> set (db_tags (insert_event X now e h a c db)). tr_event_id t = er_id r} =
      {t \<in> set (db_tags db). tr_event_id t = er_id r}" if "r \<in> set (db_events db)" for r
    unfolding tags using ids fresh_event_id [OF that] by fastforce
  have "\<exists>e'. P e' \<and> stores X (insert_event X now e h a c db) r e'" if "r \<in> set (db_events db)" for r
    using assms(1) that keep [OF that] unfolding faithful_def stores_def by simp
  with new assms(3) show ?thesis unfolding faithful_def insert_event_events by auto
qed

lemma faithful_persist:
  assumes "faithful P X db" "ev_inv db" "P e"
  shows "faithful P X (fst (persist_event X ord now fault e db))"
proof (cases "persist_event X ord now fault e db")
  case (Pair db' x)
  then show ?thesis
  proof (cases rule: persist_cases)
    case (stored h a c n)
    let ?d1 = "insert_event X now e h a c db"
    have 1: "faithful P X ?d1" "ev_inv ?d1"
      using faithful_insert [OF assms stored(1-3)] insert_event_inv [OF assms(2) stored(4)] by blast+
    then have 2: "faithful P X (drop_replaced ord e a ?d1)" "ev_inv (drop_replaced ord e a ?d1)"
      by (simp_all add: drop_replaced_def Let_def faithful_delete delete_events_inv)
    then have 3: "faithful P X (drop_param_replaced ord e a (drop_replaced ord e a ?d1))"
      by (simp add: drop_param_replaced_def Let_def faithful_delete split: option.splits)
    then have "faithful P X (fst (apply_deletions X e a i (drop_param_replaced ord e a (drop_replaced ord e a ?d1))))" for i
      by (simp add: apply_deletions_def hide_targets_def faithful_hide)
    with stored(8) Pair show ?thesis by (auto simp: store_event_def Let_def) (metis fst_conv)
  qed (use assms Pair in simp)
qed

lemma faithful_attempts:
  "(\<And>f d. ev_inv d \<Longrightarrow> faithful P X d \<Longrightarrow> ev_inv (fst (att f d)) \<and> faithful P X (fst (att f d))) \<Longrightarrow>
     ev_inv db \<Longrightarrow> faithful P X db \<Longrightarrow> faithful P X (fst (write_attempts att n fault db))"
proof (induction n arbitrary: fault db)
  case (Suc n)
  obtain db' r where a: "att (fault 0) db = (db', r)" by force
  with Suc.prems have "ev_inv db'" "faithful P X db'" by (metis fst_conv)+
  with Suc.IH [of db'] Suc.prems a show ?case by simp
qed simp

fun writes_only :: "(event \<Rightarrow> bool) \<Rightarrow> ev_op \<Rightarrow> bool" where
  "writes_only P (WriteEvent now pf f e) = P e"
| "writes_only P _ = True"

lemma faithful_step:
  assumes "faithful P X db" "ev_inv db" "writes_only P p"
  shows "faithful P X (ev_step X ord p db)"
proof (cases p)
  case (WriteEvent now pf f e)
  then have "P e" using assms(3) by simp
  then have "faithful P X (fst (write_attempts (\<lambda>f. persist_event X ord now f e) 9 f db))"
    using assms(1,2) by (intro faithful_attempts) (auto intro: persist_inv faithful_persist)
  with WriteEvent assms(1) show ?thesis by (simp add: write_event_def split: option.splits)
next
  case (DeleteExpired t)
  with assms show ?thesis by (simp add: delete_expired_def Let_def faithful_delete)
qed (use assms in \<open>auto simp: create_verification_record_def update_verification_timestamp_def fail_verification_def
    on_verif_def delete_verification_def faithful_def stores_def split: option.splits\<close>)

lemma faithful_run:
  "faithful P X db \<Longrightarrow> ev_inv db \<Longrightarrow> \<forall>p\<in>set ps. writes_only P p \<Longrightarrow> faithful P X (fold (ev_step X ord) ps db)"
  by (induction ps arbitrary: db) (auto simp: ev_step_inv faithful_step)

section \<open>Selection and live matching\<close>

text \<open>Events and filters in the normal form that both ways of matching treat alike.\<close>

definition full_hex :: "string \<Rightarrow> bool" where
  "full_hex s \<longleftrightarrow> is_lower_hex s \<and> length s = 64"

definition indexed :: "event \<Rightarrow> bool" where
  "indexed e \<longleftrightarrow> build_index (e\<lparr>ev_tagidx := None\<rparr>) = e"

definition plain_event :: "event \<Rightarrow> bool" where
  "plain_event e \<longleftrightarrow> full_hex (ev_id e) \<and> full_hex (ev_pubkey e) \<and> ev_delegated_by e = None \<and> indexed e"

definition exact_filter :: "req_filter \<Rightarrow> bool" where
  "exact_filter f \<longleftrightarrow> list_all full_hex (case rf_ids f of None \<Rightarrow> [] | Some v \<Rightarrow> v) \<and>
     list_all full_hex (case rf_authors f of None \<Rightarrow> [] | Some v \<Rightarrow> v) \<and>
     list_all (\<lambda>(k, v). operand_set v \<noteq> {||}) (case rf_tags f of None \<Rightarrow> [] | Some m \<Rightarrow> m)"

definition alive :: "u64 \<Rightarrow> event_row \<Rightarrow> bool" where
  "alive now r = (case er_expires_at r of None \<Rightarrow> True | Some x \<Rightarrow> now < x)"

lemma prefix_match_full: "list_all full_hex vs \<Longrightarrow> full_hex s \<Longrightarrow> prefix_match vs s \<longleftrightarrow> s \<in> set vs"
  by (auto simp: prefix_match_iff full_hex_def list_all_iff starts_with_def)

lemma decoded_mem:
  assumes "hex_laws X" "list_all full_hex vs" "full_hex s" "hex_decode X s = Some b"
  shows "Some b \<in> hex_decode X ` set vs \<longleftrightarrow> s \<in> set vs"
proof
  assume "Some b \<in> hex_decode X ` set vs"
  then obtain v where v: "v \<in> set vs" "hex_decode X v = Some b" by auto
  then have "full_hex v" using assms(2) by (simp add: list_all_iff)
  then have "s = v"
    using hex_decode_lower_inj [OF assms(1) _ _ assms(4), of v] assms(3) v(2) by (simp add: full_hex_def)
  with v show "s \<in> set vs" by simp
qed (use assms(4) in force)

lemma list_clause_holds:
  assumes "hex_laws X" "list_all full_hex (case vs of None \<Rightarrow> [] | Some v \<Rightarrow> v)" "full_hex s" "hex_decode X s = Some b"
    "\<And>us. holds db r (mk us) \<longleftrightarrow> Some b \<in> set us"
  shows "list_all (holds db r) (list_clause mk X vs) \<longleftrightarrow> (case vs of None \<Rightarrow> True | Some v \<Rightarrow> prefix_match v s)"
proof (cases vs)
  case (Some v)
  with assms(2) have "list_all full_hex v" by simp
  with decoded_mem [OF assms(1) this assms(3,4)] prefix_match_full [OF this assms(3)] Some
  show ?thesis by (simp add: list_clause_def assms(5))
qed (simp add: list_clause_def)

lemma single_char_name: "single_char_tagname s = Some c \<Longrightarrow> s = c"
proof -
  assume "single_char_tagname s = Some c"
  then have "chars s = [c]" by (auto simp: single_char_tagname_def split: list.splits if_splits)
  then have "concat (chars s) = c" by simp
  then show ?thesis by simp
qed

definition extra_ok :: "tag_extra \<Rightarrow> event \<Rightarrow> bool" where
  "extra_ok x e \<longleftrightarrow> (case te_kinds x of None \<Rightarrow> True | Some ks \<Rightarrow> ev_kind e \<in> set ks) \<and>
     (case te_since x of None \<Rightarrow> True | Some s \<Rightarrow> s \<le> ev_created_at e) \<and>
     (case te_until x of None \<Rightarrow> True | Some u \<Rightarrow> ev_created_at e \<le> u)"

lemma tag_rows_extra: "t \<in> tag_rows i e \<Longrightarrow> extra_holds x t = extra_ok x e"
  by (auto simp: tag_rows_def extra_holds_def extra_ok_def cong: option.case_cong)

lemma tag_row_values:
  assumes "stores X db r e"
  shows "(\<exists>t\<in>set (db_tags db). tr_event_id t = er_id r \<and> tr_name t = k \<and> tr_value t = v \<and> extra_holds x t) \<longleftrightarrow>
    v \<in> tag_values e k \<and> extra_ok x e"
  (is "?L \<longleftrightarrow> ?R")
proof -
  have "?L \<longleftrightarrow> (\<exists>t\<in>tag_rows (er_id r) e. tr_name t = k \<and> tr_value t = v \<and> extra_holds x t)"
    using assms unfolding stores_def by blast
  also have "\<dots> \<longleftrightarrow> (\<exists>t\<in>tag_rows (er_id r) e. tr_name t = k \<and> tr_value t = v) \<and> extra_ok x e"
    using tag_rows_extra by blast
  also have "(\<exists>t\<in>tag_rows (er_id r) e. tr_name t = k \<and> tr_value t = v) \<longleftrightarrow> v \<in> tag_values e k"
  proof -
    have "hd t = t ! 0" if "1 < length t" for t :: "string list" using that by (cases t) auto
    then show ?thesis
      unfolding searchable_tags_def tag_values_def tag_rows_def by (force dest: single_char_name)
  qed
  finally show ?thesis .
qed

lemma tag_clauses_hold:
  assumes "stores X db r e" "indexed e" "operand_set v \<noteq> {||}"
  shows "list_all (holds db r) (tag_clauses f (k, v)) \<longleftrightarrow> generic_tag_val_intersect e k v \<and> extra_ok (filter_extra f) e"
proof -
  have e: "e = build_index (e\<lparr>ev_tagidx := None\<rparr>)" using assms(2) by (simp add: indexed_def)
  have tv: "tag_values (e\<lparr>ev_tagidx := None\<rparr>) k = tag_values e k" by (simp add: tag_values_def)
  show ?thesis
  proof (cases v)
    case (Or a)
    have "list_all (holds db r) (tag_clauses f (k, v)) \<longleftrightarrow> (\<exists>x\<in>fset a. \<exists>t\<in>set (db_tags db). tr_event_id t = er_id r \<and>
        tr_name t = k \<and> tr_value t = x \<and> extra_holds (filter_extra f) t)"
      using Or assms(3) by (auto simp: tag_clauses_def list_ex_iff)
    also have "\<dots> \<longleftrightarrow> tag_values e k \<inter> fset a \<noteq> {} \<and> extra_ok (filter_extra f) e"
      unfolding tag_row_values [OF assms(1)] by blast
    also have "tag_values e k \<inter> fset a \<noteq> {} \<longleftrightarrow> generic_tag_val_intersect e k v"
      using intersect_build_index(1) [of "e\<lparr>ev_tagidx := None\<rparr>" k a] e tv Or by simp
    finally show ?thesis .
  next
    case (And a)
    then have ne: "fset a \<noteq> {}" using assms(3) by auto
    have "list_all (holds db r) (tag_clauses f (k, v)) \<longleftrightarrow> (\<forall>x\<in>fset a. \<exists>t\<in>set (db_tags db). tr_event_id t = er_id r \<and>
        tr_name t = k \<and> tr_value t = x \<and> extra_holds (filter_extra f) t)"
      using And assms(3) by (auto simp: tag_clauses_def list_ex_iff list_all_iff)
    also have "\<dots> \<longleftrightarrow> (tag_values e k \<noteq> {} \<and> fset a \<subseteq> tag_values e k) \<and> extra_ok (filter_extra f) e"
      unfolding tag_row_values [OF assms(1)] using ne by blast
    also have "(tag_values e k \<noteq> {} \<and> fset a \<subseteq> tag_values e k) \<longleftrightarrow> generic_tag_val_intersect e k v"
      using intersect_build_index(2) [of "e\<lparr>ev_tagidx := None\<rparr>" k a] e tv And by simp
    finally show ?thesis .
  qed
qed

lemma all_tags_hold:
  assumes "stores X db r e" "indexed e" "list_all (\<lambda>(k, v). operand_set v \<noteq> {||}) m"
  shows "list_all (holds db r) (concat (map (tag_clauses f) (sort_key fst m))) \<longleftrightarrow>
    tags_all_match m e \<and> (m = [] \<or> extra_ok (filter_extra f) e)"
proof -
  have "list_all (holds db r) (concat (map (tag_clauses f) (sort_key fst m))) \<longleftrightarrow>
      (\<forall>(k, v)\<in>set m. list_all (holds db r) (tag_clauses f (k, v)))"
    by (auto simp: list_all_iff)
  also have "\<dots> \<longleftrightarrow> (\<forall>(k, v)\<in>set m. generic_tag_val_intersect e k v \<and> extra_ok (filter_extra f) e)"
    using assms(3) tag_clauses_hold [OF assms(1,2)] by (fastforce simp: list_all_iff)
  also have "\<dots> \<longleftrightarrow> tags_all_match m e \<and> (m = [] \<or> extra_ok (filter_extra f) e)"
    by (cases m) (auto simp: tags_all_match_iff)
  finally show ?thesis .
qed

lemma selects_iff_interested:
  assumes "hex_laws X" "stores X db r e" "plain_event e" "exact_filter f"
  shows "selects X now f db r \<longleftrightarrow> \<not> er_hidden r \<and> alive now r \<and> filter_interested f e"
proof -
  have st: "hex_decode X (ev_id e) = Some (er_hash r)" "hex_decode X (ev_pubkey e) = Some (er_author r)"
    "er_kind r = ev_kind e" "er_created_at r = ev_created_at e" using assms(2) by (simp_all add: stores_def)
  have pl: "full_hex (ev_id e)" "full_hex (ev_pubkey e)" "ev_delegated_by e = None" "indexed e"
    using assms(3) by (simp_all add: plain_event_def)
  have A: "list_all (holds db r) (list_clause CAuthors X (rf_authors f)) \<longleftrightarrow> authors_match f e"
    using assms(4) unfolding authors_match_def
    by (intro list_clause_holds [OF assms(1) _ pl(2) st(2)]) (simp_all add: exact_filter_def)
  have I: "list_all (holds db r) (list_clause CIds X (rf_ids f)) \<longleftrightarrow> ids_match f e"
    using assms(4) unfolding ids_match_def
    by (intro list_clause_holds [OF assms(1) _ pl(1) st(1)]) (simp_all add: exact_filter_def)
  have T: "list_all (holds db r) (case rf_tags f of None \<Rightarrow> [] | Some m \<Rightarrow> concat (map (tag_clauses f) (sort_key fst m))) \<and> Q \<longleftrightarrow>
      tag_match f e \<and> Q" if "Q \<Longrightarrow> extra_ok (filter_extra f) e" for Q
    using assms(4) all_tags_hold [OF assms(2) pl(4), of _ f] that
    by (cases "rf_tags f") (auto simp: tag_match_def exact_filter_def)
  have D: "\<not> delegated_authors_match f e" using pl(3) by (simp add: delegated_authors_match_def)
  have "list_all (holds db r) (opt_list CKinds (rf_kinds f)) \<longleftrightarrow> kind_match f (ev_kind e)"
    "list_all (holds db r) (opt_list CSince (rf_since f)) \<longleftrightarrow> (case rf_since f of None \<Rightarrow> True | Some s \<Rightarrow> s \<le> ev_created_at e)"
    "list_all (holds db r) (opt_list CUntil (rf_until f)) \<longleftrightarrow> (case rf_until f of None \<Rightarrow> True | Some u \<Rightarrow> ev_created_at e \<le> u)"
    using st by (auto simp: opt_list_def kind_match_def split: option.splits)
  moreover have "extra_ok (filter_extra f) e \<longleftrightarrow> kind_match f (ev_kind e) \<and>
      (case rf_since f of None \<Rightarrow> True | Some s \<Rightarrow> s \<le> ev_created_at e) \<and> (case rf_until f of None \<Rightarrow> True | Some u \<Rightarrow> ev_created_at e \<le> u)"
    by (simp add: extra_ok_def filter_extra_def kind_match_def)
  ultimately show ?thesis
    unfolding selects_def filter_clauses_def filter_interested_def alive_def list_all_append
    using A I D T [of "extra_ok (filter_extra f) e"] by auto
qed

section \<open>Results of a query\<close>

text \<open>The selected rows, newest first.\<close>

lemma find_by_id: "distinct (map er_id rows) \<Longrightarrow> r \<in> set rows \<Longrightarrow> List.find (\<lambda>x. er_id x = er_id r) rows = Some r"
  by (induction rows) auto

lemma content_of_rows:
  assumes "distinct (map er_id rows)" "set us \<subseteq> set rows"
  shows "List.map_filter (\<lambda>i. map_option er_content (List.find (\<lambda>r. er_id r = i) rows)) (map er_id us) = map er_content us"
  using assms(2) find_by_id [OF assms(1)] by (induction us) (auto simp: List.map_filter_simps)

lemma ordered_rows:
  assumes "sorts_desc ord" "distinct (map er_id rows)"
  obtains rs where "mset rs = mset rows" "sorted_wrt (\<lambda>a b. er_created_at b \<le> er_created_at a) rs"
    "map fst (ord (map (\<lambda>r. (er_id r, er_created_at r)) rows)) = map er_id rs"
proof -
  let ?pr = "\<lambda>r. (er_id r, er_created_at r)"
  let ?row = "\<lambda>p. the (List.find (\<lambda>x. er_id x = fst p) rows)"
  have ret: "?row (?pr r) = r" if "r \<in> set rows" for r using find_by_id [OF assms(2) that] by simp
  have m: "mset (ord (map ?pr rows)) = mset (map ?pr rows)"
    and s: "sorted_wrt (\<lambda>a b. snd b \<le> snd a) (ord (map ?pr rows))" using assms(1) by (auto simp: sorts_desc_def)
  let ?rs = "map ?row (ord (map ?pr rows))"
  have mem: "p \<in> ?pr ` set rows" if "p \<in> set (ord (map ?pr rows))" for p
  proof -
    have "p \<in># mset (map ?pr rows)" using that unfolding m [symmetric] by simp
    then show ?thesis by simp
  qed
  have "mset ?rs = mset (map ?row (map ?pr rows))" unfolding mset_map [of ?row] m ..
  also have "map ?row (map ?pr rows) = rows" using ret by (simp add: map_idI)
  finally have 1: "mset ?rs = mset rows" .
  have prs: "map ?pr ?rs = ord (map ?pr rows)" using mem ret by (fastforce intro!: map_idI simp: comp_def)
  with s have "sorted_wrt (\<lambda>a b. snd b \<le> snd a) (map ?pr ?rs)" by simp
  then have 2: "sorted_wrt (\<lambda>a b. er_created_at b \<le> er_created_at a) ?rs" by (simp add: sorted_wrt_map)
  have "map fst (map ?pr ?rs) = map er_id ?rs" by simp
  then have "map fst (ord (map ?pr rows)) = map er_id ?rs" unfolding prs .
  with 1 2 that show thesis by blast
qed

lemma run_query_rows:
  assumes "sorts_desc ord" "ev_inv db" "fits_i64 now" "\<not> rf_force_no_match f"
  obtains rs where "mset rs = mset (filter (selects X now f db) (db_events db))"
    "sorted_wrt (\<lambda>a b. er_created_at b \<le> er_created_at a) rs"
    "run_query X ord now f db = (case rf_limit f of
         None \<Rightarrow> Ok (map er_content (rev rs))
       | Some lim \<Rightarrow> if fits_i64 lim then Ok (map er_content (take (unat lim) rs))
                     else Err (SqlError (OtherSqlError ''datatype mismatch'')))"
proof -
  let ?rows = "filter (selects X now f db) (db_events db)"
  have d: "distinct (map er_id ?rows)" using assms(2) by (simp add: ev_inv_def distinct_map_filterI)
  obtain rs where rs: "mset rs = mset ?rows" "sorted_wrt (\<lambda>a b. er_created_at b \<le> er_created_at a) rs"
    "map fst (ord (map (\<lambda>r. (er_id r, er_created_at r)) ?rows)) = map er_id rs"
    using ordered_rows [OF assms(1) d] by blast
  have sub: "set rs \<subseteq> set ?rows" using rs(1) by (metis order_refl set_mset_mset)
  have "set (rev rs) \<subseteq> set ?rows" "set (take n rs) \<subseteq> set ?rows" for n
    using sub set_take_subset by (simp, fastforce)
  note c = content_of_rows [OF d this(1)] content_of_rows [OF d this(2)]
  have "run_query X ord now f db = (case rf_limit f of
         None \<Rightarrow> Ok (map er_content (rev rs))
       | Some lim \<Rightarrow> if fits_i64 lim then Ok (map er_content (take (unat lim) rs))
                     else Err (SqlError (OtherSqlError ''datatype mismatch'')))"
    using assms(3,4) c by (simp add: run_query_def rs(3) rev_map take_map split: option.splits del: map_map)
  with rs that show thesis by blast
qed

section \<open>Properties of the results\<close>

definition row_event :: "externals \<Rightarrow> event_row \<Rightarrow> event option" where
  "row_event X r = map_option build_index (event_from_str X (er_content r))"

lemma row_event_stored:
  assumes "json_roundtrips X" "stores X db r e" "plain_event e"
  shows "row_event X r = Some e"
proof -
  have "event_from_str X (er_content r) = Some (e\<lparr>ev_delegated_by := None, ev_tagidx := None\<rparr>)"
    using assms(1,2) by (intro event_from_to_str) (simp_all add: stores_def)
  moreover have "e\<lparr>ev_delegated_by := None, ev_tagidx := None\<rparr> = e\<lparr>ev_tagidx := None\<rparr>"
    using assms(3) by (simp add: plain_event_def)
  ultimately show ?thesis using assms(3) by (simp add: row_event_def plain_event_def indexed_def)
qed


definition demo_stored :: event where
  "demo_stored = build_index (demo_event\<lparr>ev_id := replicate 64 CHR ''0''\<rparr>)"

definition demo_query :: req_filter where
  "demo_query = demo_filter (replicate 64 CHR ''a'') ''p'' (replicate 64 CHR ''b'')"

lemma full_hex_replicate: "c = CHR ''0'' \<or> c = CHR ''a'' \<Longrightarrow> full_hex (replicate 64 c)"
  by (auto simp: full_hex_def is_lower_hex_iff list_all_iff ascii_defs)

lemma plain_demo: "plain_event demo_stored"
  by (simp add: plain_event_def demo_stored_def indexed_def full_hex_replicate)
    (simp add: demo_event_def build_index_def full_hex_replicate)


text \<open>A limit keeps the newest. When a filter with a limit succeeds, the answer has as many
  events as the limit allows and the database offers, newest first, and no event that was
  left out is newer than one that was sent; a limit beyond the signed 64-bit range is an
  error.\<close>

theorem query_limit_keeps_newest:
  assumes "sorts_desc ord" "ev_inv db" "fits_i64 now" "\<not> rf_force_no_match f" "rf_limit f = Some lim"
  shows "if fits_i64 lim
    then (\<exists>sent rest. run_query X ord now f db = Ok (map er_content sent) \<and>
      mset (sent @ rest) = mset (filter (selects X now f db) (db_events db)) \<and>
      length sent = min (unat lim) (length (filter (selects X now f db) (db_events db))) \<and>
      sorted_wrt (\<lambda>a b. er_created_at b \<le> er_created_at a) (sent @ rest))
    else run_query X ord now f db = Err (SqlError (OtherSqlError ''datatype mismatch''))"
proof -
  obtain rs where rs: "mset rs = mset (filter (selects X now f db) (db_events db))"
    "sorted_wrt (\<lambda>a b. er_created_at b \<le> er_created_at a) rs"
    "run_query X ord now f db = (case rf_limit f of
         None \<Rightarrow> Ok (map er_content (rev rs))
       | Some lim \<Rightarrow> if fits_i64 lim then Ok (map er_content (take (unat lim) rs))
                     else Err (SqlError (OtherSqlError ''datatype mismatch'')))"
    using run_query_rows [OF assms(1-4), of X] by blast
  have len: "length rs = length (filter (selects X now f db) (db_events db))" using rs(1) by (rule mset_eq_length)
  show ?thesis
  proof (cases "fits_i64 lim")
    case True
    let ?sent = "take (unat lim) rs" and ?rest = "drop (unat lim) rs"
    have "run_query X ord now f db = Ok (map er_content ?sent)" using rs(3) True by (simp only: assms(5) option.case if_True)
    moreover have "mset (?sent @ ?rest) = mset (filter (selects X now f db) (db_events db))"
      "sorted_wrt (\<lambda>a b. er_created_at b \<le> er_created_at a) (?sent @ ?rest)"
      using rs(1,2) by (simp_all only: append_take_drop_id)
    moreover have "length ?sent = min (unat lim) (length (filter (selects X now f db) (db_events db)))"
      by (simp add: len)
    ultimately show ?thesis unfolding if_P [OF True] by blast
  qed (use rs(3) assms(5) in simp)
qed

theorem query_limit_keeps_newest_witness:
  "run_query std_ext std_ord 2000 (empty_filter\<lparr>rf_limit := Some (2 ^ 63)\<rparr>) empty_events =
     Err (SqlError (OtherSqlError ''datatype mismatch''))"
proof -
  have "ev_inv empty_events" by (simp add: ev_inv_def empty_events_def)
  from query_limit_keeps_newest [OF std_ord_sorts this, of 2000 "empty_filter\<lparr>rf_limit := Some (2 ^ 63)\<rparr>" "2 ^ 63" std_ext]
  show ?thesis by (simp add: fits_i64_def empty_filter_def)
qed

end
