(* ===== verification/Gift_Wraps.thy ===== *)
theory Gift_Wraps
  imports Session_Properties Query_Properties
begin

text \<open>
  The life of a gift wrap through the whole relay: a session admits it
  (\<^verbatim>\<open>src/src/server.rs\<close>, \<^verbatim>\<open>src/src/admission.rs\<close>), the writer stores it (\<^verbatim>\<open>src/src/db.rs\<close>), the
  repository keeps it (\<^verbatim>\<open>src/src/repo/sqlite.rs\<close>), a query of the recipient finds it and the
  recipient's session may send it.
\<close>

section \<open>Storing\<close>

lemma write_attempts_last:
  "write_attempts att n fault db = (db', Ok m) \<Longrightarrow> \<exists>f d. att f d = (db', Ok m)"
proof (induction n arbitrary: fault db)
  case (Suc n)
  then show ?case by (auto split: prod.splits if_splits)
qed auto

lemma gift_wrap_stored:
  assumes "write_event X ord now pf f e db = (db', Ok n)" "n \<noteq> 0" "ev_kind e = 1059"
  shows "\<exists>r\<in>set (db_events db'). event_to_string X e = Some (er_content r) \<and> er_kind r = 1059 \<and>
    er_expires_at r = expiration e \<and> \<not> er_hidden r"
proof -
  obtain fl d where "persist_event X ord now fl e d = (db', Ok n)"
    using assms(1) write_attempts_last by (fastforce simp: write_event_def split: option.splits)
  then show ?thesis
  proof (cases rule: persist_cases)
    case (stored h a c m)
    from stored(8) gift_wrap_not_replaced [OF assms(3)] assms(3) have "db' = insert_event X now e h a c d"
      by (simp add: store_event_def Let_def drop_replaced_def drop_param_replaced_def apply_deletions_def)
    with stored(3) assms(3) show ?thesis by (auto simp: insert_event_events intro!: bexI [of _ "new_row X now e h a c d"])
  qed (use assms(2) in auto)
qed

text \<open>Announcing a gift wrap means it is stored.\<close>

lemma announced_gift_wrap_stored:
  assumes "writer_step X s W sm ws = Done (ws', res)" "ws_bcast ws' \<noteq> ws_bcast ws" "ev_kind (sm_event sm) = 1059"
  shows "\<exists>now pf f. ws_events ws' = ev_step X (we_order W) (WriteEvent now pf f (sm_event sm)) (ws_events ws)"
    "\<exists>r\<in>set (db_events (ws_events ws')). event_to_string X (sm_event sm) = Some (er_content r) \<and> er_kind r = 1059 \<and>
      er_expires_at r = expiration (sm_event sm) \<and> \<not> er_hidden r"
proof -
  let ?w = "write_event X (we_order W) (we_sql_now W) (we_pool_fault W) (we_write_fault W) (sm_event sm) (ws_events ws)"
  have ne: "\<not> is_ephemeral (sm_event sm)" using assms(3) by (simp add: is_ephemeral_def)
  from assms(1) have "\<exists>n. snd ?w = Ok n \<and> n \<noteq> 0 \<and> ws_events ws' = fst ?w"
  proof (cases rule: writer_step_cases)
    case (publish b a c st1 w)
    have "w"
    proof (rule ccontr)
      assume "\<not> w"
      with publish(6) publish_spec(5) [OF publish(5)] assms(2) show False by simp
    qed
    with publish(6) have ev: "ws_events ws' = ws_events st1" by (auto dest: charge_spec(3) [OF sym])
    from publish(5) \<open>w\<close> ne show ?thesis unfolding ev publish_def Let_def
      by (auto split: prod.splits result.splits if_splits)
  qed (use assms(2) in \<open>simp add: dropped_def\<close>)
  then obtain n where n: "?w = (ws_events ws', Ok n)" "n \<noteq> 0" by (metis prod.collapse)
  show "\<exists>r\<in>set (db_events (ws_events ws')). event_to_string X (sm_event sm) = Some (er_content r) \<and> er_kind r = 1059 \<and>
      er_expires_at r = expiration (sm_event sm) \<and> \<not> er_hidden r"
    by (rule gift_wrap_stored [OF n assms(3)])
  show "\<exists>now pf f. ws_events ws' = ev_step X (we_order W) (WriteEvent now pf f (sm_event sm)) (ws_events ws)"
    using n(1) by (metis ev_step.simps(1) fst_conv)
qed

section \<open>Finding\<close>

definition recipient_filter :: "string \<Rightarrow> req_filter" where
  "recipient_filter pk = empty_filter\<lparr>rf_kinds := Some [1059], rf_tags := Some [(''p'', Or {|pk|})]\<rparr>"

lemma recipient_selects:
  assumes "stores X db r e" "er_kind r = 1059" "er_expires_at r = None" "\<not> er_hidden r" "pk \<in> tag_values e ''p''"
  shows "selects X now (recipient_filter pk) db r"
proof -
  have "ev_kind e = 1059" using assms(1,2) by (simp add: stores_def)
  then have "\<exists>t\<in>set (db_tags db). tr_event_id t = er_id r \<and> tr_name t = ''p'' \<and> tr_value t = pk \<and>
      extra_holds (filter_extra (recipient_filter pk)) t"
    using assms(5) unfolding tag_row_values [OF assms(1)]
    by (simp add: extra_ok_def filter_extra_def recipient_filter_def empty_filter_def)
  with assms show ?thesis
    by (auto simp: selects_def recipient_filter_def filter_clauses_def list_clause_def opt_list_def tag_clauses_def
        empty_filter_def list_ex_iff)
qed

text \<open>What a row stores is known from its content.\<close>

lemma stored_row_values:
  assumes "faithful (\<lambda>_. True) X db" "json_roundtrips X" "r \<in> set (db_events db)" "event_to_string X e = Some (er_content r)"
  shows "\<exists>e'. stores X db r e' \<and> tag_values e' k = tag_values e k"
proof -
  obtain e' where e': "stores X db r e'" using assms(1,3) by (auto simp: faithful_def)
  then have "event_to_string X e' = Some (er_content r)" by (simp add: stores_def)
  from event_from_to_str [OF assms(2) this] event_from_to_str [OF assms(2,4)]
  have "e'\<lparr>ev_delegated_by := None, ev_tagidx := None\<rparr> = e\<lparr>ev_delegated_by := None, ev_tagidx := None\<rparr>" by simp
  then have "ev_tags e' = ev_tags e" by (metis event.select_convs(6) event.surjective event.update_convs(3) event.update_convs(9))
  then have "tag_values e' k = tag_values e k" by (simp add: tag_values_def)
  with e' show ?thesis by blast
qed

lemma gift_wrap_single_recipient:
  assumes "gift_wrap_shape e"
  shows "\<exists>pk. tag_values_by_name e ''p'' = [pk] \<and> pk \<in> tag_values e ''p''"
proof -
  have "single_char_tagname ''p'' = Some ''p''" by (simp add: single_char_tagname_def ascii_defs)
  with assms show ?thesis by (auto simp: gift_wrap_shape_def tag_values_by_name_def tag_values_def)
qed

text \<open>A row of a gift wrap that never expires is found by its recipient after any later operations.\<close>

lemma recipient_finds:
  assumes "json_roundtrips X" "sorts_desc ord" "fits_i64 now" "db = fold (ev_step X ord) ps empty_events"
    and "r \<in> set (db_events db)" "er_kind r = 1059" "er_expires_at r = None" "\<not> er_hidden r"
    and "event_to_string X e = Some (er_content r)" "pk \<in> tag_values e ''p''"
  shows "\<exists>out. run_query X ord now (recipient_filter pk) (fold (ev_step X ord) qs db) = Ok out \<and> er_content r \<in> set out"
proof -
  let ?db = "fold (ev_step X ord) (ps @ qs) empty_events"
  have e: "ev_inv empty_events" "faithful (\<lambda>_. True) X empty_events"
    by (simp_all add: ev_inv_def faithful_def empty_events_def)
  have "writes_only (\<lambda>_. True) p" for p by (cases p) simp_all
  then have inv: "ev_inv ?db" and ff: "faithful (\<lambda>_. True) X ?db"
    using e by (auto intro: ev_run_inv faithful_run simp del: fold_append)
  have r: "r \<in> set (db_events ?db)" using assms(4-7) by (simp add: gift_wrap_run)
  obtain e' where e': "stores X ?db r e'" "tag_values e' ''p'' = tag_values e ''p''"
    using stored_row_values [OF ff assms(1) r assms(9)] by blast
  have "selects X now (recipient_filter pk) ?db r"
    using recipient_selects [OF e'(1) assms(6-8)] assms(10) e'(2) by simp
  moreover obtain rs where rs: "mset rs = mset (filter (selects X now (recipient_filter pk) ?db) (db_events ?db))"
    "run_query X ord now (recipient_filter pk) ?db = Ok (map er_content (rev rs))"
    by (rule run_query_rows [OF assms(2) inv assms(3), of "recipient_filter pk" X])
      (simp_all add: recipient_filter_def empty_filter_def)
  ultimately have "r \<in> set rs" using r mset_eq_setD [OF rs(1)] by simp
  with rs(2) assms(4) show ?thesis by simp
qed

section \<open>An example\<close>

lemma hex_enc_digits: "list_all is_ascii_hexdigit (hex_enc s) \<and> even (length (hex_enc s))"
proof (induction s)
  case (Cons c s)
  have "is_ascii_hexdigit (hex_char n)" if "n < 16" for n
    using that by (auto simp: hex_char_def ascii_defs)
  moreover have "byte_of c div 16 < 16" "byte_of c mod 16 < 16"
    using byte_of_bound [of c] by (simp_all add: less_mult_imp_div_less)
  ultimately show ?case using Cons by simp
qed simp

lemma demo_wrap_written:
  "\<exists>db. write_event std_ext std_ord 7 None (\<lambda>_. None) (build_index demo_wrap) empty_events = (db, Ok 1)"
proof -
  let ?e = "build_index demo_wrap"
  have "hex_dec (ev_id ?e) \<noteq> None" "hex_dec (ev_pubkey ?e) \<noteq> None"
    unfolding hex_dec_defined using hex_enc_digits
    by (simp_all add: demo_wrap_def sealed_def) (simp add: demo_event_def hexdigits_replicate ascii_defs)
  then obtain h a where d: "hex_decode std_ext (ev_id ?e) = Some h" "hex_decode std_ext (ev_pubkey ?e) = Some a" by auto
  have c: "\<exists>c. event_to_string std_ext ?e = Some c" by (simp add: event_to_string_def std_json_to_string_def)
  have k: "ev_kind ?e \<noteq> 5" "distinct_param ?e = None" "bindable ?e"
    by (simp_all add: demo_wrap_def demo_event_def distinct_param_def is_param_replaceable_def bindable_def expiration_def
        first_value_def fits_i64_def)
  obtain db where "persist_event std_ext std_ord 7 None ?e empty_events = (db, Ok 1)"
    using c persist_into_empty [OF std_ord_sorts d _ k(3,1,2), of _ 7] by blast
  then show ?thesis by (simp add: write_event_def eval_nat_numeral is_sqlite_failure_def)
qed

lemma demo_wrap_announced:
  assumes "sm_event sm = build_index demo_wrap"
  shows "\<exists>ws'. writer_step std_ext demo_sess (demo_we None) sm (demo_ws demo_sess) = Done (ws', Ok ()) \<and>
    ws_bcast ws' \<noteq> ws_bcast (demo_ws demo_sess)"
proof -
  obtain db where db: "write_event std_ext std_ord 7 None (\<lambda>_. None) (build_index demo_wrap) empty_events = (db, Ok 1)"
    using demo_wrap_written by blast
  have k: "ev_kind (build_index demo_wrap) = 1059" by (simp add: demo_wrap_def) (simp add: demo_event_def)
  then have "\<not> is_ephemeral (build_index demo_wrap)" by (simp add: is_ephemeral_def)
  with db k assms show ?thesis
    by (simp add: writer_step_def kinds_gate_def account_gate_def nip05_gate_def grpc_gate_def publish_def charge_def Let_def
        demo_sess_def default_settings_def DEFAULT_ALLOWED_KINDS_def vu_is_active_def vu_is_enabled_def demo_ws_def writer_new_def demo_we_def)
qed

end
