(* ===== verification/Pg_Accounts.thy ===== *)
theory Pg_Accounts
  imports Payment
begin

text \<open>
  Accounts and invoices of the PostgreSQL repository (\<^verbatim>\<open>src/src/repo/postgres.rs\<close>, tables of
  \<^verbatim>\<open>src/src/repo/postgres_migration.rs\<close>). Amounts and balances are \<^verbatim>\<open>BIGINT\<close>: arithmetic that leaves the signed 64-bit
  range is an error of the statement, and a \<^verbatim>\<open>u64\<close> is converted with \<^verbatim>\<open>as\<close>, which wraps. Statements
  outside of a transaction can fail one by one; the arguments \<open>f\<close> say which do. The payment
  handler is the code of \<^verbatim>\<open>src/src/payment/mod.rs\<close> on this repository.
\<close>

section \<open>Tables\<close>

record pg_account =
  pga_pubkey :: string
  pga_admitted :: bool
  pga_balance :: int

record pg_invoice =
  pgi_payment_hash :: string
  pgi_pubkey :: string
  pgi_invoice :: string
  pgi_amount :: int
  pgi_status :: invoice_status
  pgi_description :: string
  pgi_created_at :: int
  pgi_confirmed_at :: "int option"

record pg_db =
  pg_accounts :: "pg_account list"
  pg_invoices :: "pg_invoice list"

definition as_i64 :: "u64 \<Rightarrow> int" where
  "as_i64 w = sint w"

definition as_u64 :: "int \<Rightarrow> u64" where
  "as_u64 i = word_of_int i"

definition pg_find_account :: "string \<Rightarrow> pg_db \<Rightarrow> pg_account option" where
  "pg_find_account pk db = List.find (\<lambda>a. pga_pubkey a = pk) (pg_accounts db)"

definition pg_find_invoice :: "string \<Rightarrow> pg_db \<Rightarrow> pg_invoice option" where
  "pg_find_invoice h db = List.find (\<lambda>i. pgi_payment_hash i = h) (pg_invoices db)"

definition out_of_range :: error where
  "out_of_range = SqlxError (OtherSqlxError ''bigint out of range'')"

section \<open>Accounts\<close>

text \<open>\<^verbatim>\<open>f\<close> gives the failure of the n-th database call of an operation. Here: beginning the transaction, the
  insertion, the commit.\<close>

definition pg_create_account :: "(nat \<Rightarrow> error option) \<Rightarrow> string \<Rightarrow> pg_db \<Rightarrow> pg_db \<times> (bool, error) result" where
  "pg_create_account f pk db =
     (case f 0 of Some e \<Rightarrow> (db, Err e)
      | None \<Rightarrow>
        if f 1 \<noteq> None \<or> pg_find_account pk db \<noteq> None then (db, Ok False)
        else (case f 2 of Some e \<Rightarrow> (db, Err e)
          | None \<Rightarrow> (db\<lparr>pg_accounts := pg_accounts db @ [\<lparr>pga_pubkey = pk, pga_admitted = False, pga_balance = 0\<rparr>]\<rparr>, Ok True)))"

text \<open>\<^verbatim>\<open>UPDATE account SET balance = balance + n WHERE pubkey = pk\<close>, with another change of the row.\<close>

definition pg_add_balance ::
  "error option \<Rightarrow> (pg_account \<Rightarrow> pg_account) \<Rightarrow> int \<Rightarrow> string \<Rightarrow> pg_db \<Rightarrow> pg_db \<times> (unit, error) result" where
  "pg_add_balance f g n pk db =
     (case f of Some e \<Rightarrow> (db, Err e)
      | None \<Rightarrow>
        if list_all (\<lambda>a. pga_pubkey a = pk \<longrightarrow> in_i64 (pga_balance a + n)) (pg_accounts db)
        then (db\<lparr>pg_accounts := map (\<lambda>a. if pga_pubkey a = pk then (g a)\<lparr>pga_balance := pga_balance a + n\<rparr> else a)
                (pg_accounts db)\<rparr>, Ok ())
        else (db, Err out_of_range))"

definition pg_admit_account :: "error option \<Rightarrow> string \<Rightarrow> u64 \<Rightarrow> pg_db \<Rightarrow> pg_db \<times> (unit, error) result" where
  "pg_admit_account f pk cost db = pg_add_balance f (\<lambda>a. a\<lparr>pga_admitted := True\<rparr>) (- as_i64 cost) pk db"

definition pg_get_account_balance :: "error option \<Rightarrow> string \<Rightarrow> pg_db \<Rightarrow> (bool \<times> u64, error) result" where
  "pg_get_account_balance f pk db =
     (case f of Some e \<Rightarrow> Err e
      | None \<Rightarrow> (case pg_find_account pk db of
          None \<Rightarrow> Err (SqlxError RowNotFound)
        | Some a \<Rightarrow> Ok (pga_admitted a, as_u64 (pga_balance a))))"

definition pg_update_account_balance ::
  "error option \<Rightarrow> string \<Rightarrow> bool \<Rightarrow> u64 \<Rightarrow> pg_db \<Rightarrow> pg_db \<times> (unit, error) result" where
  "pg_update_account_balance f pk positive new_balance db =
     pg_add_balance f (\<lambda>a. a) (if positive then as_i64 new_balance else - as_i64 new_balance) pk db"

section \<open>Invoices\<close>

text \<open>A failing insertion is unwrapped; beginning and committing the transaction return their errors.\<close>

definition pg_create_invoice_record ::
  "(nat \<Rightarrow> error option) \<Rightarrow> int \<Rightarrow> string \<Rightarrow> invoice_info \<Rightarrow> pg_db \<Rightarrow> (pg_db \<times> (unit, error) result) exec" where
  "pg_create_invoice_record f now pk info db =
     (case f 0 of Some e \<Rightarrow> Done (db, Err e)
      | None \<Rightarrow>
        if f 1 \<noteq> None \<or> pg_find_invoice (ii_payment_hash info) db \<noteq> None \<or> pg_find_account pk db = None then Panic
        else (case f 2 of Some e \<Rightarrow> Done (db, Err e)
          | None \<Rightarrow> Done (db\<lparr>pg_invoices := pg_invoices db @
              [\<lparr>pgi_payment_hash = ii_payment_hash info, pgi_pubkey = pk, pgi_invoice = ii_bolt11 info,
                pgi_amount = as_i64 (ii_amount info), pgi_status = ii_status info, pgi_description = ii_memo info,
                pgi_created_at = now, pgi_confirmed_at = None\<rparr>]\<rparr>, Ok ())))"

definition pg_set_status :: "int \<Rightarrow> string \<Rightarrow> invoice_status \<Rightarrow> pg_db \<Rightarrow> pg_db" where
  "pg_set_status now h status db =
     db\<lparr>pg_invoices := map (\<lambda>i. if pgi_payment_hash i = h
        then (if status = Paid then i\<lparr>pgi_status := status, pgi_confirmed_at := Some now\<rparr> else i\<lparr>pgi_status := status\<rparr>)
        else i) (pg_invoices db)\<rparr>"

text \<open>Three statements, not one transaction: reading, setting the status, crediting.\<close>

definition pg_update_invoice ::
  "(nat \<Rightarrow> error option) \<Rightarrow> int \<Rightarrow> string \<Rightarrow> invoice_status \<Rightarrow> pg_db \<Rightarrow> pg_db \<times> (string, error) result" where
  "pg_update_invoice f now h status db =
     (case f 0 of Some e \<Rightarrow> (db, Err e)
      | None \<Rightarrow>
     (case pg_find_invoice h db of
        None \<Rightarrow> (db, Err (SqlxError RowNotFound))
      | Some row \<Rightarrow>
     (case f 1 of Some e \<Rightarrow> (db, Err e)
      | None \<Rightarrow>
        (let db1 = pg_set_status now h status db in
         if pgi_status row = Unpaid \<and> status = Paid then
           (case pg_add_balance (f 2) (\<lambda>a. a) (pgi_amount row) (pgi_pubkey row) db1 of
              (db2, Err e) \<Rightarrow> (db2, Err e)
            | (db2, Ok _) \<Rightarrow> (db2, Ok (pgi_pubkey row)))
         else (db1, Ok (pgi_pubkey row))))))"

definition pg_newest :: "pg_invoice list \<Rightarrow> pg_invoice option" where
  "pg_newest rows =
     (case rows of [] \<Rightarrow> None
      | r # rs \<Rightarrow> Some (foldl (\<lambda>best i. if pgi_created_at best < pgi_created_at i then i else best) r rs))"

text \<open>The most recent invoice, whatever its status; a failing statement is unwrapped.\<close>

definition pg_get_unpaid_invoice :: "error option \<Rightarrow> string \<Rightarrow> pg_db \<Rightarrow> (invoice_info option, error) result exec" where
  "pg_get_unpaid_invoice f pk db =
     (case f of Some _ \<Rightarrow> Panic
      | None \<Rightarrow>
        Done (Ok (map_option (\<lambda>i. \<lparr>ii_pubkey = pk, ii_payment_hash = pgi_payment_hash i, ii_bolt11 = pgi_invoice i,
            ii_amount = as_u64 (pgi_amount i), ii_status = Unpaid, ii_memo = pgi_description i, ii_confirmed_at = None\<rparr>)
          (pg_newest (filter (\<lambda>i. pgi_pubkey i = pk) (pg_invoices db))))))"

section \<open>The payment handler on this repository\<close>

text \<open>\<open>F c n\<close> is the failure of the n-th database call made at call site \<open>c\<close>.\<close>

type_synonym pg_faults = "pay_call \<Rightarrow> nat \<Rightarrow> error option"

definition pg_check_invoice_status ::
  "pay_env \<Rightarrow> pg_faults \<Rightarrow> string \<Rightarrow> pg_db \<Rightarrow> pg_db \<times> (invoice_status, error) result" where
  "pg_check_invoice_status E F h db =
     (case pe_check_invoice E h of
        Err e \<Rightarrow> (db, Err e)
      | Ok status \<Rightarrow>
        (case pg_update_invoice (F AtCheckUpdate) (pe_sql_now E) h status db of
           (db', Err e) \<Rightarrow> (db', Err e)
         | (db', Ok _) \<Rightarrow> (db', Ok status)))"

definition pg_request_invoice ::
  "externals \<Rightarrow> pay_env \<Rightarrow> pg_faults \<Rightarrow> settings \<Rightarrow> string \<Rightarrow> string \<Rightarrow> u64 \<Rightarrow> pg_db pay_state \<Rightarrow>
     (pg_db pay_state \<times> (invoice_info, error) result) exec" where
  "pg_request_invoice X E F s pubkey key amount st =
     (case pe_get_invoice E key amount of
        Err e \<Rightarrow> Done (st, Err e)
      | Ok info \<Rightarrow>
     (case pg_create_invoice_record (F AtCreateInvoice) (pe_sql_now E) key info (ps_repo st) of
        Panic \<Rightarrow> Panic
      | Done (db2, Err e) \<Rightarrow> Done (st\<lparr>ps_repo := db2\<rparr>, Err e)
      | Done (db2, Ok _) \<Rightarrow>
        if direct_message (s_pay_to_relay s) then
          (case send_admission_message X E s pubkey info (st\<lparr>ps_repo := db2\<rparr>) of
             (st3, Err e) \<Rightarrow> Done (st3, Err e)
           | (st3, Ok _) \<Rightarrow> Done (st3, Ok info))
        else Done (st\<lparr>ps_repo := db2\<rparr>, Ok info)))"

definition pg_get_invoice_info ::
  "externals \<Rightarrow> pay_env \<Rightarrow> pg_faults \<Rightarrow> settings \<Rightarrow> string \<Rightarrow> u64 \<Rightarrow> pg_db pay_state \<Rightarrow>
     (pg_db pay_state \<times> (invoice_info, error) result) exec" where
  "pg_get_invoice_info X E F s pubkey amount st =
     (case keys_of X pubkey of
        Err e \<Rightarrow> Done (st, Err e)
      | Ok key \<Rightarrow>
     (case pg_create_account (F AtCreateAccount) key (ps_repo st) of
        (db, Err e) \<Rightarrow> Done (st\<lparr>ps_repo := db\<rparr>, Err e)
      | (db, Ok created) \<Rightarrow>
     (case (if created then Done (Ok None) else pg_get_unpaid_invoice (F AtUnpaid 0) key db) of
        Panic \<Rightarrow> Panic
      | Done (Ok (Some info)) \<Rightarrow> Done (st\<lparr>ps_repo := db\<rparr>, Ok info)
      | Done _ \<Rightarrow> pg_request_invoice X E F s pubkey key amount (st\<lparr>ps_repo := db\<rparr>))))"

definition pg_send_invoice ::
  "string \<Rightarrow> (pg_db pay_state \<times> (invoice_info, error) result) exec \<Rightarrow> (pg_db pay_state \<times> (unit, error) result) exec" where
  "pg_send_invoice pubkey r =
     (case r of
        Panic \<Rightarrow> Panic
      | Done (st1, Err e) \<Rightarrow> Done (st1, Err e)
      | Done (st1, Ok info) \<Rightarrow> Done (send_msg (InvoiceMsg pubkey info) st1, Ok ()))"

text \<open>One received message; a panic ends the payment task.\<close>

fun pg_run_internal ::
  "externals \<Rightarrow> pay_env \<Rightarrow> pg_faults \<Rightarrow> settings \<Rightarrow> payment_message \<Rightarrow> pg_db pay_state \<Rightarrow>
     (pg_db pay_state \<times> (unit, error) result) exec" where
  "pg_run_internal X E F s (NewAccount pubkey) st =
     pg_send_invoice pubkey (pg_get_invoice_info X E F s pubkey (admission_cost (s_pay_to_relay s)) st)"
| "pg_run_internal X E F s (CheckAccount pubkey) st =
     (case keys_of X pubkey of
        Err e \<Rightarrow> Done (st, Err e)
      | Ok keys \<Rightarrow>
        (case pg_get_unpaid_invoice (F AtUnpaid 0) keys (ps_repo st) of
           Panic \<Rightarrow> Panic
         | Done (Ok (Some info)) \<Rightarrow>
             (case pg_check_invoice_status E F (ii_payment_hash info) (ps_repo st) of
                (db, Err e) \<Rightarrow> Done (st\<lparr>ps_repo := db\<rparr>, Err e)
              | (db, Ok Paid) \<Rightarrow>
                (case pg_admit_account (F AtAdmit 0) keys (admission_cost (s_pay_to_relay s)) db of
                   (db2, Err e) \<Rightarrow> Done (st\<lparr>ps_repo := db2\<rparr>, Err e)
                 | (db2, Ok _) \<Rightarrow> Done (send_msg (AccountAdmitted pubkey) (st\<lparr>ps_repo := db2\<rparr>), Ok ()))
              | (db, Ok _) \<Rightarrow> Done (send_msg (InvoiceMsg pubkey info) (st\<lparr>ps_repo := db\<rparr>), Ok ()))
         | Done _ \<Rightarrow>
           pg_send_invoice pubkey (pg_get_invoice_info X E F s pubkey (admission_cost (s_pay_to_relay s)) st)))"
| "pg_run_internal X E F s (InvoicePaid h) st =
     (case pg_check_invoice_status E F h (ps_repo st) of
        (db, Err e) \<Rightarrow> Done (st\<lparr>ps_repo := db\<rparr>, Err e)
      | (db, Ok status) \<Rightarrow>
        if status = Paid then
          (case pg_update_invoice (F AtPaidUpdate) (pe_sql_now E) h Paid db of
             (db2, Err e) \<Rightarrow> Done (st\<lparr>ps_repo := db2\<rparr>, Err e)
           | (db2, Ok pubkey) \<Rightarrow>
             (case keys_of X pubkey of
                Err e \<Rightarrow> Done (st\<lparr>ps_repo := db2\<rparr>, Err e)
              | Ok key \<Rightarrow>
                (case pg_admit_account (F AtAdmit 0) key (admission_cost (s_pay_to_relay s)) db2 of
                   (db3, Err e) \<Rightarrow> Done (st\<lparr>ps_repo := db3\<rparr>, Err e)
                 | (db3, Ok _) \<Rightarrow> Done (st\<lparr>ps_repo := db3\<rparr>, Ok ()))))
        else Done (st\<lparr>ps_repo := db\<rparr>, Ok ()))"
| "pg_run_internal X E F s (AccountAdmitted pk) st = Done (st, Ok ())"
| "pg_run_internal X E F s (InvoiceMsg pk info) st = Done (st, Ok ())"

section \<open>Refinement of the SQLite tables\<close>

text \<open>The two backends hold the same accounts and invoices.\<close>

definition same_account :: "pg_account \<Rightarrow> account_row \<Rightarrow> bool" where
  "same_account a b \<longleftrightarrow> acc_pubkey b = pga_pubkey a \<and> acc_admitted b = pga_admitted a \<and> acc_balance b = IntCol (pga_balance a) \<and>
     in_i64 (pga_balance a)"

definition same_invoice :: "pg_invoice \<Rightarrow> invoice_row \<Rightarrow> bool" where
  "same_invoice i j \<longleftrightarrow> inv_payment_hash j = pgi_payment_hash i \<and> inv_pubkey j = pgi_pubkey i \<and> inv_invoice j = pgi_invoice i \<and>
     fits_i64 (inv_amount j) \<and> uint (inv_amount j) = pgi_amount i \<and> inv_status j = show_status (pgi_status i) \<and>
     inv_description j = pgi_description i \<and> inv_created_at j = pgi_created_at i \<and> inv_confirmed_at j = pgi_confirmed_at i"

definition same_books :: "pg_db \<Rightarrow> account_db \<Rightarrow> bool" where
  "same_books p q \<longleftrightarrow> list_all2 same_account (pg_accounts p) (accounts q) \<and> list_all2 same_invoice (pg_invoices p) (invoices q)"

text \<open>The operations on this repository, where no statement fails; an error or a panic ends the run.\<close>

fun pg_step :: "acc_op \<Rightarrow> pg_db \<Rightarrow> pg_db option" where
  "pg_step (CreateAccount pk) db = Some (fst (pg_create_account (\<lambda>_. None) pk db))"
| "pg_step (AdmitAccount now pk c) db = (case pg_admit_account None pk c db of (db', Ok _) \<Rightarrow> Some db' | _ \<Rightarrow> None)"
| "pg_step (UpdateBalance pk pos n) db = (case pg_update_account_balance None pk pos n db of (db', Ok _) \<Rightarrow> Some db' | _ \<Rightarrow> None)"
| "pg_step (CreateInvoice now pk info) db = (case pg_create_invoice_record (\<lambda>_. None) now pk info db of Done (db', Ok _) \<Rightarrow> Some db' | _ \<Rightarrow> None)"
| "pg_step (UpdateInvoice now h st) db = (case pg_update_invoice (\<lambda>_. None) now h st db of (db', Ok _) \<Rightarrow> Some db' | _ \<Rightarrow> None)"

fun pg_run :: "acc_op list \<Rightarrow> pg_db \<Rightarrow> pg_db option" where
  "pg_run [] db = Some db"
| "pg_run (p # ps) db = Option.bind (pg_step p db) (pg_run ps)"

fun op_fits :: "acc_op \<Rightarrow> bool" where
  "op_fits (AdmitAccount now pk c) = fits_i64 c"
| "op_fits (UpdateBalance pk pos n) = fits_i64 n"
| "op_fits (CreateInvoice now pk info) = fits_i64 (ii_amount info)"
| "op_fits _ = True"

section \<open>Lemmas\<close>

lemma as_i64_fits:
  assumes "fits_i64 w"
  shows "as_i64 w = uint w"
proof -
  have "uint w < 2 ^ 63" using assms by (simp add: fits_i64_def word_less_def)
  moreover have "- (2 ^ 63) \<le> uint w" by (rule order_trans [OF _ uint_ge_0]) simp
  ultimately have "signed_take_bit 63 (uint w) = uint w" by (intro signed_take_bit_int_eq_self)
  then show ?thesis by (simp add: as_i64_def sint_uint)
qed

lemma find_all2:
  assumes "list_all2 R xs ys" "\<And>x y. R x y \<Longrightarrow> P x = Q y"
  shows "rel_option R (List.find P xs) (List.find Q ys)"
  using assms by (induction rule: list_all2_induct) auto

lemma map_all2:
  "list_all2 R xs ys \<Longrightarrow> (\<And>x y. x \<in> set xs \<Longrightarrow> R x y \<Longrightarrow> R (f x) (g y)) \<Longrightarrow> list_all2 R (map f xs) (map g ys)"
  by (induction rule: list_all2_induct) auto

lemma same_find_account: "same_books p q \<Longrightarrow> rel_option same_account (pg_find_account pk p) (find_account q pk)"
  unfolding pg_find_account_def find_account_def by (rule find_all2) (auto simp: same_books_def same_account_def)

lemma same_find_invoice: "same_books p q \<Longrightarrow> rel_option same_invoice (pg_find_invoice h p) (find_invoice q h)"
  unfolding pg_find_invoice_def find_invoice_def by (rule find_all2) (auto simp: same_books_def same_invoice_def)

lemma same_find_None:
  assumes "same_books p q"
  shows "pg_find_account pk p = None \<longleftrightarrow> find_account q pk = None" "pg_find_invoice h p = None \<longleftrightarrow> find_invoice q h = None"
  using same_find_account [OF assms, of pk] same_find_invoice [OF assms, of h] by (auto elim: option.rel_cases)

lemma same_add_balance:
  assumes "same_books p q" "pg_add_balance None g n pk p = (p', Ok u)"
    and "\<And>a b. same_account a b \<Longrightarrow> same_account ((g a)\<lparr>pga_balance := pga_balance a\<rparr>) ((h b)\<lparr>acc_balance := acc_balance b\<rparr>)"
  shows "same_books p' (map_account pk (\<lambda>b. (h b)\<lparr>acc_balance := balance_add X (acc_balance b) n\<rparr>) q)"
proof -
  have ok: "\<And>a. a \<in> set (pg_accounts p) \<Longrightarrow> pga_pubkey a = pk \<Longrightarrow> in_i64 (pga_balance a + n)"
    and p': "p' = p\<lparr>pg_accounts := map (\<lambda>a. if pga_pubkey a = pk then (g a)\<lparr>pga_balance := pga_balance a + n\<rparr> else a) (pg_accounts p)\<rparr>"
    using assms(2) by (auto simp: pg_add_balance_def list_all_iff split: if_splits)
  have "list_all2 same_account (pg_accounts p') (accounts (map_account pk (\<lambda>b. (h b)\<lparr>acc_balance := balance_add X (acc_balance b) n\<rparr>) q))"
    unfolding p' map_account_def using assms(1) ok assms(3)
    by (auto simp: same_books_def same_account_def balance_add_def intro!: map_all2)
  with assms(1) p' show ?thesis by (simp add: same_books_def)
qed

lemma same_set_status: "same_books p q \<Longrightarrow> same_books (pg_set_status now h st p) (set_status now h st q)"
  by (auto simp: same_books_def pg_set_status_def set_status_def same_invoice_def intro!: map_all2)

lemma same_update_invoice:
  assumes "same_books p q" "pg_step (UpdateInvoice now h st) p = Some p'"
  shows "same_books p' (acc_step X (UpdateInvoice now h st) q)"
proof -
  let ?p1 = "pg_set_status now h st p" and ?q1 = "set_status now h st q"
  from assms(2) obtain row where row: "pg_find_invoice h p = Some row"
    by (auto simp: pg_update_invoice_def split: option.splits)
  with same_find_invoice [OF assms(1), of h] obtain j where j: "find_invoice q h = Some j" "same_invoice row j"
    by (auto simp: option_rel_Some1)
  have st: "inv_status j = ''Unpaid'' \<longleftrightarrow> pgi_status row = Unpaid"
    using j(2) by (cases "pgi_status row") (auto simp: same_invoice_def)
  have s1: "same_books ?p1 ?q1" by (rule same_set_status [OF assms(1)])
  show ?thesis
  proof (cases "pgi_status row = Unpaid \<and> st = Paid")
    case True
    with assms(2) row have "pg_add_balance None (\<lambda>a. a) (pgi_amount row) (pgi_pubkey row) ?p1 = (p', Ok ())"
      by (auto simp: pg_update_invoice_def Let_def split: prod.splits result.splits)
    from same_add_balance [OF s1 this, of "\<lambda>b. b" X] True j st show ?thesis
      by (simp add: update_invoice_def Let_def same_account_def same_invoice_def)
  next
    case False
    with assms(2) row j st s1 show ?thesis by (auto simp: pg_update_invoice_def update_invoice_def Let_def)
  qed
qed

lemma same_step:
  assumes "same_books p q" "pg_step a p = Some p'" "op_fits a"
  shows "same_books p' (acc_step X a q)"
proof (cases a)
  case (CreateAccount pk)
  with assms same_find_None(1) [OF assms(1), of pk] show ?thesis
    by (auto simp: pg_create_account_def create_account_def same_books_def same_account_def in_i64_def intro!: list_all2_appendI)
next
  case (AdmitAccount now pk c)
  then have "pg_add_balance None (\<lambda>a. a\<lparr>pga_admitted := True\<rparr>) (- uint c) pk p = (p', Ok ())" "fits_i64 c"
    using assms(2,3) as_i64_fits [of c] by (auto simp: pg_admit_account_def split: prod.splits result.splits)
  from same_add_balance [OF assms(1) this(1), of "\<lambda>b. b\<lparr>acc_admitted := True, acc_tos_accepted_at := Some now\<rparr>" X] this(2) AdmitAccount
  show ?thesis by (simp add: admit_account_def bind_u64_def same_account_def)
next
  case (UpdateBalance pk pos n)
  then have "pg_add_balance None (\<lambda>a. a) (if pos then uint n else - uint n) pk p = (p', Ok ())" "fits_i64 n"
    using assms(2,3) as_i64_fits [of n] by (auto simp: pg_update_account_balance_def split: prod.splits result.splits)
  from same_add_balance [OF assms(1) this(1), of "\<lambda>b. b" X] this(2) UpdateBalance
  show ?thesis by (simp add: update_account_balance_def bind_u64_def same_account_def)
next
  case (CreateInvoice now pk info)
  with assms same_find_None [OF assms(1)] show ?thesis
    by (auto simp: pg_create_invoice_record_def create_invoice_record_def bind_u64_def same_books_def same_invoice_def as_i64_fits
        split: if_splits intro!: list_all2_appendI)
next
  case (UpdateInvoice now h st)
  with same_update_invoice [OF assms(1)] assms(2) show ?thesis by simp
qed

lemma same_run: "same_books p q \<Longrightarrow> pg_run ps p = Some p' \<Longrightarrow> list_all op_fits ps \<Longrightarrow> same_books p' (fold (acc_step X) ps q)"
  by (induction ps arbitrary: p q) (auto simp: bind_eq_Some_conv intro: same_step)

lemma same_balance:
  assumes "same_books p q" "get_account_balance pk q = Ok x"
  shows "pg_get_account_balance None pk p = Ok x"
proof -
  from assms(2) obtain b where b: "find_account q pk = Some b" by (auto simp: get_account_balance_def split: option.splits)
  with same_find_account [OF assms(1), of pk] obtain a where "pg_find_account pk p = Some a" "same_account a b"
    by (auto simp: option_rel_Some2)
  with assms(2) b show ?thesis
    by (auto simp: get_account_balance_def pg_get_account_balance_def same_account_def get_u64_def as_u64_def split: if_splits)
qed

lemma find_unique: "distinct (map k xs) \<Longrightarrow> x \<in> set xs \<Longrightarrow> List.find (\<lambda>y. k y = k x) xs = Some x"
  by (induction xs) auto

lemma pg_newest_in: "pg_newest rows = Some i \<Longrightarrow> i \<in> set rows"
proof -
  have "foldl (\<lambda>best i. if pgi_created_at best < pgi_created_at i then i else best) r rs \<in> insert r (set rs)" for r rs
    by (rule foldl_in) auto
  then show "pg_newest rows = Some i \<Longrightarrow> i \<in> set rows" by (auto simp: pg_newest_def split: list.splits)
qed

lemma negative_as_u64:
  assumes "- (2 ^ 63) \<le> i" "i < 0"
  shows "2 ^ 63 \<le> as_u64 i"
proof -
  have "uint (as_u64 i) = i mod 2 ^ 64" by (simp add: as_u64_def uint_word_of_int)
  also have "\<dots> = (i + 2 ^ 64) mod 2 ^ 64" by simp
  also have "\<dots> = i + 2 ^ 64" using assms by (intro mod_pos_pos_trivial) auto
  finally show ?thesis using assms by (simp add: word_le_def)
qed

lemma pg_admit_effect:
  assumes "distinct (map pga_pubkey (pg_accounts db))" "a \<in> set (pg_accounts db)" "fits_i64 c" "in_i64 (pga_balance a - uint c)"
  shows "\<exists>db'. pg_admit_account None (pga_pubkey a) c db = (db', Ok ()) \<and>
    pg_get_account_balance None (pga_pubkey a) db' = Ok (True, as_u64 (pga_balance a - uint c))"
proof -
  let ?f = "\<lambda>b. if pga_pubkey b = pga_pubkey a then (b\<lparr>pga_admitted := True\<rparr>)\<lparr>pga_balance := pga_balance b - uint c\<rparr> else b"
  let ?db' = "db\<lparr>pg_accounts := map ?f (pg_accounts db)\<rparr>"
  have only: "b = a" if "b \<in> set (pg_accounts db)" "pga_pubkey b = pga_pubkey a" for b
    using that assms(1,2) by (auto simp: distinct_map dest: inj_onD)
  have ad: "pg_admit_account None (pga_pubkey a) c db = (?db', Ok ())"
    using only assms(4) as_i64_fits [OF assms(3)] by (auto simp: pg_admit_account_def pg_add_balance_def list_all_iff)
  have "map pga_pubkey (map ?f (pg_accounts db)) = map pga_pubkey (pg_accounts db)" by simp
  then have d: "distinct (map pga_pubkey (map ?f (pg_accounts db)))" using assms(1) by (simp only:)
  have "?f a \<in> ?f ` set (pg_accounts db)" using assms(2) by (rule imageI)
  then have "?f a \<in> set (map ?f (pg_accounts db))" by (simp only: set_map)
  from find_unique [OF d this] have "pg_find_account (pga_pubkey a) ?db' = Some (?f a)" by (simp add: pg_find_account_def)
  with ad show ?thesis by (simp add: pg_get_account_balance_def)
qed

section \<open>Properties\<close>

text \<open>C36: The PostgreSQL books agree with the SQLite books. Whatever accounts and invoices are created,
  admitted, credited, debited and updated, as long as no statement fails and the amounts are
  signed 64-bit integers, both backends hold the same accounts (with the same admission and
  balance) and the same invoices, and a balance that SQLite reads is the one PostgreSQL reads.\<close>

theorem postgres_books_refine_sqlite:
  assumes "pg_run ps \<lparr>pg_accounts = [], pg_invoices = []\<rparr> = Some p" "list_all op_fits ps"
    and "get_account_balance pk (fold (acc_step X) ps empty_db) = Ok x"
  shows "same_books p (fold (acc_step X) ps empty_db) \<and> pg_get_account_balance None pk p = Ok x"
proof -
  have "same_books \<lparr>pg_accounts = [], pg_invoices = []\<rparr> empty_db" by (simp add: same_books_def empty_db_def)
  from same_run [OF this assms(1,2), of X] same_balance [OF _ assms(3)] show ?thesis by blast
qed

theorem postgres_books_refine_sqlite_witness:
  "pg_get_account_balance None ''pk'' \<lparr>pg_accounts = [\<lparr>pga_pubkey = ''pk'', pga_admitted = False, pga_balance = 7\<rparr>], pg_invoices = []\<rparr> =
     Ok (False, 7)"
proof -
  let ?ps = "[CreateAccount ''pk'', UpdateBalance ''pk'' True 7]"
  have "fits_i64 7" by (simp add: fits_i64_def)
  then have "pg_run ?ps \<lparr>pg_accounts = [], pg_invoices = []\<rparr> =
      Some \<lparr>pg_accounts = [\<lparr>pga_pubkey = ''pk'', pga_admitted = False, pga_balance = 7\<rparr>], pg_invoices = []\<rparr>"
    "list_all op_fits ?ps" "get_account_balance ''pk'' (fold (acc_step std_ext) ?ps empty_db) = Ok (False, 7)"
    by (simp_all add: pg_create_account_def pg_find_account_def pg_update_account_balance_def pg_add_balance_def as_i64_fits in_i64_def
        create_account_def update_account_balance_def bind_u64_def find_account_def empty_db_def map_account_def get_account_balance_def
        balance_add_def get_u64_def)
  from postgres_books_refine_sqlite [OF this] show ?thesis by blast
qed

text \<open>C37: On PostgreSQL a paid account can check itself into unlimited credit. The lookup of an unpaid
  invoice returns the newest invoice whatever its status. Checking an admitted account whose newest
  invoice is already paid admits it again and subtracts the cost of admission again; once the
  balance is below that cost it becomes negative, and a negative balance is read as a number of
  at least \<^verbatim>\<open>2^63\<close>, more than any price of an event in the signed range.\<close>

theorem postgres_recheck_gives_credit:
  assumes "distinct (map pga_pubkey (pg_accounts (ps_repo st)))" "distinct (map pgi_payment_hash (pg_invoices (ps_repo st)))"
    and "keys_of X pubkey = Ok pk"
    and "a \<in> set (pg_accounts (ps_repo st))" "pga_pubkey a = pk" "0 \<le> pga_balance a" "pga_balance a < uint (admission_cost (s_pay_to_relay s))"
    and "fits_i64 (admission_cost (s_pay_to_relay s))"
    and "pg_newest (filter (\<lambda>i. pgi_pubkey i = pk) (pg_invoices (ps_repo st))) = Some i" "pgi_status i = Paid"
    and "pe_check_invoice E (pgi_payment_hash i) = Ok Paid"
  shows "\<exists>st' w. pg_run_internal X E (\<lambda>_ _. None) s (CheckAccount pubkey) st = Done (st', Ok ()) \<and>
    pg_get_account_balance None pk (ps_repo st') = Ok (True, w) \<and> 2 ^ 63 \<le> w"
proof -
  let ?db = "ps_repo st"
  let ?c = "admission_cost (s_pay_to_relay s)" and ?h = "pgi_payment_hash i"
  let ?db1 = "pg_set_status (pe_sql_now E) ?h Paid ?db"
  have i: "i \<in> set (pg_invoices ?db)" "pgi_pubkey i = pk" using pg_newest_in [OF assms(9)] by auto
  have fi: "pg_find_invoice ?h ?db = Some i" unfolding pg_find_invoice_def by (rule find_unique [OF assms(2) i(1)])
  have rng: "in_i64 (pga_balance a - uint ?c)"
  proof -
    have "uint ?c < 2 ^ 63" using assms(8) by (simp add: fits_i64_def word_less_def)
    with assms(6,7) show ?thesis unfolding in_i64_def by linarith
  qed
  have u: "pg_check_invoice_status E (\<lambda>_ _. None) ?h ?db = (?db1, Ok Paid)"
    using fi assms(10,11) i(2) by (simp add: pg_check_invoice_status_def pg_update_invoice_def Let_def)
  have "pg_accounts ?db1 = pg_accounts ?db" by (simp add: pg_set_status_def)
  then obtain db2 where ad: "pg_admit_account None pk ?c ?db1 = (db2, Ok ())"
    "pg_get_account_balance None pk db2 = Ok (True, as_u64 (pga_balance a - uint ?c))"
    using pg_admit_effect [of ?db1 a ?c] assms(1,4,5,8) rng by auto
  have "pg_run_internal X E (\<lambda>_ _. None) s (CheckAccount pubkey) st =
      Done (send_msg (AccountAdmitted pubkey) (st\<lparr>ps_repo := db2\<rparr>), Ok ())"
    using assms(3,9) u ad(1) by (simp add: pg_get_unpaid_invoice_def del: map_map)
  moreover have "2 ^ 63 \<le> as_u64 (pga_balance a - uint ?c)"
    using rng assms(7) by (intro negative_as_u64) (auto simp: in_i64_def)
  ultimately show ?thesis using ad(2) by (auto simp: send_msg_def)
qed

definition demo_pg :: pg_db where
  "demo_pg = \<lparr>pg_accounts = [\<lparr>pga_pubkey = (replicate 64 CHR ''a''), pga_admitted = True, pga_balance = 0\<rparr>],
     pg_invoices = [\<lparr>pgi_payment_hash = ''h'', pgi_pubkey = (replicate 64 CHR ''a''), pgi_invoice = ''url'', pgi_amount = 4200, pgi_status = Paid,
       pgi_description = [], pgi_created_at = 1, pgi_confirmed_at = Some 2\<rparr>]\<rparr>"

definition demo_pg_state :: "pg_db pay_state" where
  "demo_pg_state = \<lparr>ps_repo = demo_pg, ps_sent = [], ps_stored = [], ps_broadcast = []\<rparr>"

theorem postgres_recheck_gives_credit_witness:
  "\<exists>st' w. pg_run_internal std_ext pay_demo (\<lambda>_ _. None) default_settings
       (CheckAccount (replicate 64 CHR ''a'')) demo_pg_state = Done (st', Ok ()) \<and>
     pg_get_account_balance None (replicate 64 CHR ''a'') (ps_repo st') = Ok (True, w) \<and> 2 ^ 63 \<le> w"
  by (rule postgres_recheck_gives_credit [where a = "hd (pg_accounts demo_pg)" and i = "hd (pg_invoices demo_pg)"])
    (simp_all add: demo_pg_def demo_pg_state_def keys_of_def default_settings_def fits_i64_def pg_newest_def pay_demo_facts)

end
