(* ===== verification/Pg_Store.thy ===== *)
theory Pg_Store
  imports Nip05 Pg_Accounts
begin

text \<open>
  Events, tags and verification records of the PostgreSQL repository (\<^verbatim>\<open>src/src/repo/postgres.rs\<close>, tables of
  \<^verbatim>\<open>src/src/repo/postgres_migration.rs\<close>). An event is identified by its binary id; a tag value that is lower
  case hexadecimal of even length is kept in binary form in another column. A \<^verbatim>\<open>u64\<close> time is
  converted with \<^verbatim>\<open>as i64\<close> and then to a date; \<open>ts_ok\<close> says which seconds \<^verbatim>\<open>chrono\<close> can represent, and the
  source unwraps the others. The uniqueness of tag rows never applies, since one of the two value columns is
  NULL and NULLs are distinct. A failing statement rolls its transaction back; the argument \<open>f\<close> gives the
  failures by place. Deleting an event cascades to its tags and verification records.
\<close>

section \<open>Tables\<close>

record pg_event_row =
  pge_id :: string
  pge_pub_key :: string
  pge_created_at :: int
  pge_expires_at :: "int option"
  pge_kind :: int
  pge_content :: string
  pge_hidden :: bool
  pge_delegated_by :: "string option"

record pg_tag_row =
  pgt_event_id :: string
  pgt_name :: string
  pgt_value :: "string option"
  pgt_value_hex :: "string option"

record pg_verif_row =
  pgv_id :: int
  pgv_event_id :: string
  pgv_name :: string
  pgv_verified_at :: "int option"
  pgv_failed_at :: "int option"
  pgv_fail_count :: "int option"

record pg_store =
  pgs_events :: "pg_event_row list"
  pgs_tags :: "pg_tag_row list"
  pgs_verifs :: "pg_verif_row list"

definition pg_empty :: pg_store where
  "pg_empty = \<lparr>pgs_events = [], pgs_tags = [], pgs_verifs = []\<rparr>"

text \<open>\<^verbatim>\<open>kind\<close> is a 32-bit integer column.\<close>

definition in_i32 :: "int \<Rightarrow> bool" where
  "in_i32 i \<longleftrightarrow> - (2 ^ 31) \<le> i \<and> i < 2 ^ 31"

definition pg_delete :: "(pg_event_row \<Rightarrow> bool) \<Rightarrow> pg_store \<Rightarrow> pg_store" where
  "pg_delete P db =
     (let gone = map pge_id (filter P (pgs_events db)) in
      \<lparr>pgs_events = filter (\<lambda>r. \<not> P r) (pgs_events db),
       pgs_tags = filter (\<lambda>t. pgt_event_id t \<notin> set gone) (pgs_tags db),
       pgs_verifs = filter (\<lambda>v. pgv_event_id v \<notin> set gone) (pgs_verifs db)\<rparr>)"

definition pg_hide :: "(pg_event_row \<Rightarrow> bool) \<Rightarrow> pg_store \<Rightarrow> pg_store" where
  "pg_hide P db = db\<lparr>pgs_events := map (\<lambda>r. if P r then r\<lparr>pge_hidden := True\<rparr> else r) (pgs_events db)\<rparr>"

type_synonym pg_order = "(string \<times> int) list \<Rightarrow> (string \<times> int) list"

text \<open>\<^verbatim>\<open>ORDER BY created_at DESC\<close>; the order of rows with equal times is open.\<close>

definition pg_sorts_desc :: "pg_order \<Rightarrow> bool" where
  "pg_sorts_desc ord \<longleftrightarrow> (\<forall>xs. mset (ord xs) = mset xs \<and> sorted_wrt (\<lambda>a b. snd b \<le> snd a) (ord xs))"

section \<open>Writing an event\<close>

datatype pg_place =
  PgBegin | PgShadow | PgParamShadow | PgInsert | PgTags | PgReplace | PgParamReplace | PgDelete | PgHideNew | PgCommit

text \<open>In which column a tag value is kept.\<close>

definition pg_hex_value :: "string \<Rightarrow> bool" where
  "pg_hex_value v \<longleftrightarrow> is_lower_hex v \<and> even (length v)"

definition pg_tag_matches :: "externals \<Rightarrow> string \<Rightarrow> string \<Rightarrow> pg_tag_row \<Rightarrow> bool" where
  "pg_tag_matches X name v t \<longleftrightarrow> pgt_name t = name \<and>
     (if pg_hex_value v then pgt_value_hex t \<noteq> None \<and> pgt_value_hex t = hex_decode X v else pgt_value t = Some v)"

definition pg_superseded :: "event \<Rightarrow> string option \<Rightarrow> pg_store \<Rightarrow> bool" where
  "pg_superseded e pk db \<longleftrightarrow> is_replaceable e \<and>
     list_ex (\<lambda>r. pk = Some (pge_pub_key r) \<and> pge_kind r = as_i64 (ev_kind e) \<and> as_i64 (ev_created_at e) \<le> pge_created_at r)
       (pgs_events db)"

definition pg_d_rows :: "externals \<Rightarrow> string option \<Rightarrow> int \<Rightarrow> string \<Rightarrow> pg_store \<Rightarrow> (pg_event_row \<times> pg_tag_row) list" where
  "pg_d_rows X pk k d db =
     filter (\<lambda>(r, t). pgt_event_id t = pge_id r \<and> pk = Some (pge_pub_key r) \<and> pge_kind r = k \<and> pg_tag_matches X ''d'' d t)
       (List.product (pgs_events db) (pgs_tags db))"

definition pg_param_superseded :: "externals \<Rightarrow> event \<Rightarrow> string option \<Rightarrow> pg_store \<Rightarrow> bool" where
  "pg_param_superseded X e pk db =
     (case distinct_param e of None \<Rightarrow> False
      | Some d \<Rightarrow> list_ex (\<lambda>(r, t). as_i64 (ev_created_at e) \<le> pge_created_at r) (pg_d_rows X pk (as_i64 (ev_kind e)) d db))"

definition pg_tag_row_of :: "externals \<Rightarrow> string \<Rightarrow> string list \<Rightarrow> pg_tag_row" where
  "pg_tag_row_of X h t =
     (if pg_hex_value (t ! 1)
      then \<lparr>pgt_event_id = h, pgt_name = t ! 0, pgt_value = None, pgt_value_hex = hex_decode X (t ! 1)\<rparr>
      else \<lparr>pgt_event_id = h, pgt_name = t ! 0, pgt_value = Some (t ! 1), pgt_value_hex = None\<rparr>)"

definition pg_new_row :: "externals \<Rightarrow> (int \<Rightarrow> bool) \<Rightarrow> event \<Rightarrow> string \<Rightarrow> string \<Rightarrow> string \<Rightarrow> pg_event_row" where
  "pg_new_row X ts_ok e h a content =
     \<lparr>pge_id = h, pge_pub_key = a, pge_created_at = as_i64 (ev_created_at e),
      pge_expires_at = (case expiration e of None \<Rightarrow> None
        | Some x \<Rightarrow> if ts_ok (as_i64 x) then Some (as_i64 x) else None),
      pge_kind = as_i64 (ev_kind e), pge_content = content, pge_hidden = False,
      pge_delegated_by = Option.bind (ev_delegated_by e) (hex_decode X)\<rparr>"

definition pg_insert :: "externals \<Rightarrow> (int \<Rightarrow> bool) \<Rightarrow> event \<Rightarrow> string \<Rightarrow> string \<Rightarrow> string \<Rightarrow> pg_store \<Rightarrow> pg_store" where
  "pg_insert X ts_ok e h a content db =
     db\<lparr>pgs_events := pgs_events db @ [pg_new_row X ts_ok e h a content],
        pgs_tags := pgs_tags db @ map (pg_tag_row_of X h) (searchable_tags e)\<rparr>"

definition pg_drop_replaced :: "pg_order \<Rightarrow> event \<Rightarrow> string \<Rightarrow> pg_store \<Rightarrow> pg_store" where
  "pg_drop_replaced ord e a db =
     (if is_replaceable e then
        (let same = (\<lambda>r. pge_kind r = as_i64 (ev_kind e) \<and> pge_pub_key r = a);
             kept = take 1 (ord (map (\<lambda>r. (pge_id r, pge_created_at r)) (filter same (pgs_events db))))
         in pg_delete (\<lambda>r. same r \<and> pge_id r \<notin> fst ` set kept) db)
      else db)"

definition pg_drop_param_replaced :: "externals \<Rightarrow> pg_order \<Rightarrow> event \<Rightarrow> string \<Rightarrow> pg_store \<Rightarrow> pg_store" where
  "pg_drop_param_replaced X ord e a db =
     (case distinct_param e of
        None \<Rightarrow> db
      | Some d \<Rightarrow>
        (let old = drop 1 (ord (map (\<lambda>(r, t). (pge_id r, pge_created_at r)) (pg_d_rows X (Some a) (as_i64 (ev_kind e)) d db)))
         in pg_delete (\<lambda>r. pge_kind r = as_i64 (ev_kind e) \<and> pge_pub_key r = a \<and> pge_id r \<in> fst ` set old) db))"

text \<open>A deletion request hides; without a well-formed target the statement ends in \<^verbatim>\<open>IN ()\<close>, which PostgreSQL
  refuses. Another event looks for an earlier deletion by comparing the text column with the binary id.\<close>

definition pg_already_deleted :: "string \<Rightarrow> string \<Rightarrow> pg_store \<Rightarrow> bool" where
  "pg_already_deleted h a db \<longleftrightarrow>
     list_ex (\<lambda>r. pge_pub_key r = a \<and> pge_kind r = 5 \<and>
       list_ex (\<lambda>t. pgt_event_id t = pge_id r \<and> pgt_name t = ''e'' \<and> pgt_value t = Some h) (pgs_tags db))
     (pgs_events db)"

definition pg_syntax_error :: error where
  "pg_syntax_error = SqlxError (OtherSqlxError ''syntax error'')"

definition pg_apply_deletions ::
  "externals \<Rightarrow> (pg_place \<Rightarrow> error option) \<Rightarrow> event \<Rightarrow> string \<Rightarrow> string \<Rightarrow> pg_store \<Rightarrow> (pg_store \<times> nat, error) result" where
  "pg_apply_deletions X f e h a db =
     (if ev_kind e = 5 then
        (case f PgDelete of Some err \<Rightarrow> Err err
         | None \<Rightarrow>
           if deletion_targets X e = [] then Err pg_syntax_error
           else Ok (pg_hide (\<lambda>r. pge_kind r \<noteq> 5 \<and> pge_kind r \<noteq> 1059 \<and> pge_pub_key r = a \<and>
                  pge_id r \<in> set (deletion_targets X e)) db, 1))
      else if ev_kind e \<noteq> 1059 then
        (case f PgDelete of Some err \<Rightarrow> Err err
         | None \<Rightarrow>
           if pg_already_deleted h a db then
             (case f PgHideNew of Some err \<Rightarrow> Err err | None \<Rightarrow> Ok (pg_hide (\<lambda>r. pge_id r = h) db, 0))
           else Ok (db, 1))
      else Ok (db, 1))"

definition pg_store_event ::
  "externals \<Rightarrow> pg_order \<Rightarrow> (int \<Rightarrow> bool) \<Rightarrow> (pg_place \<Rightarrow> error option) \<Rightarrow> event \<Rightarrow> string \<Rightarrow> string \<Rightarrow> string \<Rightarrow> pg_store \<Rightarrow>
     pg_store \<times> (nat, error) result" where
  "pg_store_event X ord ts_ok f e h a content db =
     (case f PgTags of Some err \<Rightarrow> (db, Err err) | None \<Rightarrow>
      (case (if is_replaceable e then f PgReplace else None) of Some err \<Rightarrow> (db, Err err) | None \<Rightarrow>
      (case (if distinct_param e \<noteq> None then f PgParamReplace else None) of Some err \<Rightarrow> (db, Err err) | None \<Rightarrow>
      (let db1 = pg_insert X ts_ok e h a content db;
           db2 = pg_drop_replaced ord e a db1;
           db3 = pg_drop_param_replaced X ord e a db2
       in case pg_apply_deletions X f e h a db3 of
            Err err \<Rightarrow> (db, Err err)
          | Ok (db4, n) \<Rightarrow> (case f PgCommit of Some err \<Rightarrow> (db, Err err) | None \<Rightarrow> (db4, Ok n))))))"

definition pg_write_event ::
  "externals \<Rightarrow> pg_order \<Rightarrow> (int \<Rightarrow> bool) \<Rightarrow> (pg_place \<Rightarrow> error option) \<Rightarrow> event \<Rightarrow> pg_store \<Rightarrow>
     (pg_store \<times> (nat, error) result) exec" where
  "pg_write_event X ord ts_ok f e db =
     (case f PgBegin of Some err \<Rightarrow> Done (db, Err err) | None \<Rightarrow>
      (case event_to_string X e of None \<Rightarrow> Panic | Some content \<Rightarrow>
      if \<not> ts_ok (as_i64 (ev_created_at e)) then Panic
      else
      (case (if is_replaceable e then f PgShadow else None) of Some err \<Rightarrow> Done (db, Err err) | None \<Rightarrow>
      if pg_superseded e (hex_decode X (ev_pubkey e)) db then Done (db, Ok 0)
      else
      (case (if distinct_param e \<noteq> None then f PgParamShadow else None) of Some err \<Rightarrow> Done (db, Err err) | None \<Rightarrow>
      if pg_param_superseded X e (hex_decode X (ev_pubkey e)) db then Done (db, Ok 0)
      else
      (case f PgInsert of Some err \<Rightarrow> Done (db, Err err) | None \<Rightarrow>
      (case (hex_decode X (ev_id e), hex_decode X (ev_pubkey e)) of
         (Some h, Some a) \<Rightarrow>
           if \<not> in_i32 (as_i64 (ev_kind e)) then Done (db, Err out_of_range)
           else if h \<in> pge_id ` set (pgs_events db) then Done (db, Ok 0)
           else Done (pg_store_event X ord ts_ok f e h a content db)
       | _ \<Rightarrow> Done (db, Err (SqlxError (OtherSqlxError ''null value in column''))))))))) "

definition pg_delete_expired ::
  "(int \<Rightarrow> bool) \<Rightarrow> error option \<Rightarrow> error option \<Rightarrow> u64 \<Rightarrow> pg_store \<Rightarrow> (pg_store \<times> (nat, error) result) exec" where
  "pg_delete_expired ts_ok f_begin f now db =
     (case f_begin of Some err \<Rightarrow> Done (db, Err err)
      | None \<Rightarrow>
        if \<not> ts_ok (as_i64 now) then Panic
        else (case f of Some err \<Rightarrow> Done (db, Err err)
          | None \<Rightarrow> (let P = (\<lambda>r. case pge_expires_at r of None \<Rightarrow> False | Some x \<Rightarrow> x \<le> as_i64 now)
                in Done (pg_delete P db, Ok (length (filter P (pgs_events db)))))))"

section \<open>Verification records\<close>

text \<open>The new row gets the identity \<open>vid\<close> from a sequence.\<close>

definition pg_create_verification_record ::
  "externals \<Rightarrow> error option \<Rightarrow> int \<Rightarrow> int \<Rightarrow> string \<Rightarrow> string \<Rightarrow> pg_store \<Rightarrow> pg_store \<times> (unit, error) result" where
  "pg_create_verification_record X f vid now eid name db =
     (case f of Some err \<Rightarrow> (db, Err err)
      | None \<Rightarrow>
        (let vs = filter (\<lambda>v. pgv_name v \<noteq> name) (pgs_verifs db) in
         case hex_decode X eid of
           Some h \<Rightarrow>
             if h \<in> pge_id ` set (pgs_events db) \<and> vid \<notin> pgv_id ` set vs
             then (db\<lparr>pgs_verifs := vs @ [\<lparr>pgv_id = vid, pgv_event_id = h, pgv_name = name, pgv_verified_at = Some now,
                    pgv_failed_at = None, pgv_fail_count = Some 0\<rparr>]\<rparr>, Ok ())
             else (db, Err (SqlxError (OtherSqlxError ''constraint violation'')))
         | None \<Rightarrow> (db, Err (SqlxError (OtherSqlxError ''null value in column'')))))"

definition pg_on_verif :: "u64 \<Rightarrow> (pg_verif_row \<Rightarrow> pg_verif_row) \<Rightarrow> pg_store \<Rightarrow> pg_store" where
  "pg_on_verif i g db = db\<lparr>pgs_verifs := map (\<lambda>v. if pgv_id v = as_i64 i then g v else v) (pgs_verifs db)\<rparr>"

definition pg_update_verification_timestamp ::
  "(int \<Rightarrow> bool) \<Rightarrow> error option \<Rightarrow> u64 \<Rightarrow> u64 \<Rightarrow> pg_store \<Rightarrow> (pg_store \<times> (unit, error) result) exec" where
  "pg_update_verification_timestamp ts_ok f verif_time i db =
     (if \<not> ts_ok (as_i64 verif_time) then Panic
      else (case f of Some err \<Rightarrow> Done (db, Err err)
        | None \<Rightarrow> Done (pg_on_verif i (\<lambda>v. v\<lparr>pgv_verified_at := Some (as_i64 verif_time), pgv_fail_count := Some 0\<rparr>) db, Ok ())))"

definition pg_fail_verification :: "error option \<Rightarrow> int \<Rightarrow> u64 \<Rightarrow> pg_store \<Rightarrow> pg_store \<times> (unit, error) result" where
  "pg_fail_verification f now i db =
     (case f of Some err \<Rightarrow> (db, Err err)
      | None \<Rightarrow>
        if list_ex (\<lambda>v. pgv_id v = as_i64 i \<and> pgv_fail_count v = Some (2 ^ 31 - 1)) (pgs_verifs db) then (db, Err out_of_range)
        else (pg_on_verif i (\<lambda>v. v\<lparr>pgv_failed_at := Some now, pgv_fail_count := map_option (\<lambda>n. n + 1) (pgv_fail_count v)\<rparr>) db, Ok ()))"

definition pg_delete_verification :: "error option \<Rightarrow> u64 \<Rightarrow> pg_store \<Rightarrow> pg_store \<times> (unit, error) result" where
  "pg_delete_verification f i db =
     (case f of Some err \<Rightarrow> (db, Err err)
      | None \<Rightarrow> (db\<lparr>pgs_verifs := filter (\<lambda>v. pgv_id v \<noteq> as_i64 i) (pgs_verifs db)\<rparr>, Ok ()))"

text \<open>Reading a row (\<^verbatim>\<open>FromRow\<close>): a NULL in a column read with \<^verbatim>\<open>get\<close> is a panic.\<close>

definition pg_read_record ::
  "externals \<Rightarrow> pg_event_row option \<Rightarrow> pg_verif_row \<Rightarrow> (verification_record, error) result exec" where
  "pg_read_record X e v =
     (case nip05_try_from X (pgv_name v) of
        Err _ \<Rightarrow> Done (Err (SqlxError RowNotFound))
      | Ok name \<Rightarrow>
        (case (e, pgv_fail_count v) of
           (Some r, Some n) \<Rightarrow> Done (Ok \<lparr>vc_rowid = as_u64 (pgv_id v), vc_name = name, vc_address = hex_encode X (pge_pub_key r),
             vc_event = hex_encode X (pge_id r), vc_event_created = as_u64 (pge_created_at r),
             vc_last_success = map_option as_u64 (pgv_verified_at v), vc_last_failure = map_option as_u64 (pgv_failed_at v),
             vc_failure_count = as_u64 n\<rparr>)
         | _ \<Rightarrow> Panic))"

type_synonym pg_verif_join = "pg_event_row option \<times> pg_verif_row"

definition pg_verif_rows :: "pg_store \<Rightarrow> pg_verif_join list" where
  "pg_verif_rows db = map (\<lambda>v. (List.find (\<lambda>r. pge_id r = pgv_event_id v) (pgs_events db), v)) (pgs_verifs db)"

definition pg_fetch_record ::
  "externals \<Rightarrow> error option \<Rightarrow> pg_verif_join list \<Rightarrow> (verification_record, error) result exec" where
  "pg_fetch_record X f rows =
     (case f of Some err \<Rightarrow> Done (Err err)
      | None \<Rightarrow> (case rows of [] \<Rightarrow> Done (Err (SqlxError RowNotFound)) | (e, v) # _ \<Rightarrow> pg_read_record X e v))"

definition pg_get_latest_user_verification ::
  "externals \<Rightarrow> (pg_verif_join list \<Rightarrow> pg_verif_join list) \<Rightarrow> error option \<Rightarrow> string \<Rightarrow> pg_store \<Rightarrow>
     (verification_record, error) result exec" where
  "pg_get_latest_user_verification X ord f pub_key db =
     pg_fetch_record X f (ord (filter (\<lambda>(e, v). case e of None \<Rightarrow> False | Some r \<Rightarrow> hex_decode X pub_key = Some (pge_pub_key r))
       (pg_verif_rows db)))"

definition pg_due :: "int \<Rightarrow> pg_verif_row \<Rightarrow> bool" where
  "pg_due before v \<longleftrightarrow> (case pgv_verified_at v of None \<Rightarrow> True | Some t \<Rightarrow> t < before) \<and>
     (case pgv_failed_at v of None \<Rightarrow> True | Some t \<Rightarrow> t < before)"

definition pg_get_oldest_user_verification ::
  "externals \<Rightarrow> (int \<Rightarrow> bool) \<Rightarrow> (pg_verif_join list \<Rightarrow> pg_verif_join list) \<Rightarrow> error option \<Rightarrow> u64 \<Rightarrow> pg_store \<Rightarrow>
     (verification_record, error) result exec" where
  "pg_get_oldest_user_verification X ts_ok ord f before db =
     (if \<not> ts_ok (as_i64 before) then Panic
      else pg_fetch_record X f (ord (filter (\<lambda>(e, v). pg_due (as_i64 before) v) (pg_verif_rows db))))"

section \<open>Sequences of operations\<close>

datatype pg_op =
    PgWrite "pg_place \<Rightarrow> error option" event
  | PgExpire "error option" "error option" u64
  | PgCreateVerif "error option" int int string string
  | PgUpdateVerif "error option" u64 u64
  | PgFailVerif "error option" int u64
  | PgDeleteVerif "error option" u64

definition after :: "'d \<Rightarrow> ('d \<times> 'r) exec \<Rightarrow> 'd" where
  "after db r = (case r of Panic \<Rightarrow> db | Done (db', _) \<Rightarrow> db')"

text \<open>A panic drops the connection, and the transaction with it.\<close>

fun pg_ev_step :: "externals \<Rightarrow> pg_order \<Rightarrow> (int \<Rightarrow> bool) \<Rightarrow> pg_op \<Rightarrow> pg_store \<Rightarrow> pg_store" where
  "pg_ev_step X ord ts_ok (PgWrite f e) db = after db (pg_write_event X ord ts_ok f e db)"
| "pg_ev_step X ord ts_ok (PgExpire f1 f2 now) db = after db (pg_delete_expired ts_ok f1 f2 now db)"
| "pg_ev_step X ord ts_ok (PgCreateVerif f vid now i n) db = fst (pg_create_verification_record X f vid now i n db)"
| "pg_ev_step X ord ts_ok (PgUpdateVerif f t i) db = after db (pg_update_verification_timestamp ts_ok f t i db)"
| "pg_ev_step X ord ts_ok (PgFailVerif f now i) db = fst (pg_fail_verification f now i db)"
| "pg_ev_step X ord ts_ok (PgDeleteVerif f i) db = fst (pg_delete_verification f i db)"

section \<open>Invariant\<close>

definition pg_inv :: "pg_store \<Rightarrow> bool" where
  "pg_inv db \<longleftrightarrow>
     distinct (map pge_id (pgs_events db)) \<and>
     pgt_event_id ` set (pgs_tags db) \<subseteq> pge_id ` set (pgs_events db) \<and>
     distinct (map pgv_id (pgs_verifs db)) \<and> pgv_event_id ` set (pgs_verifs db) \<subseteq> pge_id ` set (pgs_events db)"

lemma pg_delete_sel [simp]: "pgs_events (pg_delete P db) = filter (\<lambda>r. \<not> P r) (pgs_events db)"
  by (simp add: pg_delete_def Let_def)

lemma pg_delete_inv: "pg_inv db \<Longrightarrow> pg_inv (pg_delete P db)"
  unfolding pg_inv_def pg_delete_def Let_def by (simp add: distinct_map_filterI surviving_refs)

lemma pg_hide_sel [simp]:
  "map pge_id (pgs_events (pg_hide P db)) = map pge_id (pgs_events db)"
  "pgs_tags (pg_hide P db) = pgs_tags db" "pgs_verifs (pg_hide P db) = pgs_verifs db"
  by (simp_all add: pg_hide_def)

lemma pg_hide_inv: "pg_inv db \<Longrightarrow> pg_inv (pg_hide P db)"
  unfolding pg_inv_def by (metis pg_hide_sel set_map)

lemma pg_tag_row_of_event [simp]: "pgt_event_id (pg_tag_row_of X h t) = h" "pgt_name (pg_tag_row_of X h t) = t ! 0"
  by (simp_all add: pg_tag_row_of_def)

lemma pg_new_row_sel [simp]:
  "pge_id (pg_new_row X tk e h a c) = h" "pge_pub_key (pg_new_row X tk e h a c) = a" "\<not> pge_hidden (pg_new_row X tk e h a c)"
  "pge_kind (pg_new_row X tk e h a c) = as_i64 (ev_kind e)" "pge_content (pg_new_row X tk e h a c) = c"
  "pge_created_at (pg_new_row X tk e h a c) = as_i64 (ev_created_at e)"
  by (simp_all add: pg_new_row_def)

lemma pg_insert_inv: "pg_inv db \<Longrightarrow> h \<notin> pge_id ` set (pgs_events db) \<Longrightarrow> pg_inv (pg_insert X tk e h a c db)"
  by (auto simp: pg_inv_def pg_insert_def)

lemma pg_drops_inv:
  "pg_inv db \<Longrightarrow> pg_inv (pg_drop_replaced ord e a db)" "pg_inv db \<Longrightarrow> pg_inv (pg_drop_param_replaced X ord e a db)"
  by (simp_all add: pg_drop_replaced_def pg_drop_param_replaced_def Let_def pg_delete_inv split: option.splits)

lemma pg_apply_deletions_inv: "pg_apply_deletions X f e h a db = Ok (db', n) \<Longrightarrow> pg_inv db \<Longrightarrow> pg_inv db'"
  by (auto simp: pg_apply_deletions_def pg_hide_inv split: if_splits option.splits)

text \<open>What storing an event does when it does something.\<close>

lemma pg_write_cases:
  obtains (unchanged) "after db (pg_write_event X ord tk f e db) = db"
  | (stored) h a c db' n where "hex_decode X (ev_id e) = Some h" "hex_decode X (ev_pubkey e) = Some a" "event_to_string X e = Some c"
      "h \<notin> pge_id ` set (pgs_events db)" "\<not> pg_superseded e (Some a) db" "\<not> pg_param_superseded X e (Some a) db"
      "pg_apply_deletions X f e h a (pg_drop_param_replaced X ord e a (pg_drop_replaced ord e a (pg_insert X tk e h a c db))) = Ok (db', n)"
      "pg_write_event X ord tk f e db = Done (db', Ok n)"
proof (cases "\<exists>db' n. pg_write_event X ord tk f e db = Done (db', Ok n) \<and> db' \<noteq> db")
  case True
  then show thesis using stored
    by (auto simp: pg_write_event_def pg_store_event_def Let_def split: option.splits if_splits result.splits prod.splits)
next
  case False
  have "after db (pg_write_event X ord tk f e db) = db"
  proof (cases "pg_write_event X ord tk f e db")
    case (Done p)
    obtain db' r where p: "p = (db', r)" by force
    show ?thesis
    proof (cases r)
      case (Ok n)
      with False Done p have "db' = db" by auto
      with Done p show ?thesis by (simp add: after_def)
    next
      case (Err x)
      with Done p have "db' = db"
        by (auto simp: pg_write_event_def pg_store_event_def Let_def split: option.splits if_splits result.splits prod.splits)
      with Done p show ?thesis by (simp add: after_def)
    qed
  qed (simp add: after_def)
  then show thesis by (rule unchanged)
qed

lemma pg_on_verif_events [simp]: "pgs_events (pg_on_verif i g db) = pgs_events db"
  by (simp add: pg_on_verif_def)

lemma pg_on_verif_inv:
  assumes "\<And>v. pgv_id (g v) = pgv_id v" "\<And>v. pgv_event_id (g v) = pgv_event_id v"
  shows "pg_inv (pg_on_verif i g db) = pg_inv db"
proof -
  let ?g = "\<lambda>v. if pgv_id v = as_i64 i then g v else v"
  have "pgv_id \<circ> ?g = pgv_id" "pgv_event_id \<circ> ?g = pgv_event_id" using assms by auto
  then have "map pgv_id (map ?g (pgs_verifs db)) = map pgv_id (pgs_verifs db)"
    "pgv_event_id ` set (map ?g (pgs_verifs db)) = pgv_event_id ` set (pgs_verifs db)"
    by (simp_all only: map_map flip: set_map)
  then show ?thesis unfolding pg_inv_def pg_on_verif_def by (simp del: map_map set_map)
qed

lemma pg_write_inv:
  assumes "pg_inv db"
  shows "pg_inv (after db (pg_write_event X ord tk f e db))"
proof (cases rule: pg_write_cases [of db X ord tk f e])
  case (stored h a c db' n)
  from pg_insert_inv [OF assms stored(4)] pg_apply_deletions_inv [OF stored(7)] pg_drops_inv stored(8) show ?thesis
    by (simp add: after_def)
qed (use assms in simp)

lemma pg_step_inv:
  assumes "pg_inv db"
  shows "pg_inv (pg_ev_step X ord tk p db)"
proof (cases p)
  case (PgCreateVerif f vid now i n)
  have "distinct (map pgv_id (filter Q (pgs_verifs db)))" for Q
    using assms by (simp add: pg_inv_def distinct_map_filterI)
  with PgCreateVerif assms show ?thesis
    by (auto simp: pg_create_verification_record_def Let_def pg_inv_def split: option.splits)
next
  case (PgDeleteVerif f i)
  with assms show ?thesis
    by (auto simp: pg_delete_verification_def pg_inv_def distinct_map_filterI split: option.splits)
next
  case (PgWrite f e)
  with assms show ?thesis by (simp add: pg_write_inv)
qed (use assms in \<open>auto simp: pg_delete_expired_def pg_delete_inv pg_update_verification_timestamp_def pg_on_verif_inv
    pg_fail_verification_def after_def Let_def split: option.splits\<close>)

lemma pg_run_inv: "pg_inv db \<Longrightarrow> pg_inv (fold (pg_ev_step X ord tk) ps db)"
  by (induction ps arbitrary: db) (auto intro: pg_step_inv)

section \<open>Gift wraps\<close>

text \<open>What a recipient relies on, of either repository: no operation takes away what the store \<open>holds\<close>.\<close>

locale keeper =
  fixes step :: "'op \<Rightarrow> 'db \<Rightarrow> 'db" and holds_row :: "'row \<Rightarrow> 'db \<Rightarrow> bool"
  assumes kept: "holds_row r db \<Longrightarrow> holds_row r (step p db)"
begin

lemma kept_run: "holds_row r db \<Longrightarrow> holds_row r (fold step ps db)"
  by (induction ps arbitrary: db) (auto intro: kept)

end

interpretation sqlite_wraps: keeper "ev_step X ord"
  "\<lambda>r db. r \<in> set (db_events db) \<and> er_kind r = 1059 \<and> er_expires_at r = None" for X ord
  by unfold_locales (auto intro: gift_wrap_step)

lemma as_i64_numeral: "as_i64 (1059 :: u64) = 1059"
  by (simp add: as_i64_fits fits_i64_def)

lemma as_i64_eq [simp]: "as_i64 v = as_i64 w \<longleftrightarrow> v = w"
  unfolding as_i64_def by (metis signed_word_eqI)

lemma gift_wrap_kind: "as_i64 (ev_kind e) = 1059 \<longleftrightarrow> ev_kind e = 1059"
  using as_i64_eq [of "ev_kind e" 1059] by (simp add: as_i64_numeral)

lemma pg_apply_deletions_kept:
  assumes "pg_apply_deletions X f e h a db = Ok (db', n)" "r \<in> set (pgs_events db)" "pge_kind r = 1059" "pge_id r \<noteq> h"
  shows "r \<in> set (pgs_events db')"
  using assms by (force simp: pg_apply_deletions_def pg_hide_def split: if_splits option.splits)

lemma pg_drops_kept:
  assumes "r \<in> set (pgs_events db)" "pge_kind r = 1059"
  shows "r \<in> set (pgs_events (pg_drop_replaced ord e a db))" "r \<in> set (pgs_events (pg_drop_param_replaced X ord e a db))"
  using assms gift_wrap_kind [of e]
  by (auto simp: pg_drop_replaced_def pg_drop_param_replaced_def Let_def is_replaceable_def distinct_param_def is_param_replaceable_def
      split: option.splits)

lemma pg_write_kept:
  assumes "r \<in> set (pgs_events db)" "pge_kind r = 1059"
  shows "r \<in> set (pgs_events (after db (pg_write_event X ord tk f e db)))"
proof (cases rule: pg_write_cases [of db X ord tk f e])
  case (stored h a c db' n)
  have "r \<in> set (pgs_events (pg_insert X tk e h a c db))" using assms(1) by (simp add: pg_insert_def)
  moreover have "pge_id r \<noteq> h" using assms(1) stored(4) by auto
  ultimately have "r \<in> set (pgs_events db')"
    by (intro pg_apply_deletions_kept [OF stored(7)] pg_drops_kept assms(2))
  with stored(8) show ?thesis by (simp add: after_def)
qed (use assms in simp)

interpretation pg_wraps: keeper "pg_ev_step X ord tk"
  "\<lambda>r db. r \<in> set (pgs_events db) \<and> pge_kind r = 1059 \<and> pge_expires_at r = None" for X ord tk
proof unfold_locales
  fix r :: pg_event_row and db :: pg_store and p
  assume a: "r \<in> set (pgs_events db) \<and> pge_kind r = 1059 \<and> pge_expires_at r = None"
  then have "r \<in> set (pgs_events (pg_ev_step X ord tk p db))"
  proof (cases p)
    case (PgWrite f e)
    with a show ?thesis by (simp add: pg_write_kept)
  qed (auto simp: pg_delete_expired_def pg_create_verification_record_def pg_update_verification_timestamp_def
      pg_fail_verification_def pg_delete_verification_def after_def Let_def split: option.splits)
  with a show "r \<in> set (pgs_events (pg_ev_step X ord tk p db)) \<and> pge_kind r = 1059 \<and> pge_expires_at r = None" by simp
qed

text \<open>The tags of a stored gift wrap stay with it.\<close>

definition pg_tagged :: "pg_event_row \<times> pg_tag_row \<Rightarrow> pg_store \<Rightarrow> bool" where
  "pg_tagged rt db \<longleftrightarrow> pg_inv db \<and> fst rt \<in> set (pgs_events db) \<and> pge_kind (fst rt) = 1059 \<and> pge_expires_at (fst rt) = None \<and>
     snd rt \<in> set (pgs_tags db) \<and> pgt_event_id (snd rt) = pge_id (fst rt)"

lemma pg_delete_tag:
  assumes "pg_inv db" "r \<in> set (pgs_events db)" "\<not> P r" "t \<in> set (pgs_tags db)" "pgt_event_id t = pge_id r"
  shows "t \<in> set (pgs_tags (pg_delete P db))"
  using assms by (auto simp: pg_delete_def Let_def pg_inv_def distinct_map dest: inj_onD)

lemma pg_drops_tag:
  assumes "pg_inv db" "r \<in> set (pgs_events db)" "pge_kind r = 1059" "t \<in> set (pgs_tags db)" "pgt_event_id t = pge_id r"
  shows "t \<in> set (pgs_tags (pg_drop_replaced ord e a db))" "t \<in> set (pgs_tags (pg_drop_param_replaced X ord e a db))"
  using assms gift_wrap_kind [of e]
  by (auto simp: pg_drop_replaced_def pg_drop_param_replaced_def Let_def is_replaceable_def distinct_param_def is_param_replaceable_def
      intro!: pg_delete_tag split: option.splits)

lemma pg_write_tag:
  assumes "pg_inv db" "r \<in> set (pgs_events db)" "pge_kind r = 1059" "t \<in> set (pgs_tags db)" "pgt_event_id t = pge_id r"
  shows "t \<in> set (pgs_tags (after db (pg_write_event X ord tk f e db)))"
proof (cases rule: pg_write_cases [of db X ord tk f e])
  case (stored h a c db' n)
  let ?d1 = "pg_insert X tk e h a c db" and ?d2 = "pg_drop_replaced ord e a (pg_insert X tk e h a c db)"
  have 1: "pg_inv ?d1" "r \<in> set (pgs_events ?d1)" "t \<in> set (pgs_tags ?d1)"
    using assms pg_insert_inv [OF assms(1) stored(4)] by (simp_all add: pg_insert_def)
  then have 2: "pg_inv ?d2" "r \<in> set (pgs_events ?d2)" "t \<in> set (pgs_tags ?d2)"
    using assms(3,5) by (simp_all add: pg_drops_inv pg_drops_kept pg_drops_tag)
  then have "t \<in> set (pgs_tags (pg_drop_param_replaced X ord e a ?d2))" using assms(3,5) by (simp add: pg_drops_tag)
  with stored(7) have "t \<in> set (pgs_tags db')" by (auto simp: pg_apply_deletions_def split: if_splits option.splits)
  with stored(8) show ?thesis by (simp add: after_def)
qed (use assms in simp)

lemma pg_tagged_step:
  assumes "pg_tagged (r, t) db"
  shows "pg_tagged (r, t) (pg_ev_step X ord tk p db)"
proof -
  have a: "pg_inv db" "r \<in> set (pgs_events db)" "pge_kind r = 1059" "pge_expires_at r = None" "t \<in> set (pgs_tags db)"
    "pgt_event_id t = pge_id r" using assms by (simp_all add: pg_tagged_def)
  have "t \<in> set (pgs_tags (pg_ev_step X ord tk p db))"
  proof (cases p)
    case (PgWrite f e)
    with a show ?thesis by (simp add: pg_write_tag)
  qed (use a in \<open>auto simp: pg_delete_expired_def pg_create_verification_record_def pg_update_verification_timestamp_def
      pg_fail_verification_def pg_delete_verification_def pg_on_verif_def after_def Let_def intro!: pg_delete_tag split: option.splits\<close>)
  with a pg_wraps.kept [of r db X ord tk p] pg_step_inv [OF a(1)] show ?thesis by (simp add: pg_tagged_def)
qed

interpretation pg_tags: keeper "pg_ev_step X ord tk" pg_tagged for X ord tk
  by unfold_locales (metis pg_tagged_step prod.exhaust)

section \<open>Deletion\<close>

lemma pg_write_stored:
  assumes "pg_write_event X ord tk f e db = Done (db', Ok (Suc n))"
  obtains h a c where "hex_decode X (ev_id e) = Some h" "hex_decode X (ev_pubkey e) = Some a" "event_to_string X e = Some c"
    "pg_apply_deletions X f e h a (pg_drop_param_replaced X ord e a (pg_drop_replaced ord e a (pg_insert X tk e h a c db))) =
       Ok (db', Suc n)"
  using assms that
  by (auto simp: pg_write_event_def pg_store_event_def Let_def split: option.splits if_splits result.splits prod.splits)

lemma pg_drops_plain:
  assumes "\<not> is_replaceable e" "\<not> is_param_replaceable e"
  shows "pg_drop_replaced ord e a db = db" "pg_drop_param_replaced X ord e a db = db"
  using assms by (simp_all add: pg_drop_replaced_def pg_drop_param_replaced_def distinct_param_def)

lemma pg_deletion_stored:
  assumes "pg_write_event X ord tk f d db = Done (db', Ok 1)" "ev_kind d = 5"
  obtains h a c P where "hex_decode X (ev_id d) = Some h" "hex_decode X (ev_pubkey d) = Some a"
    "db' = pg_hide P (pg_insert X tk d h a c db)"
proof -
  have "\<not> is_replaceable d" "\<not> is_param_replaceable d"
    using assms(2) by (simp_all add: is_replaceable_def is_param_replaceable_def)
  note drops = pg_drops_plain [OF this]
  from assms(1) obtain h a c where "hex_decode X (ev_id d) = Some h" "hex_decode X (ev_pubkey d) = Some a"
    "pg_apply_deletions X f d h a (pg_insert X tk d h a c db) = Ok (db', 1)"
    by (auto simp: drops elim: pg_write_stored [where n = 0, simplified])
  with that assms(2) show thesis by (auto simp: pg_apply_deletions_def split: option.splits if_splits)
qed

text \<open>Every \<^verbatim>\<open>e\<close> tag in the table has a hexadecimal value.\<close>

definition hex_e_tags :: "pg_store \<Rightarrow> bool" where
  "hex_e_tags db \<longleftrightarrow> (\<forall>t\<in>set (pgs_tags db). pgt_name t = ''e'' \<longrightarrow> pgt_value t = None)"

lemma hex_e_tags_insert:
  assumes "hex_e_tags db" "\<forall>t\<in>set (searchable_tags d). t ! 0 = ''e'' \<longrightarrow> pg_hex_value (t ! 1)"
  shows "hex_e_tags (pg_hide P (pg_insert X tk d h a c db))"
  using assms by (auto simp: hex_e_tags_def pg_insert_def pg_tag_row_of_def)

lemma not_already_deleted:
  assumes "hex_e_tags db" "h \<notin> pge_id ` set (pgs_events db)" "ev_kind e \<noteq> 5" "\<And>r. r \<in> set (pgs_events db) \<Longrightarrow> pge_id r \<noteq> h"
  shows "\<not> pg_already_deleted h a (pg_insert X tk e h b c db)"
proof -
  have k: "as_i64 (ev_kind e) \<noteq> 5" using as_i64_eq [of "ev_kind e" 5] assms(3) by (simp add: as_i64_fits fits_i64_def)
  have "\<not> (pgt_event_id t = pge_id r \<and> pgt_name t = ''e'' \<and> pgt_value t = Some h)"
    if "r \<in> set (pgs_events db)" "t \<in> set (pgs_tags (pg_insert X tk e h b c db))" for r t
    using that assms(1) assms(4) [OF that(1)] by (auto simp: hex_e_tags_def pg_insert_def)
  with k show ?thesis by (auto simp: pg_already_deleted_def list_ex_iff pg_insert_def)
qed

section \<open>Properties\<close>

text \<open>C16: Whatever sequence of writes, expiry sweeps and verification updates the PostgreSQL
  repository goes through, and whichever of them fail or panic, event ids and verification
  ids stay unique, and tag rows and verification records refer to stored events.\<close>

theorem postgres_store_invariant: "pg_inv (fold (pg_ev_step X ord tk) ps pg_empty)"
  by (rule pg_run_inv) (simp add: pg_inv_def pg_empty_def)

text \<open>C19: On PostgreSQL a deletion request does not cover events that arrive after it. Let a
  deletion request by the author of a regular event name this event by its id, and let
  the request be stored before the event arrives. Tags with hexadecimal values are kept in the binary column,
  but the check for earlier deletions looks in the text column: as long as no \<^verbatim>\<open>e\<close> tag has another kind of value,
  the event is stored visible and counted as new, so that it is announced to subscribers.\<close>

theorem postgres_deletion_misses_later_arrival:
  assumes "hex_e_tags db" "ev_kind d = 5" "ev_pubkey d = ev_pubkey e" "[''e'', ev_id e] \<in> set (ev_tags d)"
    and "\<forall>t\<in>set (searchable_tags d). t ! 0 = ''e'' \<longrightarrow> pg_hex_value (t ! 1)"
    and "pg_write_event X ord tk f d db = Done (db1, Ok 1)"
    and "\<not> is_replaceable e" "\<not> is_param_replaceable e" "ev_kind e \<noteq> 5" "in_i32 (as_i64 (ev_kind e))" "tk (as_i64 (ev_created_at e))"
    and "hex_decode X (ev_id e) = Some h" "h \<notin> pge_id ` set (pgs_events db1)" "event_to_string X e = Some c"
  shows "\<exists>a db2 r g. pg_write_event X ord tk (\<lambda>_. None) e db1 = Done (db2, Ok 1) \<and> pg_new_row X tk e h a c \<in> set (pgs_events db2) \<and>
    r \<in> set (pgs_events db1) \<and> pge_kind r = 5 \<and> pge_pub_key r = a \<and>
    g \<in> set (pgs_tags db1) \<and> pgt_event_id g = pge_id r \<and> pgt_name g = ''e'' \<and> pgt_value_hex g = Some h"
proof -
  from pg_deletion_stored [OF assms(6,2)] obtain hd a cd P where
    d: "hex_decode X (ev_id d) = Some hd" "hex_decode X (ev_pubkey d) = Some a" "db1 = pg_hide P (pg_insert X tk d hd a cd db)" .
  have he: "hex_e_tags db1" unfolding d(3) by (rule hex_e_tags_insert [OF assms(1,5)])
  let ?g = "pg_tag_row_of X hd [''e'', ev_id e]"
  have st: "[''e'', ev_id e] \<in> set (searchable_tags d)" using assms(4) by (simp add: searchable_tags_def single_char_e)
  then have g: "?g \<in> set (pgs_tags db1)" by (auto simp: d(3) pg_insert_def)
  have "pg_hex_value (ev_id e)" using assms(5) st by force
  then have gv: "pgt_value_hex ?g = Some h" using assms(12) by (simp add: pg_tag_row_of_def)
  have k5: "as_i64 (ev_kind d) = 5" using assms(2) by (simp add: as_i64_fits fits_i64_def)
  let ?n = "pg_new_row X tk d hd a cd"
  have "(if P ?n then ?n\<lparr>pge_hidden := True\<rparr> else ?n) \<in> set (pgs_events db1)" by (simp add: d(3) pg_hide_def pg_insert_def)
  then obtain r where r: "r \<in> set (pgs_events db1)" "pge_kind r = 5" "pge_pub_key r = a" "pge_id r = hd"
    using k5 by (metis (no_types, lifting) pg_event_row.select_convs(1,2,5) pg_event_row.surjective pg_event_row.update_convs(7) pg_new_row_sel)
  have "\<not> pg_already_deleted h a (pg_insert X tk e h a c db1)" using he assms(9,13) by (intro not_already_deleted) auto
  moreover have "distinct_param e = None" using assms(8) by (simp add: distinct_param_def)
  ultimately have "pg_write_event X ord tk (\<lambda>_. None) e db1 = Done (pg_insert X tk e h a c db1, Ok 1)"
    using assms(3,7-14) d(2)
    by (simp add: pg_write_event_def pg_store_event_def pg_superseded_def pg_param_superseded_def pg_drops_plain pg_apply_deletions_def Let_def)
  moreover have "pg_new_row X tk e h a c \<in> set (pgs_events (pg_insert X tk e h a c db1))" by (simp add: pg_insert_def)
  ultimately show ?thesis using r g gv by fastforce
qed

lemma demo_hex_values:
  "pg_hex_value (replicate 64 CHR ''0'')"
  by (simp add: pg_hex_value_def is_lower_hex_iff list_all_iff ascii_defs)

theorem postgres_deletion_misses_later_arrival_witness:
  "\<exists>db1 db2. pg_write_event std_ext id (\<lambda>_. True) (\<lambda>_. None) demo_deletion pg_empty = Done (db1, Ok 1) \<and>
     pg_write_event std_ext id (\<lambda>_. True) (\<lambda>_. None) demo_note db1 = Done (db2, Ok 1)"
proof -
  let ?i = "replicate 64 CHR ''0''"
  obtain h where h: "hex_decode std_ext ?i = Some h" using std_hex_dec_64 [of ?i] by (auto simp: hexdigits_replicate ascii_defs)
  have hd: "\<exists>b. hex_decode std_ext (ev_id demo_deletion) = Some b" "\<exists>b. hex_decode std_ext (ev_pubkey demo_deletion) = Some b"
    using std_hex_dec_64 [of "ev_id demo_deletion"] std_hex_dec_64 [of "ev_pubkey demo_deletion"]
    by (auto simp: demo_deletion_def demo_event_def hexdigits_replicate ascii_defs)
  have k: "ev_kind demo_deletion = 5" "\<not> is_replaceable demo_deletion" "\<not> is_param_replaceable demo_deletion"
    by (simp_all add: demo_deletion_def is_replaceable_def is_param_replaceable_def)
  have tgt: "deletion_targets std_ext demo_deletion \<noteq> []"
    using target_of_tag [of "[''e'', ?i]" demo_deletion ?i std_ext h] h
    by (auto simp: demo_deletion_def is_hex_iff hexdigits_replicate ascii_defs)
  obtain c where c: "event_to_string std_ext demo_note = Some c" by (simp add: event_to_string_def std_json_to_string_def)
  obtain c' where c': "event_to_string std_ext demo_deletion = Some c'" by (simp add: event_to_string_def std_json_to_string_def)
  have "\<exists>db1. pg_write_event std_ext id (\<lambda>_. True) (\<lambda>_. None) demo_deletion pg_empty = Done (db1, Ok 1)"
    using hd k tgt c'
    by (auto simp: pg_write_event_def pg_store_event_def pg_superseded_def pg_param_superseded_def pg_drops_plain pg_apply_deletions_def
        distinct_param_def pg_empty_def as_i64_fits fits_i64_def in_i32_def)
  then obtain db1 where d: "pg_write_event std_ext id (\<lambda>_. True) (\<lambda>_. None) demo_deletion pg_empty = Done (db1, Ok 1)" ..
  from pg_deletion_stored [OF d k(1)] obtain hd' a' c'' P where
    db1: "hex_decode std_ext (ev_id demo_deletion) = Some hd'" "db1 = pg_hide P (pg_insert std_ext (\<lambda>_. True) demo_deletion hd' a' c'' pg_empty)" .
  have "map to_ascii_lower ?i \<noteq> map to_ascii_lower (ev_id demo_deletion)" by (simp add: demo_deletion_def ascii_defs)
  then have "h \<noteq> hd'" using hex_dec_inj [of ?i h "ev_id demo_deletion"] h db1(1) by auto
  then have fresh: "h \<notin> pge_id ` set (pgs_events db1)"
    by (auto simp: db1(2) pg_hide_def pg_insert_def pg_empty_def)
  have "hex_e_tags pg_empty" by (simp add: hex_e_tags_def pg_empty_def)
  then have "\<exists>a db2 r g. pg_write_event std_ext id (\<lambda>_. True) (\<lambda>_. None) demo_note db1 = Done (db2, Ok 1) \<and>
      pg_new_row std_ext (\<lambda>_. True) demo_note h a c \<in> set (pgs_events db2) \<and>
      r \<in> set (pgs_events db1) \<and> pge_kind r = 5 \<and> pge_pub_key r = a \<and>
      g \<in> set (pgs_tags db1) \<and> pgt_event_id g = pge_id r \<and> pgt_name g = ''e'' \<and> pgt_value_hex g = Some h"
    by (rule postgres_deletion_misses_later_arrival [OF _ k(1) _ _ _ d _ _ _ _ _ _ fresh c])
      (use h demo_hex_values in \<open>auto simp: demo_deletion_def demo_note_def searchable_tags_def is_replaceable_def is_param_replaceable_def
         as_i64_fits fits_i64_def in_i32_def\<close>)
  with d show ?thesis by blast
qed

end
