(* ===== verification/Maintenance.thy ===== *)
theory Maintenance
  imports Pg_Store
begin

text \<open>
  The tasks that \<^verbatim>\<open>start\<close> of the repositories begins and that run until the process ends (\<^verbatim>\<open>src/src/repo/sqlite.rs\<close>,
  \<^verbatim>\<open>src/src/repo/postgres.rs\<close>): the removal of expired events and, for SQLite, the checkpoint of the
  write-ahead log. A task is a function of one period; what the period meets (the clock, connections,
  failures, the answer of the database) is its argument. The locale \<open>cleaner\<close> is what both removals promise.
\<close>

section \<open>Removal of expired events\<close>

record clean_env =
  cl_now :: u64
  cl_conn :: bool \<comment> \<open>the pool gives a connection\<close>
  cl_fault :: "error option"

definition cleanup_expired :: "clean_env \<Rightarrow> event_db \<Rightarrow> event_db" where
  "cleanup_expired c db = (if cl_conn c \<and> cl_fault c = None then fst (delete_expired (cl_now c) db) else db)"

text \<open>On PostgreSQL a panic ends the task; the first component says that it still runs.\<close>

record pg_clean_env =
  pcl_now :: u64
  pcl_begin :: "error option"
  pcl_fault :: "error option"

definition pg_cleanup_expired :: "(int \<Rightarrow> bool) \<Rightarrow> pg_clean_env \<Rightarrow> bool \<times> pg_store \<Rightarrow> bool \<times> pg_store" where
  "pg_cleanup_expired ts_ok c s =
     (if fst s then
        (case pg_delete_expired ts_ok (pcl_begin c) (pcl_fault c) (pcl_now c) (snd s) of
           Panic \<Rightarrow> (False, snd s)
         | Done (db, _) \<Rightarrow> (True, db))
      else s)"

locale cleaner =
  fixes tick :: "'e \<Rightarrow> 's \<Rightarrow> 's"
    and held :: "'s \<Rightarrow> 'r set"
    and due :: "'e \<Rightarrow> 'r \<Rightarrow> bool"
    and works :: "'e \<Rightarrow> 's \<Rightarrow> bool"
  assumes tick_held: "held (tick e s) = (if works e s then {r \<in> held s. \<not> due e r} else held s)"
begin

lemma run_held: "held (fold tick es s) \<subseteq> held s"
proof (induction es arbitrary: s)
  case (Cons e es)
  from Cons [of "tick e s"] show ?case by (auto simp: tick_held split: if_splits)
qed simp

lemma run_keeps: "r \<in> held s \<Longrightarrow> \<forall>e\<in>set es. \<not> due e r \<Longrightarrow> r \<in> held (fold tick es s)"
  by (induction es arbitrary: s) (auto simp: tick_held)

lemma run_clears:
  assumes "works e (fold tick es s)" "r \<in> held (fold tick (es @ e # fs) s)"
  shows "r \<in> held s \<and> \<not> due e r"
proof -
  have "r \<in> held (tick e (fold tick es s))" using assms(2) run_held [of fs "tick e (fold tick es s)"] by auto
  with assms(1) run_held [of es s] show ?thesis by (auto simp: tick_held)
qed

end

definition row_due :: "clean_env \<Rightarrow> event_row \<Rightarrow> bool" where
  "row_due c r \<longleftrightarrow> (case er_expires_at r of None \<Rightarrow> False | Some x \<Rightarrow> x \<le> cl_now c)"

definition pg_row_due :: "pg_clean_env \<Rightarrow> pg_event_row \<Rightarrow> bool" where
  "pg_row_due c r \<longleftrightarrow> (case pge_expires_at r of None \<Rightarrow> False | Some x \<Rightarrow> x \<le> as_i64 (pcl_now c))"

definition clean_works :: "clean_env \<Rightarrow> bool" where
  "clean_works c \<longleftrightarrow> cl_conn c \<and> cl_fault c = None \<and> fits_i64 (cl_now c)"

definition pg_clean_works :: "(int \<Rightarrow> bool) \<Rightarrow> pg_clean_env \<Rightarrow> bool" where
  "pg_clean_works ts_ok c \<longleftrightarrow> pcl_begin c = None \<and> pcl_fault c = None \<and> ts_ok (as_i64 (pcl_now c))"

interpretation sqlite_cleaner: cleaner cleanup_expired "\<lambda>db. set (db_events db)" row_due "\<lambda>c _. clean_works c"
  by unfold_locales
    (auto simp: cleanup_expired_def delete_expired_def Let_def delete_events_def row_due_def clean_works_def split: option.splits)

interpretation pg_cleaner: cleaner "pg_cleanup_expired ts_ok" "\<lambda>s. set (pgs_events (snd s))" pg_row_due "\<lambda>c s. fst s \<and> pg_clean_works ts_ok c"
  for ts_ok
  by unfold_locales
    (auto simp: pg_cleanup_expired_def pg_delete_expired_def Let_def pg_delete_def pg_row_due_def pg_clean_works_def split: option.splits)

section \<open>Checkpoints\<close>

text \<open>\<^verbatim>\<open>PRAGMA wal_checkpoint\<close> answers three numbers; negative ones (no write-ahead log) are an error for the \<^verbatim>\<open>u64\<close> reading.\<close>

definition checkpoint_db :: "(int \<times> int \<times> int, error) result \<Rightarrow> (nat, error) result" where
  "checkpoint_db row =
     (case row of
        Err e \<Rightarrow> Err e
      | Ok (cp_result, wal_size, frames) \<Rightarrow>
        if cp_result < 0 \<or> wal_size < 0 \<or> frames < 0 then Err (SqlError (OtherSqlError ''IntegralValueOutOfRange''))
        else Ok (nat wal_size))"

definition wal_threshold :: nat where
  "wal_threshold = 1000 * 10"

record checkpoint_env =
  ck_conn :: bool
  ck_row :: "(int \<times> int \<times> int, error) result"

text \<open>What one period does: how long (in seconds) it waits for others and whether it keeps new readers out.\<close>

record checkpoint_run =
  ck_busy_wait :: nat
  ck_blocks_readers :: bool

definition db_checkpoint_task :: "checkpoint_env \<Rightarrow> nat \<Rightarrow> nat \<times> checkpoint_run option" where
  "db_checkpoint_task c current_wal_size =
     (if ck_conn c then
        (case checkpoint_db (ck_row c) of Ok new_size \<Rightarrow> new_size | Err _ \<Rightarrow> current_wal_size,
         Some (if current_wal_size \<le> wal_threshold then \<lparr>ck_busy_wait = 1, ck_blocks_readers = False\<rparr>
               else \<lparr>ck_busy_wait = 10, ck_blocks_readers = True\<rparr>))
      else (current_wal_size, None))"

fun checkpoint_runs :: "checkpoint_env list \<Rightarrow> nat \<Rightarrow> checkpoint_run option list" where
  "checkpoint_runs [] w = []"
| "checkpoint_runs (c # cs) w = (case db_checkpoint_task c w of (w', r) \<Rightarrow> r # checkpoint_runs cs w')"

text \<open>The sizes the database reported.\<close>

fun reported :: "checkpoint_env list \<Rightarrow> nat list" where
  "reported [] = []"
| "reported (c # cs) = (case checkpoint_db (ck_row c) of Ok n \<Rightarrow> if ck_conn c then n # reported cs else reported cs | Err _ \<Rightarrow> reported cs)"

lemma task_size: "last (fst (db_checkpoint_task c w) # reported cs) = last (w # reported (c # cs))"
  by (auto simp: db_checkpoint_task_def split: result.splits)

lemma checkpoint_runs_nth:
  assumes "n < length cs"
  shows "checkpoint_runs cs w ! n = snd (db_checkpoint_task (cs ! n) (last (w # reported (take n cs))))"
  using assms
proof (induction cs arbitrary: n w)
  case (Cons c cs)
  show ?case
  proof (cases n)
    case (Suc m)
    with Cons.prems have "m < length cs" by simp
    with Cons.IH [of m "fst (db_checkpoint_task c w)", unfolded task_size] Suc show ?thesis
      by (simp add: case_prod_unfold)
  qed (simp add: case_prod_unfold)
qed simp

section \<open>Properties\<close>

text \<open>Expired events are removed, and nothing else. Through any number of periods of the removal, with failures or not, an event
  disappears from the SQLite or the PostgreSQL database only if its expiration has come at one of them; and after
  one that works, no event that had expired by then is left.\<close>

theorem cleanup_removes_exactly_expired:
  "(r \<in> set (db_events db) \<and> (\<forall>c\<in>set cs. \<not> row_due c r) \<longrightarrow> r \<in> set (db_events (fold cleanup_expired cs db))) \<and>
   (clean_works c \<and> r \<in> set (db_events (fold cleanup_expired (cs @ c # cs') db)) \<longrightarrow> r \<in> set (db_events db) \<and> \<not> row_due c r) \<and>
   (q \<in> set (pgs_events (snd s)) \<and> (\<forall>p\<in>set ps. \<not> pg_row_due p q) \<longrightarrow> q \<in> set (pgs_events (snd (fold (pg_cleanup_expired ts_ok) ps s)))) \<and>
   (fst (fold (pg_cleanup_expired ts_ok) ps s) \<and> pg_clean_works ts_ok p \<and>
      q \<in> set (pgs_events (snd (fold (pg_cleanup_expired ts_ok) (ps @ p # ps') s))) \<longrightarrow> q \<in> set (pgs_events (snd s)) \<and> \<not> pg_row_due p q)"
  using sqlite_cleaner.run_keeps [where r = r and s = db and es = cs]
    sqlite_cleaner.run_clears [where e = c and es = cs and s = db and r = r and fs = cs']
    pg_cleaner.run_keeps [where r = q and s = s and es = ps and ts_ok = ts_ok]
    pg_cleaner.run_clears [where e = p and es = ps and s = s and r = q and fs = ps' and ts_ok = ts_ok] by blast

text \<open>New readers are kept out exactly during checkpoints that follow a report of more than ten thousand pages, and no checkpoint
  waits longer than ten seconds for others.\<close>

theorem readers_blocked_only_for_large_log:
  assumes "n < length cs" "checkpoint_runs cs 0 ! n = Some r"
  shows "(ck_blocks_readers r \<longleftrightarrow> reported (take n cs) \<noteq> [] \<and> 10000 < last (reported (take n cs))) \<and> ck_busy_wait r \<le> 10"
  using assms checkpoint_runs_nth [OF assms(1), of 0]
  by (auto simp: db_checkpoint_task_def wal_threshold_def split: if_splits)

theorem readers_blocked_only_for_large_log_witness:
  "checkpoint_runs [\<lparr>ck_conn = True, ck_row = Ok (1, 20000, 5)\<rparr>, \<lparr>ck_conn = True, ck_row = Ok (0, 0, 0)\<rparr>] 0 ! 1 =
     Some \<lparr>ck_busy_wait = 10, ck_blocks_readers = True\<rparr> \<and> 10000 < (20000 :: nat)"
  using readers_blocked_only_for_large_log [of 1 "[\<lparr>ck_conn = True, ck_row = Ok (1, 20000, 5)\<rparr>, \<lparr>ck_conn = True, ck_row = Ok (0, 0, 0)\<rparr>]"
      "\<lparr>ck_busy_wait = 10, ck_blocks_readers = True\<rparr>"]
  by (simp add: db_checkpoint_task_def checkpoint_db_def wal_threshold_def)

end
