(* ===== verification/Names.thy ===== *)
theory Names
  imports Event
begin

text \<open>
  Name rules of the name authority (\<^verbatim>\<open>src/src/name_authority/names.rs\<close>): validity, the
  reserved list, look-alike folding, and the labels reserved by the operator's domain.
\<close>

section \<open>Definitions\<close>

definition RESERVED :: "string list" where
  "RESERVED = [''admin'', ''administrator'', ''root'', ''support'', ''help'', ''info'', ''mail'',
     ''email'', ''www'', ''relay'', ''nostr'', ''pay'', ''payment'', ''payments'', ''wallet'',
     ''official'', ''security'', ''abuse'', ''postmaster'', ''hostmaster'', ''webmaster'',
     ''contact'', ''team'', ''staff'', ''mod'', ''moderator'', ''moderators'', ''system'', ''bot'',
     ''api'', ''app'', ''dev'', ''developer'', ''test'', ''testing'', ''anonymous'', ''anon'',
     ''null'', ''void'', ''owner'', ''ceo'', ''register'', ''registration'', ''account'',
     ''accounts'', ''verify'', ''verified'', ''billing'', ''donate'', ''treasury'', ''faucet'',
     ''exchange'', ''swap'', ''bank'', ''money'', ''cash'', ''fees'', ''fee'', ''node'', ''miner'',
     ''mining'', ''explorer'', ''status'', ''blog'', ''news'', ''docs'', ''wiki'', ''store'', ''shop'']"

definition ok_char :: "char \<Rightarrow> bool" where
  "ok_char c \<longleftrightarrow> is_ascii_lowercase c \<or> is_ascii_digit c \<or> c \<in> {CHR ''.'', CHR ''_'', CHR ''-''}"

text \<open>Indexing the first byte panics on an empty name, which only a zero minimum length admits.\<close>

definition valid_name :: "string \<Rightarrow> nat \<Rightarrow> nat \<Rightarrow> bool exec" where
  "valid_name name min_len max_len =
     (let len = length (chars name) in
      if \<not> (min_len \<le> len \<and> len \<le> max_len) then Done False
      else if \<not> list_all ok_char name then Done False
      else if name = [] then Panic
      else let first = hd name; final = last name in
        Done ((is_ascii_lowercase first \<or> is_ascii_digit first)
              \<and> (is_ascii_lowercase final \<or> is_ascii_digit final)))"

definition fold_char :: "char \<Rightarrow> char option" where
  "fold_char c =
     (if c \<in> {CHR ''.'', CHR ''_'', CHR ''-''} then None
      else if c = CHR ''0'' then Some CHR ''o'' else if c = CHR ''1'' then Some CHR ''i''
      else if c = CHR ''3'' then Some CHR ''e'' else if c = CHR ''4'' then Some CHR ''a''
      else if c = CHR ''5'' then Some CHR ''s'' else if c = CHR ''7'' then Some CHR ''t''
      else if c = CHR ''8'' then Some CHR ''b'' else if c = CHR ''9'' then Some CHR ''g''
      else Some c)"

definition fold_lookalike :: "string \<Rightarrow> string" where
  "fold_lookalike name = List.map_filter fold_char name"

definition is_reserved :: "string \<Rightarrow> string list \<Rightarrow> bool" where
  "is_reserved name extra =
     (if name \<in> set RESERVED \<or> list_ex (\<lambda>r. r = name) extra then True
      else let folded = fold_lookalike name in
        list_ex (\<lambda>r. fold_lookalike r = folded) RESERVED
        \<or> list_ex (\<lambda>r. fold_lookalike r = folded) extra)"

definition domain_reserved :: "externals \<Rightarrow> string \<Rightarrow> string list" where
  "domain_reserved X domain =
     (let labels = filter (\<lambda>l. l \<noteq> []) (split_on CHR ''.'' (trim_end_matches CHR ''.'' (trim domain)));
          keep = (if 1 < length labels then take (length labels - 1) labels else labels)
      in map (to_lowercase (ulower X)) keep)"

definition valid_pubkey_hex :: "string \<Rightarrow> bool" where
  "valid_pubkey_hex pk \<longleftrightarrow>
     length pk = 64 \<and> list_all (\<lambda>c. is_ascii_hexdigit c \<and> \<not> is_ascii_uppercase c) pk"

section \<open>Lemmas\<close>

lemma valid_pubkey_hex_iff: "valid_pubkey_hex pk \<longleftrightarrow> length pk = 64 \<and> is_lower_hex pk"
  by (simp add: valid_pubkey_hex_def is_lower_hex_iff)

lemma ok_char_ascii: "ok_char c \<Longrightarrow> is_ascii c"
  by (auto simp: ok_char_def ascii_defs)

lemma chars_ok: "list_all ok_char name \<Longrightarrow> length (chars name) = length name"
proof -
  assume "list_all ok_char name"
  then have "list_all is_ascii name" by (auto simp: list_all_iff ok_char_ascii)
  then show ?thesis by (simp add: chars_ascii)
qed

lemma fold_char_idem: "Option.bind (fold_char c) fold_char = fold_char c"
  by (simp add: fold_char_def)

lemma fold_lookalike_idem: "fold_lookalike (fold_lookalike n) = fold_lookalike n"
proof (induction n)
  case (Cons c n)
  show ?case
  proof (cases "fold_char c")
    case None
    with Cons show ?thesis by (simp add: fold_lookalike_def List.map_filter_simps)
  next
    case (Some d)
    with fold_char_idem [of c] have "fold_char d = Some d" by simp
    with Some Cons show ?thesis by (simp add: fold_lookalike_def List.map_filter_simps)
  qed
qed (simp add: fold_lookalike_def List.map_filter_simps)

lemma is_reserved_iff:
  "is_reserved n ex \<longleftrightarrow> fold_lookalike n \<in> fold_lookalike ` (set RESERVED \<union> set ex)"
  by (auto simp: is_reserved_def Let_def list_ex_iff image_iff Bex_def)

section \<open>Properties\<close>

text \<open>With a positive minimum length, validating a name never panics, and it accepts exactly
  the names of permitted length over lowercase letters, digits, dot, underscore and dash
  that begin and end with a letter or digit.\<close>

theorem valid_name_spec:
  assumes "0 < mn"
  shows "valid_name name mn mx = Done (mn \<le> length name \<and> length name \<le> mx \<and> list_all ok_char name \<and>
    name \<noteq> [] \<and> (is_ascii_lowercase (hd name) \<or> is_ascii_digit (hd name)) \<and>
    (is_ascii_lowercase (last name) \<or> is_ascii_digit (last name)))"
proof (cases "list_all ok_char name")
  case True
  then show ?thesis using assms by (auto simp: valid_name_def Let_def chars_ok)
next
  case False
  then show ?thesis by (simp add: valid_name_def Let_def)
qed

theorem valid_name_spec_witness: "valid_name ''ada.wren-99_x'' 3 20 = Done True"
  using valid_name_spec [of 3 "''ada.wren-99_x''" 20] by (simp add: ok_char_def ascii_defs)

text \<open>Reservation is closed under look-alikes: a name is refused as reserved exactly when it
  folds to the same string as some built-in, operator or domain term, so two names that fold
  alike are both reserved or both free, and folding a second time changes nothing.\<close>

theorem reserved_closed_under_lookalikes:
  "(is_reserved n ex \<longleftrightarrow> (\<exists>r\<in>set RESERVED \<union> set ex. fold_lookalike r = fold_lookalike n)) \<and>
   (fold_lookalike n = fold_lookalike m \<longrightarrow> is_reserved n ex = is_reserved m ex) \<and>
   fold_lookalike (fold_lookalike n) = fold_lookalike n"
proof (intro conjI impI)
  show "is_reserved n ex \<longleftrightarrow> (\<exists>r\<in>set RESERVED \<union> set ex. fold_lookalike r = fold_lookalike n)"
    unfolding is_reserved_iff image_iff by metis
  show "is_reserved n ex = is_reserved m ex" if "fold_lookalike n = fold_lookalike m"
    using that unfolding is_reserved_iff by simp
qed (rule fold_lookalike_idem)

theorem reserved_closed_under_lookalikes_witness:
  "fold_lookalike ''supp0r7'' = fold_lookalike ''support'' \<and> is_reserved ''supp0r7'' [] = is_reserved ''support'' []"
proof -
  have "fold_lookalike ''supp0r7'' = fold_lookalike ''support''"
    by (simp add: fold_lookalike_def fold_char_def List.map_filter_simps)
  then show ?thesis
    using reserved_closed_under_lookalikes [of "''supp0r7''" "[]" "''support''"] by blast
qed

end
