(* ===== verification/Nip98.thy ===== *)
theory Nip98
  imports Event
begin

text \<open>
  NIP-98 HTTP authorization (\<^verbatim>\<open>src/src/name_authority/nip98.rs\<close>). The casts to \<^verbatim>\<open>i64\<close> and the
  subtraction are the 64-bit ones: the age is the signed reading of the word difference.
\<close>

section \<open>Definitions\<close>

definition HTTP_AUTH_KIND :: u64 where
  "HTTP_AUTH_KIND = 27235"

record nip98_tags =
  u_ok :: bool
  method_ok :: bool
  payload_hash :: "string option"

definition scan_tag :: "string \<Rightarrow> string \<Rightarrow> string list \<Rightarrow> nip98_tags \<Rightarrow> nip98_tags" where
  "scan_tag expected_url meth t st =
     (case t of
        [] \<Rightarrow> st
      | name # rest \<Rightarrow>
        if name = ''u'' then
          (case rest of [] \<Rightarrow> st
           | u # _ \<Rightarrow> st\<lparr>u_ok := trim_end_matches CHR ''/'' u = trim_end_matches CHR ''/'' expected_url\<rparr>)
        else if name = ''method'' then
          (case rest of [] \<Rightarrow> st | m # _ \<Rightarrow> st\<lparr>method_ok := eq_ignore_ascii_case m meth\<rparr>)
        else if name = ''payload'' then
          st\<lparr>payload_hash := (case rest of [] \<Rightarrow> None | p # _ \<Rightarrow> Some p)\<rparr>
        else st)"

definition scan_tags :: "string \<Rightarrow> string \<Rightarrow> string list list \<Rightarrow> nip98_tags" where
  "scan_tags expected_url meth ts =
     fold (scan_tag expected_url meth) ts \<lparr>u_ok = False, method_ok = False, payload_hash = None\<rparr>"

definition auth_age :: "u64 \<Rightarrow> event \<Rightarrow> int" where
  "auth_age now e = sint (now - ev_created_at e)"

definition verify_nip98 ::
  "externals \<Rightarrow> u64 \<Rightarrow> string option \<Rightarrow> string \<Rightarrow> string \<Rightarrow> string \<Rightarrow> string \<Rightarrow> int \<Rightarrow>
   (string \<times> string, string) result" where
  "verify_nip98 X now auth_header meth url_path body base_url max_age =
     (case auth_header of
        None \<Rightarrow> Err ''missing Authorization header''
      | Some hdr \<Rightarrow>
     (case strip_prefix hdr ''Nostr '' of
        None \<Rightarrow> Err ''Authorization scheme must be Nostr''
      | Some b64 \<Rightarrow>
     (case base64_decode X (trim b64) of
        None \<Rightarrow> Err ''invalid base64 auth event''
      | Some raw \<Rightarrow>
     (case event_from_str X raw of
        None \<Rightarrow> Err ''invalid auth event json''
      | Some e \<Rightarrow>
     (case validate X e of
        Err _ \<Rightarrow> Err ''bad event signature''
      | Ok _ \<Rightarrow>
        if ev_kind e \<noteq> HTTP_AUTH_KIND then Err ''auth event kind must be 27235''
        else if max_age < auth_age now e \<or> auth_age now e < -5
        then Err ''auth event expired or post-dated''
        else
          (let st = scan_tags (base_url @ url_path) meth (ev_tags e) in
           if \<not> u_ok st then Err ''auth event url mismatch''
           else if \<not> method_ok st then Err ''auth event method mismatch''
           else (case payload_hash st of
              Some expect \<Rightarrow>
                if \<not> eq_ignore_ascii_case expect (hex_encode X (sha256 X body))
                then Err ''auth event payload hash mismatch''
                else Ok (ev_pubkey e, ev_id e)
            | None \<Rightarrow>
                if body \<noteq> [] then Err ''auth event missing payload hash''
                else Ok (ev_pubkey e, ev_id e))))))))"

section \<open>Lemmas\<close>

text \<open>The event a header carries, and the conditions under which it authorizes a request.\<close>

definition header_event :: "externals \<Rightarrow> string option \<Rightarrow> event option" where
  "header_event X hdr =
     Option.bind hdr (\<lambda>h. Option.bind (strip_prefix h ''Nostr '') (\<lambda>b.
       Option.bind (base64_decode X (trim b)) (event_from_str X)))"

definition authorizes ::
  "externals \<Rightarrow> u64 \<Rightarrow> event \<Rightarrow> string \<Rightarrow> string \<Rightarrow> string \<Rightarrow> string \<Rightarrow> int \<Rightarrow> bool" where
  "authorizes X now e meth url_path body base_url max_age \<longleftrightarrow>
     validate X e = Ok () \<and> ev_kind e = 27235 \<and> -5 \<le> auth_age now e \<and> auth_age now e \<le> max_age \<and>
     (let st = scan_tags (base_url @ url_path) meth (ev_tags e) in
      u_ok st \<and> method_ok st \<and>
      (case payload_hash st of None \<Rightarrow> body = []
       | Some p \<Rightarrow> eq_ignore_ascii_case p (hex_encode X (sha256 X body))))"

text \<open>Of several tags with one name the last decides.\<close>

definition last_value :: "string \<Rightarrow> string list list \<Rightarrow> string option" where
  "last_value name ts =
     (case rev (filter (\<lambda>t. t \<noteq> [] \<and> hd t = name \<and> 1 < length t) ts) of [] \<Rightarrow> None | t # _ \<Rightarrow> Some (t ! 1))"

definition payload_of :: "string list list \<Rightarrow> string option" where
  "payload_of ts =
     (case rev (filter (\<lambda>t. t \<noteq> [] \<and> hd t = ''payload'') ts) of [] \<Rightarrow> None
      | t # _ \<Rightarrow> (case tl t of [] \<Rightarrow> None | p # _ \<Rightarrow> Some p))"

lemma scan_tags_snoc: "scan_tags u m (ts @ [t]) = scan_tag u m t (scan_tags u m ts)"
  by (simp add: scan_tags_def)

lemma scan_tags_u:
  "u_ok (scan_tags url meth ts) \<longleftrightarrow>
     (case last_value ''u'' ts of None \<Rightarrow> False
      | Some v \<Rightarrow> trim_end_matches CHR ''/'' v = trim_end_matches CHR ''/'' url)"
proof (induction ts rule: rev_induct)
  case (snoc t ts)
  then show ?case
    by (cases t; cases "tl t") (auto simp: scan_tags_snoc scan_tag_def last_value_def)
qed (simp add: scan_tags_def last_value_def)

lemma scan_tags_method:
  "method_ok (scan_tags url meth ts) \<longleftrightarrow>
     (case last_value ''method'' ts of None \<Rightarrow> False | Some v \<Rightarrow> eq_ignore_ascii_case v meth)"
proof (induction ts rule: rev_induct)
  case (snoc t ts)
  then show ?case
    by (cases t; cases "tl t") (auto simp: scan_tags_snoc scan_tag_def last_value_def)
qed (simp add: scan_tags_def last_value_def)

lemma scan_tags_payload: "payload_hash (scan_tags url meth ts) = payload_of ts"
proof (induction ts rule: rev_induct)
  case (snoc t ts)
  then show ?case
    by (cases t; cases "tl t") (auto simp: scan_tags_snoc scan_tag_def payload_of_def)
qed (simp add: scan_tags_def payload_of_def)

lemma verify_nip98_Ok:
  "verify_nip98 X now hdr meth path body base age = Ok (pk, i) \<longleftrightarrow>
     (\<exists>e. header_event X hdr = Some e \<and> authorizes X now e meth path body base age \<and>
        pk = ev_pubkey e \<and> i = ev_id e)"
proof (cases "header_event X hdr")
  case None
  then show ?thesis
    by (auto simp: header_event_def verify_nip98_def split: option.splits bind_splits)
next
  case (Some e)
  then have "verify_nip98 X now hdr meth path body base age = Ok (pk, i) \<longleftrightarrow>
      authorizes X now e meth path body base age \<and> pk = ev_pubkey e \<and> i = ev_id e"
    by (cases "validate X e")
      (auto simp: header_event_def verify_nip98_def authorizes_def HTTP_AUTH_KIND_def Let_def
        split: option.splits bind_splits if_splits)
  with Some show ?thesis by auto
qed

text \<open>The word arithmetic of the age test is the intended interval test on timestamps.\<close>

lemma sint_u64: "sint (w :: u64) = (if uint w < 2 ^ 63 then uint w else uint w - 2 ^ 64)"
proof -
  have b: "uint w < 2 ^ 64" "0 \<le> uint w" using uint_bounded [of w] by simp_all
  have m: "(uint w + 2 ^ 63) mod 2 ^ 64 = (if uint w < 2 ^ 63 then uint w + 2 ^ 63 else uint w - 2 ^ 63)"
  proof (cases "uint w < 2 ^ 63")
    case False
    have "(uint w + 2 ^ 63) mod 2 ^ 64 = (uint w - 2 ^ 63 + 2 ^ 64) mod 2 ^ 64" by (simp add: algebra_simps)
    also have "\<dots> = uint w - 2 ^ 63" using False b by (simp only: mod_add_self2) simp
    finally show ?thesis using False by simp
  qed (use b in simp)
  have "sint w = (uint w + 2 ^ 63) mod 2 ^ 64 - 2 ^ 63"
    by (simp add: sint_uint signed_take_bit_eq_take_bit_shift take_bit_eq_mod)
  then show ?thesis unfolding m by simp
qed

lemma uint_sub_u64: "uint (a - b :: u64) = (if uint b \<le> uint a then uint a - uint b else uint a - uint b + 2 ^ 64)"
proof -
  have b: "uint a < 2 ^ 64" "0 \<le> uint a" "uint b < 2 ^ 64" "0 \<le> uint b"
    using uint_bounded [of a] uint_bounded [of b] by simp_all
  have "uint (a - b) = (uint a - uint b) mod 2 ^ 64" by (simp add: uint_word_ariths)
  moreover have "(uint a - uint b) mod 2 ^ 64 = uint a - uint b + 2 ^ 64" if "uint a < uint b"
  proof -
    have "(uint a - uint b) mod 2 ^ 64 = (uint a - uint b + 2 ^ 64) mod 2 ^ 64" by simp
    also have "\<dots> = uint a - uint b + 2 ^ 64" using b that by (intro mod_pos_pos_trivial) linarith+
    finally show ?thesis .
  qed
  moreover have "(uint a - uint b) mod 2 ^ 64 = uint a - uint b" if "uint b \<le> uint a"
    using b that by (intro mod_pos_pos_trivial) linarith+
  ultimately show ?thesis by simp
qed

lemma age_window:
  assumes "-5 \<le> auth_age now e" "auth_age now e \<le> max_age" "max_age \<le> int (unat now)"
    "unat now + 5 < 2 ^ 64"
  shows "int (unat now) - max_age \<le> int (unat (ev_created_at e)) \<and>
    unat (ev_created_at e) \<le> unat now + 5"
proof -
  let ?d = "now - ev_created_at e"
  define n where "n = uint now"
  define c where "c = uint (ev_created_at e)"
  have "int (unat now + 5) < int (2 ^ 64)" using assms(4) by (simp only: of_nat_less_iff)
  then have b: "0 \<le> n" "n + 5 < 2 ^ 64" "0 \<le> c" "c < 2 ^ 64"
    using uint_bounded [of now] uint_bounded [of "ev_created_at e"]
    unfolding n_def c_def by simp_all
  have u: "uint ?d = (if c \<le> n then n - c else n - c + 2 ^ 64)"
    unfolding n_def c_def by (rule uint_sub_u64)
  have s: "sint ?d = (if uint ?d < 2 ^ 63 then uint ?d else uint ?d - 2 ^ 64)"
    by (rule sint_u64)
  have m: "max_age \<le> n" "-5 \<le> sint ?d" "sint ?d \<le> max_age"
    using assms(1-3) by (simp_all add: auth_age_def n_def)
  have "n - max_age \<le> c \<and> c \<le> n + 5"
  proof (cases "c \<le> n")
    case True
    with u s have "sint ?d = (if n - c < 2 ^ 63 then n - c else n - c - 2 ^ 64)" by simp
    with m b True show ?thesis by (simp split: if_splits)
  next
    case False
    with u s have "sint ?d = (if n - c + 2 ^ 64 < 2 ^ 63 then n - c + 2 ^ 64 else n - c)" by simp
    with m b False show ?thesis by (simp split: if_splits)
  qed
  then have "int (unat now) - max_age \<le> int (unat (ev_created_at e))"
    "int (unat (ev_created_at e)) \<le> int (unat now) + 5" unfolding n_def c_def by simp_all
  then show ?thesis by linarith
qed

section \<open>Properties\<close>

text \<open>C35: A request is authorized only by a signed event made for it. When verification
  returns a public key, the header carries an event by that key that passes signature
  validation, is of kind 27235, was created no more than the permitted age before and five
  seconds after the present, names the request's URL (up to trailing slashes) and method in
  its last such tags, and commits to the hash of the body, which may be omitted only when
  the body is empty.\<close>

theorem nip98_accepts_only_authorized:
  assumes "verify_nip98 X now hdr meth path body base max_age = Ok (pk, i)"
    and "max_age \<le> int (unat now)" "unat now + 5 < 2 ^ 64"
  shows "\<exists>e. header_event X hdr = Some e \<and> pk = ev_pubkey e \<and> i = ev_id e \<and>
    validate X e = Ok () \<and> ev_kind e = 27235 \<and>
    int (unat now) - max_age \<le> int (unat (ev_created_at e)) \<and> unat (ev_created_at e) \<le> unat now + 5 \<and>
    (\<exists>u m. last_value ''u'' (ev_tags e) = Some u \<and> last_value ''method'' (ev_tags e) = Some m \<and>
       trim_end_matches CHR ''/'' u = trim_end_matches CHR ''/'' (base @ path) \<and> eq_ignore_ascii_case m meth) \<and>
    (case payload_of (ev_tags e) of None \<Rightarrow> body = []
     | Some p \<Rightarrow> eq_ignore_ascii_case p (hex_encode X (sha256 X body)))"
proof -
  from assms(1) obtain e where e: "header_event X hdr = Some e" "pk = ev_pubkey e" "i = ev_id e"
    and a: "authorizes X now e meth path body base max_age" by (auto simp: verify_nip98_Ok)
  from a have "-5 \<le> auth_age now e" "auth_age now e \<le> max_age" by (simp_all add: authorizes_def)
  note w = age_window [OF this assms(2,3)]
  from a e w show ?thesis
    by (intro exI [of _ e])
      (auto simp: authorizes_def Let_def scan_tags_u scan_tags_method scan_tags_payload split: option.splits)
qed

definition demo_auth :: "u64 \<Rightarrow> event" where
  "demo_auth created = sealed std_ext (demo_event\<lparr>ev_kind := 27235, ev_created_at := created,
     ev_tags := [[''u'', ''https://x/api/''], [''method'', ''delete'']]\<rparr>)"

lemma demo_auth_valid: "validate std_ext (demo_auth c) = Ok ()"
  unfolding demo_auth_def
  by (rule validate_sealed) (simp_all add: demo_event_def hexdigits_replicate ascii_defs)

lemma header_event_printed:
  assumes "event_to_string std_ext e = Some s" "ev_delegated_by e = None" "ev_tagidx e = None" "trim s = s"
  shows "header_event std_ext (Some (''Nostr '' @ s)) = Some e"
  using event_from_to_str [OF std_json_roundtrips assms(1)] assms(2-)
  by (simp add: header_event_def strip_prefix_def starts_with_def)

lemma trim_replicate: "\<not> is_whitespace [c] \<Longrightarrow> is_ascii c \<Longrightarrow> trim (replicate n c) = replicate n c"
proof -
  assume w: "\<not> is_whitespace [c]" "is_ascii c"
  then have c: "chars (replicate n c) = replicate n [c]"
    by (simp add: chars_ascii list_all_iff)
  have "dropWhile is_whitespace (replicate n [c]) = replicate n [c]" using w by (cases n) auto
  moreover have "concat (replicate n [c]) = replicate n c" by (induction n) auto
  ultimately show ?thesis by (simp add: trim_def c)
qed

lemma delete_any_case: "eq_ignore_ascii_case ''delete'' ''DELETE''"
  by code_simp

lemma printed_header:
  assumes "ev_delegated_by e = None" "ev_tagidx e = None"
  obtains hdr where "header_event std_ext hdr = Some e"
proof -
  obtain s where s: "event_to_string std_ext e = Some s" "trim s = s"
    by (simp add: event_to_string_def std_json_to_string_def trim_replicate is_whitespace_def is_ascii_def)
  show thesis by (rule that, rule header_event_printed [OF s(1) assms s(2)])
qed

lemma demo_auth_request:
  "c = 998 \<or> c = 1005 \<Longrightarrow>
   \<exists>hdr. header_event std_ext hdr = Some (demo_auth c) \<and>
     verify_nip98 std_ext 1000 hdr ''DELETE'' ''/api'' [] ''https://x'' 60 = Ok (ev_pubkey (demo_auth c), ev_id (demo_auth c))"
proof -
  assume c: "c = 998 \<or> c = 1005"
  obtain hdr where h: "header_event std_ext hdr = Some (demo_auth c)"
    by (rule printed_header [of "demo_auth c"]) (simp_all add: demo_auth_def demo_event_def)
  have "authorizes std_ext 1000 (demo_auth c) ''DELETE'' ''/api'' [] ''https://x'' 60"
    unfolding authorizes_def demo_auth_valid using c
    by (auto simp: demo_auth_def auth_age_def Let_def scan_tags_def scan_tag_def trim_end_matches_def
        delete_any_case)
  with h show ?thesis unfolding verify_nip98_Ok by blast
qed

theorem nip98_accepts_only_authorized_witness:
  "\<exists>hdr e. header_event std_ext hdr = Some e \<and> ev_kind e = 27235 \<and>
     verify_nip98 std_ext 1000 hdr ''DELETE'' ''/api'' [] ''https://x'' 60 = Ok (ev_pubkey e, ev_id e)"
proof -
  obtain hdr where h: "verify_nip98 std_ext 1000 hdr ''DELETE'' ''/api'' [] ''https://x'' 60 =
    Ok (ev_pubkey (demo_auth 998), ev_id (demo_auth 998))" using demo_auth_request by blast
  from nip98_accepts_only_authorized [OF h] obtain e where
    "header_event std_ext hdr = Some e" "ev_kind e = 27235" "ev_pubkey (demo_auth 998) = ev_pubkey e"
    "ev_id (demo_auth 998) = ev_id e" by auto
  with h show ?thesis by auto
qed

end
