(* ===== verification/Rate_Limit.thy ===== *)
theory Rate_Limit
  imports Nip98 "HOL-Library.AList"
begin

text \<open>
  The in-memory limits of the name authority (\<^verbatim>\<open>src/src/name_authority/mod.rs\<close>): sliding-window
  rate limits, cooldowns and the one-time use of authorization events. A \<^verbatim>\<open>HashMap\<close> is an
  association list (one entry per key), an \<^verbatim>\<open>Instant\<close> a number of nanoseconds, and
  \<^verbatim>\<open>duration_since\<close> saturates at zero like subtraction on naturals.
\<close>

section \<open>Definitions\<close>

type_synonym instant = nat
type_synonym rate_map = "(string \<times> instant list) list"

definition rate_key :: "string \<Rightarrow> string \<Rightarrow> string" where
  "rate_key bucket key = bucket @ '':'' @ key"

definition within :: "instant \<Rightarrow> duration \<Rightarrow> instant \<Rightarrow> bool" where
  "within now window t \<longleftrightarrow> now - t < window"

definition hits :: "rate_map \<Rightarrow> string \<Rightarrow> instant list" where
  "hits m k = (case map_of m k of None \<Rightarrow> [] | Some h \<Rightarrow> h)"

definition auth_event_fresh ::
  "name_authority_settings \<Rightarrow> instant \<Rightarrow> string \<Rightarrow> (string \<times> instant) list \<Rightarrow>
   (string \<times> instant) list \<times> bool" where
  "auth_event_fresh cfg now event_id seen =
     (let window = from_secs (nat (max (auth_max_age_secs cfg) 0) + 5);
          seen' = filter (\<lambda>(_, t). within now window t) seen
      in if map_of seen' event_id \<noteq> None then (seen', False)
         else (AList.update event_id now seen', True))"

definition cooldown_active ::
  "instant \<Rightarrow> string \<Rightarrow> string \<Rightarrow> duration \<Rightarrow> rate_map \<Rightarrow> rate_map \<times> bool" where
  "cooldown_active now bucket key window m =
     (let k = rate_key bucket key in
      case map_of m k of
        Some h \<Rightarrow> (let h' = filter (within now window) h in (AList.update k h' m, h' \<noteq> []))
      | None \<Rightarrow> (m, False))"

definition record_op :: "instant \<Rightarrow> string \<Rightarrow> string \<Rightarrow> rate_map \<Rightarrow> rate_map" where
  "record_op now bucket key m =
     (let k = rate_key bucket key in AList.update k (hits m k @ [now]) m)"

definition allow ::
  "instant \<Rightarrow> string \<Rightarrow> string \<Rightarrow> nat \<Rightarrow> duration \<Rightarrow> rate_map \<Rightarrow> rate_map \<times> bool" where
  "allow now bucket ip mx window m =
     (let k = rate_key bucket ip;
          h = filter (within now window) (hits m k)
      in if mx \<le> length h then (AList.update k h m, False)
         else
           (let m' = AList.update k (h @ [now]) m in
            (if 50000 < length m'
             then filter (\<lambda>(_, v). list_ex (within now window) v) m' else m', True)))"

definition allow_read ::
  "name_authority_settings \<Rightarrow> instant \<Rightarrow> string \<Rightarrow> rate_map \<Rightarrow> rate_map \<times> bool" where
  "allow_read cfg now ip = allow now ''na-read'' ip (read_rate_max cfg) (from_secs (read_rate_window_secs cfg))"

definition allow_write ::
  "name_authority_settings \<Rightarrow> instant \<Rightarrow> string \<Rightarrow> string \<Rightarrow> rate_map \<Rightarrow> rate_map \<times> bool" where
  "allow_write cfg now bucket ip = allow now bucket ip (write_rate_max cfg) (from_secs (write_rate_window_secs cfg))"

section \<open>Histories\<close>

text \<open>
  A history of the limiter: each call with its time and answer, latest first, at times that
  never decrease.
\<close>

datatype rate_op =
    Allow string string nat duration
  | Cooldown string string duration
  | Record string string

fun rate_step :: "instant \<Rightarrow> rate_op \<Rightarrow> rate_map \<Rightarrow> rate_map \<times> bool" where
  "rate_step now (Allow b ip mx w) m = allow now b ip mx w m"
| "rate_step now (Cooldown b k w) m = cooldown_active now b k w m"
| "rate_step now (Record b k) m = (record_op now b k m, True)"

type_synonym rate_log = "(instant \<times> rate_op \<times> bool) list"

inductive rate_run :: "rate_log \<Rightarrow> rate_map \<Rightarrow> bool" where
  rate_init: "rate_run [] []"
| rate_call: "rate_run log m \<Longrightarrow> (\<And>t. t \<in> fst ` set log \<Longrightarrow> t \<le> now) \<Longrightarrow>
    rate_step now op m = (m', b) \<Longrightarrow> rate_run ((now, op, b) # log) m'"

inductive_cases rate_call_cases: "rate_run ((now, op, b) # log) m'"

fun op_key :: "rate_op \<Rightarrow> string" where
  "op_key (Allow b ip mx w) = rate_key b ip"
| "op_key (Cooldown b k w) = rate_key b k"
| "op_key (Record b k) = rate_key b k"

text \<open>The times at which a call was granted (or an operation recorded) under a key, oldest first.\<close>

fun grants :: "string \<Rightarrow> rate_log \<Rightarrow> instant list" where
  "grants k [] = []"
| "grants k ((t, op, b) # log) =
     (case op of
        Cooldown _ _ _ \<Rightarrow> grants k log
      | _ \<Rightarrow> if op_key op = k \<and> b then grants k log @ [t] else grants k log)"

text \<open>
  No call of a history looks back less far than \<open>w\<close> in a way that can drop hits of \<open>k\<close>:
  cooldown checks of other keys are harmless, every limiter call may trigger the cleanup.
\<close>

fun op_window :: "string \<Rightarrow> duration \<Rightarrow> rate_op \<Rightarrow> bool" where
  "op_window k w (Allow b ip mx v) = (w \<le> v)"
| "op_window k w (Cooldown b key v) = (rate_key b key = k \<longrightarrow> w \<le> v)"
| "op_window k w (Record b key) = True"

definition windows_ok :: "string \<Rightarrow> duration \<Rightarrow> rate_log \<Rightarrow> bool" where
  "windows_ok k w log \<longleftrightarrow> (\<forall>(t, op, b) \<in> set log. op_window k w op)"

text \<open>A history of authorization events presented, latest first, with the answers.\<close>

inductive fresh_run ::
  "name_authority_settings \<Rightarrow> (instant \<times> string \<times> bool) list \<Rightarrow> (string \<times> instant) list \<Rightarrow> bool"
  for cfg where
  fresh_init: "fresh_run cfg [] []"
| fresh_call: "fresh_run cfg log seen \<Longrightarrow> (\<And>t. t \<in> fst ` set log \<Longrightarrow> t \<le> now) \<Longrightarrow>
    auth_event_fresh cfg now i seen = (seen', b) \<Longrightarrow> fresh_run cfg ((now, i, b) # log) seen'"

inductive_cases fresh_call_cases: "fresh_run cfg ((now, i, b) # log) seen'"

definition replay_window :: "name_authority_settings \<Rightarrow> duration" where
  "replay_window cfg = from_secs (nat (max (auth_max_age_secs cfg) 0) + 5)"

section \<open>Lemmas\<close>

lemma hits_update [simp]: "hits (AList.update k v m) j = (if j = k then v else hits m j)"
  by (simp add: hits_def update_conv')

lemma cooldown_of_hit:
  "t \<in> set (hits m (rate_key cb key)) \<Longrightarrow> now - t < w \<Longrightarrow> snd (cooldown_active now cb key w m)"
  by (cases "map_of m (rate_key cb key)")
    (auto simp: cooldown_active_def Let_def hits_def within_def filter_empty_conv)

lemma within_mono: "within now v t \<Longrightarrow> v \<le> w \<Longrightarrow> within now w t"
  by (simp add: within_def)

lemma within_earlier: "within now w t \<Longrightarrow> earlier \<le> now \<Longrightarrow> within earlier w t"
  by (simp add: within_def)

lemma filter_within_filter:
  "v \<le> w \<Longrightarrow> earlier \<le> now \<Longrightarrow>
     filter (\<lambda>t. within earlier w t \<and> within now v t) h = filter (within now v) h"
  by (auto simp: within_def intro!: filter_cong)

lemma distinct_keys_filter: "distinct (map fst m) \<Longrightarrow> distinct (map fst (filter P m))"
  by (rule distinct_map_filter)

lemma map_of_retain:
  assumes "distinct (map fst m)"
  shows "map_of (filter (\<lambda>(_, v). P v) m) k = (case map_of m k of None \<Rightarrow> None | Some v \<Rightarrow> if P v then Some v else None)"
  using assms by (induction m) (auto simp: map_of_eq_None_iff split: option.splits)

lemma hits_retain:
  "distinct (map fst m) \<Longrightarrow> hits (filter (\<lambda>(_, v). P v) m) k = (if P (hits m k) then hits m k else [])"
  by (simp add: hits_def map_of_retain split: option.splits)

lemma rate_step_distinct:
  "rate_step now op m = (m', b) \<Longrightarrow> distinct (map fst m) \<Longrightarrow> distinct (map fst m')"
  by (cases op)
    (auto simp: allow_def cooldown_active_def record_op_def Let_def
      intro!: distinct_keys_filter distinct_update split: if_splits option.splits)

lemma rate_run_distinct: "rate_run log m \<Longrightarrow> distinct (map fst m)"
  by (induction rule: rate_run.induct) (auto dest: rate_step_distinct)

lemma list_ex_within: "\<not> list_ex (within now v) h \<Longrightarrow> w \<le> v \<Longrightarrow> now \<le> later \<Longrightarrow> filter (within later w) h = []"
  by (auto simp: list_ex_iff filter_empty_conv within_def)

lemma hits_cleanup:
  assumes "distinct (map fst m)" "w \<le> v" "now \<le> later"
  shows "filter (within later w) (hits (filter (\<lambda>(_, u). list_ex (within now v) u) m) k) =
    filter (within later w) (hits m k)"
  unfolding hits_retain [OF assms(1)] using list_ex_within [OF _ assms(2,3)] by simp

lemma hits_of_step:
  assumes "rate_step now op m = (m', b)" "distinct (map fst m)" "op_window k w op" "now \<le> later"
  shows "filter (within later w) (hits m' k) =
    filter (within later w) (hits m k @ (if op_key op = k \<and> b \<and> (\<forall>x y z. op \<noteq> Cooldown x y z) then [now] else []))"
proof (cases op)
  case (Allow bk ip mx v)
  let ?k = "rate_key bk ip"
  let ?h = "filter (within now v) (hits m ?k)"
  have w: "w \<le> v" using assms(3) Allow by simp
  show ?thesis
  proof (cases "mx \<le> length ?h")
    case True
    then have "m' = AList.update ?k ?h m" "\<not> b" using assms(1) Allow by (auto simp: allow_def Let_def)
    then show ?thesis using w assms(4) by (simp add: filter_within_filter)
  next
    case False
    let ?m = "AList.update ?k (?h @ [now]) m"
    have d: "distinct (map fst ?m)" using assms(2) by (rule distinct_update)
    have m': "m' = (if 50000 < length ?m then filter (\<lambda>(_, u). list_ex (within now v) u) ?m else ?m)" "b"
      using assms(1) Allow False by (auto simp: allow_def Let_def)
    have "filter (within later w) (hits m' k) = filter (within later w) (hits ?m k)"
      unfolding m'(1) by (cases "50000 < length ?m") (simp_all only: if_True if_False hits_cleanup [OF d w assms(4)])
    then show ?thesis using m'(2) Allow w assms(4) by (simp add: filter_within_filter)
  qed
next
  case (Cooldown bk key v)
  show ?thesis
  proof (cases "map_of m (rate_key bk key)")
    case None
    with assms(1) Cooldown show ?thesis by (simp add: cooldown_active_def)
  next
    case (Some h)
    with assms(1) Cooldown have "m' = AList.update (rate_key bk key) (filter (within now v) h) m"
      by (auto simp: cooldown_active_def Let_def)
    with Some Cooldown assms(3,4) show ?thesis by (simp add: filter_within_filter hits_def [of m])
  qed
next
  case (Record bk key)
  with assms(1) show ?thesis by (auto simp: record_op_def Let_def)
qed

text \<open>What the map holds of a window is what was granted in it.\<close>

lemma hits_are_grants:
  "rate_run log m \<Longrightarrow> windows_ok k w log \<Longrightarrow> (\<And>t. t \<in> fst ` set log \<Longrightarrow> t \<le> later) \<Longrightarrow>
     filter (within later w) (hits m k) = filter (within later w) (grants k log)"
proof (induction arbitrary: later rule: rate_run.induct)
  case rate_init
  then show ?case by (simp add: hits_def)
next
  case (rate_call log m now op m' b)
  have IH: "filter (within later w) (hits m k) = filter (within later w) (grants k log)"
    using rate_call.IH rate_call.prems by (simp add: windows_ok_def)
  have "filter (within later w) (hits m' k) = filter (within later w)
      (hits m k @ (if op_key op = k \<and> b \<and> (\<forall>x y z. op \<noteq> Cooldown x y z) then [now] else []))"
    using rate_call.prems rate_call.hyps rate_run_distinct
    by (intro hits_of_step) (auto simp: windows_ok_def)
  with IH show ?case by (cases op) auto
qed

text \<open>The seen map holds, for each id, whether it was accepted within the window.\<close>

definition seen_at :: "(string \<times> instant) list \<Rightarrow> instant \<Rightarrow> duration \<Rightarrow> string \<Rightarrow> bool" where
  "seen_at seen now w i \<longleftrightarrow> (case map_of seen i of None \<Rightarrow> False | Some t \<Rightarrow> within now w t)"

lemma auth_event_fresh_eq:
  assumes "distinct (map fst seen)"
  shows "auth_event_fresh cfg now i seen =
    (let seen' = filter (\<lambda>(_, t). within now (replay_window cfg) t) seen in
     if seen_at seen now (replay_window cfg) i then (seen', False) else (AList.update i now seen', True))"
  by (auto simp: auth_event_fresh_def replay_window_def seen_at_def Let_def map_of_retain [OF assms]
      split: option.splits)

lemma auth_event_fresh_distinct:
  "auth_event_fresh cfg now i seen = (seen', b) \<Longrightarrow> distinct (map fst seen) \<Longrightarrow> distinct (map fst seen')"
  by (auto simp: auth_event_fresh_def Let_def intro!: distinct_update distinct_keys_filter split: if_splits)

lemma fresh_run_distinct: "fresh_run cfg log seen \<Longrightarrow> distinct (map fst seen)"
  by (induction rule: fresh_run.induct) (auto dest: auth_event_fresh_distinct)

lemma seen_at_retain:
  "distinct (map fst m) \<Longrightarrow> now \<le> later \<Longrightarrow>
     seen_at (filter (\<lambda>(_, t). within now w t) m) later w i = seen_at m later w i"
  by (auto simp: seen_at_def map_of_retain within_def split: option.splits)

lemma seen_at_update:
  "seen_at (AList.update j t m) later w i = (if i = j then within later w t else seen_at m later w i)"
  by (simp add: seen_at_def update_conv')

lemma seen_at_accepted:
  "fresh_run cfg log seen \<Longrightarrow> (\<And>t. t \<in> fst ` set log \<Longrightarrow> t \<le> later) \<Longrightarrow>
     seen_at seen later (replay_window cfg) i \<longleftrightarrow>
       (\<exists>t. (t, i, True) \<in> set log \<and> within later (replay_window cfg) t)"
proof (induction arbitrary: later i rule: fresh_run.induct)
  case fresh_init
  then show ?case by (simp add: seen_at_def)
next
  case (fresh_call log seen now j seen' b)
  let ?w = "replay_window cfg"
  have d: "distinct (map fst seen)" using fresh_call.hyps(1) by (rule fresh_run_distinct)
  have le: "now \<le> later" using fresh_call.prems by simp
  have IH: "seen_at seen u ?w x \<longleftrightarrow> (\<exists>t. (t, x, True) \<in> set log \<and> within u ?w t)"
    if "now \<le> u" for u x using fresh_call.IH fresh_call.hyps(2) that by (meson le_trans)
  show ?case
    using fresh_call.hyps(3) IH [OF le, of i] IH [of now j] within_earlier [of later ?w] le
    by (auto simp: auth_event_fresh_eq [OF d] Let_def seen_at_update seen_at_retain [OF d] split: if_splits)
qed

section \<open>Properties\<close>


definition demo_log :: rate_log where
  "demo_log = [(5, Allow ''na-reg'' ''ip'' 1 10, True)]"


text \<open>An authorization event is accepted once per window. In any history, presenting an
  event id succeeds exactly when the same id was not accepted less than the permitted age
  plus five seconds ago.\<close>

theorem auth_event_single_use:
  assumes "fresh_run cfg ((now, i, b) # log) seen"
  shows "b \<longleftrightarrow> \<not> (\<exists>t. (t, i, True) \<in> set log \<and> now - t < from_secs (nat (max (auth_max_age_secs cfg) 0) + 5))"
proof -
  obtain s0 where s0: "fresh_run cfg log s0" "\<And>t. t \<in> fst ` set log \<Longrightarrow> t \<le> now"
    "auth_event_fresh cfg now i s0 = (seen, b)" using assms by (auto elim: fresh_call_cases)
  from s0(3) have "b \<longleftrightarrow> \<not> seen_at s0 now (replay_window cfg) i"
    by (auto simp: auth_event_fresh_eq [OF fresh_run_distinct [OF s0(1)]] Let_def split: if_splits)
  also have "\<dots> \<longleftrightarrow> \<not> (\<exists>t. (t, i, True) \<in> set log \<and> within now (replay_window cfg) t)"
    using seen_at_accepted [OF s0(1,2)] by simp
  finally show ?thesis by (simp add: within_def replay_window_def)
qed

definition demo_cfg :: name_authority_settings where
  "demo_cfg = s_name_authority default_settings"

theorem auth_event_single_use_witness:
  "\<exists>seen. fresh_run demo_cfg [(7, ''id'', False), (5, ''id'', True)] seen"
proof -
  have one: "fresh_run demo_cfg [(5, ''id'', True)] [(''id'', 5)]"
    by (rule fresh_call [OF fresh_init]) (simp_all add: auth_event_fresh_def)
  obtain seen b where s: "auth_event_fresh demo_cfg 7 ''id'' [(''id'', 5)] = (seen, b)" by force
  then have r: "fresh_run demo_cfg [(7, ''id'', b), (5, ''id'', True)] seen"
    by (intro fresh_call [OF one]) simp_all
  from auth_event_single_use [OF this] have "\<not> b" by (auto simp: from_secs_def)
  with r show ?thesis by auto
qed

text \<open>The replay window is one instant too short. An event created five seconds ahead of
  the server clock is accepted, and accepted again when the permitted age plus five seconds
  have passed: it is still fresh enough for the signature check, and its id has just been
  forgotten.\<close>

theorem auth_event_replay_at_edge:
  assumes "verify_nip98 X now hdr meth path body base (auth_max_age_secs cfg) = Ok (pk, i)"
    and "header_event X hdr = Some e" "ev_created_at e = now + 5"
    and "0 \<le> auth_max_age_secs cfg" "auth_max_age_secs cfg < 2 ^ 63"
    and "auth_event_fresh cfg t i seen = (seen', True)" "distinct (map fst seen)"
  shows "verify_nip98 X (now + 5 + word_of_int (auth_max_age_secs cfg)) hdr meth path body base (auth_max_age_secs cfg) = Ok (pk, i) \<and>
    snd (auth_event_fresh cfg (t + from_secs (nat (auth_max_age_secs cfg) + 5)) i seen')"
proof
  let ?m = "auth_max_age_secs cfg"
  have "uint (word_of_int ?m :: u64) = ?m" using assms(4,5) by (simp add: uint_word_of_int)
  then have "auth_age (now + 5 + word_of_int ?m) e = ?m"
    using assms(3,5) by (simp add: auth_age_def sint_u64)
  then show "verify_nip98 X (now + 5 + word_of_int ?m) hdr meth path body base ?m = Ok (pk, i)"
    using assms(1,2,4) by (auto simp: verify_nip98_Ok authorizes_def)
  have "map_of seen' i = Some t"
    using assms(6) by (auto simp: auth_event_fresh_def Let_def update_conv' split: if_splits)
  moreover have "distinct (map fst seen')" using assms(6,7) by (rule auth_event_fresh_distinct)
  ultimately show "snd (auth_event_fresh cfg (t + from_secs (nat ?m + 5)) i seen')"
    using assms(4) by (simp add: auth_event_fresh_eq seen_at_def within_def replay_window_def Let_def)
qed

theorem auth_event_replay_at_edge_witness:
  "\<exists>hdr. verify_nip98 std_ext 1000 hdr ''DELETE'' ''/api'' [] ''https://x'' 60 = Ok (ev_pubkey (demo_auth 1005), ev_id (demo_auth 1005)) \<and>
     verify_nip98 std_ext 1065 hdr ''DELETE'' ''/api'' [] ''https://x'' 60 = Ok (ev_pubkey (demo_auth 1005), ev_id (demo_auth 1005))"
proof -
  have c: "auth_max_age_secs demo_cfg = 60" by (simp add: demo_cfg_def default_settings_def)
  obtain hdr where h: "header_event std_ext hdr = Some (demo_auth 1005)"
    "verify_nip98 std_ext 1000 hdr ''DELETE'' ''/api'' [] ''https://x'' 60 = Ok (ev_pubkey (demo_auth 1005), ev_id (demo_auth 1005))"
    using demo_auth_request by blast
  have "auth_event_fresh demo_cfg 0 (ev_id (demo_auth 1005)) [] = ([(ev_id (demo_auth 1005), 0)], True)"
    by (simp add: auth_event_fresh_def)
  from auth_event_replay_at_edge [of std_ext 1000 hdr _ _ _ _ demo_cfg, unfolded c, OF h(2,1) _ _ _ this]
  show ?thesis using h by (intro exI [of _ hdr]) (simp add: demo_auth_def)
qed

text \<open>The memory cleanup can forget a cooldown early. When the map holds more than fifty
  thousand keys, a granted call with a shorter window drops every key without a hit in that
  shorter window, so a cooldown that was still running is no longer reported.\<close>

theorem cleanup_forgets_cooldown:
  assumes "50000 < length m" "distinct (map fst m)" "allow now bucket ip mx v m = (m', True)"
    and "rate_key cb key \<noteq> rate_key bucket ip" "t \<in> set (hits m (rate_key cb key))" "now - t < w"
    and "\<forall>s\<in>set (hits m (rate_key cb key)). v \<le> now - s"
  shows "snd (cooldown_active now cb key w m) \<and> \<not> snd (cooldown_active now cb key w m')"
proof
  show "snd (cooldown_active now cb key w m)"
    using assms(5,6) by (rule cooldown_of_hit)
  define h where "h = filter (within now v) (hits m (rate_key bucket ip)) @ [now]"
  define m1 where "m1 = AList.update (rate_key bucket ip) h m"
  have d: "distinct (map fst m1)" unfolding m1_def using assms(2) by (rule distinct_update)
  have "length m \<le> length m1" unfolding m1_def by (induction m) auto
  then have m': "m' = filter (\<lambda>(_, u). list_ex (within now v) u) m1"
    using assms(1,3) by (auto simp: allow_def Let_def h_def m1_def split: if_splits)
  have "hits m1 (rate_key cb key) = hits m (rate_key cb key)" using assms(4) by (simp add: m1_def)
  moreover have "\<not> list_ex (within now v) (hits m (rate_key cb key))"
    using assms(7) by (auto simp: list_ex_iff within_def)
  ultimately have "hits m' (rate_key cb key) = []" unfolding m' hits_retain [OF d] by simp
  then show "\<not> snd (cooldown_active now cb key w m')"
    by (auto simp: cooldown_active_def Let_def hits_def split: option.splits)
qed

definition crowded :: rate_map where
  "crowded = (rate_key ''na-namechange'' ''pk'', [0]) #
     map (\<lambda>n. (rate_key ''na-read'' (show_nat n), [0])) [0..<50000]"

lemma crowd_distinct:
  "distinct (map fst ((rate_key ''na-namechange'' ''pk'', h) #
     map (\<lambda>n. (rate_key ''na-read'' (show_nat n), g n)) [0..<N]))"
proof -
  have "inj_on (\<lambda>n. rate_key ''na-read'' (show_nat n)) A" for A
    by (rule inj_onI) (metis rate_key_def same_append_eq dec_val_show_nat)
  then show ?thesis by (auto simp: distinct_map comp_def rate_key_def simp del: upt_Suc)
qed

lemma crowded_distinct: "distinct (map fst crowded)"
  unfolding crowded_def by (rule crowd_distinct)

lemma crowded_old: "t \<in> set (hits crowded k) \<Longrightarrow> t = 0"
proof (cases "map_of crowded k")
  case (Some h)
  assume t: "t \<in> set (hits crowded k)"
  from Some have "(k, h) \<in> set crowded" by (rule map_of_SomeD)
  then have "h = [0]" unfolding crowded_def by auto
  with Some t show ?thesis by (simp add: hits_def)
qed (simp add: hits_def)

theorem cleanup_forgets_cooldown_witness:
  "\<exists>m'. allow (from_secs 120) ''na-read'' ''ip'' 10 (from_secs 60) crowded = (m', True) \<and>
     \<not> snd (cooldown_active (from_secs 120) ''na-namechange'' ''pk'' (from_secs 600) m')"
proof -
  have h: "hits crowded (rate_key ''na-namechange'' ''pk'') = [0]" by (simp add: crowded_def hits_def)
  have "filter (within (from_secs 120) (from_secs 60)) (hits crowded k) = []" for k
    by (auto simp: filter_empty_conv within_def from_secs_def dest: crowded_old)
  then obtain m' where m': "allow (from_secs 120) ''na-read'' ''ip'' 10 (from_secs 60) crowded = (m', True)"
    by (simp add: allow_def Let_def)
  have "length crowded = 50001" by (simp add: crowded_def)
  then show ?thesis
    using cleanup_forgets_cooldown [OF _ crowded_distinct m', of "''na-namechange''" "''pk''" 0 "from_secs 600"] m' h
    by (auto simp: rate_key_def from_secs_def)
qed

end
