(* ===== verification/Claims.thy ===== *)
theory Claims
  imports Errors
begin

text \<open>
  The claims table of the name authority (\<^verbatim>\<open>src/src/name_authority/mod.rs\<close>, table \<^verbatim>\<open>name_claims\<close>):
  the primary key is the name, and a partial unique index allows each public key one row that
  is not released. The statements are the four the source executes.
\<close>

section \<open>Definitions\<close>

record claim_row =
  nc_name :: string
  nc_pubkey :: string
  nc_created_at :: u64
  nc_released_at :: "u64 option"

type_synonym claims = "claim_row list"

definition active :: "claim_row \<Rightarrow> bool" where
  "active r \<longleftrightarrow> nc_released_at r = None"

definition lookup :: "claims \<Rightarrow> string \<Rightarrow> string option" where
  "lookup rows name = map_option nc_pubkey (List.find (\<lambda>r. nc_name r = name \<and> active r) rows)"

definition name_of :: "claims \<Rightarrow> string \<Rightarrow> string option" where
  "name_of rows pubkey = map_option nc_name (List.find (\<lambda>r. nc_pubkey r = pubkey \<and> active r) rows)"

text \<open>
  The upsert. A row of the same name that is active stays as it is (no row changed); if in
  addition the public key is active, SQLite may report that violation first, which
  \<open>pubkey_first\<close> decides. A released row of the name is revived, an unknown name inserted,
  unless the public key already has an active row.
\<close>

definition claim ::
  "bool \<Rightarrow> string \<Rightarrow> string \<Rightarrow> u64 \<Rightarrow> claims \<Rightarrow> claims \<times> (nat, sql_error) result" where
  "claim pubkey_first name pubkey now rows =
     (let dup = list_ex (\<lambda>r. nc_pubkey r = pubkey \<and> active r) rows;
          new = \<lparr>nc_name = name, nc_pubkey = pubkey, nc_created_at = now, nc_released_at = None\<rparr>
      in case List.find (\<lambda>r. nc_name r = name) rows of
        None \<Rightarrow> if dup then (rows, Err (SqliteFailure True)) else (rows @ [new], Ok 1)
      | Some r \<Rightarrow>
        if active r then (rows, if dup \<and> pubkey_first then Err (SqliteFailure True) else Ok 0)
        else if dup then (rows, Err (SqliteFailure True))
        else (map (\<lambda>x. if nc_name x = name then new else x) rows, Ok 1))"

definition release :: "string \<Rightarrow> u64 \<Rightarrow> claims \<Rightarrow> claims" where
  "release name now rows =
     map (\<lambda>r. if nc_name r = name \<and> active r then r\<lparr>nc_released_at := Some now\<rparr> else r) rows"

section \<open>Invariant\<close>

text \<open>The two uniqueness constraints of the table.\<close>

definition claims_ok :: "claims \<Rightarrow> bool" where
  "claims_ok rows \<longleftrightarrow> distinct (map nc_name rows) \<and> distinct (map nc_pubkey (filter active rows))"

lemma option_ext: "(\<And>x. a = Some x \<longleftrightarrow> b = Some x) \<Longrightarrow> a = b"
  by (cases a; cases b) auto

lemma find_distinct:
  "distinct (map f rows) \<Longrightarrow> List.find (\<lambda>r. f r = k \<and> P r) rows = Some r \<longleftrightarrow> r \<in> set rows \<and> f r = k \<and> P r"
proof (induction rows)
  case (Cons x xs)
  show ?case
  proof (cases "f x = k")
    case True
    with Cons.prems have "f y \<noteq> k" if "y \<in> set xs" for y
      using that by (metis distinct.simps(2) image_eqI list.simps(9) set_map)
    with True show ?thesis using find_None_all [of "\<lambda>r. f r = k \<and> P r" xs] by auto
  qed (use Cons in auto)
qed simp

lemma find_filter: "List.find (\<lambda>r. P r \<and> Q r) xs = List.find P (filter Q xs)"
  by (induction xs) auto

lemma lookup_iff:
  assumes "claims_ok rows"
  shows "lookup rows n = Some pk \<longleftrightarrow> (\<exists>r\<in>set rows. nc_name r = n \<and> nc_pubkey r = pk \<and> active r)"
proof -
  have d: "distinct (map nc_name rows)" using assms by (simp add: claims_ok_def)
  show ?thesis unfolding lookup_def by (auto simp: find_distinct [OF d])
qed

lemma lookup_active:
  "claims_ok rows \<Longrightarrow> lookup rows n = Some pk \<longleftrightarrow> (\<exists>r\<in>set (filter active rows). nc_name r = n \<and> nc_pubkey r = pk)"
  by (auto simp: lookup_iff)

lemma name_of_iff:
  assumes "claims_ok rows"
  shows "name_of rows pk = Some n \<longleftrightarrow> (\<exists>r\<in>set rows. nc_name r = n \<and> nc_pubkey r = pk \<and> active r)"
proof -
  have d: "distinct (map nc_pubkey (filter active rows))" using assms by (simp add: claims_ok_def)
  have "name_of rows pk = map_option nc_name (List.find (\<lambda>r. nc_pubkey r = pk \<and> True) (filter active rows))"
    by (simp add: name_of_def find_filter)
  then show ?thesis using find_distinct [OF d, of pk "\<lambda>_. True"] by auto
qed

lemma name_of_lookup: "claims_ok rows \<Longrightarrow> name_of rows pk = Some n \<longleftrightarrow> lookup rows n = Some pk"
  by (simp add: lookup_iff name_of_iff)

lemma lookup_injective:
  "claims_ok rows \<Longrightarrow> lookup rows n = Some pk \<Longrightarrow> lookup rows m = Some pk \<Longrightarrow> n = m"
  by (metis name_of_lookup option.inject)

section \<open>Release\<close>

lemma release_names [simp]: "map nc_name (release n now rows) = map nc_name rows"
  by (simp add: release_def)

lemma release_active:
  "filter active (release n now rows) = filter (\<lambda>r. nc_name r \<noteq> n) (filter active rows)"
  by (induction rows) (auto simp: release_def active_def)

lemma release_ok: "claims_ok rows \<Longrightarrow> claims_ok (release n now rows)"
  by (simp add: claims_ok_def release_active distinct_map_filterI del: filter_filter)

lemma lookup_release:
  assumes "claims_ok rows"
  shows "lookup (release n now rows) m = (if m = n then None else lookup rows m)"
proof -
  have "lookup (release n now rows) m = Some pk \<longleftrightarrow> m \<noteq> n \<and> lookup rows m = Some pk" for pk
  proof -
    have "(r \<in> set (release n now rows) \<and> active r) \<longleftrightarrow> (r \<in> set rows \<and> active r \<and> nc_name r \<noteq> n)" for r
      using arg_cong [OF release_active [of n now rows], of set] by auto
    then show ?thesis
      unfolding lookup_iff [OF release_ok [OF assms]] lookup_iff [OF assms] by blast
  qed
  then show ?thesis by (intro option_ext) auto
qed

section \<open>Claim\<close>

text \<open>Replacing the row of a name: the names stay, and so do the other active rows.\<close>

lemma replace_active:
  assumes "distinct (map nc_name rows)" "r \<in> set rows" "\<not> active r" "nc_name new = nc_name r" "active new"
  shows "set (filter active (map (\<lambda>x. if nc_name x = nc_name r then new else x) rows)) =
      insert new (set (filter active rows))"
    and "distinct (map nc_pubkey (filter active rows)) \<Longrightarrow> nc_pubkey new \<notin> nc_pubkey ` set (filter active rows) \<Longrightarrow>
      distinct (map nc_pubkey (filter active (map (\<lambda>x. if nc_name x = nc_name r then new else x) rows)))"
  using assms
proof (induction rows)
  case (Cons x xs)
  let ?g = "\<lambda>x. if nc_name x = nc_name r then new else x"
  have same: "map ?g ys = ys" if "nc_name r \<notin> nc_name ` set ys" for ys
    using that by (induction ys) auto
  { case 1
    show ?case
    proof (cases "x = r")
      case True
      with 1 have "map ?g xs = xs" by (intro same) auto
      with True 1 show ?thesis by simp
    next
      case False
      with 1 have "nc_name x \<noteq> nc_name r" by auto
      with False 1 Cons.IH(1) show ?thesis by (auto simp del: if_image_distrib)
    qed
  next
    case 2
    show ?case
    proof (cases "x = r")
      case True
      with 2 have "map ?g xs = xs" by (intro same) auto
      with True 2 show ?thesis by simp
    next
      case False
      with 2 have x: "nc_name x \<noteq> nc_name r" by auto
      with False 2 Cons.IH(1) have "set (filter active (map ?g xs)) = insert new (set (filter active xs))"
        by simp
      with x False 2 Cons.IH(2) show ?thesis
        by (auto simp del: if_image_distrib filter_map set_filter)
    qed
  }
qed auto

text \<open>The three outcomes of a claim, under the invariant.\<close>

lemma dup_iff: "claims_ok rows \<Longrightarrow> list_ex (\<lambda>r. nc_pubkey r = pk \<and> active r) rows \<longleftrightarrow> name_of rows pk \<noteq> None"
  by (auto simp: list_ex_iff name_of_def find_None_all)

lemma claim_free:
  fixes now
  assumes "claims_ok rows" and free: "lookup rows n = None" "name_of rows pk = None"
  defines "new \<equiv> \<lparr>nc_name = n, nc_pubkey = pk, nc_created_at = now, nc_released_at = None\<rparr>"
  shows "snd (claim pf n pk now rows) = Ok 1 \<and> claims_ok (fst (claim pf n pk now rows)) \<and>
      set (filter active (fst (claim pf n pk now rows))) = insert new (set (filter active rows))"
proof -
  have d: "distinct (map nc_name rows)" "distinct (map nc_pubkey (filter active rows))"
    using assms(1) by (simp_all add: claims_ok_def)
  note dup = dup_iff [OF assms(1), of pk]
  have pk: "pk \<notin> nc_pubkey ` set (filter active rows)"
    using free(2) name_of_iff [OF assms(1), of pk] by auto
  show ?thesis
  proof (cases "List.find (\<lambda>r. nc_name r = n) rows")
    case None
    then have "claim pf n pk now rows = (rows @ [new], Ok 1)"
      using dup free(2) by (simp add: claim_def Let_def new_def)
    moreover have "n \<notin> nc_name ` set rows" using None by (auto simp: find_None_all)
    ultimately show ?thesis using d pk by (simp add: claims_ok_def active_def new_def)
  next
    case (Some r)
    then have r: "r \<in> set rows" "nc_name r = n" "\<not> active r"
      using find_distinct [OF d(1), of n "\<lambda>_. True"] lookup_iff [OF assms(1), of n "nc_pubkey r"] free(1) by auto
    then have c: "claim pf n pk now rows = (map (\<lambda>x. if nc_name x = nc_name r then new else x) rows, Ok 1)"
      using Some dup free(2) by (simp add: claim_def Let_def new_def)
    have "nc_name new = nc_name r" "active new" using r by (simp_all add: active_def new_def)
    note rep = replace_active [OF d(1) r(1,3) this]
    have "map nc_name (map (\<lambda>x. if nc_name x = nc_name r then new else x) rows) = map nc_name rows"
      using r(2) by (simp add: new_def)
    with d(1) have "distinct (map nc_name (map (\<lambda>x. if nc_name x = nc_name r then new else x) rows))"
      by (simp only:)
    moreover have "nc_pubkey new \<notin> nc_pubkey ` set (filter active rows)" using pk by (simp add: new_def)
    ultimately show ?thesis
      unfolding c fst_conv snd_conv claims_ok_def using rep(1) rep(2) [OF d(2)] by (intro conjI refl)
  qed
qed

lemma claim_cases:
  assumes "claims_ok rows"
  shows "lookup rows n \<noteq> None \<Longrightarrow> fst (claim pf n pk now rows) = rows \<and>
      (snd (claim pf n pk now rows) = Ok 0 \<or> snd (claim pf n pk now rows) = Err (SqliteFailure True))"
    and "lookup rows n = None \<Longrightarrow> name_of rows pk \<noteq> None \<Longrightarrow>
      claim pf n pk now rows = (rows, Err (SqliteFailure True))"
    and "lookup rows n = None \<Longrightarrow> name_of rows pk = None \<Longrightarrow>
      snd (claim pf n pk now rows) = Ok 1 \<and> claims_ok (fst (claim pf n pk now rows)) \<and>
      set (filter active (fst (claim pf n pk now rows))) =
        insert \<lparr>nc_name = n, nc_pubkey = pk, nc_created_at = now, nc_released_at = None\<rparr> (set (filter active rows))"
proof -
  have d: "distinct (map nc_name rows)"
    using assms by (simp add: claims_ok_def)
  note dup = dup_iff [OF assms, of pk]
  have found: "List.find (\<lambda>r. nc_name r = n) rows = Some r \<longleftrightarrow> r \<in> set rows \<and> nc_name r = n" for r
    using find_distinct [OF d, of n "\<lambda>_. True"] by simp
  show "fst (claim pf n pk now rows) = rows \<and>
      (snd (claim pf n pk now rows) = Ok 0 \<or> snd (claim pf n pk now rows) = Err (SqliteFailure True))"
    if l: "lookup rows n \<noteq> None"
  proof -
    from l obtain r where "r \<in> set rows" "nc_name r = n" "active r"
      by (auto simp: lookup_iff [OF assms])
    then show ?thesis by (simp add: claim_def Let_def found [THEN iffD2])
  qed
  have inactive: "\<not> active r" if "lookup rows n = None" "r \<in> set rows" "nc_name r = n" for r
    using that lookup_iff [OF assms, of n "nc_pubkey r"] by auto
  show "claim pf n pk now rows = (rows, Err (SqliteFailure True))"
    if "lookup rows n = None" "name_of rows pk \<noteq> None"
    using that dup inactive found by (auto simp: claim_def Let_def split: option.splits)
qed (use claim_free [OF assms] in simp)

lemma claim_ok: "claims_ok rows \<Longrightarrow> claims_ok (fst (claim pf n pk now rows))"
  using claim_cases [where rows = rows and n = n and pf = pf and pk = pk and now = now] by (metis fst_conv)

lemma lookup_claim:
  assumes "claims_ok rows"
  shows "lookup (fst (claim pf n pk now rows)) =
    (if lookup rows n = None \<and> name_of rows pk = None then (lookup rows)(n \<mapsto> pk) else lookup rows)"
proof (cases "lookup rows n = None \<and> name_of rows pk = None")
  case True
  note c = claim_cases(3) [OF assms, of n pk pf now]
  show ?thesis
  proof (rule ext, rule option_ext)
    fix m x
    have "lookup (fst (claim pf n pk now rows)) m = Some x \<longleftrightarrow> m = n \<and> x = pk \<or> lookup rows m = Some x"
      unfolding lookup_active [OF claim_ok [OF assms]] lookup_active [OF assms] using c True by auto
    then show "lookup (fst (claim pf n pk now rows)) m = Some x \<longleftrightarrow>
      (if lookup rows n = None \<and> name_of rows pk = None then (lookup rows)(n \<mapsto> pk) else lookup rows) m = Some x"
      using True by auto
  qed
next
  case False
  with claim_cases(1,2) [OF assms, where n = n and pf = pf and pk = pk and now = now] show ?thesis by (metis fst_conv)
qed

lemma claim_succeeds:
  "claims_ok rows \<Longrightarrow> snd (claim pf n pk now rows) = Ok 1 \<longleftrightarrow> lookup rows n = None \<and> name_of rows pk = None"
  using claim_cases [where rows = rows and n = n and pf = pf and pk = pk and now = now]
  by (metis One_nat_def result.distinct(1) result.inject(1) snd_conv zero_neq_one)

section \<open>The registry interface\<close>

text \<open>
  The abstract registry is a partial map from names to public keys. A claim succeeds exactly
  when the name and the key are free; a release frees the name.
\<close>

type_synonym registry = "string \<rightharpoonup> string"

definition spec_claim :: "string \<Rightarrow> string \<Rightarrow> registry \<Rightarrow> registry" where
  "spec_claim n pk reg = (if reg n = None \<and> pk \<notin> ran reg then reg(n \<mapsto> pk) else reg)"

definition spec_release :: "string \<Rightarrow> registry \<Rightarrow> registry" where
  "spec_release n reg = reg(n := None)"

datatype 'e registry_op = Take 'e string string | Drop 'e string

fun registry_run ::
  "('e \<Rightarrow> string \<Rightarrow> string \<Rightarrow> 'db \<Rightarrow> 'db) \<Rightarrow> ('e \<Rightarrow> string \<Rightarrow> 'db \<Rightarrow> 'db) \<Rightarrow> 'e registry_op list \<Rightarrow> 'db \<Rightarrow> 'db" where
  "registry_run tk dr [] db = db"
| "registry_run tk dr (Take e n pk # ops) db = registry_run tk dr ops (tk e n pk db)"
| "registry_run tk dr (Drop e n # ops) db = registry_run tk dr ops (dr e n db)"

locale name_registry =
  fixes ok :: "'db \<Rightarrow> bool"
    and owner :: "'db \<Rightarrow> registry"
    and tk :: "'e \<Rightarrow> string \<Rightarrow> string \<Rightarrow> 'db \<Rightarrow> 'db"
    and dr :: "'e \<Rightarrow> string \<Rightarrow> 'db \<Rightarrow> 'db"
  assumes take_ok: "ok db \<Longrightarrow> ok (tk e n pk db)"
    and drop_ok: "ok db \<Longrightarrow> ok (dr e n db)"
    and take_owner: "ok db \<Longrightarrow> owner (tk e n pk db) = spec_claim n pk (owner db)"
    and drop_owner: "ok db \<Longrightarrow> owner (dr e n db) = spec_release n (owner db)"
begin

lemma run_ok: "ok db \<Longrightarrow> ok (registry_run tk dr ops db)"
proof (induction ops arbitrary: db)
  case (Cons p ops)
  then show ?case by (cases p) (auto simp: take_ok drop_ok)
qed simp

lemma run_refines:
  "ok db \<Longrightarrow> owner (registry_run tk dr ops db) =
     registry_run (\<lambda>_. spec_claim) (\<lambda>_. spec_release) ops (owner db)"
proof (induction ops arbitrary: db)
  case (Cons p ops)
  then show ?case by (cases p) (auto simp: take_ok drop_ok take_owner drop_owner)
qed simp

lemma kept_until_dropped:
  "ok db \<Longrightarrow> owner db n = Some pk \<Longrightarrow> (\<And>e. Drop e n \<notin> set ops) \<Longrightarrow>
     owner (registry_run tk dr ops db) n = Some pk"
proof (induction ops arbitrary: db)
  case (Cons p ops)
  show ?case
  proof (cases p)
    case (Take e m q)
    then have "owner (tk e m q db) n = Some pk"
      using Cons.prems by (auto simp: take_owner spec_claim_def)
    with Take Cons show ?thesis by (auto simp: take_ok)
  next
    case (Drop e m)
    with Cons.prems(3) have "m \<noteq> n" by auto
    then have "owner (dr e m db) n = Some pk"
      using Cons.prems by (auto simp: drop_owner spec_release_def)
    with Drop Cons show ?thesis by (auto simp: drop_ok)
  qed
qed simp

end

definition take_claim :: "bool \<times> u64 \<Rightarrow> string \<Rightarrow> string \<Rightarrow> claims \<Rightarrow> claims" where
  "take_claim e n pk rows = fst (claim (fst e) n pk (snd e) rows)"

definition drop_claim :: "bool \<times> u64 \<Rightarrow> string \<Rightarrow> claims \<Rightarrow> claims" where
  "drop_claim e n rows = release n (snd e) rows"

lemma ran_lookup: "claims_ok rows \<Longrightarrow> pk \<notin> ran (lookup rows) \<longleftrightarrow> name_of rows pk = None"
  unfolding ran_def using name_of_lookup [of rows pk] by (cases "name_of rows pk") auto

interpretation reg: name_registry claims_ok lookup take_claim drop_claim
proof
  fix db e n pk
  assume ok: "claims_ok db"
  show "claims_ok (take_claim e n pk db)" "claims_ok (drop_claim e n db)"
    using ok by (simp_all add: take_claim_def drop_claim_def claim_ok release_ok)
  show "lookup (take_claim e n pk db) = spec_claim n pk (lookup db)"
    using ok by (simp add: take_claim_def lookup_claim spec_claim_def ran_lookup)
  show "lookup (drop_claim e n db) = spec_release n (lookup db)"
    using ok by (auto simp: drop_claim_def lookup_release spec_release_def)
qed

section \<open>Properties\<close>

lemma claims_ok_Nil [simp]: "claims_ok []"
  by (simp add: claims_ok_def)

lemma lookup_Nil [simp]: "lookup [] = Map.empty"
  by (simp add: lookup_def fun_eq_iff)

text \<open>C11: The claims table implements the abstract registry. After any sequence of claims and
  releases, the name to key lookup is the map the abstract operations compute, no public key
  owns two names, and the reverse lookup is the inverse of the lookup.\<close>

theorem claims_refine_registry:
  "let rows = registry_run take_claim drop_claim ops [] in
   lookup rows = registry_run (\<lambda>_. spec_claim) (\<lambda>_. spec_release) ops Map.empty \<and>
   inj_on (lookup rows) (dom (lookup rows)) \<and>
   (\<forall>n pk. name_of rows pk = Some n \<longleftrightarrow> lookup rows n = Some pk)"
proof -
  have ok: "claims_ok (registry_run take_claim drop_claim ops [])" by (rule reg.run_ok) simp
  then have "inj_on (lookup (registry_run take_claim drop_claim ops [])) (dom (lookup (registry_run take_claim drop_claim ops [])))"
    by (auto simp: inj_on_def intro: lookup_injective)
  with ok show ?thesis unfolding Let_def by (simp add: name_of_lookup reg.run_refines)
qed

text \<open>A name cannot be taken away: once a public key owns it, it stays the owner through
  every further claim by anyone and every release of other names, until it is released.\<close>

theorem claimed_name_is_kept:
  assumes "claims_ok rows" "lookup rows n = Some pk" "\<forall>e. Drop e n \<notin> set ops"
  shows "lookup (registry_run take_claim drop_claim ops rows) n = Some pk"
  using assms by (intro reg.kept_until_dropped) auto

theorem claimed_name_is_kept_witness:
  "lookup (registry_run take_claim drop_claim [Take (False, 2) ''ada'' ''pk2'', Drop (False, 3) ''bob'']
     (fst (claim False ''ada'' ''pk1'' 1 []))) ''ada'' = Some ''pk1''"
  by (rule claimed_name_is_kept) (simp_all add: claim_ok lookup_claim name_of_def)

end
