(* ===== verification/Name_Authority.thy ===== *)
theory Name_Authority
  imports Names Nip98 Rate_Limit Claims Account_Store
begin

text \<open>
  The name authority's HTTP service (\<^verbatim>\<open>src/src/name_authority/mod.rs\<close>). The state is the claims
  table, the two in-memory maps and the account store; a handler takes the state to the next
  state and a response. What a request finds outside (the clocks, the answers of the payment
  server, database failures) is the record \<open>na_env\<close>. Registration is split where it awaits the
  payment gate: other requests may run between the checks and the insertion.
\<close>

section \<open>Requests and responses\<close>

record http_request =
  rq_method :: string
  rq_path :: string
  rq_query :: "string option"
  rq_headers :: "string \<Rightarrow> string option" \<comment> \<open>raw value of the first header of that name\<close>
  rq_size_upper :: "nat option" \<comment> \<open>\<^verbatim>\<open>body().size_hint().upper()\<close>\<close>
  rq_body :: "string option" \<comment> \<open>none if reading the body fails\<close>

datatype http_body = JsonBody json | TextBody string

record http_response =
  rsp_status :: nat
  rsp_headers :: "(string \<times> string) list"
  rsp_body :: http_body

definition json_response :: "nat \<Rightarrow> json \<Rightarrow> http_response" where
  "json_response status v = \<lparr>rsp_status = status,
     rsp_headers = [(''Content-Type'', ''application/json''), (''Access-Control-Allow-Origin'', ''*''),
       (''Cache-Control'', ''no-store'')], rsp_body = JsonBody v\<rparr>"

definition text_response :: "nat \<Rightarrow> string \<Rightarrow> http_response" where
  "text_response status t =
     \<lparr>rsp_status = status, rsp_headers = [(''Content-Type'', ''text/plain'')], rsp_body = TextBody t\<rparr>"

definition error_response :: "nat \<Rightarrow> string \<Rightarrow> http_response" where
  "error_response status msg = json_response status (JObject [(''error'', JString msg)])"

definition rate_limited :: http_response where
  "rate_limited = error_response 429 ''rate_limited''"

definition server_error :: http_response where
  "server_error = error_response 500 ''internal error''"

text \<open>A floating-point number in a JSON value; the non-finite ones become null.\<close>

definition json_f64 :: "f64 \<Rightarrow> json" where
  "json_f64 x = (if unat (drop_bit 52 x) mod 2048 = 2047 then JNull else JNumber (Float x))"

definition payment_required :: "string \<Rightarrow> string \<Rightarrow> f64 \<Rightarrow> u64 \<Rightarrow> http_response" where
  "payment_required invoice_id pay_url price_grin price_nanogrin =
     json_response 402 (JObject [(''error'', JString ''payment_required''), (''invoice_id'', JString invoice_id),
       (''pay_url'', JString pay_url), (''price_grin'', json_f64 price_grin),
       (''price_nanogrin'', JNumber (PosInt price_nanogrin))])"

definition strip :: "string \<Rightarrow> string \<Rightarrow> string" where
  "strip path pre = (case strip_prefix path pre of None \<Rightarrow> [] | Some r \<Rightarrow> r)"

definition splitn2 :: "char \<Rightarrow> string \<Rightarrow> string \<times> string option" where
  "splitn2 d s = (takeWhile (\<lambda>c. c \<noteq> d) s,
     (case dropWhile (\<lambda>c. c \<noteq> d) s of [] \<Rightarrow> None | _ # r \<Rightarrow> Some r))"

fun find_pair :: "string \<Rightarrow> string list \<Rightarrow> string option" where
  "find_pair key [] = None"
| "find_pair key (p # ps) =
     (case splitn2 CHR ''='' p of (k, v) \<Rightarrow>
        (case (if k = key then v else None) of Some x \<Rightarrow> Some x | None \<Rightarrow> find_pair key ps))"

definition query_param :: "http_request \<Rightarrow> string \<Rightarrow> string option" where
  "query_param rq key = Option.bind (rq_query rq) (\<lambda>q. find_pair key (split_on CHR ''&'' q))"

text \<open>\<^verbatim>\<open>HeaderValue::to_str\<close> accepts visible ASCII and tabs.\<close>

definition header_str :: "string \<Rightarrow> string option" where
  "header_str v = (if list_all (\<lambda>c. 32 \<le> byte_of c \<and> byte_of c < 127 \<or> byte_of c = 9) v then Some v else None)"

section \<open>State\<close>

datatype paid_names = Free | PaidNames u64 f64 \<comment> \<open>price in nanogrin and in grin\<close>

record authority =
  au_cfg :: name_authority_settings
  au_relays :: "string list"
  au_extra_reserved :: "string list"
  au_remote_ip_header :: "string option"
  au_paid :: paid_names

record authority_state =
  st_claims :: claims
  st_rate :: rate_map
  st_seen :: "(string \<times> instant) list"
  st_repo :: account_db

datatype repo_call = GetBalance | GetUnpaid | UpdInvoice | Admit | CreateAcc | CreateInv

datatype claims_call = QLookup | QNameOf | QClaim | QRelease

record na_env =
  e_now :: u64
  e_instant :: instant
  e_sql_now :: int
  e_repo_fault :: "repo_call \<Rightarrow> error option"
  e_claims_fault :: "claims_call \<Rightarrow> sql_error option"
  e_pubkey_first :: bool
  e_check_invoice :: "string \<Rightarrow> (invoice_status, error) result"
  e_get_invoice :: "string \<Rightarrow> u64 \<Rightarrow> (invoice_info, error) result"

definition try_lookup :: "na_env \<Rightarrow> authority_state \<Rightarrow> string \<Rightarrow> string option" where
  "try_lookup E st name = (if e_claims_fault E QLookup = None then lookup (st_claims st) name else None)"

definition try_name_of :: "na_env \<Rightarrow> authority_state \<Rightarrow> string \<Rightarrow> string option" where
  "try_name_of E st pk = (if e_claims_fault E QNameOf = None then name_of (st_claims st) pk else None)"

section \<open>Construction\<close>

definition reserved_lines :: "externals \<Rightarrow> string \<Rightarrow> string list" where
  "reserved_lines X text =
     map (to_lowercase (ulower X))
       (filter (\<lambda>l. l \<noteq> [] \<and> \<not> starts_with l ''#'')
         (map trim (split_terminator (CHR 10) text)))"

text \<open>Opening the database (\<open>db_open\<close>) and reading the reserved file are answers of the system.\<close>

definition authority_new ::
  "externals \<Rightarrow> (f64 \<Rightarrow> u64) \<Rightarrow> (string \<Rightarrow> (string, string) result) \<Rightarrow> sql_error option \<Rightarrow> settings \<Rightarrow>
   (authority, error) result" where
  "authority_new X nanogrin read_file db_open s =
     (case db_open of Some e \<Rightarrow> Err (SqlError e)
      | None \<Rightarrow>
     (let cfg = s_name_authority s;
          relays = (case na_relays cfg of
              Some rs \<Rightarrow> if rs \<noteq> [] then rs else (case relay_url (s_info s) of None \<Rightarrow> [] | Some u \<Rightarrow> [u])
            | None \<Rightarrow> (case relay_url (s_info s) of None \<Rightarrow> [] | Some u \<Rightarrow> [u]));
          build = (\<lambda>extra. Ok \<lparr>au_cfg = cfg, au_relays = relays, au_extra_reserved = extra,
            au_remote_ip_header = remote_ip_header (s_network s),
            au_paid = (if pay_mode (s_goblinpay s) = ''name''
              then PaidNames (nanogrin (name_price_grin (s_goblinpay s))) (name_price_grin (s_goblinpay s))
              else Free)\<rparr>)
      in case reserved_file cfg of
           Some path \<Rightarrow>
             if path \<noteq> [] then
               (case read_file path of
                  Err e \<Rightarrow> Err (CustomError (''name_authority.reserved_file `'' @ path @ ''` unreadable: '' @ e))
                | Ok text \<Rightarrow> build (domain_reserved X (na_domain cfg) @ reserved_lines X text))
             else build (domain_reserved X (na_domain cfg))
         | None \<Rightarrow> build (domain_reserved X (na_domain cfg))))"

definition client_ip :: "authority \<Rightarrow> http_request \<Rightarrow> string \<Rightarrow> string" where
  "client_ip A rq remote =
     (case Option.bind (au_remote_ip_header A) (\<lambda>h. Option.bind (rq_headers rq h) header_str) of
        Some v \<Rightarrow> v | None \<Rightarrow> remote)"

definition is_authority_path :: "string \<Rightarrow> bool" where
  "is_authority_path path \<longleftrightarrow> path = ''/.well-known/nostr.json'' \<or> starts_with path ''/api/v1/''"

section \<open>Read endpoints\<close>

type_synonym handler_result = "(authority_state \<times> http_response) exec"

definition check_name :: "authority \<Rightarrow> string \<Rightarrow> bool exec" where
  "check_name A name = valid_name name (name_min (au_cfg A)) (name_max (au_cfg A))"

definition well_known ::
  "externals \<Rightarrow> authority \<Rightarrow> na_env \<Rightarrow> http_request \<Rightarrow> string \<Rightarrow> authority_state \<Rightarrow> handler_result" where
  "well_known X A E rq ip st =
     (case allow_read (au_cfg A) (e_instant E) ip (st_rate st) of
        (rate, False) \<Rightarrow> Done (st\<lparr>st_rate := rate\<rparr>, rate_limited)
      | (rate, True) \<Rightarrow>
        (let st1 = st\<lparr>st_rate := rate\<rparr>;
             answer = (\<lambda>names relays. Done (st1, json_response 200
               (JObject [(''names'', JObject names), (''relays'', JObject relays)])))
         in case map_option (to_lowercase (ulower X)) (query_param rq ''name'') of
              None \<Rightarrow> answer [] []
            | Some name \<Rightarrow>
              (case check_name A name of
                 Panic \<Rightarrow> Panic
               | Done False \<Rightarrow> answer [] []
               | Done True \<Rightarrow>
                 (case try_lookup E st1 name of
                    None \<Rightarrow> answer [] []
                  | Some pk \<Rightarrow> answer [(name, JString pk)] [(pk, JArray (map JString (au_relays A)))]))))"

definition unavailable :: "string \<Rightarrow> string \<Rightarrow> http_response" where
  "unavailable name reason = json_response 200
     (JObject [(''name'', JString name), (''available'', JBool False), (''reason'', JString reason)])"

definition availability ::
  "externals \<Rightarrow> authority \<Rightarrow> na_env \<Rightarrow> string \<Rightarrow> string \<Rightarrow> authority_state \<Rightarrow> handler_result" where
  "availability X A E raw ip st =
     (case allow_read (au_cfg A) (e_instant E) ip (st_rate st) of
        (rate, False) \<Rightarrow> Done (st\<lparr>st_rate := rate\<rparr>, rate_limited)
      | (rate, True) \<Rightarrow>
        (let st1 = st\<lparr>st_rate := rate\<rparr>; name = to_lowercase (ulower X) raw in
         case check_name A name of
           Panic \<Rightarrow> Panic
         | Done False \<Rightarrow> Done (st1, unavailable name ''invalid'')
         | Done True \<Rightarrow>
           Done (st1,
             if is_reserved name (au_extra_reserved A) then unavailable name ''reserved''
             else if try_lookup E st1 name \<noteq> None then unavailable name ''taken''
             else json_response 200 (JObject [(''name'', JString name), (''available'', JBool True)]))))"

definition name_and_key :: "string \<Rightarrow> string \<Rightarrow> http_response" where
  "name_and_key name pubkey = json_response 200 (JObject [(''name'', JString name), (''pubkey'', JString pubkey)])"

definition profile ::
  "externals \<Rightarrow> authority \<Rightarrow> na_env \<Rightarrow> string \<Rightarrow> string \<Rightarrow> authority_state \<Rightarrow> handler_result" where
  "profile X A E raw ip st =
     (case allow_read (au_cfg A) (e_instant E) ip (st_rate st) of
        (rate, False) \<Rightarrow> Done (st\<lparr>st_rate := rate\<rparr>, rate_limited)
      | (rate, True) \<Rightarrow>
        (let st1 = st\<lparr>st_rate := rate\<rparr>; name = to_lowercase (ulower X) raw in
         case check_name A name of
           Panic \<Rightarrow> Panic
         | Done False \<Rightarrow> Done (st1, error_response 404 ''not found'')
         | Done True \<Rightarrow>
           Done (st1, case try_lookup E st1 name of
              Some pubkey \<Rightarrow> name_and_key name pubkey
            | None \<Rightarrow> error_response 404 ''not found'')))"

definition by_pubkey ::
  "externals \<Rightarrow> authority \<Rightarrow> na_env \<Rightarrow> string \<Rightarrow> string \<Rightarrow> authority_state \<Rightarrow> handler_result" where
  "by_pubkey X A E raw ip st =
     (case allow_read (au_cfg A) (e_instant E) ip (st_rate st) of
        (rate, False) \<Rightarrow> Done (st\<lparr>st_rate := rate\<rparr>, rate_limited)
      | (rate, True) \<Rightarrow>
        (let st1 = st\<lparr>st_rate := rate\<rparr>; pubkey = to_lowercase (ulower X) raw in
         Done (st1,
           if \<not> valid_pubkey_hex pubkey then error_response 404 ''not found''
           else (case try_name_of E st1 pubkey of
              Some name \<Rightarrow> name_and_key name pubkey
            | None \<Rightarrow> error_response 404 ''not found''))))"

section \<open>The paid gate\<close>

text \<open>\<^verbatim>\<open>new_invoice\<close>: ask the payment server for an invoice and record it.\<close>

definition new_invoice ::
  "na_env \<Rightarrow> string \<Rightarrow> f64 \<Rightarrow> u64 \<Rightarrow> account_db \<Rightarrow> account_db \<times> http_response" where
  "new_invoice E keys price_grin price_nanogrin db =
     (case e_get_invoice E keys price_nanogrin of
        Err _ \<Rightarrow> (db, server_error)
      | Ok info \<Rightarrow>
        (case try_call (e_repo_fault E CreateInv) (create_invoice_record (e_sql_now E) keys info db) db of
           (db', Err _) \<Rightarrow> (db', server_error)
         | (db', Ok _) \<Rightarrow> (db', payment_required (ii_payment_hash info) (ii_bolt11 info) price_grin price_nanogrin)))"

text \<open>The outstanding invoice of a key: ask the payment server for its status.\<close>

definition gate_outstanding ::
  "externals \<Rightarrow> na_env \<Rightarrow> string \<Rightarrow> f64 \<Rightarrow> u64 \<Rightarrow> invoice_info \<Rightarrow> account_db \<Rightarrow> account_db \<times> http_response option" where
  "gate_outstanding X E keys price_grin price_nanogrin info db =
     (case e_check_invoice E (ii_payment_hash info) of
        Ok Paid \<Rightarrow>
          (case try_call (e_repo_fault E UpdInvoice)
                  (update_invoice X (e_sql_now E) (ii_payment_hash info) Paid db) db of
             (db1, Err _) \<Rightarrow> (db1, Some server_error)
           | (db1, Ok _) \<Rightarrow>
             (case try_call (e_repo_fault E Admit)
                     (admit_account X (e_sql_now E) keys price_nanogrin db1) db1 of
                (db2, Err _) \<Rightarrow> (db2, Some server_error)
              | (db2, Ok _) \<Rightarrow> (db2, None)))
      | Ok Unpaid \<Rightarrow>
          (db, Some (payment_required (ii_payment_hash info) (ii_bolt11 info) price_grin price_nanogrin))
      | Ok Expired \<Rightarrow>
          (let db1 = fst (try_call (e_repo_fault E UpdInvoice)
                  (update_invoice X (e_sql_now E) (ii_payment_hash info) Expired db) db)
           in map_prod id Some (new_invoice E keys price_grin price_nanogrin db1))
      | Err _ \<Rightarrow> (db, Some server_error))"

text \<open>\<^verbatim>\<open>paid_gate\<close>: no response means that the claim may proceed.\<close>

definition paid_gate ::
  "externals \<Rightarrow> authority \<Rightarrow> na_env \<Rightarrow> string \<Rightarrow> account_db \<Rightarrow> account_db \<times> http_response option" where
  "paid_gate X A E pubkey db =
     (case au_paid A of
        Free \<Rightarrow> (db, None)
      | PaidNames price_nanogrin price_grin \<Rightarrow>
     (case pk_from_str X pubkey of
        None \<Rightarrow> (db, Some (error_response 400 ''invalid pubkey''))
      | Some keys \<Rightarrow>
        if e_repo_fault E GetBalance = None \<and> ok (map_ok fst (get_account_balance keys db)) = Some True
        then (db, None)
        else
     (case (if e_repo_fault E GetUnpaid = None then get_unpaid_invoice keys db else Ok None) of
        Ok (Some info) \<Rightarrow> gate_outstanding X E keys price_grin price_nanogrin info db
      | _ \<Rightarrow>
          (let db1 = fst (try_call (e_repo_fault E CreateAcc) (create_account keys db) db)
           in map_prod id Some (new_invoice E keys price_grin price_nanogrin db1)))))"

section \<open>Write endpoints\<close>

definition MAX_BODY_BYTES :: nat where
  "MAX_BODY_BYTES = 8192"

text \<open>The struct \<^verbatim>\<open>RegisterBody\<close>: name and public key.\<close>

fun de_register_body :: "json \<Rightarrow> (string \<times> string) option" where
  "de_register_body (JObject m) =
     Option.bind (Option.bind (field1 m ''name'') de_string) (\<lambda>n.
     Option.bind (Option.bind (field1 m ''pubkey'') de_string) (\<lambda>p. Some (n, p)))"
| "de_register_body (JArray [a, b]) = Option.bind (de_string a) (\<lambda>n. Option.bind (de_string b) (\<lambda>p. Some (n, p)))"
| "de_register_body _ = None"

definition registered :: "authority \<Rightarrow> nat \<Rightarrow> string \<Rightarrow> http_response" where
  "registered A status name = json_response status
     (JObject [(''name'', JString name), (''nip05'', JString (name @ ''@'' @ na_domain (au_cfg A)))])"

text \<open>\<^verbatim>\<open>register\<close> after authentication, up to and including the paid gate.\<close>

definition register_body ::
  "externals \<Rightarrow> authority \<Rightarrow> na_env \<Rightarrow> string \<Rightarrow> string \<Rightarrow> authority_state \<Rightarrow>
   (authority_state \<times> (http_response + string \<times> string)) exec" where
  "register_body X A E auth_pubkey body st =
     (case Option.bind (json_from_str X body) de_register_body of
        None \<Rightarrow> Done (st, Inl (error_response 400 ''invalid body''))
      | Some (req_name, req_pubkey) \<Rightarrow>
        (let name = to_lowercase (ulower X) req_name; pubkey = to_lowercase (ulower X) req_pubkey in
         if \<not> valid_pubkey_hex pubkey then Done (st, Inl (error_response 400 ''invalid pubkey''))
         else if pubkey \<noteq> auth_pubkey
         then Done (st, Inl (error_response 401 ''auth pubkey does not match body pubkey''))
         else (case check_name A name of
            Panic \<Rightarrow> Panic
          | Done False \<Rightarrow> Done (st, Inl (error_response 400 ''invalid name''))
          | Done True \<Rightarrow>
            if is_reserved name (au_extra_reserved A) then Done (st, Inl (error_response 403 ''name reserved''))
            else (case try_lookup E st name of
               Some owner \<Rightarrow>
                 Done (st, Inl (if owner = pubkey then registered A 200 name
                                else error_response 409 ''name taken''))
             | None \<Rightarrow>
               (case try_name_of E st pubkey of
                  Some existing \<Rightarrow>
                    Done (st, Inl (json_response 409 (JObject
                      [(''error'', JString ''pubkey already has a name''), (''name'', JString existing)])))
                | None \<Rightarrow>
                  (case paid_gate X A E pubkey (st_repo st) of
                     (db, Some resp) \<Rightarrow> Done (st\<lparr>st_repo := db\<rparr>, Inl resp)
                   | (db, None) \<Rightarrow> Done (st\<lparr>st_repo := db\<rparr>, Inr (name, pubkey))))))))"

text \<open>The insertion that ends a registration.\<close>

definition register_commit ::
  "authority \<Rightarrow> na_env \<Rightarrow> string \<times> string \<Rightarrow> authority_state \<Rightarrow> authority_state \<times> http_response" where
  "register_commit A E np st =
     (case np of (name, pubkey) \<Rightarrow>
     (case try_call (e_claims_fault E QClaim)
             (claim (e_pubkey_first E) name pubkey (e_now E) (st_claims st)) (st_claims st) of
        (rows, res) \<Rightarrow>
          (st\<lparr>st_claims := rows\<rparr>,
           case res of
             Ok n \<Rightarrow> if n = 0 then error_response 409 ''name taken'' else registered A 201 name
           | Err e \<Rightarrow> if e = SqliteFailure True then error_response 409 ''pubkey already has a name''
                      else error_response 500 ''db error'')))"

definition register_pre ::
  "externals \<Rightarrow> authority \<Rightarrow> na_env \<Rightarrow> http_request \<Rightarrow> string \<Rightarrow> authority_state \<Rightarrow>
   (authority_state \<times> (http_response + string \<times> string)) exec" where
  "register_pre X A E rq ip st =
     (case allow_write (au_cfg A) (e_instant E) ''na-reg'' ip (st_rate st) of
        (rate, False) \<Rightarrow> Done (st\<lparr>st_rate := rate\<rparr>, Inl rate_limited)
      | (rate, True) \<Rightarrow>
     (let st1 = st\<lparr>st_rate := rate\<rparr> in
      if (case rq_size_upper rq of None \<Rightarrow> True | Some n \<Rightarrow> MAX_BODY_BYTES < n)
      then Done (st1, Inl (error_response 413 ''body too large''))
      else
     (case rq_body rq of
        None \<Rightarrow> Done (st1, Inl (error_response 400 ''invalid body''))
      | Some body \<Rightarrow>
        if MAX_BODY_BYTES < length body then Done (st1, Inl (error_response 400 ''invalid body''))
        else
     (case verify_nip98 X (e_now E) (Option.bind (rq_headers rq ''authorization'') header_str)
             ''POST'' ''/api/v1/register'' body (na_base_url (au_cfg A)) (auth_max_age_secs (au_cfg A)) of
        Err msg \<Rightarrow> Done (st1, Inl (error_response 401 msg))
      | Ok (auth_pubkey, auth_id) \<Rightarrow>
     (case auth_event_fresh (au_cfg A) (e_instant E) auth_id (st_seen st1) of
        (seen, False) \<Rightarrow> Done (st1\<lparr>st_seen := seen\<rparr>, Inl (error_response 401 ''auth event replayed''))
      | (seen, True) \<Rightarrow>
     (case cooldown_active (e_instant E) ''na-namechange'' auth_pubkey
             (from_secs (name_change_cooldown_secs (au_cfg A))) (st_rate st1) of
        (rate2, True) \<Rightarrow>
          Done (st1\<lparr>st_seen := seen, st_rate := rate2\<rparr>, Inl (error_response 429 ''name_change_cooldown''))
      | (rate2, False) \<Rightarrow>
          register_body X A E auth_pubkey body (st1\<lparr>st_seen := seen, st_rate := rate2\<rparr>)))))))"

definition register ::
  "externals \<Rightarrow> authority \<Rightarrow> na_env \<Rightarrow> http_request \<Rightarrow> string \<Rightarrow> authority_state \<Rightarrow> handler_result" where
  "register X A E rq ip st =
     (case register_pre X A E rq ip st of
        Panic \<Rightarrow> Panic
      | Done (st1, Inl resp) \<Rightarrow> Done (st1, resp)
      | Done (st1, Inr np) \<Rightarrow> Done (register_commit A E np st1))"

definition unregister ::
  "externals \<Rightarrow> authority \<Rightarrow> na_env \<Rightarrow> string \<Rightarrow> http_request \<Rightarrow> string \<Rightarrow> authority_state \<Rightarrow>
   authority_state \<times> http_response" where
  "unregister X A E raw rq ip st =
     (case allow_write (au_cfg A) (e_instant E) ''na-unreg'' ip (st_rate st) of
        (rate, False) \<Rightarrow> (st\<lparr>st_rate := rate\<rparr>, rate_limited)
      | (rate, True) \<Rightarrow>
     (let st1 = st\<lparr>st_rate := rate\<rparr>; name = to_lowercase (ulower X) raw in
     (case verify_nip98 X (e_now E) (Option.bind (rq_headers rq ''authorization'') header_str)
             ''DELETE'' (''/api/v1/register/'' @ name) [] (na_base_url (au_cfg A)) (auth_max_age_secs (au_cfg A)) of
        Err msg \<Rightarrow> (st1, error_response 401 msg)
      | Ok (auth_pubkey, auth_id) \<Rightarrow>
     (case auth_event_fresh (au_cfg A) (e_instant E) auth_id (st_seen st1) of
        (seen, False) \<Rightarrow> (st1\<lparr>st_seen := seen\<rparr>, error_response 401 ''auth event replayed'')
      | (seen, True) \<Rightarrow>
     (let st2 = st1\<lparr>st_seen := seen\<rparr> in
      case try_lookup E st2 name of
        Some owner \<Rightarrow>
          if owner = auth_pubkey then
            (if e_claims_fault E QRelease \<noteq> None then (st2, server_error)
             else (st2\<lparr>st_claims := release name (e_now E) (st_claims st2),
                       st_rate := record_op (e_instant E) ''na-namechange'' auth_pubkey (st_rate st2)\<rparr>,
                   json_response 200 (JObject [(''name'', JString name), (''released'', JBool True)])))
          else (st2, error_response 403 ''not the owner'')
      | None \<Rightarrow> (st2, error_response 404 ''name not found''))))))"

section \<open>Dispatch\<close>

definition handle ::
  "externals \<Rightarrow> authority \<Rightarrow> na_env \<Rightarrow> http_request \<Rightarrow> string \<Rightarrow> authority_state \<Rightarrow> handler_result" where
  "handle X A E rq remote st =
     (let ip = client_ip A rq remote; m = rq_method rq; p = rq_path rq in
      if m = ''GET'' \<and> p = ''/.well-known/nostr.json'' then well_known X A E rq ip st
      else if m = ''GET'' \<and> p = ''/api/v1/health'' then Done (st, text_response 200 ''ok'')
      else if m = ''GET'' \<and> starts_with p ''/api/v1/name/'' then availability X A E (strip p ''/api/v1/name/'') ip st
      else if m = ''GET'' \<and> starts_with p ''/api/v1/profile/'' then profile X A E (strip p ''/api/v1/profile/'') ip st
      else if m = ''GET'' \<and> starts_with p ''/api/v1/by-pubkey/''
      then by_pubkey X A E (strip p ''/api/v1/by-pubkey/'') ip st
      else if m = ''POST'' \<and> p = ''/api/v1/register'' then register X A E rq ip st
      else if m = ''DELETE'' \<and> starts_with p ''/api/v1/register/''
      then Done (unregister X A E (strip p ''/api/v1/register/'') rq ip st)
      else Done (st, error_response 404 ''not found''))"

section \<open>What each handler changes\<close>

definition good_name :: "authority \<Rightarrow> string \<Rightarrow> bool" where
  "good_name A n \<longleftrightarrow> check_name A n = Done True \<and> \<not> is_reserved n (au_extra_reserved A)"

lemma register_body_Inr:
  assumes "register_body X A E auth body st = Done (st1, Inr (n, pk))"
  shows "good_name A n \<and> valid_pubkey_hex pk \<and> pk = auth \<and> try_lookup E st n = None \<and> try_name_of E st pk = None \<and>
    (\<exists>rn rp. Option.bind (json_from_str X body) de_register_body = Some (rn, rp) \<and>
       n = to_lowercase (ulower X) rn \<and> pk = to_lowercase (ulower X) rp) \<and>
    paid_gate X A E pk (st_repo st) = (st_repo st1, None) \<and> st1 = st\<lparr>st_repo := st_repo st1\<rparr>"
  using assms unfolding register_body_def good_name_def Let_def
  by (auto split: option.splits exec.splits bool.splits if_splits prod.splits)

lemma register_body_kept:
  "register_body X A E auth body st = Done (st1, r) \<Longrightarrow>
     st_claims st1 = st_claims st \<and> st_seen st1 = st_seen st \<and> st_rate st1 = st_rate st"
  unfolding register_body_def Let_def
  by (auto split: option.splits exec.splits bool.splits if_splits prod.splits)

lemma register_pre_kept: "register_pre X A E rq ip st = Done (st1, r) \<Longrightarrow> st_claims st1 = st_claims st"
  unfolding register_pre_def Let_def
  by (auto split: option.splits bool.splits if_splits prod.splits result.splits dest!: register_body_kept)

lemma register_pre_Inr:
  assumes "register_pre X A E rq ip st = Done (st1, Inr (n, pk))"
  obtains body i rate seen rate2 st0 where
    "rq_body rq = Some body" "length body \<le> MAX_BODY_BYTES"
    "verify_nip98 X (e_now E) (Option.bind (rq_headers rq ''authorization'') header_str)
       ''POST'' ''/api/v1/register'' body (na_base_url (au_cfg A)) (auth_max_age_secs (au_cfg A)) = Ok (pk, i)"
    "allow_write (au_cfg A) (e_instant E) ''na-reg'' ip (st_rate st) = (rate, True)"
    "auth_event_fresh (au_cfg A) (e_instant E) i (st_seen st) = (seen, True)"
    "cooldown_active (e_instant E) ''na-namechange'' pk
       (from_secs (name_change_cooldown_secs (au_cfg A))) rate = (rate2, False)"
    "st0 = st\<lparr>st_seen := seen, st_rate := rate2\<rparr>"
    "register_body X A E pk body st0 = Done (st1, Inr (n, pk))"
proof -
  have *: "auth = pk" if "register_body X A E auth body st0 = Done (st1, Inr (n, pk))" for auth body st0
    using register_body_Inr [OF that] by simp
  show thesis
    using assms unfolding register_pre_def Let_def
    by (auto split: option.splits bool.splits if_splits prod.splits result.splits simp: not_less
        intro: that dest: *)
qed

lemma claim_rows:
  "set (fst (claim pf n pk now rows)) \<subseteq>
     insert \<lparr>nc_name = n, nc_pubkey = pk, nc_created_at = now, nc_released_at = None\<rparr> (set rows)"
  unfolding claim_def Let_def by (auto split: option.splits)

lemma release_rows:
  "r \<in> set (release n now rows) \<Longrightarrow> \<exists>r'\<in>set rows. nc_name r' = nc_name r \<and> nc_pubkey r' = nc_pubkey r"
  unfolding release_def by (auto split: if_splits)

lemma response_status [simp]:
  "rsp_status (json_response k v) = k" "rsp_status (error_response k m) = k"
  "rsp_status (registered A k n) = k" "rsp_status rate_limited = 429" "rsp_status server_error = 500"
  "rsp_status (payment_required i u g p) = 402"
  by (simp_all add: json_response_def error_response_def registered_def rate_limited_def server_error_def
      payment_required_def)

lemma register_commit_claims:
  assumes "register_commit A E (n, pk) st = (st', r)" "claims_ok (st_claims st)"
  shows "claims_ok (st_claims st')"
    and "lookup (st_claims st') = (if rsp_status r = 201 then (lookup (st_claims st))(n \<mapsto> pk) else lookup (st_claims st))"
    and "rsp_status r = 201 \<Longrightarrow> lookup (st_claims st) n = None \<and> name_of (st_claims st) pk = None"
    and "st' = st\<lparr>st_claims := st_claims st'\<rparr>"
    and "set (st_claims st') \<subseteq>
      insert \<lparr>nc_name = n, nc_pubkey = pk, nc_created_at = e_now E, nc_released_at = None\<rparr> (set (st_claims st))"
proof -
  let ?c = "claim (e_pubkey_first E) n pk (e_now E) (st_claims st)"
  consider (fault) e where "e_claims_fault E QClaim = Some e" | (run) "e_claims_fault E QClaim = None"
    by (cases "e_claims_fault E QClaim") auto
  then have "st_claims st' = st_claims st \<and> rsp_status r \<noteq> 201 \<or>
    st_claims st' = fst ?c \<and> (rsp_status r = 201 \<longleftrightarrow> snd ?c = Ok 1)"
  proof cases
    case fault
    then show ?thesis using assms(1) by (auto simp: register_commit_def try_call_def split: if_splits)
  next
    case run
    have "snd ?c \<in> {Ok 0, Ok 1, Err (SqliteFailure True)}"
      unfolding claim_def Let_def by (auto split: option.splits)
    with run show ?thesis
      using assms(1) by (cases ?c) (auto simp: register_commit_def try_call_def split: if_splits)
  qed
  moreover have "st' = st\<lparr>st_claims := st_claims st'\<rparr>"
    using assms(1) by (auto simp: register_commit_def split: prod.splits)
  ultimately show "claims_ok (st_claims st')"
    "lookup (st_claims st') = (if rsp_status r = 201 then (lookup (st_claims st))(n \<mapsto> pk) else lookup (st_claims st))"
    "rsp_status r = 201 \<Longrightarrow> lookup (st_claims st) n = None \<and> name_of (st_claims st) pk = None"
    "st' = st\<lparr>st_claims := st_claims st'\<rparr>"
    "set (st_claims st') \<subseteq>
      insert \<lparr>nc_name = n, nc_pubkey = pk, nc_created_at = e_now E, nc_released_at = None\<rparr> (set (st_claims st))"
    using assms(2) claim_ok [OF assms(2)] lookup_claim [OF assms(2)] claim_succeeds [OF assms(2)]
      claim_rows [of "e_pubkey_first E" n pk "e_now E" "st_claims st"] by auto
qed

lemma unregister_claims:
  assumes "unregister X A E raw rq ip st = (st', r)"
  shows "st_claims st' = st_claims st \<or>
    (\<exists>pk i seen. verify_nip98 X (e_now E) (Option.bind (rq_headers rq ''authorization'') header_str) ''DELETE''
        (''/api/v1/register/'' @ to_lowercase (ulower X) raw) [] (na_base_url (au_cfg A)) (auth_max_age_secs (au_cfg A)) = Ok (pk, i) \<and>
      auth_event_fresh (au_cfg A) (e_instant E) i (st_seen st) = (seen, True) \<and>
      lookup (st_claims st) (to_lowercase (ulower X) raw) = Some pk \<and>
      st_claims st' = release (to_lowercase (ulower X) raw) (e_now E) (st_claims st) \<and>
      e_instant E \<in> set (hits (st_rate st') (rate_key ''na-namechange'' pk)))"
  using assms unfolding unregister_def Let_def try_lookup_def
  by (auto simp: record_op_def Let_def split: bool.splits prod.splits result.splits option.splits if_splits)

text \<open>Reading endpoints touch only the rate limiter.\<close>

lemma reads_kept:
  "well_known X A E rq ip st = Done (st', r) \<Longrightarrow> \<exists>m. st' = st\<lparr>st_rate := m\<rparr>"
  "availability X A E nm ip st = Done (st', r) \<Longrightarrow> \<exists>m. st' = st\<lparr>st_rate := m\<rparr>"
  "profile X A E nm ip st = Done (st', r) \<Longrightarrow> \<exists>m. st' = st\<lparr>st_rate := m\<rparr>"
  "by_pubkey X A E nm ip st = Done (st', r) \<Longrightarrow> \<exists>m. st' = st\<lparr>st_rate := m\<rparr>"
  unfolding well_known_def availability_def profile_def by_pubkey_def Let_def
  by (auto split: bool.splits prod.splits option.splits exec.splits if_splits)

lemma handle_read:
  assumes "handle X A E rq remote st = Done (st', r)" "rq_method rq \<noteq> ''POST''" "rq_method rq \<noteq> ''DELETE''"
  shows "\<exists>m. st' = st\<lparr>st_rate := m\<rparr>"
proof -
  have "\<exists>m. st = st\<lparr>st_rate := m\<rparr>" by (rule exI [of _ "st_rate st"]) simp
  then show ?thesis
    using assms unfolding handle_def Let_def by (auto split: if_splits intro: reads_kept)
qed

section \<open>Interleaved requests\<close>

text \<open>
  The service under concurrency: registrations that passed their checks wait for their turn
  to insert (\<open>pend\<close>), while other requests are served and the payment code works on the
  account store.
\<close>

inductive na_run ::
  "externals \<Rightarrow> authority \<Rightarrow> authority_state \<Rightarrow> (string \<times> string) list \<Rightarrow> bool"
  for X A where
  na_init: "st_claims st = [] \<Longrightarrow> na_run X A st []"
| na_serve: "na_run X A st pend \<Longrightarrow> rq_method rq \<noteq> ''POST'' \<Longrightarrow>
    handle X A E rq remote st = Done (st', r) \<Longrightarrow> na_run X A st' pend"
| na_refuse: "na_run X A st pend \<Longrightarrow> register_pre X A E rq ip st = Done (st', Inl r) \<Longrightarrow> na_run X A st' pend"
| na_begin: "na_run X A st pend \<Longrightarrow> register_pre X A E rq ip st = Done (st', Inr np) \<Longrightarrow> na_run X A st' (np # pend)"
| na_commit: "na_run X A st pend \<Longrightarrow> np \<in> set pend \<Longrightarrow> register_commit A E np st = (st', r) \<Longrightarrow>
    na_run X A st' (remove1 np pend)"
| na_repo: "na_run X A st pend \<Longrightarrow> na_run X A (st\<lparr>st_repo := db\<rparr>) pend"

definition na_inv :: "authority \<Rightarrow> authority_state \<Rightarrow> (string \<times> string) list \<Rightarrow> bool" where
  "na_inv A st pend \<longleftrightarrow>
     claims_ok (st_claims st) \<and>
     (\<forall>r\<in>set (st_claims st). good_name A (nc_name r) \<and> valid_pubkey_hex (nc_pubkey r)) \<and>
     (\<forall>(n, pk)\<in>set pend. good_name A n \<and> valid_pubkey_hex pk)"

lemma na_inv_release:
  "na_inv A st pend \<Longrightarrow> na_inv A (st\<lparr>st_claims := release n now (st_claims st)\<rparr>) pend"
  unfolding na_inv_def by (auto simp: release_ok dest!: release_rows)

lemma na_inv_cong: "st_claims st' = st_claims st \<Longrightarrow> na_inv A st' pend = na_inv A st pend"
  by (simp add: na_inv_def)

lemma handle_inv:
  assumes "handle X A E rq remote st = Done (st', r)" "rq_method rq \<noteq> ''POST''" "na_inv A st pend"
  shows "na_inv A st' pend"
proof (cases "rq_method rq = ''DELETE''")
  case False
  then obtain m where "st' = st\<lparr>st_rate := m\<rparr>" using handle_read assms(1,2) by blast
  then show ?thesis using assms(3) by (simp add: na_inv_def)
next
  case True
  consider "st' = st" | "unregister X A E (strip (rq_path rq) ''/api/v1/register/'') rq (client_ip A rq remote) st = (st', r)"
    using assms(1) True unfolding handle_def Let_def by (auto split: if_splits)
  then show ?thesis
  proof cases
    case 2
    from unregister_claims [OF this] show ?thesis
      using assms(3) na_inv_release [OF assms(3)] na_inv_cong [of st' st] by (auto simp: na_inv_def)
  qed (use assms(3) in simp)
qed

lemma na_run_inv: "na_run X A st pend \<Longrightarrow> na_inv A st pend"
proof (induction rule: na_run.induct)
  case (na_begin st pend E rq ip st' np)
  obtain n pk where np: "np = (n, pk)" by (cases np)
  from na_begin.hyps(2) np obtain auth body st0 where "register_body X A E auth body st0 = Done (st', Inr (n, pk))"
    by (metis register_pre_Inr)
  from register_body_Inr [OF this] have "good_name A n" "valid_pubkey_hex pk" by blast+
  with na_begin np register_pre_kept [OF na_begin.hyps(2)] show ?case by (simp add: na_inv_def)
next
  case (na_commit st pend np E st' r)
  obtain n pk where np: "np = (n, pk)" by (cases np)
  have ok: "claims_ok (st_claims st)" using na_commit.IH by (simp add: na_inv_def)
  note c = register_commit_claims [OF na_commit.hyps(3) [unfolded np] ok]
  have "good_name A n" "valid_pubkey_hex pk" using na_commit.hyps(2) na_commit.IH np by (auto simp: na_inv_def)
  with c(1,5) na_commit.IH show ?case
    unfolding na_inv_def using set_remove1_subset [of np pend] by fastforce
next
  case (na_serve st pend rq E remote st' r)
  then show ?case using handle_inv by blast
next
  case (na_refuse st pend E rq ip st' r)
  then show ?case using na_inv_cong register_pre_kept by blast
qed (simp_all add: na_inv_def)

section \<open>The paid gate\<close>

lemma new_invoice_admitted: "is_admitted (fst (new_invoice E keys g p db)) pk = is_admitted db pk"
proof (cases "e_get_invoice E keys p")
  case (Ok info)
  let ?c = "try_call (e_repo_fault E CreateInv) (create_invoice_record (e_sql_now E) keys info db) db"
  have "fst (new_invoice E keys g p db) = fst ?c"
    using Ok by (simp add: new_invoice_def split: prod.splits result.splits)
  then show ?thesis using admitted_create_invoice by (simp add: try_call_fst)
qed (simp add: new_invoice_def)

lemma map_prod_Some_None [simp]: "map_prod id Some x \<noteq> (a, None)"
  by (cases x) simp

lemma map_prod_Some_eq [simp]: "map_prod id Some x = (a, Some b) \<longleftrightarrow> x = (a, b)"
  by (cases x) simp

lemma gate_outstanding_None:
  assumes "gate_outstanding X E keys g p info db = (db', None)" "has_account db keys"
  shows "e_check_invoice E (ii_payment_hash info) = Ok Paid \<and> is_admitted db' keys"
proof -
  have paid: "e_check_invoice E (ii_payment_hash info) = Ok Paid"
    using assms(1) by (auto simp: gate_outstanding_def Let_def split: result.splits invoice_status.splits)
  have "\<exists>db1 a u. try_call (e_repo_fault E UpdInvoice) (update_invoice X (e_sql_now E) (ii_payment_hash info) Paid db) db = (db1, Ok a) \<and>
      try_call (e_repo_fault E Admit) (admit_account X (e_sql_now E) keys p db1) db1 = (db', Ok u)"
    using assms(1) by (auto simp: gate_outstanding_def paid split: result.splits prod.splits)
  then obtain db1 a u where c: "update_invoice X (e_sql_now E) (ii_payment_hash info) Paid db = (db1, Ok a)"
    "admit_account X (e_sql_now E) keys p db1 = (db', Ok u)" unfolding try_call_Ok by blast
  have "has_account db1 keys"
    using led.known_step [OF assms(2), of X "UpdateInvoice (e_sql_now E) (ii_payment_hash info) Paid"] c(1) by simp
  with c paid show ?thesis using admit_account_Ok by blast
qed

lemma try_admit_Err:
  "try_call f (admit_account X now pk c db) db = (db', Err e) \<Longrightarrow> db' = db"
  by (auto simp: try_call_def admit_account_def split: option.splits result.splits)

lemma gate_outstanding_Some:
  assumes "gate_outstanding X E keys g p info db = (db', Some r)"
  shows "is_admitted db' q = is_admitted db q"
proof -
  let ?up = "\<lambda>st. try_call (e_repo_fault E UpdInvoice) (update_invoice X (e_sql_now E) (ii_payment_hash info) st db) db"
  have up: "is_admitted (fst (?up st)) q = is_admitted db q" for st
    by (simp add: try_call_fst admitted_update_invoice)
  consider "db' = db" | "db' = fst (?up Paid)" | "db' = fst (new_invoice E keys g p (fst (?up Expired)))"
    using assms
    by (auto simp: gate_outstanding_def Let_def split: result.splits invoice_status.splits prod.splits
        dest!: try_admit_Err)
  then show ?thesis by cases (simp_all add: up new_invoice_admitted)
qed

lemma new_invoice_status: "rsp_status (snd (new_invoice E keys g p db)) \<noteq> 201"
  by (auto simp: new_invoice_def split: prod.splits result.splits)

lemma paid_gate_status:
  assumes "paid_gate X A E pk db = (db', Some r)"
  shows "rsp_status r \<noteq> 201"
proof -
  have n: "new_invoice E keys g p d = (db', r) \<Longrightarrow> rsp_status r \<noteq> 201" for keys g p d
    using new_invoice_status [of E keys g p d] by simp
  have "gate_outstanding X E keys g p info db = (db', Some r) \<Longrightarrow> rsp_status r \<noteq> 201" for keys g p info
    by (auto simp: gate_outstanding_def Let_def dest: n split: result.splits invoice_status.splits prod.splits)
  with n assms show ?thesis
    by (auto simp: paid_gate_def Let_def split: paid_names.splits option.splits result.splits if_splits)
qed

lemma register_body_Inl: "register_body X A E auth body st = Done (st1, Inl r) \<Longrightarrow> rsp_status r \<noteq> 201"
  unfolding register_body_def Let_def
  by (auto split: option.splits exec.splits bool.splits if_splits prod.splits dest: paid_gate_status)

lemma register_pre_Inl: "register_pre X A E rq ip st = Done (st1, Inl r) \<Longrightarrow> rsp_status r \<noteq> 201"
  unfolding register_pre_def Let_def
  by (auto split: option.splits bool.splits if_splits prod.splits result.splits dest: register_body_Inl)

section \<open>Properties\<close>

text \<open>C10: However requests interleave (registrations between their checks and their insertion
  included), the registry stays sound: every name in the table is valid and not reserved,
  every owner is a lowercase hexadecimal key, no key owns two names at once, and the reverse
  lookup inverts the lookup.\<close>

theorem registry_stays_sound:
  assumes "na_run X A st pend"
  shows "(\<forall>n pk. lookup (st_claims st) n = Some pk \<longrightarrow> good_name A n \<and> valid_pubkey_hex pk) \<and>
    (\<forall>n m pk. lookup (st_claims st) n = Some pk \<and> lookup (st_claims st) m = Some pk \<longrightarrow> n = m) \<and>
    (\<forall>n pk. name_of (st_claims st) pk = Some n \<longleftrightarrow> lookup (st_claims st) n = Some pk)"
proof -
  have inv: "na_inv A st pend" using assms by (rule na_run_inv)
  then have ok: "claims_ok (st_claims st)" by (simp add: na_inv_def)
  have "good_name A n \<and> valid_pubkey_hex pk" if "lookup (st_claims st) n = Some pk" for n pk
    using that inv unfolding lookup_iff [OF ok] na_inv_def by blast
  then show ?thesis using name_of_lookup [OF ok] by (auto dest: lookup_injective [OF ok])
qed

text \<open>The gate for a key that is not known to be admitted: an outstanding invoice is looked at, otherwise a new one is made.\<close>

lemma paid_gate_shut:
  assumes "au_paid A = PaidNames p g" "pk_from_str X pk = Some keys"
    and "\<not> (e_repo_fault E GetBalance = None \<and> ok (map_ok fst (get_account_balance keys db)) = Some True)"
    and "q = (if e_repo_fault E GetUnpaid = None then get_unpaid_invoice keys db else Ok None)"
    and "r = new_invoice E keys g p (fst (try_call (e_repo_fault E CreateAcc) (create_account keys db) db))"
  obtains (outstanding) info where "q = Ok (Some info)" "paid_gate X A E pk db = gate_outstanding X E keys g p info db"
    | (fresh) "paid_gate X A E pk db = map_prod id Some r"
proof -
  have "paid_gate X A E pk db = (case q of Ok (Some info) \<Rightarrow> gate_outstanding X E keys g p info db | _ \<Rightarrow> map_prod id Some r)"
    unfolding paid_gate_def assms(1,2,4,5) Let_def using assms(3) by (simp only: paid_names.case option.case if_False)
  then show thesis using outstanding fresh by (auto split: result.splits option.splits)
qed

text \<open>C31: The paid gate fails closed. In paid mode a claim may proceed only for a key whose
  account is admitted afterwards: either it was before, or the payment server just reported
  its outstanding invoice paid. Whenever the gate answers with a response instead, because of
  any failure or an unpaid or expired invoice, no account has been admitted.\<close>

theorem paid_gate_fails_closed:
  assumes "au_paid A = PaidNames p g" "acc_inv db" "paid_gate X A E pk db = (db', resp)"
  shows "(resp = None \<longrightarrow> (\<exists>keys. pk_from_str X pk = Some keys \<and> is_admitted db' keys \<and>
      (is_admitted db keys \<or> (\<exists>info. get_unpaid_invoice keys db = Ok (Some info) \<and>
         e_check_invoice E (ii_payment_hash info) = Ok Paid)))) \<and>
    (resp \<noteq> None \<longrightarrow> (\<forall>q. is_admitted db' q = is_admitted db q))"
proof (cases "pk_from_str X pk")
  case None
  then show ?thesis using assms by (auto simp: paid_gate_def)
next
  case (Some keys)
  show ?thesis
  proof (cases "e_repo_fault E GetBalance = None \<and> ok (map_ok fst (get_account_balance keys db)) = Some True")
    case True
    then obtain b where "get_account_balance keys db = Ok (True, b)" by auto
    with True show ?thesis using assms Some by (auto simp: paid_gate_def dest: get_account_balance_admitted)
  next
    case False
    from assms(1) Some False refl refl show ?thesis
    proof (cases rule: paid_gate_shut [where X = X and A = A and E = E and pk = pk and db = db])
      case (outstanding info)
      then have i: "get_unpaid_invoice keys db = Ok (Some info)" by (simp split: if_splits)
      have "has_account db keys" using i assms(2) by (rule unpaid_invoice_account)
      with outstanding(2) assms(3) i Some show ?thesis
        using gate_outstanding_None gate_outstanding_Some by (cases resp) (auto; metis)+
    next
      case fresh
      let ?r = "new_invoice E keys g p (fst (try_call (e_repo_fault E CreateAcc) (create_account keys db) db))"
      have "db' = fst ?r" "resp \<noteq> None" using fresh assms(3) by (cases ?r, simp)+
      then show ?thesis by (auto simp: new_invoice_admitted try_call_fst admitted_create_account)
    qed
  qed
qed

text \<open>What a registration request does. It changes the registry only by answering 201, and
  then it has added exactly one entry: a valid, unreserved and so far unowned name for a
  public key that owned none, where the request carried a fresh NIP-98 authorization by that
  very key for this endpoint and body, no cooldown of the key was running, and the paid gate
  let the key through.\<close>

theorem registration_effect:
  assumes "claims_ok (st_claims st)" "register X A E rq ip st = Done (st', r)"
  shows "(rsp_status r \<noteq> 201 \<longrightarrow> lookup (st_claims st') = lookup (st_claims st)) \<and>
    (rsp_status r = 201 \<longrightarrow> (\<exists>n pk i body seen rate rate2.
      rq_body rq = Some body \<and> good_name A n \<and> lookup (st_claims st) n = None \<and> pk \<notin> ran (lookup (st_claims st)) \<and>
      verify_nip98 X (e_now E) (Option.bind (rq_headers rq ''authorization'') header_str)
        ''POST'' ''/api/v1/register'' body (na_base_url (au_cfg A)) (auth_max_age_secs (au_cfg A)) = Ok (pk, i) \<and>
      auth_event_fresh (au_cfg A) (e_instant E) i (st_seen st) = (seen, True) \<and>
      cooldown_active (e_instant E) ''na-namechange'' pk (from_secs (name_change_cooldown_secs (au_cfg A))) rate = (rate2, False) \<and>
      paid_gate X A E pk (st_repo st) = (st_repo st', None) \<and>
      lookup (st_claims st') = (lookup (st_claims st))(n \<mapsto> pk)))"
proof (cases "register_pre X A E rq ip st")
  case Panic
  then show ?thesis using assms(2) by (simp add: register_def)
next
  case (Done p)
  obtain st1 w where p: "p = (st1, w)" by (cases p)
  have kept: "st_claims st1 = st_claims st" using Done p register_pre_kept by blast
  show ?thesis
  proof (cases w)
    case (Inl resp)
    with Done p assms(2) have "st' = st1" "r = resp" by (auto simp: register_def)
    moreover have "rsp_status resp \<noteq> 201" using Done p Inl register_pre_Inl by blast
    ultimately show ?thesis using kept by simp
  next
    case (Inr np)
    obtain n pk where np: "np = (n, pk)" by (cases np)
    have c: "register_commit A E (n, pk) st1 = (st', r)" using Done p Inr np assms(2) by (simp add: register_def)
    have ok: "claims_ok (st_claims st1)" using kept assms(1) by simp
    note cc = register_commit_claims [OF c ok]
    from Done p Inr np have "register_pre X A E rq ip st = Done (st1, Inr (n, pk))" by simp
    then show ?thesis
    proof (rule register_pre_Inr)
      fix body i rate seen rate2 st0
      assume h: "rq_body rq = Some body"
        "verify_nip98 X (e_now E) (Option.bind (rq_headers rq ''authorization'') header_str)
           ''POST'' ''/api/v1/register'' body (na_base_url (au_cfg A)) (auth_max_age_secs (au_cfg A)) = Ok (pk, i)"
        "auth_event_fresh (au_cfg A) (e_instant E) i (st_seen st) = (seen, True)"
        "cooldown_active (e_instant E) ''na-namechange'' pk (from_secs (name_change_cooldown_secs (au_cfg A))) rate = (rate2, False)"
        "st0 = st\<lparr>st_seen := seen, st_rate := rate2\<rparr>"
        "register_body X A E pk body st0 = Done (st1, Inr (n, pk))"
      from register_body_Inr [OF h(6)] h(5) have b: "good_name A n" "paid_gate X A E pk (st_repo st) = (st_repo st1, None)"
        by auto
      have repo: "st_repo st' = st_repo st1" using cc(4) by (metis authority_state.ext_inject authority_state.surjective authority_state.update_convs(1))
      show ?thesis
        using h b cc(2,3) kept repo ran_lookup [OF assms(1)] by auto
    qed
  qed
qed

text \<open>Only the owner releases a name. A release request changes the registry only when it
  carries a fresh NIP-98 authorization, for the deletion of that name, by the key that owns
  it; then exactly that name becomes free, and from that moment the key's cooldown runs for
  the configured time.\<close>

theorem release_only_by_owner:
  assumes "claims_ok (st_claims st)" "unregister X A E raw rq ip st = (st', r)"
    and "lookup (st_claims st') \<noteq> lookup (st_claims st)"
  shows "\<exists>n pk i. n = to_lowercase (ulower X) raw \<and>
    verify_nip98 X (e_now E) (Option.bind (rq_headers rq ''authorization'') header_str) ''DELETE''
      (''/api/v1/register/'' @ n) [] (na_base_url (au_cfg A)) (auth_max_age_secs (au_cfg A)) = Ok (pk, i) \<and>
    snd (auth_event_fresh (au_cfg A) (e_instant E) i (st_seen st)) \<and>
    lookup (st_claims st) n = Some pk \<and> lookup (st_claims st') = (lookup (st_claims st))(n := None) \<and>
    (\<forall>t w. e_instant E \<le> t \<and> t < e_instant E + w \<longrightarrow> snd (cooldown_active t ''na-namechange'' pk w (st_rate st')))"
proof -
  let ?n = "to_lowercase (ulower X) raw"
  from unregister_claims [OF assms(2)] assms(3) obtain pk i seen where h:
    "verify_nip98 X (e_now E) (Option.bind (rq_headers rq ''authorization'') header_str) ''DELETE''
        (''/api/v1/register/'' @ ?n) [] (na_base_url (au_cfg A)) (auth_max_age_secs (au_cfg A)) = Ok (pk, i)"
    "auth_event_fresh (au_cfg A) (e_instant E) i (st_seen st) = (seen, True)"
    "lookup (st_claims st) ?n = Some pk" "st_claims st' = release ?n (e_now E) (st_claims st)"
    "e_instant E \<in> set (hits (st_rate st') (rate_key ''na-namechange'' pk))" by auto
  have "lookup (st_claims st') = (lookup (st_claims st))(?n := None)"
    unfolding h(4) using lookup_release [OF assms(1)] by auto
  moreover have "snd (cooldown_active t ''na-namechange'' pk w (st_rate st'))" if "e_instant E \<le> t \<and> t < e_instant E + w" for t w
    using that by (intro cooldown_of_hit [OF h(5)]) auto
  ultimately show ?thesis using h(1-3) by (intro exI [of _ ?n] exI [of _ pk] exI [of _ i]) auto
qed


text \<open>NIP-05 resolution tells the truth. A resolution that is not rate limited answers with
  exactly the current owner of the (lowercased) name asked for and the advertised relays, or
  with empty maps when the name is invalid or unowned, provided the database could be read.\<close>

theorem resolution_faithful:
  assumes "0 < name_min (au_cfg A)" "e_claims_fault E QLookup = None"
    and "query_param rq ''name'' = Some raw" "n = to_lowercase (ulower X) raw"
    and "allow_read (au_cfg A) (e_instant E) ip (st_rate st) = (rate, True)"
  shows "well_known X A E rq ip st = Done (st\<lparr>st_rate := rate\<rparr>, json_response 200
    (case (if check_name A n = Done True then lookup (st_claims st) n else None) of
       Some pk \<Rightarrow> JObject [(''names'', JObject [(n, JString pk)]),
         (''relays'', JObject [(pk, JArray (map JString (au_relays A)))])]
     | None \<Rightarrow> JObject [(''names'', JObject []), (''relays'', JObject [])]))"
proof -
  have c: "check_name A n \<noteq> Panic" using assms(1) by (auto simp: check_name_def valid_name_def Let_def)
  show ?thesis
    using assms(2-) c
    by (auto simp: well_known_def Let_def try_lookup_def split: exec.splits bool.splits option.splits)
qed

section \<open>A concrete service\<close>

text \<open>A JSON reader that also understands one small registration body.\<close>

definition na_ext :: externals where
  "na_ext = std_ext\<lparr>json_from_str := (\<lambda>s. if s = ''REG''
     then Some (JObject [(''name'', JString ''Ada''), (''pubkey'', JString (replicate 64 CHR ''a''))])
     else std_json_from_str s)\<rparr>"

definition demo_authority :: authority where
  "demo_authority = \<lparr>au_cfg = demo_cfg\<lparr>na_base_url := ''https://x''\<rparr>, au_relays = [''wss://x''],
     au_extra_reserved = [], au_remote_ip_header = None, au_paid = PaidNames 5 0\<rparr>"

definition demo_env :: na_env where
  "demo_env = \<lparr>e_now = 1000, e_instant = 0, e_sql_now = 1000, e_repo_fault = (\<lambda>_. None),
     e_claims_fault = (\<lambda>_. None), e_pubkey_first = False,
     e_check_invoice = (\<lambda>_. Ok Paid), e_get_invoice = (\<lambda>_ _. Err UnknownError)\<rparr>"

definition demo_invoice :: account_db where
  "demo_invoice = \<lparr>accounts = [\<lparr>acc_pubkey = replicate 64 CHR ''a'', acc_admitted = False,
       acc_balance = IntCol 0, acc_tos_accepted_at = None\<rparr>],
     invoices = [\<lparr>inv_payment_hash = ''h'', inv_pubkey = replicate 64 CHR ''a'', inv_invoice = ''url'', inv_amount = 5,
       inv_status = ''Unpaid'', inv_description = [], inv_created_at = 1, inv_confirmed_at = None\<rparr>]\<rparr>"

definition demo_state :: authority_state where
  "demo_state = \<lparr>st_claims = [], st_rate = [], st_seen = [], st_repo = demo_invoice\<rparr>"

definition reg_auth :: event where
  "reg_auth = sealed std_ext (demo_event\<lparr>ev_kind := 27235, ev_created_at := 998,
     ev_tags := [[''u'', ''https://x/api/v1/register''], [''method'', ''POST''], [''payload'', hex_enc ''REG'']]\<rparr>)"

definition header_for :: "event \<Rightarrow> string" where
  "header_for e = ''Nostr '' @ the (event_to_string std_ext e)"

definition reg_request :: http_request where
  "reg_request = \<lparr>rq_method = ''POST'', rq_path = ''/api/v1/register'', rq_query = None,
     rq_headers = (\<lambda>h. if h = ''authorization'' then Some (header_for reg_auth) else None),
     rq_size_upper = Some 3, rq_body = Some ''REG''\<rparr>"

lemma header_for_str: "header_str (header_for e) = Some (header_for e)"
  by (simp add: header_str_def header_for_def event_to_string_def std_json_to_string_def list_all_iff)

lemma na_ext_sel [simp]:
  "sha256 na_ext s = s" "hex_encode na_ext = hex_enc" "ulower na_ext s = s" "base64_decode na_ext = Some"
  "pk_from_str na_ext s = (if length s = 64 then Some s else None)"
  by (simp_all add: na_ext_def)

lemma header_for_event:
  assumes "ev_delegated_by e = None" "ev_tagidx e = None"
  shows "header_event na_ext (Some (header_for e)) = Some e"
proof -
  obtain n where n: "event_to_string std_ext e = Some (replicate n CHR ''x'')"
    by (simp add: event_to_string_def std_json_to_string_def)
  have "replicate n CHR ''x'' \<noteq> ''REG''" by (cases n) auto
  then have "event_from_str na_ext (replicate n CHR ''x'') = event_from_str std_ext (replicate n CHR ''x'')"
    by (simp add: event_from_str_def na_ext_def)
  moreover have "trim (replicate n CHR ''x'') = replicate n CHR ''x''"
    by (rule trim_replicate) (simp_all add: is_whitespace_def is_ascii_def)
  ultimately show ?thesis
    using event_from_to_str [OF std_json_roundtrips n] assms
    by (simp add: header_event_def header_for_def n strip_prefix_def starts_with_def)
qed

lemma validate_na_ext: "validate na_ext e = Ok () \<longleftrightarrow> validate std_ext e = Ok ()"
  by (simp add: validate_Ok_iff to_canonical_def na_ext_def)

lemma lower_demo_key: "to_lowercase u (replicate 64 CHR ''a'') = replicate 64 CHR ''a''"
  by (rule to_lowercase_fixed) (simp_all add: list_all_iff ascii_defs)

lemma demo_key_ok: "valid_pubkey_hex (replicate 64 CHR ''a'')"
  by (simp add: valid_pubkey_hex_def list_all_iff ascii_defs)

lemma lower_ada: "to_lowercase u ''Ada'' = ''ada''"
  by code_simp

lemma ada_good: "good_name demo_authority ''ada''"
proof -
  have "\<not> is_reserved ''ada'' []" by code_simp
  moreover have "valid_name ''ada'' 3 20 = Done True" by code_simp
  ultimately show ?thesis
    by (simp add: good_name_def check_name_def demo_authority_def demo_cfg_def default_settings_def)
qed

lemma reg_authorized:
  "verify_nip98 na_ext 1000 (Some (header_for reg_auth)) ''POST'' ''/api/v1/register'' ''REG'' ''https://x'' 60 =
     Ok (replicate 64 CHR ''a'', ev_id reg_auth)"
proof -
  have "validate std_ext reg_auth = Ok ()"
    unfolding reg_auth_def
    by (rule validate_sealed) (simp_all add: demo_event_def hexdigits_replicate ascii_defs)
  moreover have "eq_ignore_ascii_case (hex_enc ''REG'') (hex_enc ''REG'')" "eq_ignore_ascii_case ''POST'' ''POST''"
    by (simp_all add: eq_ignore_ascii_case_def)
  ultimately have "authorizes na_ext 1000 reg_auth ''POST'' ''/api/v1/register'' ''REG'' ''https://x'' 60"
    unfolding authorizes_def validate_na_ext
    by (simp add: reg_auth_def auth_age_def Let_def scan_tags_def scan_tag_def trim_end_matches_def)
  moreover have "header_event na_ext (Some (header_for reg_auth)) = Some reg_auth"
    by (rule header_for_event) (simp_all add: reg_auth_def demo_event_def)
  moreover have "ev_pubkey reg_auth = replicate 64 CHR ''a''"
    by (simp add: reg_auth_def demo_event_def)
  ultimately show ?thesis unfolding verify_nip98_Ok by auto
qed

lemma demo_gate:
  "paid_gate na_ext demo_authority demo_env (replicate 64 CHR ''a'') demo_invoice =
     (fst (paid_gate na_ext demo_authority demo_env (replicate 64 CHR ''a'') demo_invoice), None)"
  by (simp add: paid_gate_def demo_authority_def demo_env_def demo_invoice_def get_account_balance_def
      find_account_def get_u64_def get_unpaid_invoice_def newest_def gate_outstanding_def try_call_def
      update_invoice_def find_invoice_def Let_def admit_account_def bind_u64_def fits_i64_def)

lemma demo_register_pre:
  "\<exists>st1. register_pre na_ext demo_authority demo_env reg_request ''ip'' demo_state =
     Done (st1, Inr (''ada'', replicate 64 CHR ''a''))"
proof -
  have g: "check_name demo_authority ''ada'' = Done True" "\<not> is_reserved ''ada'' []"
    using ada_good by (simp_all add: good_name_def demo_authority_def)
  let ?pk = "replicate 64 CHR ''a''"
  let ?db = "fst (paid_gate na_ext demo_authority demo_env ?pk demo_invoice)"
  have l: "try_lookup demo_env (demo_state\<lparr>st_seen := s, st_rate := m\<rparr>) n = None"
    "try_name_of demo_env (demo_state\<lparr>st_seen := s, st_rate := m\<rparr>) n = None" for s m n
    by (simp_all add: try_lookup_def try_name_of_def demo_state_def name_of_def)
  have j: "Option.bind (json_from_str na_ext ''REG'') de_register_body = Some (''Ada'', ?pk)"
    by (simp add: na_ext_def field1_def de_string_def)
  have r: "st_repo (demo_state\<lparr>st_seen := s, st_rate := m\<rparr>) = demo_invoice"
    "au_extra_reserved demo_authority = []" for s m by (simp_all add: demo_state_def demo_authority_def)
  have b: "register_body na_ext demo_authority demo_env ?pk ''REG'' (demo_state\<lparr>st_seen := s, st_rate := m\<rparr>) =
      Done (demo_state\<lparr>st_seen := s, st_rate := m, st_repo := ?db\<rparr>, Inr (''ada'', ?pk))" for s m
    unfolding register_body_def j option.case prod.case Let_def lower_demo_key lower_ada l r
    by (subst demo_gate) (simp add: demo_key_ok g)
  have v: "verify_nip98 na_ext (e_now demo_env) (Option.bind (rq_headers reg_request ''authorization'') header_str)
      ''POST'' ''/api/v1/register'' ''REG'' (na_base_url (au_cfg demo_authority)) (auth_max_age_secs (au_cfg demo_authority)) =
      Ok (?pk, ev_id reg_auth)"
    using reg_authorized
    by (simp add: reg_request_def header_for_str demo_env_def demo_authority_def demo_cfg_def default_settings_def)
  obtain rate where a: "allow_write (au_cfg demo_authority) 0 ''na-reg'' ''ip'' [] = (rate, True)"
    and c: "map_of rate (rate_key ''na-namechange'' ?pk) = None"
    by (simp add: allow_write_def allow_def hits_def demo_authority_def demo_cfg_def default_settings_def rate_key_def)
  have c': "cooldown_active 0 ''na-namechange'' ?pk w rate = (rate, False)" for w
    using c by (simp add: cooldown_active_def)
  have f: "auth_event_fresh (au_cfg demo_authority) 0 i [] = ([(i, 0)], True)" for i
    by (simp add: auth_event_fresh_def)
  have q: "rq_body reg_request = Some ''REG''" "rq_size_upper reg_request = Some 3" "e_instant demo_env = 0"
    "st_rate demo_state = []" "st_seen demo_state = []"
    by (simp_all add: reg_request_def demo_env_def demo_state_def)
  show ?thesis
    unfolding register_pre_def q a prod.case bool.case option.case
    by (simp add: Let_def MAX_BODY_BYTES_def v q f c' b)
qed

abbreviation demo_pk :: string where
  "demo_pk \<equiv> replicate 64 CHR ''a''"

lemma demo_commit:
  assumes "st_claims st = []"
  shows "\<exists>st' r. register_commit demo_authority demo_env (''ada'', demo_pk) st = (st', r) \<and>
    rsp_status r = 201 \<and> lookup (st_claims st') ''ada'' = Some demo_pk"
  using assms by (simp add: register_commit_def demo_env_def try_call_def claim_def lookup_def active_def)

theorem registry_stays_sound_witness:
  "\<exists>st pk. na_run na_ext demo_authority st [] \<and> lookup (st_claims st) ''ada'' = Some pk \<and> valid_pubkey_hex pk"
proof -
  have i: "na_run na_ext demo_authority demo_state []" by (rule na_init) (simp add: demo_state_def)
  obtain st1 where st1: "register_pre na_ext demo_authority demo_env reg_request ''ip'' demo_state =
    Done (st1, Inr (''ada'', demo_pk))" using demo_register_pre by blast
  have "st_claims st1 = []" using register_pre_kept [OF st1] by (simp add: demo_state_def)
  from demo_commit [OF this] obtain st2 r where st2:
    "register_commit demo_authority demo_env (''ada'', demo_pk) st1 = (st2, r)" "lookup (st_claims st2) ''ada'' = Some demo_pk"
    by blast
  have "na_run na_ext demo_authority st2 []"
    using na_commit [OF na_begin [OF i st1] _ st2(1)] by simp
  with st2(2) registry_stays_sound [OF this] show ?thesis by blast
qed

theorem paid_gate_fails_closed_witness:
  "\<exists>db'. paid_gate na_ext demo_authority demo_env demo_pk demo_invoice = (db', None) \<and> is_admitted db' demo_pk"
proof -
  have p: "au_paid demo_authority = PaidNames 5 0" by (simp add: demo_authority_def)
  have i: "acc_inv demo_invoice" by (simp add: acc_inv_def demo_invoice_def has_account_def fits_i64_def)
  from paid_gate_fails_closed [OF p i demo_gate] demo_gate show ?thesis by auto
qed

theorem registration_effect_witness:
  "\<exists>st' r. register na_ext demo_authority demo_env reg_request ''ip'' demo_state = Done (st', r) \<and> rsp_status r = 201 \<and>
     (\<exists>n pk. good_name demo_authority n \<and> lookup (st_claims st') = [n \<mapsto> pk])"
proof -
  obtain st1 where st1: "register_pre na_ext demo_authority demo_env reg_request ''ip'' demo_state =
    Done (st1, Inr (''ada'', demo_pk))" using demo_register_pre by blast
  have "st_claims st1 = []" using register_pre_kept [OF st1] by (simp add: demo_state_def)
  from demo_commit [OF this] obtain st2 r where st2:
    "register_commit demo_authority demo_env (''ada'', demo_pk) st1 = (st2, r)" "rsp_status r = 201" by blast
  then have r: "register na_ext demo_authority demo_env reg_request ''ip'' demo_state = Done (st2, r)"
    by (simp add: register_def st1)
  have e: "st_claims demo_state = []" by (simp add: demo_state_def)
  with registration_effect [OF _ r] st2(2) have "\<exists>n pk. good_name demo_authority n \<and> lookup (st_claims st2) = [n \<mapsto> pk]"
    by (simp only: e lookup_Nil claims_ok_Nil simp_thms) blast
  with r st2(2) show ?thesis by blast
qed

definition rel_auth :: event where
  "rel_auth = sealed std_ext (demo_event\<lparr>ev_kind := 27235, ev_created_at := 998,
     ev_tags := [[''u'', ''https://x/api/v1/register/ada''], [''method'', ''DELETE'']]\<rparr>)"

definition rel_request :: http_request where
  "rel_request = \<lparr>rq_method = ''DELETE'', rq_path = ''/api/v1/register/ada'', rq_query = None,
     rq_headers = (\<lambda>h. if h = ''authorization'' then Some (header_for rel_auth) else None),
     rq_size_upper = Some 0, rq_body = Some []\<rparr>"

definition owned_state :: authority_state where
  "owned_state = \<lparr>st_claims = [\<lparr>nc_name = ''ada'', nc_pubkey = demo_pk, nc_created_at = 1, nc_released_at = None\<rparr>],
     st_rate = [], st_seen = [], st_repo = empty_db\<rparr>"

lemma rel_authorized:
  "verify_nip98 na_ext 1000 (Some (header_for rel_auth)) ''DELETE'' ''/api/v1/register/ada'' [] ''https://x'' 60 =
     Ok (demo_pk, ev_id rel_auth)"
proof -
  have "validate std_ext rel_auth = Ok ()"
    unfolding rel_auth_def
    by (rule validate_sealed) (simp_all add: demo_event_def hexdigits_replicate ascii_defs)
  moreover have "eq_ignore_ascii_case ''DELETE'' ''DELETE''" by (simp add: eq_ignore_ascii_case_def)
  ultimately have "authorizes na_ext 1000 rel_auth ''DELETE'' ''/api/v1/register/ada'' [] ''https://x'' 60"
    unfolding authorizes_def validate_na_ext
    by (simp add: rel_auth_def auth_age_def Let_def scan_tags_def scan_tag_def trim_end_matches_def)
  moreover have "header_event na_ext (Some (header_for rel_auth)) = Some rel_auth"
    by (rule header_for_event) (simp_all add: rel_auth_def demo_event_def)
  moreover have "ev_pubkey rel_auth = demo_pk" by (simp add: rel_auth_def demo_event_def)
  ultimately show ?thesis unfolding verify_nip98_Ok by auto
qed

lemma demo_unregister:
  "\<exists>st' r. unregister na_ext demo_authority demo_env ''ada'' rel_request ''ip'' owned_state = (st', r) \<and>
     lookup (st_claims st') ''ada'' = None"
proof -
  have v: "verify_nip98 na_ext (e_now demo_env) (Option.bind (rq_headers rel_request ''authorization'') header_str)
      ''DELETE'' (''/api/v1/register/'' @ ''ada'') [] (na_base_url (au_cfg demo_authority)) (auth_max_age_secs (au_cfg demo_authority)) =
      Ok (demo_pk, ev_id rel_auth)"
    using rel_authorized
    by (simp add: rel_request_def header_for_str demo_env_def demo_authority_def demo_cfg_def default_settings_def)
  have low: "to_lowercase (ulower na_ext) ''ada'' = ''ada''" by (rule to_lowercase_fixed) (simp_all add: ascii_defs)
  obtain rate where a: "allow_write (au_cfg demo_authority) (e_instant demo_env) ''na-unreg'' ''ip'' (st_rate owned_state) = (rate, True)"
    by (simp add: allow_write_def allow_def hits_def demo_authority_def demo_cfg_def default_settings_def owned_state_def)
  have f: "auth_event_fresh (au_cfg demo_authority) (e_instant demo_env) i (st_seen (owned_state\<lparr>st_rate := rate\<rparr>)) = ([(i, e_instant demo_env)], True)" for i
    by (simp add: auth_event_fresh_def owned_state_def)
  show ?thesis
    unfolding unregister_def a low v prod.case bool.case Let_def result.case f
    by (simp add: try_lookup_def demo_env_def owned_state_def lookup_def active_def release_def)
qed

theorem release_only_by_owner_witness:
  "\<exists>st' r pk. unregister na_ext demo_authority demo_env ''ada'' rel_request ''ip'' owned_state = (st', r) \<and>
     lookup (st_claims owned_state) ''ada'' = Some pk \<and> snd (cooldown_active 5 ''na-namechange'' pk 10 (st_rate st'))"
proof -
  obtain st' r where u: "unregister na_ext demo_authority demo_env ''ada'' rel_request ''ip'' owned_state = (st', r)"
    "lookup (st_claims st') ''ada'' = None" using demo_unregister by blast
  have ok: "claims_ok (st_claims owned_state)" by (simp add: owned_state_def claims_ok_def active_def)
  have "lookup (st_claims owned_state) ''ada'' = Some demo_pk" by (simp add: owned_state_def lookup_def active_def)
  with u(2) have ne: "lookup (st_claims st') \<noteq> lookup (st_claims owned_state)" by auto
  have low: "to_lowercase (ulower na_ext) ''ada'' = ''ada''" by (rule to_lowercase_fixed) (simp_all add: ascii_defs)
  have "e_instant demo_env = 0" by (simp add: demo_env_def)
  with release_only_by_owner [OF ok u(1) ne] low obtain pk where
    "lookup (st_claims owned_state) ''ada'' = Some pk" "snd (cooldown_active 5 ''na-namechange'' pk 10 (st_rate st'))"
    by auto
  with u(1) show ?thesis by blast
qed


definition resolve_request :: http_request where
  "resolve_request = \<lparr>rq_method = ''GET'', rq_path = ''/.well-known/nostr.json'', rq_query = Some ''x&name=ada'',
     rq_headers = (\<lambda>_. None), rq_size_upper = Some 0, rq_body = Some []\<rparr>"

theorem resolution_faithful_witness:
  "\<exists>rate. well_known na_ext demo_authority demo_env resolve_request ''ip'' owned_state =
     Done (owned_state\<lparr>st_rate := rate\<rparr>, json_response 200 (JObject
       [(''names'', JObject [(''ada'', JString demo_pk)]), (''relays'', JObject [(demo_pk, JArray [JString ''wss://x''])])]))"
proof -
  obtain rate where a: "allow_read (au_cfg demo_authority) (e_instant demo_env) ''ip'' (st_rate owned_state) = (rate, True)"
    by (simp add: allow_read_def allow_def hits_def demo_authority_def demo_cfg_def default_settings_def owned_state_def)
  have n: "0 < name_min (au_cfg demo_authority)" "e_claims_fault demo_env QLookup = None"
    by (simp_all add: demo_authority_def demo_cfg_def default_settings_def demo_env_def)
  have q: "query_param resolve_request ''name'' = Some ''ada''"
    by (simp add: query_param_def resolve_request_def splitn2_def)
  have low: "''ada'' = to_lowercase (ulower na_ext) ''ada''"
    by (rule sym, rule to_lowercase_fixed) (simp_all add: ascii_defs)
  have "check_name demo_authority ''ada'' = Done True" "lookup (st_claims owned_state) ''ada'' = Some demo_pk"
    "au_relays demo_authority = [''wss://x'']"
    using ada_good by (simp_all add: good_name_def owned_state_def lookup_def active_def demo_authority_def)
  with resolution_faithful [OF n q low a] show ?thesis by auto
qed

end
