(* ===== verification/Web.thy ===== *)
theory Web
  imports Session Name_Authority
begin

text \<open>
  The HTTP front end (\<^verbatim>\<open>src/src/server.rs\<close>: \<^verbatim>\<open>handle_web_request\<close>, \<^verbatim>\<open>get_pubkey\<close>,
  \<^verbatim>\<open>get_header_string\<close>), the relay information document (\<^verbatim>\<open>src/src/info.rs\<close>) and the body of the
  LNBits callback (\<^verbatim>\<open>src/src/payment/lnbits.rs\<close>, \<^verbatim>\<open>LNBitsCallback\<close>). A request is answered, upgraded to a
  websocket session, or handed to the name authority; what it sends to the payment task is
  part of the result. An HTML page is a constructor with the values inserted into it. The
  handshake, files, metrics, favicon and the payment channel are the record \<open>web_env\<close>.
\<close>

section \<open>The relay information document\<close>

record limitation =
  lm_payment_required :: "bool option"
  lm_restricted_writes :: "bool option"

record fee =
  fee_amount :: u64
  fee_unit :: string

record fees =
  fees_admission :: "fee list option"
  fees_publication :: "fee list option"

record relay_info =
  ri_id :: "string option"
  ri_name :: "string option"
  ri_description :: "string option"
  ri_pubkey :: "string option"
  ri_contact :: "string option"
  ri_icon :: "string option"
  ri_supported_nips :: "int list option"
  ri_software :: "string option"
  ri_version :: "string option"
  ri_limitation :: "limitation option"
  ri_payment_url :: "string option"
  ri_fees :: "fees option"

definition relay_info_from :: "string option \<Rightarrow> settings \<Rightarrow> relay_info" where
  "relay_info_from version c =
     (let nips = [1, 2, 9, 11, 12, 15, 16, 20, 22, 33, 40];
          supported_nips = (if nip42_auth (s_authorization c) then sort (nips @ [42]) else nips);
          i = s_info c;
          limitations = \<lparr>lm_payment_required = None,
            lm_restricted_writes = Some (ptr_enabled (s_pay_to_relay c) \<or> vu_is_enabled (s_verified_users c) \<or>
              pubkey_whitelist (s_authorization c) \<noteq> None \<or> require_auth_to_write (s_authorization c) \<or>
              restricts_write (s_grpc c))\<rparr>
      in \<lparr>ri_id = relay_url i, ri_name = info_name i, ri_description = info_description i, ri_pubkey = info_pubkey i,
          ri_contact = info_contact i, ri_icon = relay_icon i, ri_supported_nips = Some supported_nips,
          ri_software = Some ''https://floonet.dev/floonet-rs'', ri_version = version, ri_limitation = Some limitations,
          ri_payment_url = None, ri_fees = None\<rparr>)"

section \<open>Requests and answers\<close>

datatype page =
    Landing string string \<comment> \<open>name, description\<close>
  | Join
  | InvoicePage u64 string string string \<comment> \<open>cost, code image, invoice, key\<close>
  | AccountPage string string \<comment> \<open>key, status\<close>

datatype web_body = Plain string | Bytes string | InfoDoc relay_info | Html page | Empty

record web_response =
  wr_status :: nat
  wr_headers :: "(string \<times> string) list"
  wr_body :: web_body

datatype web_result =
    Answer web_response
  | Upgraded client_info "nat option" "nat option" \<comment> \<open>with the limits of messages and frames\<close>
  | Handshaken \<comment> \<open>handshake answered, upgrade failed\<close>
  | Authority "(authority_state \<times> http_response) exec"

record web_env =
  wv_handshake :: "http_request \<Rightarrow> string option" \<comment> \<open>why the handshake fails\<close>
  wv_upgrade_ok :: bool
  wv_version :: "string option"
  wv_file :: "string \<Rightarrow> string option"
  wv_logo :: string
  wv_metrics :: string
  wv_favicon :: "string option"
  wv_payment_open :: bool
  wv_fault :: "error option" \<comment> \<open>of the balance lookup\<close>
  wv_received :: "payment_message list" \<comment> \<open>received while waiting for an invoice\<close>
  wv_qr :: "string \<Rightarrow> string option"

definition answer :: "nat \<Rightarrow> (string \<times> string) list \<Rightarrow> web_body \<Rightarrow> web_response" where
  "answer status hs b = \<lparr>wr_status = status, wr_headers = hs, wr_body = b\<rparr>"

definition plain_text :: "(string \<times> string) list" where
  "plain_text = [(''Content-Type'', ''text/plain'')]"

definition get_header_string :: "string \<Rightarrow> http_request \<Rightarrow> string option" where
  "get_header_string h rq = Option.bind (rq_headers rq h) header_str"

text \<open>The value of the last pair named \<^verbatim>\<open>pubkey\<close>.\<close>

definition get_pubkey :: "http_request \<Rightarrow> string option" where
  "get_pubkey rq =
     fold (\<lambda>pair acc. case splitn2 CHR ''='' pair of (k, v) \<Rightarrow> if k = ''pubkey'' then v else acc)
       (split_on CHR ''&'' (case rq_query rq of None \<Rightarrow> [] | Some q \<Rightarrow> q)) None"

definition web_client_info :: "settings \<Rightarrow> http_request \<Rightarrow> string \<Rightarrow> client_info" where
  "web_client_info s rq remote =
     \<lparr>ci_remote_ip = (case Option.bind (remote_ip_header (s_network s)) (\<lambda>h. get_header_string h rq) of
         Some v \<Rightarrow> v | None \<Rightarrow> remote),
      ci_user_agent = get_header_string ''user-agent'' rq, ci_origin = get_header_string ''origin'' rq\<rparr>"

definition landing :: "settings \<Rightarrow> web_env \<Rightarrow> http_request \<Rightarrow> web_response" where
  "landing s E rq =
     (if (case get_header_string ''accept'' rq of None \<Rightarrow> False | Some mt \<Rightarrow> str_contains mt ''application/nostr+json'')
      then answer 200 [(''Content-Type'', ''application/nostr+json''), (''Access-Control-Allow-Origin'', ''*'')]
        (InfoDoc (relay_info_from (wv_version E) s))
      else (case Option.bind (relay_page (s_info s)) (wv_file E) of
         Some content \<Rightarrow> answer 200 [(''Content-Type'', ''text/html; charset=UTF-8'')] (Bytes content)
       | None \<Rightarrow> answer 200 [(''Content-Type'', ''text/html; charset=UTF-8'')]
           (Html (Landing (case info_name (s_info s) of Some n \<Rightarrow> n | None \<Rightarrow> ''floonet-rs-relay'')
             (case info_description (s_info s) of Some d \<Rightarrow> d
              | None \<Rightarrow> ''A Floonet relay for the Grin community Nostr network.'')))))"

section \<open>Payment endpoints\<close>

definition webhook_id :: "externals \<Rightarrow> string \<Rightarrow> string option" where
  "webhook_id X body =
     Option.bind (json_from_str X body) (\<lambda>v. Option.bind (as_object v) (\<lambda>m. Option.bind (value_get m ''invoice_id'') as_str))"

definition goblinpay_webhook :: "externals \<Rightarrow> web_env \<Rightarrow> http_request \<Rightarrow> web_response \<times> payment_message list" where
  "goblinpay_webhook X E rq =
     (case rq_body rq of
        Some body \<Rightarrow>
          if length body \<le> 16384
          then (answer 200 [] (Plain ''ok''),
                (case webhook_id X body of Some i \<Rightarrow> if wv_payment_open E then [InvoicePaid i] else [] | None \<Rightarrow> []))
          else (answer 400 [] (Plain ''invalid body''), [])
      | None \<Rightarrow> (answer 400 [] (Plain ''invalid body''), []))"

fun de_bool :: "json \<Rightarrow> bool option" where
  "de_bool (JBool b) = Some b"
| "de_bool _ = None"

fun de_opt_string :: "json \<Rightarrow> string option option" where
  "de_opt_string JNull = Some None"
| "de_opt_string v = map_option Some (de_string v)"

text \<open>The fields of the callback in their order; the result is the payment hash.\<close>

definition lnbits_callback_of :: "(string \<Rightarrow> json option) \<Rightarrow> json option \<Rightarrow> string option" where
  "lnbits_callback_of fld status =
     (if list_all (\<lambda>k. Option.bind (fld k) de_string \<noteq> None)
          [''checking_id'', ''memo'', ''bolt11'', ''preimage'', ''payment_hash'', ''wallet_id'', ''webhook''] \<and>
        Option.bind (fld ''pending'') de_bool \<noteq> None \<and>
        Option.bind (fld ''amount'') de_u64 \<noteq> None \<and> Option.bind (fld ''time'') de_u64 \<noteq> None \<and>
        (case status of None \<Rightarrow> True | Some v \<Rightarrow> de_opt_string v \<noteq> None)
      then Option.bind (fld ''payment_hash'') de_string else None)"

definition callback_fields :: "string list" where
  "callback_fields = [''checking_id'', ''pending'', ''amount'', ''memo'', ''time'', ''bolt11'', ''preimage'',
     ''payment_hash'', ''wallet_id'', ''webhook'', ''webhook_status'']"

fun de_lnbits_callback :: "json \<Rightarrow> string option" where
  "de_lnbits_callback (JObject m) =
     (if length (filter (\<lambda>p. fst p = ''webhook_status'') m) \<le> 1
      then lnbits_callback_of (field1 m) (field1 m ''webhook_status'') else None)"
| "de_lnbits_callback (JArray vs) =
     (if length vs = 11 then lnbits_callback_of (map_of (zip callback_fields vs)) (Some (vs ! 10)) else None)"
| "de_lnbits_callback _ = None"

definition lnbits_webhook :: "externals \<Rightarrow> web_env \<Rightarrow> http_request \<Rightarrow> (web_response \<times> payment_message list) exec" where
  "lnbits_webhook X E rq =
     (case Option.bind (rq_body rq) (\<lambda>b. Option.bind (json_from_str X b) de_lnbits_callback) of
        None \<Rightarrow> Panic
      | Some h \<Rightarrow>
        Done (if wv_payment_open E then (answer 200 [] (Plain ''ok''), [InvoicePaid h])
              else (answer 500 [] (Plain ''Error processing callback''), [])))"

definition no_joining :: web_response where
  "no_joining = answer 401 plain_text (Plain ''Sorry, joining is not allowed at the moment'')"

datatype awaited = GotInvoice invoice_info | GotAdmitted | GotNothing

fun await_invoice :: "string \<Rightarrow> payment_message list \<Rightarrow> awaited" where
  "await_invoice pk [] = GotNothing"
| "await_invoice pk (m # ms) =
     (case m of
        InvoiceMsg p info \<Rightarrow> if p = pk then GotInvoice info else await_invoice pk ms
      | AccountAdmitted p \<Rightarrow> if p = pk then GotAdmitted else await_invoice pk ms
      | _ \<Rightarrow> await_invoice pk ms)"

definition balance_of :: "web_env \<Rightarrow> string \<Rightarrow> account_db \<Rightarrow> (bool \<times> u64, error) result" where
  "balance_of E key db = (case wv_fault E of Some e \<Rightarrow> Err e | None \<Rightarrow> get_account_balance key db)"

definition invoice_page ::
  "externals \<Rightarrow> settings \<Rightarrow> web_env \<Rightarrow> http_request \<Rightarrow> account_db \<Rightarrow> web_response \<times> payment_message list" where
  "invoice_page X s E rq db =
     (if \<not> sign_ups (s_pay_to_relay s) then (no_joining, [])
      else (case get_pubkey rq of
        None \<Rightarrow> (answer 404 [(''location'', ''/join'')] Empty, [])
      | Some pubkey \<Rightarrow>
        (case keys_of X pubkey of
           Err _ \<Rightarrow> (answer 401 plain_text (Plain ''Looks like your key is invalid''), [])
         | Ok key \<Rightarrow>
           (case balance_of E key db of
              Ok (True, _) \<Rightarrow> (answer 200 [] (Plain ''Already admitted''), [])
            | b \<Rightarrow>
              (let msg = (case b of Ok _ \<Rightarrow> CheckAccount pubkey | Err _ \<Rightarrow> NewAccount pubkey) in
               if \<not> wv_payment_open E then (answer 501 plain_text (Plain ''Sorry, something went wrong''), [])
               else ((case await_invoice pubkey (wv_received E) of
                   GotAdmitted \<Rightarrow> answer 200 [] (Plain ''Already admitted'')
                 | GotNothing \<Rightarrow> answer 500 [] (Plain ''Sorry, could not get invoice'')
                 | GotInvoice info \<Rightarrow>
                     answer 200 [] (Html (InvoicePage (admission_cost (s_pay_to_relay s))
                       (case wv_qr E (ii_bolt11 info) of Some svg \<Rightarrow> svg | None \<Rightarrow> ''Could not render image'')
                       (ii_bolt11 info) pubkey))), [msg]))))))"

definition account_page ::
  "externals \<Rightarrow> settings \<Rightarrow> web_env \<Rightarrow> http_request \<Rightarrow> account_db \<Rightarrow> web_response \<times> payment_message list" where
  "account_page X s E rq db =
     (if \<not> ptr_enabled (s_pay_to_relay s) then (answer 401 plain_text (Plain ''This relay is not paid''), [])
      else (case get_pubkey rq of
        None \<Rightarrow> (answer 404 [(''location'', ''/join'')] Empty, [])
      | Some pubkey \<Rightarrow>
        (case keys_of X pubkey of
           Err _ \<Rightarrow> (answer 401 plain_text (Plain ''Looks like your key is invalid''), [])
         | Ok key \<Rightarrow>
           (answer 200 [] (Html (AccountPage pubkey
              (case balance_of E key db of
                 Ok (True, _) \<Rightarrow> ''is''
               | Ok (False, _) \<Rightarrow> ''is not''
               | Err _ \<Rightarrow> ''Could not get admission status''))),
            if wv_payment_open E then [CheckAccount pubkey] else []))))"

section \<open>The dispatcher\<close>

definition websocket :: "settings \<Rightarrow> web_env \<Rightarrow> http_request \<Rightarrow> string \<Rightarrow> web_result" where
  "websocket s E rq remote =
     (case wv_handshake E rq of
        Some e \<Rightarrow> Answer (answer 400 [] (Plain (''Failed to create websocket: '' @ e)))
      | None \<Rightarrow> if wv_upgrade_ok E
          then Upgraded (web_client_info s rq remote) (max_ws_message_bytes (s_limits s)) (max_ws_frame_bytes (s_limits s))
          else Handshaken)"

definition handle_web_request ::
  "externals \<Rightarrow> settings \<Rightarrow> (authority \<times> na_env) option \<Rightarrow> web_env \<Rightarrow> http_request \<Rightarrow> string \<Rightarrow> authority_state \<Rightarrow>
   (web_result \<times> payment_message list) exec" where
  "handle_web_request X s au E rq remote st =
     (let p = rq_path rq; db = st_repo st; reply = (\<lambda>(r, ms). Done (Answer r, ms));
          static = (\<lambda>r. Done (Answer r, [])) in
      case (if is_authority_path p then au else None) of
        Some (A, NE) \<Rightarrow> Done (Authority (handle X A NE rq remote st), [])
      | None \<Rightarrow>
        if rq_headers rq ''upgrade'' \<noteq> None then
          (if p = ''/'' then Done (websocket s E rq remote, []) else static (answer 404 [] (Plain ''Nothing here.'')))
        else if p = ''/'' then static (landing s E rq)
        else if p = ''/logo.svg'' then static (answer 200
          [(''Content-Type'', ''image/svg+xml''), (''Cache-Control'', ''public, max-age=86400'')] (Bytes (wv_logo E)))
        else if p = ''/goblinpay'' then reply (goblinpay_webhook X E rq)
        else if p = ''/metrics'' then static (answer 200 plain_text (Bytes (wv_metrics E)))
        else if p = ''/favicon.ico'' then static
          (case wv_favicon E of
             Some b \<Rightarrow> answer 200 [(''Content-Type'', ''image/x-icon''), (''Cache-Control'', ''public, max-age=2419200'')] (Bytes b)
           | None \<Rightarrow> answer 404 [] (Plain []))
        else if p = ''/lnbits'' then
          (case lnbits_webhook X E rq of Panic \<Rightarrow> Panic | Done (r, ms) \<Rightarrow> Done (Answer r, ms))
        else if p = ''/terms'' then static (answer 200 plain_text (Plain (terms_message (s_pay_to_relay s))))
        else if p = ''/join'' then
          static (if sign_ups (s_pay_to_relay s) then answer 200 [] (Html Join) else no_joining)
        else if p = ''/invoice'' then reply (invoice_page X s E rq db)
        else if p = ''/account'' then reply (account_page X s E rq db)
        else static (answer 404 [] (Plain ''Nothing here.'')))"

end
