(* ===== verification/Lightning.thy ===== *)
theory Lightning
  imports Web
begin

text \<open>
  The Lightning payment processors: LNBits (\<^verbatim>\<open>src/src/payment/lnbits.rs\<close>) and Core Lightning's REST
  interface (\<^verbatim>\<open>src/src/payment/cln_rest.rs\<close>). URLs are handled by the \<^verbatim>\<open>url\<close> package (parsing, joining a
  reference to a base) and requests by the HTTP client; both are the record \<open>ln_net\<close>, as are the readings of
  Core Lightning's replies, whose types are the \<^verbatim>\<open>cln_rpc\<close> package's. The random number of an
  invoice's memo is an argument.
\<close>

section \<open>The network\<close>

record ln_request =
  lr_method :: string
  lr_uri :: string
  lr_headers :: "(string \<times> string) list"
  lr_body :: string

datatype cln_status = CLN_PAID | CLN_UNPAID | CLN_EXPIRED

record ln_net =
  url_parse :: "string \<Rightarrow> string option"
  url_join :: "string \<Rightarrow> string \<Rightarrow> string option"
  is_uri :: "string \<Rightarrow> bool"
  ln_send :: "ln_request \<Rightarrow> (string, error) result"
  cln_invoice_body :: "u64 \<Rightarrow> string \<Rightarrow> string \<Rightarrow> string option" \<comment> \<open>satoshi, description, label\<close>
  cln_invoice_response :: "string \<Rightarrow> (string \<times> string) option" \<comment> \<open>payment hash and invoice\<close>
  cln_list_response :: "string \<Rightarrow> cln_status list option"

section \<open>LNBits\<close>

definition APIPATH :: string where
  "APIPATH = ''/api/v1/payments/''"

text \<open>\<^verbatim>\<open>str::replace("ws", "http")\<close>.\<close>

fun replace_ws :: "string \<Rightarrow> string" where
  "replace_ws (a # b # r) =
     (if a = CHR ''w'' \<and> b = CHR ''s'' then ''http'' @ replace_ws r else a # replace_ws (b # r))"
| "replace_ws s = s"

definition join_or :: "ln_net \<Rightarrow> (string, error) result \<Rightarrow> string \<Rightarrow> (string, error) result" where
  "join_or N b r =
     (case b of Err e \<Rightarrow> Err e
      | Ok u \<Rightarrow> (case url_join N u r of Some v \<Rightarrow> Ok v | None \<Rightarrow> Err (URLParseError r)))"

definition parse_or :: "ln_net \<Rightarrow> string \<Rightarrow> (string, error) result" where
  "parse_or N s = (case url_parse N s of Some u \<Rightarrow> Ok u | None \<Rightarrow> Err (URLParseError s))"

definition lnbits_create_body :: "u64 \<Rightarrow> string \<Rightarrow> string \<Rightarrow> json" where
  "lnbits_create_body amount memo webhook =
     JObject [(''out'', JBool False), (''amount'', JNumber (PosInt amount)), (''memo'', JString memo),
       (''webhook'', JString webhook), (''unit'', JString ''sat''), (''internal'', JBool False),
       (''expiry'', JNumber (PosInt 3600))]"

fun de_create_response :: "json \<Rightarrow> (string \<times> string) option" where
  "de_create_response (JObject m) =
     Option.bind (Option.bind (field1 m ''payment_hash'') de_string) (\<lambda>h.
     Option.bind (Option.bind (field1 m ''payment_request'') de_string) (\<lambda>r. Some (h, r)))"
| "de_create_response (JArray [a, b]) =
     Option.bind (de_string a) (\<lambda>h. Option.bind (de_string b) (\<lambda>r. Some (h, r)))"
| "de_create_response _ = None"

text \<open>From a \<^verbatim>\<open>Value\<close>, whose object keeps the last of equal keys.\<close>

fun de_check_response :: "json \<Rightarrow> bool option" where
  "de_check_response (JObject m) = Option.bind (value_get m ''paid'') de_bool"
| "de_check_response (JArray [v]) = de_bool v"
| "de_check_response _ = None"

definition api_key :: "settings \<Rightarrow> string \<times> string" where
  "api_key s = (''X-Api-Key'', api_secret (s_pay_to_relay s))"

definition strip_slash :: "string \<Rightarrow> string" where
  "strip_slash u = (if u \<noteq> [] \<and> last u = CHR ''/'' then butlast u else u)"

definition lnbits_get_invoice ::
  "externals \<Rightarrow> ln_net \<Rightarrow> settings \<Rightarrow> nat \<Rightarrow> string \<Rightarrow> u64 \<Rightarrow> (invoice_info, error) result exec" where
  "lnbits_get_invoice X N s random pubkey amount =
     (let memo = show_nat random @ '': '' @ pubkey in
      case relay_url (s_info s) of
        None \<Rightarrow> Panic
      | Some relay \<Rightarrow>
     (case join_or N (parse_or N (replace_ws relay)) ''lnbits'' of
        Err e \<Rightarrow> Done (Err e)
      | Ok callback \<Rightarrow>
     (case join_or N (parse_or N (node_url (s_pay_to_relay s))) APIPATH of
        Err e \<Rightarrow> Done (Err e)
      | Ok url \<Rightarrow>
        if \<not> is_uri N (strip_slash url) then Panic
        else (case json_to_string X (lnbits_create_body amount memo callback) of
          None \<Rightarrow> Done (Err (JsonParseFailed ''invoice body''))
        | Some text \<Rightarrow>
          Done (case ln_send N \<lparr>lr_method = ''POST'', lr_uri = strip_slash url, lr_headers = [api_key s], lr_body = text\<rparr> of
             Err e \<Rightarrow> Err e
           | Ok body \<Rightarrow>
             (case Option.bind (json_from_str X body) de_create_response of
                None \<Rightarrow> Err (JsonParseFailed ''invoice response'')
              | Some (h, request) \<Rightarrow>
                Ok \<lparr>ii_pubkey = pubkey, ii_payment_hash = h, ii_bolt11 = request, ii_amount = amount,
                    ii_status = Unpaid, ii_memo = memo, ii_confirmed_at = None\<rparr>))))))"

text \<open>The request that checks an invoice.\<close>

definition lnbits_check_request :: "ln_net \<Rightarrow> settings \<Rightarrow> string \<Rightarrow> (ln_request, error) result exec" where
  "lnbits_check_request N s h =
     (case join_or N (join_or N (parse_or N (node_url (s_pay_to_relay s))) APIPATH) h of
        Err e \<Rightarrow> Done (Err e)
      | Ok url \<Rightarrow>
        if \<not> is_uri N url then Panic
        else Done (Ok \<lparr>lr_method = ''GET'', lr_uri = url, lr_headers = [api_key s], lr_body = []\<rparr>))"

definition lnbits_check_invoice ::
  "externals \<Rightarrow> ln_net \<Rightarrow> settings \<Rightarrow> string \<Rightarrow> (invoice_status, error) result exec" where
  "lnbits_check_invoice X N s h =
     (case lnbits_check_request N s h of
        Panic \<Rightarrow> Panic
      | Done (Err e) \<Rightarrow> Done (Err e)
      | Done (Ok rq) \<Rightarrow>
        Done (case ln_send N rq of
           Err e \<Rightarrow> Err e
         | Ok body \<Rightarrow>
           (case json_from_str X body of
              None \<Rightarrow> Err (JsonParseFailed ''invoice response'')
            | Some v \<Rightarrow>
              Ok (case de_check_response v of Some True \<Rightarrow> Paid | Some False \<Rightarrow> Unpaid | None \<Rightarrow> Expired))))"

section \<open>Core Lightning\<close>

record cln_processor =
  cln_rune :: string

definition cln_new ::
  "(string \<Rightarrow> (string, string) result) \<Rightarrow> (string \<Rightarrow> bool) \<Rightarrow> (string \<Rightarrow> bool) \<Rightarrow> settings \<Rightarrow> (cln_processor, error) result" where
  "cln_new read_file is_utf8 is_header s =
     (case rune_path (s_pay_to_relay s) of
        None \<Rightarrow> Err (ConfigError ''rune_path'')
      | Some path \<Rightarrow>
        (case read_file path of
           Err e \<Rightarrow> Err (IoError e)
         | Ok bytes \<Rightarrow>
           if \<not> is_utf8 bytes then Err (ConfigError ''Rune should be UTF8'')
           else if \<not> is_header (trim bytes) then Err (ConfigError ''Invalid Rune header'')
           else Ok \<lparr>cln_rune = trim bytes\<rparr>))"

definition cln_request :: "cln_processor \<Rightarrow> string \<Rightarrow> string \<Rightarrow> ln_request" where
  "cln_request P uri body = \<lparr>lr_method = ''POST'', lr_uri = uri,
     lr_headers = [(''content-type'', ''application/json''), (''Rune'', cln_rune P)], lr_body = body\<rparr>"

definition cln_get_invoice ::
  "ln_net \<Rightarrow> cln_processor \<Rightarrow> settings \<Rightarrow> nat \<Rightarrow> string \<Rightarrow> u64 \<Rightarrow> (invoice_info, error) result" where
  "cln_get_invoice N P s random pubkey amount =
     (let memo = show_nat random @ '': '' @ pubkey; uri = node_url (s_pay_to_relay s) @ ''/v1/invoice'' in
      if \<not> is_uri N uri then Err (ConfigError ''Bad node URL'')
      else (case cln_invoice_body N amount memo ''Nostr'' of
        None \<Rightarrow> Err (JsonParseFailed ''invoice body'')
      | Some text \<Rightarrow>
        (case ln_send N (cln_request P uri text) of
           Err e \<Rightarrow> Err e
         | Ok body \<Rightarrow>
           (case cln_invoice_response N body of
              None \<Rightarrow> Err (JsonParseFailed ''invoice response'')
            | Some (h, bolt11) \<Rightarrow>
              Ok \<lparr>ii_pubkey = pubkey, ii_payment_hash = h, ii_bolt11 = bolt11, ii_amount = amount,
                  ii_status = Unpaid, ii_memo = memo, ii_confirmed_at = None\<rparr>))))"

definition cln_check_invoice ::
  "ln_net \<Rightarrow> cln_processor \<Rightarrow> settings \<Rightarrow> string \<Rightarrow> (invoice_status, error) result" where
  "cln_check_invoice N P s h =
     (let uri = node_url (s_pay_to_relay s) @ ''/v1/listinvoices?payment_hash='' @ h in
      if \<not> is_uri N uri then Err (ConfigError ''Bad node URL'')
      else (case ln_send N (cln_request P uri []) of
        Err e \<Rightarrow> Err e
      | Ok body \<Rightarrow>
        (case cln_list_response N body of
           None \<Rightarrow> Err (JsonParseFailed ''invoice response'')
         | Some [] \<Rightarrow> Err (CustomError ''Invoice not found'')
         | Some (status # _) \<Rightarrow>
           Ok (case status of CLN_PAID \<Rightarrow> Paid | CLN_UNPAID \<Rightarrow> Unpaid | CLN_EXPIRED \<Rightarrow> Expired))))"

end
