(* ===== verification/Web_Properties.thy ===== *)
theory Web_Properties
  imports Lightning
begin

text \<open>
  What the HTTP front end promises: a payment webhook only makes the relay ask the payment server,
  the information document says the truth about who may write, and where the LNBits processor
  sends its key.
\<close>

section \<open>Lemmas\<close>

lemma webhook_messages:
  assumes "goblinpay_webhook X E rq = (r, ms)" "m \<in> set ms"
  obtains body h where "m = InvoicePaid h" "rq_body rq = Some body" "length body \<le> 16384" "webhook_id X body = Some h"
  using assms by (auto simp: goblinpay_webhook_def split: option.splits if_splits)

lemma gp_check_Paid:
  assumes "gp_check_invoice X N P h = Ok Paid"
  shows "gp_safe_id h \<and> (\<exists>status body i u. gp_send N \<lparr>gp_method = ''GET'', gp_uri = gp_base_url P @ ''/invoice/'' @ h,
      gp_auth = ''Bearer '' @ gp_token P, gp_content_type = None, gp_body = []\<rparr> = Ok (status, body) \<and>
    200 \<le> status \<and> status < 300 \<and> Option.bind (json_from_str X body) de_invoice_response = Some (i, u, ''paid''))"
proof -
  have p: "status_from t = Paid \<longleftrightarrow> t = ''paid''" for t by (simp add: status_from_def)
  from assms show ?thesis
    by (auto simp: gp_check_invoice_def gp_exchange_def p split: result.splits option.splits if_splits prod.splits)
qed

lemma web_goblinpay:
  assumes "rq_path rq = ''/goblinpay''" "rq_headers rq ''upgrade'' = None"
  shows "handle_web_request X s au E rq remote st =
    (case goblinpay_webhook X E rq of (r, ms) \<Rightarrow> Done (Answer r, ms))"
proof -
  have "\<not> is_authority_path (rq_path rq)" by (simp add: assms(1) is_authority_path_def starts_with_def)
  with assms show ?thesis by (simp add: handle_web_request_def)
qed

lemma web_lnbits:
  assumes "rq_path rq = ''/lnbits''" "rq_headers rq ''upgrade'' = None"
  shows "handle_web_request X s au E rq remote st =
    (case lnbits_webhook X E rq of Panic \<Rightarrow> Panic | Done (r, ms) \<Rightarrow> Done (Answer r, ms))"
proof -
  have "\<not> is_authority_path (rq_path rq)" by (simp add: assms(1) is_authority_path_def starts_with_def)
  with assms show ?thesis by (simp add: handle_web_request_def)
qed

section \<open>Properties\<close>

text \<open>C13: A forged payment webhook admits nobody. If the payment task, using the GoblinPay processor,
  handles a message that a request to the webhook caused and an account becomes admitted, then the
  request's body named an invoice of that account which the configured payment server, asked
  with the relay's token, confirmed as paid.\<close>

theorem webhook_only_triggers_check:
  assumes "rq_path rq = ''/goblinpay''" "rq_headers rq ''upgrade'' = None"
    and "handle_web_request X s au E rq remote st = Done (res, ms)" "m \<in> set ms"
    and "pe_check_invoice PE = gp_check_invoice X N P"
    and "run_internal X PE s m pst = (pst', r)" "is_admitted (ps_repo pst') q" "\<not> is_admitted (ps_repo pst) q"
  shows "\<exists>body h row status reply i u. rq_body rq = Some body \<and> length body \<le> 16384 \<and> webhook_id X body = Some h \<and>
      find_invoice (ps_repo pst) h = Some row \<and> pk_from_str X (inv_pubkey row) = Some q \<and> gp_safe_id h \<and>
      gp_send N \<lparr>gp_method = ''GET'', gp_uri = gp_base_url P @ ''/invoice/'' @ h,
        gp_auth = ''Bearer '' @ gp_token P, gp_content_type = None, gp_body = []\<rparr> = Ok (status, reply) \<and>
      200 \<le> status \<and> status < 300 \<and> Option.bind (json_from_str X reply) de_invoice_response = Some (i, u, ''paid'')"
proof -
  obtain rsp where w: "goblinpay_webhook X E rq = (rsp, ms)"
    using assms(3) unfolding web_goblinpay [OF assms(1,2)] by (auto split: prod.splits)
  obtain body h where b: "m = InvoicePaid h" "rq_body rq = Some body" "length body \<le> 16384" "webhook_id X body = Some h"
    using webhook_messages [OF w assms(4)] by blast
  obtain db db2 pk where k: "check_invoice_status X PE h (ps_repo pst) = (db, Ok Paid)"
    "update_invoice X (pe_sql_now PE) h Paid db = (db2, Ok pk)" "keys_of X pk = Ok q"
    using assms(6-8) b(1) by (rule invoice_paid_admits)
  obtain pk1 where c: "pe_check_invoice PE h = Ok Paid" "update_invoice X (pe_sql_now PE) h Paid (ps_repo pst) = (db, Ok pk1)"
    using check_status_Ok [OF k(1)] by blast
  obtain row where row: "find_invoice (ps_repo pst) h = Some row" "inv_pubkey row = pk1"
    using update_invoice_Ok [OF c(2)] by blast
  obtain row' where row': "find_invoice db h = Some row'" "inv_pubkey row' = pk1" using find_update_invoice [OF c(2)] by blast
  have "pk = pk1" using update_invoice_Ok [OF k(2)] row' by auto
  then have "pk_from_str X (inv_pubkey row) = Some q" using k(3) row(2) by (simp add: keys_of_def split: option.splits)
  moreover have "gp_check_invoice X N P h = Ok Paid" using c(1) assms(5) by simp
  from gp_check_Paid [OF this] have "gp_safe_id h" "\<exists>status reply i u. gp_send N \<lparr>gp_method = ''GET'', gp_uri = gp_base_url P @ ''/invoice/'' @ h,
      gp_auth = ''Bearer '' @ gp_token P, gp_content_type = None, gp_body = []\<rparr> = Ok (status, reply) \<and>
    200 \<le> status \<and> status < 300 \<and> Option.bind (json_from_str X reply) de_invoice_response = Some (i, u, ''paid'')" by blast+
  ultimately show ?thesis using b row(1) by blast
qed

text \<open>The information document tells the truth and nothing of payments. It never carries a payment
  requirement, a payment address or fees, it lists NIP-42 exactly when authentication is on,
  and when it says that writing is not restricted (and no admission service is configured), every
  author passes: the admission pipeline decides by the event alone, and the writer's
  account, verification and service checks let every event through.\<close>

theorem info_document_truthful:
  "ri_payment_url (relay_info_from v s) = None \<and> ri_fees (relay_info_from v s) = None \<and>
   (\<exists>l nips. ri_limitation (relay_info_from v s) = Some l \<and> lm_payment_required l = None \<and>
      ri_supported_nips (relay_info_from v s) = Some nips \<and> sorted nips \<and>
      (42 \<in> set nips \<longleftrightarrow> nip42_auth (s_authorization s)) \<and>
      (lm_restricted_writes l = Some False \<and> event_admission_server (s_grpc s) = None \<longrightarrow>
        (\<forall>e a b. admission_check X (from_settings X s) e a = admission_check X (from_settings X s) e b) \<and>
        (\<forall>E e db edb sub addr. account_gate X s E e db = Done (Pass None) \<and> (\<exists>n. nip05_gate X s E e edb = Done (Pass n)) \<and>
           grpc_gate X E sub addr (ws_authz (writer_new s up edb db)) = (None, Pass ()))))"
proof -
  let ?open = "\<not> ptr_enabled (s_pay_to_relay s) \<and> \<not> vu_is_enabled (s_verified_users s) \<and>
     pubkey_whitelist (s_authorization s) = None \<and> \<not> require_auth_to_write (s_authorization s)"
  have adm: "admission_check X (from_settings X s) e a = admission_check X (from_settings X s) e b" if ?open for e a b
  proof -
    have "from_settings X s = [KindWhitelist (allowed_kinds s), GiftWrapRetention,
        RestrictedKindAuthors (from_entries X (note_entries s))]" using that by (simp add: from_settings_def)
    then show ?thesis by (simp cong: decision.case_cong)
  qed
  have "account_gate X s E e db = Done (Pass None)" "\<exists>n. nip05_gate X s E e edb = Done (Pass n)" if ?open for E e db edb
    using that by (simp_all add: account_gate_def nip05_gate_def Let_def)
  moreover have "grpc_gate X E sub addr (ws_authz (writer_new s up edb db)) = (None, Pass ())"
    if "event_admission_server (s_grpc s) = None" for E sub addr edb db
    using that by (simp add: grpc_gate_def writer_new_def)
  ultimately show ?thesis using adm by (simp add: relay_info_from_def Let_def)
qed


section \<open>Examples\<close>

definition demo_rq :: "string \<Rightarrow> string \<Rightarrow> http_request" where
  "demo_rq path body = \<lparr>rq_method = ''POST'', rq_path = path, rq_query = None, rq_headers = (\<lambda>_. None),
     rq_size_upper = None, rq_body = Some body\<rparr>"

definition demo_wv :: web_env where
  "demo_wv = \<lparr>wv_handshake = (\<lambda>_. None), wv_upgrade_ok = True, wv_version = None, wv_file = (\<lambda>_. None), wv_logo = [],
     wv_metrics = [], wv_favicon = None, wv_payment_open = True, wv_fault = None, wv_received = [], wv_qr = (\<lambda>_. None)\<rparr>"

definition demo_callback :: json where
  "demo_callback = JArray [JString [], JBool True, JNumber (PosInt 1), JString [], JNumber (PosInt 1), JString [], JString [],
     JString ''https://x/'', JString [], JString [], JNull]"

definition demo_net :: ln_net where
  "demo_net = \<lparr>url_parse = Some, url_join = (\<lambda>_ r. Some r), is_uri = (\<lambda>_. True), ln_send = (\<lambda>_. Err UnknownError),
     cln_invoice_body = (\<lambda>_ _ _. None), cln_invoice_response = (\<lambda>_. None), cln_list_response = (\<lambda>_. None)\<rparr>"


theorem info_document_truthful_witness:
  "lm_restricted_writes (the (ri_limitation (relay_info_from None default_settings))) = Some False \<and>
   account_gate std_ext default_settings (demo_we None) demo_eph demo_accs = Done (Pass None)"
proof -
  have "\<not> vu_is_enabled (s_verified_users default_settings)" by (simp add: default_settings_def vu_is_enabled_def)
  then have o: "lm_restricted_writes (the (ri_limitation (relay_info_from None default_settings))) = Some False"
    "event_admission_server (s_grpc default_settings) = None"
    by (simp_all add: relay_info_from_def Let_def) (simp_all add: default_settings_def)
  with info_document_truthful [of None default_settings std_ext True] show ?thesis by auto
qed

definition hook_ext :: externals where
  "hook_ext = std_ext\<lparr>json_from_str := (\<lambda>t. if t = ''hook'' then Some (JObject [(''invoice_id'', JString ''h'')])
     else Some (JArray [JString [], JString [], JString ''paid'']))\<rparr>"

definition hook_gp :: gp_net where
  "hook_gp = \<lparr>uri_ok = (\<lambda>_. True), gp_send = (\<lambda>_. Ok (200, ''reply''))\<rparr>"

definition hook_env :: pay_env where
  "hook_env = pay_demo\<lparr>pe_check_invoice := gp_check_invoice hook_ext hook_gp (gp_new ''https://pay'' ''t'')\<rparr>"

lemma hook_paid: "pe_check_invoice hook_env ''h'' = Ok Paid"
  by (simp add: hook_env_def gp_check_invoice_def gp_exchange_def gp_safe_id_iff hook_gp_def hook_ext_def de_string_def status_from_def)
    (simp add: ascii_defs)

theorem webhook_only_triggers_check_witness:
  "\<exists>ms pst'. handle_web_request hook_ext default_settings None demo_wv (demo_rq ''/goblinpay'' ''hook'') ''::1'' demo_state =
       Done (Answer (answer 200 [] (Plain ''ok'')), ms) \<and> InvoicePaid ''h'' \<in> set ms \<and>
     run_internal hook_ext hook_env default_settings (InvoicePaid ''h'') pay_demo_state = (pst', Ok ()) \<and>
     (\<exists>h row. webhook_id hook_ext ''hook'' = Some h \<and> find_invoice (ps_repo pay_demo_state) h = Some row)"
proof -
  have rq: "rq_path (demo_rq ''/goblinpay'' ''hook'') = ''/goblinpay''" "rq_headers (demo_rq ''/goblinpay'' ''hook'') ''upgrade'' = None"
    "rq_body (demo_rq ''/goblinpay'' ''hook'') = Some ''hook''"
    by (simp_all add: demo_rq_def)
  have w: "handle_web_request hook_ext default_settings None demo_wv (demo_rq ''/goblinpay'' ''hook'') ''::1'' demo_state =
      Done (Answer (answer 200 [] (Plain ''ok'')), [InvoicePaid ''h''])"
    unfolding web_goblinpay [OF rq(1,2)]
    by (simp add: goblinpay_webhook_def rq demo_wv_def webhook_id_def hook_ext_def value_get_def value_map_def)
  have f: "\<And>c. pe_fault hook_env c = None" "pe_check_invoice hook_env = gp_check_invoice hook_ext hook_gp (gp_new ''https://pay'' ''t'')"
    by (simp_all add: hook_env_def pay_demo_def)
  obtain st' where r: "run_internal hook_ext hook_env default_settings (InvoicePaid ''h'') pay_demo_state = (st', Ok ())"
    "find_account (ps_repo st') (replicate 64 CHR ''a'') = Some (hd (accounts (ps_repo pay_demo_state))\<lparr>acc_admitted := True,
       acc_tos_accepted_at := Some (pe_sql_now hook_env), acc_balance := IntCol 0\<rparr>)"
    using paid_callback [OF hook_paid f(1) pay_demo_facts(4) _ pay_demo_facts(9), of default_settings hook_ext
        "hd (accounts (ps_repo pay_demo_state))" 0 4200] by (auto simp: pay_demo_facts hook_ext_def)
  then have "is_admitted (ps_repo st') (replicate 64 CHR ''a'')"
    by (auto simp: is_admitted_def dest!: find_account_Some)
  with webhook_only_triggers_check [OF rq(1,2) w _ f(2) r(1) this pay_demo_facts(15)] w r(1) rq(3) show ?thesis by auto
qed

end
