(* ===== verification/Relay.thy ===== *)
theory Relay
  imports Gift_Wraps Maintenance Web_Properties
begin

text \<open>
  The running relay: the tasks that \<^verbatim>\<open>start_server\<close> spawns (\<^verbatim>\<open>src/src/server.rs\<close>) on one SQLite repository, and the channels between
  them. Any number of websocket sessions, the readers that answer their queries, the event writer, the verifier, the payment task, the HTTP front end
  with the name authority, and the removal of expired events take their steps in any order; a step is one round of a task's loop, as the component
  theories define it. The repository is the writer's copy of the tables, which the other tasks read and write through the relay.
  Channels are lists; a slow session may lose broadcasts, and the verifier and the payment task messages, as the broadcast channels drop them.
\<close>

section \<open>Tasks and channels\<close>

text \<open>A query under way: its number, the name of the subscription, whether it has begun, and the filters still to be answered.\<close>

record job =
  jb_query :: nat
  jb_sub :: string
  jb_begun :: bool
  jb_filters :: "req_filter list"

text \<open>A session with the channels that lead to it. \<open>sl_envs\<close> records the circumstances of the steps it took.\<close>

record slot =
  sl_ci :: client_info
  sl_challenge :: string
  sl_st :: session
  sl_live :: bool
  sl_notices :: "notice list"
  sl_bcasts :: "event list"
  sl_results :: "query_result list"
  sl_jobs :: "job list"
  sl_envs :: "session_env list"

text \<open>\<open>rl_names\<close> is the state of the name authority but for the accounts, which are the writer's. \<open>rl_own\<close> records the events that
  the payment task wrote or sent, \<open>rl_checks\<close> what the payment processor answered whenever a task asked it about invoices.\<close>

record relay =
  rl_slots :: "slot list"
  rl_queue :: "(nat \<times> submitted_event) list"
  rl_writer :: writer_state
  rl_up :: bool
  rl_verifier :: "(duration \<times> duration) option"
  rl_metadata :: "event list"
  rl_messages :: "payment_message list"
  rl_own :: "event list"
  rl_names :: authority_state
  rl_checks :: "(string \<Rightarrow> (invoice_status, error) result) list"

definition slot_new :: "settings \<Rightarrow> client_info \<Rightarrow> string \<Rightarrow> string \<Rightarrow> session_env \<Rightarrow> slot" where
  "slot_new s ci client_uuid challenge E =
     \<lparr>sl_ci = ci, sl_challenge = challenge, sl_st = session_new s ci client_uuid challenge E, sl_live = True, sl_notices = [],
      sl_bcasts = [], sl_results = [], sl_jobs = [], sl_envs = []\<rparr>"

definition relay_new :: "settings \<Rightarrow> bool \<Rightarrow> event_db \<Rightarrow> account_db \<Rightarrow> authority_state \<Rightarrow> relay" where
  "relay_new s reachable_now evs accs names =
     \<lparr>rl_slots = [], rl_queue = [], rl_writer = writer_new s reachable_now evs accs,
      rl_up = (writer_quota (messages_per_sec (s_limits s)) \<noteq> Panic),
      rl_verifier = (if vu_is_active (s_verified_users s) then Some (0, http_wait_duration) else None),
      rl_metadata = [], rl_messages = [], rl_own = [], rl_names = names, rl_checks = []\<rparr>"

section \<open>Steps\<close>

text \<open>The input of a round is the head of a channel, or comes from the network or a timer.\<close>

fun take_input :: "session_in \<Rightarrow> slot \<Rightarrow> slot option" where
  "take_input (NoticeIn n) sl =
     (case sl_notices sl of m # ms \<Rightarrow> if m = n then Some (sl\<lparr>sl_notices := ms\<rparr>) else None | [] \<Rightarrow> None)"
| "take_input (QueryIn q) sl =
     (case sl_results sl of m # ms \<Rightarrow> if m = q then Some (sl\<lparr>sl_results := ms\<rparr>) else None | [] \<Rightarrow> None)"
| "take_input (Broadcast e) sl =
     (case sl_bcasts sl of m # ms \<Rightarrow> if m = e then Some (sl\<lparr>sl_bcasts := ms\<rparr>) else None | [] \<Rightarrow> None)"
| "take_input i sl = Some sl"

definition job_of :: "nat \<times> subscription \<Rightarrow> job" where
  "job_of q = \<lparr>jb_query = fst q, jb_sub = get_id (snd q), jb_begun = False, jb_filters = sub_filters (snd q)\<rparr>"

text \<open>One round of a session; a panic ends its task.\<close>

definition slot_step :: "externals \<Rightarrow> settings \<Rightarrow> session_env \<Rightarrow> session_in \<Rightarrow> slot \<Rightarrow> slot option" where
  "slot_step X s E i sl =
     map_option (\<lambda>sl1.
       (case session_step X s (from_settings X s) (sl_ci sl1) E i (sl_st sl1) of
          Panic \<Rightarrow> sl1\<lparr>sl_live := False\<rparr>
        | Done (st, go) \<Rightarrow>
          sl1\<lparr>sl_st := (if go then st else cleanup st), sl_live := go, sl_envs := sl_envs sl1 @ [E],
              sl_jobs := sl_jobs sl1 @ map job_of (drop (length (se_queries (sl_st sl1))) (se_queries st))\<rparr>))
     (take_input i sl)"

definition new_submissions :: "slot \<Rightarrow> slot \<Rightarrow> submitted_event list" where
  "new_submissions sl sl' = drop (length (se_submitted (sl_st sl))) (se_submitted (sl_st sl'))"

text \<open>A broadcast goes to every session that still listens.\<close>

definition hear :: "event list \<Rightarrow> slot \<Rightarrow> slot" where
  "hear es sl = (if sl_live sl then sl\<lparr>sl_bcasts := sl_bcasts sl @ es\<rparr> else sl)"

definition announce :: "event list \<Rightarrow> relay \<Rightarrow> relay" where
  "announce es R = R\<lparr>rl_slots := map (hear es) (rl_slots R)\<rparr>"

definition answer_slot :: "nat \<Rightarrow> notice list \<Rightarrow> relay \<Rightarrow> relay" where
  "answer_slot i ns R =
     R\<lparr>rl_slots := (rl_slots R)[i := (rl_slots R ! i)\<lparr>sl_notices := sl_notices (rl_slots R ! i) @ ns\<rparr>]\<rparr>"

definition set_events :: "event_db \<Rightarrow> relay \<Rightarrow> relay" where
  "set_events db R = R\<lparr>rl_writer := (rl_writer R)\<lparr>ws_events := db\<rparr>\<rparr>"

text \<open>The writer between two events: what it sent has left it.\<close>

definition idle :: "writer_state \<Rightarrow> writer_state" where
  "idle w = w\<lparr>ws_notices := [], ws_bcast := [], ws_metadata := [], ws_payments := []\<rparr>"

definition after_write :: "nat \<Rightarrow> writer_state \<Rightarrow> (unit, error) result \<Rightarrow> relay \<Rightarrow> relay" where
  "after_write i w r R =
     announce (ws_bcast w) (answer_slot i (ws_notices w)
       (R\<lparr>rl_queue := tl (rl_queue R), rl_writer := idle w, rl_up := (r = Ok ()),
          rl_metadata := rl_metadata R @ ws_metadata w, rl_messages := rl_messages R @ ws_payments w\<rparr>))"

definition after_verify :: "event list \<Rightarrow> verifier_state \<Rightarrow> relay \<Rightarrow> relay" where
  "after_verify ms v R =
     announce (vs_sent v) (set_events (vs_db v) (R\<lparr>rl_metadata := ms, rl_verifier := Some (vs_interval v)\<rparr>))"

text \<open>The payment task writes its messages to clients into the repository one after another.\<close>

definition store_all :: "externals \<Rightarrow> row_order \<Rightarrow> int \<Rightarrow> event list \<Rightarrow> event_db \<Rightarrow> event_db" where
  "store_all X ord now es db = fold (\<lambda>e d. fst (write_event X ord now None (\<lambda>_. None) e d)) es db"

definition after_payment :: "externals \<Rightarrow> row_order \<Rightarrow> pay_env \<Rightarrow> account_db pay_state \<Rightarrow> relay \<Rightarrow> relay" where
  "after_payment X ord E p R =
     announce (ps_broadcast p)
       (R\<lparr>rl_writer := (rl_writer R)\<lparr>ws_accounts := ps_repo p, ws_events := store_all X ord (pe_sql_now E) (ps_stored p) (ws_events (rl_writer R))\<rparr>,
          rl_messages := tl (rl_messages R) @ ps_sent p, rl_own := rl_own R @ ps_stored p @ ps_broadcast p,
          rl_checks := rl_checks R @ [pe_check_invoice E]\<rparr>)"

text \<open>A request to the HTTP front end may reach the name authority; the messages it leads to go to the payment task.\<close>

definition after_web :: "(string \<Rightarrow> (invoice_status, error) result) \<Rightarrow> web_result \<Rightarrow> payment_message list \<Rightarrow> relay \<Rightarrow> relay" where
  "after_web check res ms R =
     (case res of
        Authority (Done (st, _)) \<Rightarrow>
          R\<lparr>rl_messages := rl_messages R @ ms, rl_names := st, rl_writer := (rl_writer R)\<lparr>ws_accounts := st_repo st\<rparr>,
            rl_checks := rl_checks R @ [check]\<rparr>
      | _ \<Rightarrow> R\<lparr>rl_messages := rl_messages R @ ms\<rparr>)"

definition result_of :: "string \<Rightarrow> string \<Rightarrow> query_result" where
  "result_of k c = \<lparr>qr_sub_id = k, qr_event = c\<rparr>"

inductive relay_step :: "externals \<Rightarrow> settings \<Rightarrow> authority option \<Rightarrow> row_order \<Rightarrow> relay \<Rightarrow> relay \<Rightarrow> bool"
  for X s A ord where
  connect: "relay_step X s A ord R (R\<lparr>rl_slots := rl_slots R @ [slot_new s ci u ch E]\<rparr>)"
| session: "i < length (rl_slots R) \<Longrightarrow> sl_live (rl_slots R ! i) \<Longrightarrow> slot_step X s E inp (rl_slots R ! i) = Some sl \<Longrightarrow>
    relay_step X s A ord R (R\<lparr>rl_slots := (rl_slots R)[i := sl],
      rl_queue := rl_queue R @ map (Pair i) (new_submissions (rl_slots R ! i) sl)\<rparr>)"
| lag: "i < length (rl_slots R) \<Longrightarrow> sl_bcasts (rl_slots R ! i) = e # es \<Longrightarrow>
    relay_step X s A ord R (R\<lparr>rl_slots := (rl_slots R)[i := (rl_slots R ! i)\<lparr>sl_bcasts := es\<rparr>]\<rparr>)"
| query: "i < length (rl_slots R) \<Longrightarrow> sl_jobs (rl_slots R ! i) = js @ j # js' \<Longrightarrow> jb_filters j = f # fs \<Longrightarrow>
    run_query X ord now f (ws_events (rl_writer R)) = Ok rows \<Longrightarrow>
    relay_step X s A ord R (R\<lparr>rl_slots := (rl_slots R)[i := (rl_slots R ! i)\<lparr>
      sl_results := sl_results (rl_slots R ! i) @ map (result_of (jb_sub j)) (take n rows),
      sl_jobs := js @ (if length rows \<le> n then [j\<lparr>jb_begun := True, jb_filters := fs\<rparr>] else []) @ js'\<rparr>]\<rparr>)"
| query_end: "i < length (rl_slots R) \<Longrightarrow> sl_jobs (rl_slots R ! i) = js @ j # js' \<Longrightarrow> jb_filters j = [] \<or> \<not> jb_begun j \<Longrightarrow>
    relay_step X s A ord R (R\<lparr>rl_slots := (rl_slots R)[i := (rl_slots R ! i)\<lparr>
      sl_results := sl_results (rl_slots R ! i) @ [result_of (jb_sub j) ''EOSE''], sl_jobs := js @ js'\<rparr>]\<rparr>)"
| query_stop: "i < length (rl_slots R) \<Longrightarrow> sl_jobs (rl_slots R ! i) = js @ j # js' \<Longrightarrow>
    relay_step X s A ord R (R\<lparr>rl_slots := (rl_slots R)[i := (rl_slots R ! i)\<lparr>sl_jobs := js @ js'\<rparr>]\<rparr>)"
| writing: "rl_up R \<Longrightarrow> rl_queue R = (i, sm) # q \<Longrightarrow> we_order W = ord \<Longrightarrow>
    writer_step X s W sm (idle (rl_writer R)) = Done (w, r) \<Longrightarrow>
    relay_step X s A ord R (after_write i w r R)"
| writer_panic: "rl_up R \<Longrightarrow> rl_queue R = (i, sm) # q \<Longrightarrow> writer_step X s W sm (idle (rl_writer R)) = Panic \<Longrightarrow>
    relay_step X s A ord R (R\<lparr>rl_queue := q, rl_up := False\<rparr>)"
| verify: "rl_verifier R = Some iv \<Longrightarrow> (m = Tick \<and> ms = rl_metadata R) \<or> (m = Lagged \<and> rl_metadata R = e # ms) \<or>
      (m = Metadata e \<and> rl_metadata R = e # ms) \<Longrightarrow> ve_order E = ord \<Longrightarrow>
    verifier_run_internal X (s_verified_users s) E m
      \<lparr>vs_db = ws_events (rl_writer R), vs_sent = [], vs_interval = iv\<rparr> = Done (v, r) \<Longrightarrow>
    relay_step X s A ord R (after_verify ms v R)"
| verify_panic: "rl_verifier R = Some iv \<Longrightarrow>
    verifier_run_internal X (s_verified_users s) E Tick
      \<lparr>vs_db = ws_events (rl_writer R), vs_sent = [], vs_interval = iv\<rparr> = Panic \<Longrightarrow>
    relay_step X s A ord R (R\<lparr>rl_verifier := None\<rparr>)"
| pay: "ptr_enabled (s_pay_to_relay s) \<Longrightarrow> rl_messages R = m # ms \<Longrightarrow>
    run_internal X E s m \<lparr>ps_repo = ws_accounts (rl_writer R), ps_sent = [], ps_stored = [], ps_broadcast = []\<rparr> = (p, r) \<Longrightarrow>
    relay_step X s A ord R (after_payment X ord E p R)"
| pay_lag: "rl_messages R = m # ms \<Longrightarrow> relay_step X s A ord R (R\<lparr>rl_messages := ms\<rparr>)"
| web: "handle_web_request X s (map_option (\<lambda>a. (a, NE)) A) WE rq remote
      ((rl_names R)\<lparr>st_repo := ws_accounts (rl_writer R)\<rparr>) = Done (res, ms) \<Longrightarrow>
    relay_step X s A ord R (after_web (e_check_invoice NE) res ms R)"
| expire: "relay_step X s A ord R (set_events (cleanup_expired c (ws_events (rl_writer R))) R)"

inductive_cases relay_stepE: "relay_step X s A ord R R'"

section \<open>Contents of the repository\<close>

definition contents :: "event_db \<Rightarrow> string set" where
  "contents db = er_content ` set (db_events db)"

definition text_of :: "externals \<Rightarrow> event \<Rightarrow> string set" where
  "text_of X e = {t. event_to_string X e = Some t}"

lemma contents_delete: "contents (delete_events P db) \<subseteq> contents db"
  by (auto simp: contents_def delete_events_def Let_def)

lemma contents_hide [simp]: "contents (hide_events P db) = contents db"
proof -
  have "map er_content (db_events (hide_events P db)) = map er_content (db_events db)" by (simp add: hide_events_def)
  then show ?thesis unfolding contents_def by (metis set_map)
qed

lemma contents_insert: "contents (insert_event X now e h a content db) = insert content (contents db)"
  by (auto simp: contents_def insert_event_def Let_def)

lemma contents_drops: "contents (drop_param_replaced ord e a (drop_replaced ord e a db)) \<subseteq> contents db"
proof -
  have "contents (drop_replaced ord e a db) \<subseteq> contents db" by (simp add: drop_replaced_def Let_def contents_delete)
  moreover have "contents (drop_param_replaced ord e a d) \<subseteq> contents d" for d
    by (simp add: drop_param_replaced_def Let_def contents_delete split: option.splits)
  ultimately show ?thesis by blast
qed

lemma contents_store:
  "contents (fst (store_event X ord now e h a content db)) \<subseteq> insert content (contents db)"
proof -
  have "contents (fst (apply_deletions X e a i d)) = contents d" for i d
    by (simp add: apply_deletions_def hide_targets_def)
  then show ?thesis
    using contents_drops [of ord e a "insert_event X now e h a content db"] by (simp add: store_event_def Let_def contents_insert)
qed

lemma contents_persist: "contents (fst (persist_event X ord now f e db)) \<subseteq> contents db \<union> text_of X e"
proof (cases "persist_event X ord now f e db")
  case (Pair db' r)
  then show ?thesis
  proof (cases rule: persist_cases)
    case (stored h a content n)
    then show ?thesis using contents_store [of X ord now e h a content db] Pair by (auto simp: text_of_def)
  qed (simp add: Pair)
qed

lemma contents_attempts:
  "(\<And>f d. contents (fst (att f d)) \<subseteq> contents d \<union> T) \<Longrightarrow> contents (fst (write_attempts att n fault db)) \<subseteq> contents db \<union> T"
proof (induction n arbitrary: fault db)
  case (Suc n)
  obtain db' r where a: "att (fault 0) db = (db', r)" by force
  have "contents db' \<subseteq> contents db \<union> T" using Suc.prems [of "fault 0" db] a by simp
  moreover have "contents (fst (write_attempts att n (\<lambda>k. fault (Suc k)) db')) \<subseteq> contents db' \<union> T" by (rule Suc.IH) (rule Suc.prems)
  ultimately show ?case using a by auto
qed simp

lemma contents_write: "contents (fst (write_event X ord now pf f e db)) \<subseteq> contents db \<union> text_of X e"
  using contents_attempts [OF contents_persist] by (cases pf) (simp_all add: write_event_def)

lemma contents_store_all: "contents (store_all X ord now es db) \<subseteq> contents db \<union> (\<Union>e\<in>set es. text_of X e)"
proof (induction es arbitrary: db)
  case (Cons e es)
  from Cons [of "fst (write_event X ord now None (\<lambda>_. None) e db)"] contents_write [of X ord now None "\<lambda>_. None" e db]
  show ?case by (auto simp: store_all_def)
qed (simp add: store_all_def)

lemma contents_expire: "contents (cleanup_expired c db) \<subseteq> contents db"
  by (simp add: cleanup_expired_def delete_expired_def Let_def contents_delete)

lemma contents_verifs [simp]:
  "contents (fst (create_verification_record X now i n db)) = contents db"
  "contents (fst (update_verification_timestamp t j db)) = contents db"
  "contents (fst (fail_verification t j db)) = contents db"
  "contents (fst (delete_verification j db)) = contents db"
  by (auto simp: contents_def create_verification_record_def update_verification_timestamp_def fail_verification_def delete_verification_def
      on_verif_def Let_def split: option.splits)

lemma contents_verif_update:
  "(\<And>db. contents (fst (op db)) = contents db) \<Longrightarrow> contents (vs_db (fst (verif_update f op st))) = contents (vs_db st)"
  by (simp add: verif_update_cases)

text \<open>A query returns contents of rows.\<close>

lemma run_query_contents:
  assumes "run_query X ord now f db = Ok rows"
  shows "set rows \<subseteq> contents db"
proof -
  let ?rows = "filter (selects X now f db) (db_events db)"
  have row: "c \<in> contents db" if found: "map_option er_content (List.find (\<lambda>r. er_id r = i) ?rows) = Some c" for i c
  proof -
    obtain r where r: "List.find (\<lambda>r. er_id r = i) ?rows = Some r" "er_content r = c"
      using found unfolding map_option_eq_Some by (elim exE conjE) (rule that)
    have "r \<in> set ?rows" using find_Some_iff [OF r(1)] by (rule conjunct1)
    with r(2) show ?thesis by (auto simp: contents_def)
  qed
  have sub: "set (List.map_filter g ids) \<subseteq> contents db" if "\<And>i c. g i = Some c \<Longrightarrow> c \<in> contents db" for g and ids :: "nat list"
    using that by (induction ids) (auto simp: List.map_filter_simps split: option.splits)
  let ?g = "\<lambda>i. map_option er_content (List.find (\<lambda>r. er_id r = i) ?rows)"
  have "set (List.map_filter ?g ids) \<subseteq> contents db" for ids by (rule sub) (rule row)
  then show ?thesis using assms by (auto simp: run_query_def Let_def split: if_splits option.splits)
qed

section \<open>What the tasks send\<close>

text \<open>What the settings alone demand of an event that the writer publishes.\<close>

definition cleared :: "settings \<Rightarrow> event \<Rightarrow> bool" where
  "cleared s e \<longleftrightarrow> kinds_gate s e = Pass () \<and>
     (ptr_enabled (s_pay_to_relay s) \<or> pubkey_whitelist (s_authorization s) = None \<or> whitelisted s e)"

lemma create_user_sends:
  assumes "create_new_verified_user X vu E n e st = (v, r)"
  shows "set (vs_sent v) \<subseteq> insert e (set (vs_sent st))" "contents (vs_db v) \<subseteq> contents (vs_db st) \<union> text_of X e"
proof -
  obtain db w where w: "write_event X (ve_order E) (ve_sql_now E) (ve_pool_fault E) (ve_write_fault E) e (vs_db st) = (db, w)" by force
  have c: "contents db \<subseteq> contents (vs_db st) \<union> text_of X e"
    using contents_write [of X "ve_order E" "ve_sql_now E" "ve_pool_fault E" "ve_write_fault E" e "vs_db st"] w by simp
  let ?st1 = "if vu_is_enabled vu then (case w of Ok updated \<Rightarrow> if updated \<noteq> 0 then st\<lparr>vs_db := db, vs_sent := vs_sent st @ [e]\<rparr>
      else st\<lparr>vs_db := db\<rparr> | Err _ \<Rightarrow> st\<lparr>vs_db := db\<rparr>) else st"
  let ?u = "verif_update (ve_fault E AtCreate) (create_verification_record X (ve_sql_now E) (ev_id e) n) ?st1"
  have v: "v = fst ?u" using assms w by (auto simp: create_new_verified_user_def Let_def split: result.splits if_splits)
  have s1: "set (vs_sent ?st1) \<subseteq> insert e (set (vs_sent st))" "contents (vs_db ?st1) \<subseteq> contents (vs_db st) \<union> text_of X e"
    using c by (auto split: result.splits)
  show "set (vs_sent v) \<subseteq> insert e (set (vs_sent st))"
    using s1(1) unfolding v verif_update_cases by (simp split: if_splits)
  show "contents (vs_db v) \<subseteq> contents (vs_db st) \<union> text_of X e"
    using s1(2) unfolding v by (subst contents_verif_update) simp_all
qed

lemma reverify_result:
  assumes "do_reverify X vu E st = Done (v, r)"
  shows "(\<exists>u. v = fst (apply_reverify X vu E u st)) \<or> vs_sent v = vs_sent st \<and> vs_db v = vs_db st"
proof -
  obtain t where "(case (case ve_fault E AtOldest of Some err \<Rightarrow> Err err
      | None \<Rightarrow> get_oldest_user_verification X (ve_oldest E) t (vs_db st)) of
        Ok u \<Rightarrow> apply_reverify X vu E u st
      | Err e \<Rightarrow> if is_no_rows e then (st\<lparr>vs_interval := (wait_after_finish, http_wait_duration)\<rparr>, Ok ()) else (st, Ok ())) = (v, r)"
    using assms unfolding do_reverify_def map_exec_Done by blast
  then show ?thesis
    by (cases "case ve_fault E AtOldest of Some err \<Rightarrow> Err err | None \<Rightarrow> get_oldest_user_verification X (ve_oldest E) t (vs_db st)")
      (auto split: if_splits dest!: arg_cong [of _ "(v, r)" fst])
qed

lemma reverify_sends:
  assumes "do_reverify X vu E st = Done (v, r)"
  shows "vs_sent v = vs_sent st" "contents (vs_db v) = contents (vs_db st)"
proof -
  have "vs_sent (fst (apply_reverify X vu E u st)) = vs_sent st" "contents (vs_db (fst (apply_reverify X vu E u st))) = contents (vs_db st)" for u
    by (auto simp: apply_reverify_def Let_def contents_verif_update verif_update_cases split: web_status.splits)
  with reverify_result [OF assms] show "vs_sent v = vs_sent st" "contents (vs_db v) = contents (vs_db st)" by auto
qed

lemma verifier_sends:
  assumes "verifier_run_internal X vu E m \<lparr>vs_db = db, vs_sent = [], vs_interval = iv\<rparr> = Done (v, r)"
  shows "set (vs_sent v) \<subseteq> {e. m = Metadata e}" "contents (vs_db v) \<subseteq> contents db \<union> {t. \<exists>e. m = Metadata e \<and> t \<in> text_of X e}"
proof -
  have "set (vs_sent v) \<subseteq> {e. m = Metadata e} \<and> contents (vs_db v) \<subseteq> contents db \<union> {t. \<exists>e. m = Metadata e \<and> t \<in> text_of X e}"
  proof (cases m)
    case (Metadata e)
    let ?st = "\<lparr>vs_db = db, vs_sent = [], vs_interval = iv\<rparr>"
    from Metadata assms consider "v = ?st" | n where "create_new_verified_user X vu E n e ?st = (v, r)"
      by (auto simp: on_metadata_def Let_def split: option.splits if_splits)
    then show ?thesis
    proof cases
      case 2
      from create_user_sends [OF 2] Metadata show ?thesis by simp
    qed (simp add: Metadata)
  next
    case Tick
    with assms reverify_sends show ?thesis by fastforce
  qed (use assms in auto)
  then show "set (vs_sent v) \<subseteq> {e. m = Metadata e}" "contents (vs_db v) \<subseteq> contents db \<union> {t. \<exists>e. m = Metadata e \<and> t \<in> text_of X e}"
    by blast+
qed

lemma publish_sends:
  assumes "publish X s W e st = (st', w)" "ws_bcast st = []" "ws_metadata st = []"
  shows "set (ws_bcast st') \<subseteq> {e} \<and> set (ws_metadata st') \<subseteq> {e} \<and> contents (ws_events st') \<subseteq> contents (ws_events st) \<union> text_of X e"
proof -
  obtain db r where d: "write_event X (we_order W) (we_sql_now W) (we_pool_fault W) (we_write_fault W) e (ws_events st) = (db, r)" by force
  have "contents db \<subseteq> contents (ws_events st) \<union> text_of X e"
    using contents_write [of X "we_order W" "we_sql_now W" "we_pool_fault W" "we_write_fault W" e "ws_events st"] d by simp
  with assms d show ?thesis by (auto simp: publish_def Let_def split: if_splits result.splits)
qed

lemma writer_sends:
  assumes "writer_step X s W sm (idle w0) = Done (w, r)"
  shows "ws_bcast w = [] \<and> ws_metadata w = [] \<and> ws_events w = ws_events w0 \<or>
    cleared s (sm_event sm) \<and> set (ws_bcast w) \<subseteq> {sm_event sm} \<and> set (ws_metadata w) \<subseteq> {sm_event sm} \<and>
    contents (ws_events w) \<subseteq> contents (ws_events w0) \<union> text_of X (sm_event sm)"
  using assms
proof (cases rule: writer_step_cases)
  case (drop ns ps c)
  then show ?thesis by (simp add: dropped_def idle_def)
next
  case (publish b a c st1 v)
  have "cleared s (sm_event sm)"
    using publish(1) account_gate_Pass [OF publish(2)] by (auto simp: cleared_def split: if_splits)
  moreover have "ws_bcast w = ws_bcast st1" "ws_events w = ws_events st1" "ws_metadata w = ws_metadata st1"
    using publish(6) by (cases v; auto simp: charge_def split: if_splits result.splits prod.splits)+
  ultimately show ?thesis using publish_sends [OF publish(5)] by (simp add: idle_def)
qed

section \<open>What a session sends\<close>

text \<open>Events leave a session only as the answer to a broadcast or a query result.\<close>

definition sent_events :: "session \<Rightarrow> string set" where
  "sent_events st = {t. \<exists>k. OutEvent k t \<in> set (se_out st)}"

lemma sent_send_client [simp]:
  "sent_events (fst (send_client b m st)) = (if b then {t. \<exists>k. m = OutEvent k t} else {}) \<union> sent_events st"
  by (auto simp: send_client_def sent_events_def)

lemma sent_send_notice [simp]: "sent_events (fst (send_notice E n st)) = sent_events st"
  by (simp add: send_notice_def)

lemma sent_fields [simp]:
  "sent_events (st\<lparr>se_conn := c\<rparr>) = sent_events st" "sent_events (st\<lparr>se_last_message := n\<rparr>) = sent_events st"
  "sent_events (st\<lparr>se_received := n\<rparr>) = sent_events st" "sent_events (cleanup st) = sent_events st"
  by (simp_all add: sent_events_def)

lemma sent_on_event [simp]: "sent_events (fst (on_event X s adm ci E e st)) = sent_events st"
  by (auto simp: on_event_def split: decision.splits option.splits) (simp_all add: sent_events_def)

lemma sent_on_auth [simp]: "sent_events (fst (on_auth X s E i e st)) = sent_events st"
  by (auto simp: on_auth_def split: option.splits prod.splits result.splits)

lemma sent_on_subscribe [simp]: "sent_events (fst (on_subscribe s E sub st)) = sent_events st"
  by (auto simp: on_subscribe_def Let_def split: prod.splits result.splits) (simp_all add: sent_events_def)

lemma sent_on_close [simp]: "sent_events (fst (on_close E cc st)) = sent_events st"
  by (auto simp: on_close_def split: result.splits) (simp_all add: sent_events_def)

lemma sent_on_text: "on_text X s adm ci E m st = Done p \<Longrightarrow> sent_events (fst p) = sent_events st"
  by (auto simp: on_text_def split: exec.splits result.splits nostr_message.splits event_wrapper.splits error.splits)

lemma sent_deliver: "sent_events (fst (deliver X s f e subs st)) \<subseteq> sent_events st \<union> text_of X e"
proof -
  let ?ms = "live_messages X s e (se_conn st) subs"
  have "{t. \<exists>k. OutEvent k t \<in> set (take n ?ms)} \<subseteq> text_of X e" for n
    by (auto simp: live_messages_def text_of_def split: option.splits if_splits dest: in_set_takeD)
  then show ?thesis by (auto simp: deliver_spec Let_def sent_events_def)
qed

lemma session_step_sent:
  assumes "session_step X s adm ci E i st = Done (st', go)"
  shows "sent_events st' \<subseteq> sent_events st \<union>
    (case i of Broadcast e \<Rightarrow> text_of X e | QueryIn q \<Rightarrow> {t. t = qr_event q \<and> t \<noteq> ''EOSE''} | _ \<Rightarrow> {})"
proof (cases i)
  case (Broadcast e)
  then show ?thesis using assms sent_deliver [of X s "sv_send_ok E" e "subscriptions (se_conn st)" st] by simp
next
  case (QueryIn q)
  then show ?thesis
    using assms by (auto simp: on_query_result_def Let_def split: if_splits dest!: arg_cong [of _ "(st', go)" fst])
next
  case (WsNext fr)
  then show ?thesis
    using assms by (cases fr) (auto simp: on_frame_def Let_def dest!: sent_on_text arg_cong [of _ "(st', go)" fst])
next
  case PingTick
  then show ?thesis using assms by (auto split: if_splits dest!: arg_cong [of _ "(st', go)" fst])
qed (use assms in \<open>auto dest!: arg_cong [of _ "(st', go)" fst]\<close>)

text \<open>Submissions and queries are only added.\<close>

lemma session_step_grows:
  assumes "session_step X s adm ci E i st = Done (st', go)"
  shows "\<exists>sms. se_submitted st' = se_submitted st @ sms"
proof -
  have "effect X s adm ci E st st'" using session_step_good [OF assms] by (simp add: good_step_def)
  then show ?thesis by (cases rule: effect.cases) (auto simp: core_eq subscribed_def closed_def)
qed

section \<open>The invariant\<close>

text \<open>Where events come from: clients submitted them and the settings let them pass, or the payment task made them.\<close>

definition submissions :: "relay \<Rightarrow> submitted_event list list" where
  "submissions R = map (\<lambda>sl. se_submitted (sl_st sl)) (rl_slots R)"

definition origins :: "settings \<Rightarrow> relay \<Rightarrow> event set" where
  "origins s R = {e. cleared s e \<and> (\<exists>sms\<in>set (submissions R). e \<in> sm_event ` set sms)} \<union> set (rl_own R)"

text \<open>Texts that may be in the repository: those of such events, and what was there before.\<close>

definition known_texts :: "externals \<Rightarrow> string set \<Rightarrow> event set \<Rightarrow> string set" where
  "known_texts X old es = old \<union> (\<Union>e\<in>es. text_of X e)"

definition slot_inv :: "externals \<Rightarrow> settings \<Rightarrow> string set \<Rightarrow> event set \<Rightarrow> slot \<Rightarrow> bool" where
  "slot_inv X s old es sl \<longleftrightarrow> client_inv X s (from_settings X s) (sl_challenge sl) (set (sl_envs sl)) (sl_st sl) \<and>
     set (sl_bcasts sl) \<subseteq> es \<and> qr_event ` set (sl_results sl) \<subseteq> insert ''EOSE'' (known_texts X old es) \<and>
     sent_events (sl_st sl) \<subseteq> known_texts X old es"

definition queue_inv :: "relay \<Rightarrow> bool" where
  "queue_inv R \<longleftrightarrow> (\<forall>(i, sm)\<in>set (rl_queue R). i < length (submissions R) \<and> sm \<in> set (submissions R ! i))"

definition relay_inv :: "externals \<Rightarrow> settings \<Rightarrow> string set \<Rightarrow> relay \<Rightarrow> bool" where
  "relay_inv X s old R \<longleftrightarrow> (\<forall>sl\<in>set (rl_slots R). slot_inv X s old (origins s R) sl) \<and> queue_inv R \<and>
     set (rl_metadata R) \<subseteq> origins s R \<and> contents (ws_events (rl_writer R)) \<subseteq> known_texts X old (origins s R)"

lemma known_texts_mono: "es \<subseteq> es' \<Longrightarrow> known_texts X old es \<subseteq> known_texts X old es'"
  by (auto simp: known_texts_def)

lemma slot_inv_mono: "es \<subseteq> es' \<Longrightarrow> slot_inv X s old es sl \<Longrightarrow> slot_inv X s old es' sl"
  unfolding slot_inv_def using known_texts_mono [of es es' X old] by blast

lemma client_inv_mono: "Es \<subseteq> Es' \<Longrightarrow> client_inv X s adm ch Es st \<Longrightarrow> client_inv X s adm ch Es' st"
  unfolding client_inv_def auth_inv_def proved_key_def by (fastforce split: nip42_auth_state.splits)

lemma slot_inv_new: "slot_inv X s old es (slot_new s ci u ch E)"
  by (auto simp: slot_inv_def slot_new_def client_inv_def auth_inv_def sent_events_def session_new_out generate_auth_challenge_def conn_new_def)

lemma take_input_sel:
  assumes "take_input i sl = Some sl1"
  shows "sl_st sl1 = sl_st sl" "sl_ci sl1 = sl_ci sl" "sl_challenge sl1 = sl_challenge sl" "sl_envs sl1 = sl_envs sl"
    "set (sl_bcasts sl1) \<subseteq> set (sl_bcasts sl)" "set (sl_results sl1) \<subseteq> set (sl_results sl)"
    "i = Broadcast e \<Longrightarrow> e \<in> set (sl_bcasts sl)" "i = QueryIn q \<Longrightarrow> q \<in> set (sl_results sl)"
  using assms by (cases i; auto split: list.splits if_splits)+

lemma slot_step_cases:
  assumes "slot_step X s E i sl = Some sl'"
  obtains (panic) sl1 where "take_input i sl = Some sl1" "sl' = sl1\<lparr>sl_live := False\<rparr>"
  | (round) sl1 st go js where "take_input i sl = Some sl1"
      "session_step X s (from_settings X s) (sl_ci sl) E i (sl_st sl) = Done (st, go)"
      "sl' = sl1\<lparr>sl_st := (if go then st else cleanup st), sl_live := go, sl_envs := sl_envs sl @ [E], sl_jobs := js\<rparr>"
proof -
  obtain sl1 where sl1: "take_input i sl = Some sl1" using assms by (auto simp: slot_step_def)
  note t = take_input_sel [OF sl1]
  show thesis
  proof (cases "session_step X s (from_settings X s) (sl_ci sl) E i (sl_st sl)")
    case Panic
    then have "sl' = sl1\<lparr>sl_live := False\<rparr>" using assms sl1 t(1,2) by (simp add: slot_step_def)
    with sl1 show thesis by (rule panic)
  next
    case (Done p)
    obtain st go where p: "p = (st, go)" by force
    have "sl' = sl1\<lparr>sl_st := (if go then st else cleanup st), sl_live := go, sl_envs := sl_envs sl @ [E],
        sl_jobs := sl_jobs sl1 @ map job_of (drop (length (se_queries (sl_st sl))) (se_queries st))\<rparr>"
      using assms sl1 t(1,2,4) Done p by (simp add: slot_step_def)
    with sl1 Done [unfolded p] show thesis by (rule round)
  qed
qed

lemma slot_step_submitted:
  assumes "slot_step X s E i sl = Some sl'"
  shows "se_submitted (sl_st sl') = se_submitted (sl_st sl) @ new_submissions sl sl'"
  using assms
proof (cases rule: slot_step_cases)
  case (round sl1 st go js)
  with session_step_grows [OF round(2)] show ?thesis by (auto simp: new_submissions_def)
qed (auto simp: new_submissions_def take_input_sel)

lemma slot_inv_move:
  assumes "slot_inv X s old es sl" "take_input i sl = Some sl1" "sl_challenge sl' = sl_challenge sl1" "sl_bcasts sl' = sl_bcasts sl1"
    "sl_results sl' = sl_results sl1" "client_inv X s (from_settings X s) (sl_challenge sl) (set (sl_envs sl')) (sl_st sl')"
    "sent_events (sl_st sl') \<subseteq> known_texts X old es"
  shows "slot_inv X s old es sl'"
proof -
  note t = take_input_sel [OF assms(2)]
  have "set (sl_bcasts sl') \<subseteq> es" using t(5) assms(1,4) by (auto simp: slot_inv_def)
  moreover have "qr_event ` set (sl_results sl') \<subseteq> insert ''EOSE'' (known_texts X old es)"
    using image_mono [OF t(6), of qr_event] assms(1,5) by (auto simp: slot_inv_def)
  ultimately show ?thesis unfolding slot_inv_def using assms(3,6,7) t(3) by simp
qed

lemma slot_step_inv:
  assumes "slot_step X s E i sl = Some sl'" "slot_inv X s old es sl"
  shows "slot_inv X s old es sl'"
  using assms(1)
proof (cases rule: slot_step_cases)
  case (panic sl1)
  note t = take_input_sel [OF panic(1)]
  show ?thesis by (rule slot_inv_move [OF assms(2) panic(1)]) (use assms(2) in \<open>simp_all add: panic(2) t(1,4) slot_inv_def\<close>)
next
  case (round sl1 st go js)
  note t = take_input_sel [OF round(1)]
  have "client_inv X s (from_settings X s) (sl_challenge sl) (set (sl_envs sl @ [E])) (sl_st sl)"
    by (rule client_inv_mono [of "set (sl_envs sl)"]) (use assms(2) in \<open>auto simp: slot_inv_def\<close>)
  then have c: "client_inv X s (from_settings X s) (sl_challenge sl) (set (sl_envs sl @ [E])) st"
    using round(2) by (rule client_inv_step [rotated]) simp
  have old: "sent_events (sl_st sl) \<subseteq> known_texts X old es" "set (sl_bcasts sl) \<subseteq> es"
    "qr_event ` set (sl_results sl) \<subseteq> insert ''EOSE'' (known_texts X old es)"
    using assms(2) by (simp_all add: slot_inv_def)
  have "(case i of Broadcast e \<Rightarrow> text_of X e | QueryIn q \<Rightarrow> {t. t = qr_event q \<and> t \<noteq> ''EOSE''} | _ \<Rightarrow> {}) \<subseteq> known_texts X old es"
  proof (cases i)
    case (Broadcast e)
    then show ?thesis using t(7) old(2) by (auto simp: known_texts_def)
  next
    case (QueryIn q)
    have "qr_event q \<in> insert ''EOSE'' (known_texts X old es)" using t(8) [OF QueryIn] old(3) by blast
    then show ?thesis using QueryIn by auto
  qed simp_all
  with session_step_sent [OF round(2)] old(1) have n: "sent_events st \<subseteq> known_texts X old es" by blast
  show ?thesis by (rule slot_inv_move [OF assms(2) round(1)]) (use c n in \<open>simp_all add: round(3) client_inv_def\<close>)
qed

section \<open>Every step keeps the invariant\<close>

lemma origins_cong: "submissions R' = submissions R \<Longrightarrow> rl_own R' = rl_own R \<Longrightarrow> origins s R' = origins s R"
  by (simp add: origins_def)

lemma submissions_update: "sl_st sl = sl_st (rl_slots R ! i) \<Longrightarrow> submissions (R\<lparr>rl_slots := (rl_slots R)[i := sl]\<rparr>) = submissions R"
  by (rule nth_equalityI) (simp_all add: submissions_def, metis nth_list_update_eq nth_list_update_neq)

lemma submissions_frame [simp]:
  "submissions (R\<lparr>rl_queue := q\<rparr>) = submissions R" "submissions (R\<lparr>rl_writer := w\<rparr>) = submissions R"
  "submissions (R\<lparr>rl_metadata := ms\<rparr>) = submissions R" "submissions (R\<lparr>rl_messages := ps\<rparr>) = submissions R"
  "submissions (R\<lparr>rl_up := b\<rparr>) = submissions R" "submissions (R\<lparr>rl_verifier := v\<rparr>) = submissions R"
  "submissions (R\<lparr>rl_own := es\<rparr>) = submissions R" "submissions (R\<lparr>rl_checks := cs\<rparr>) = submissions R"
  by (simp_all add: submissions_def)

lemma submissions_hear [simp]: "submissions (announce es R) = submissions R"
  by (simp add: submissions_def announce_def hear_def)

lemma submissions_answer [simp]: "submissions (answer_slot i ns R) = submissions R"
  unfolding answer_slot_def by (rule submissions_update) simp

lemma relay_inv_slot:
  assumes "relay_inv X s old R" "sl_st sl = sl_st (rl_slots R ! i)" "slot_inv X s old (origins s R) sl"
  shows "relay_inv X s old (R\<lparr>rl_slots := (rl_slots R)[i := sl]\<rparr>)"
proof -
  let ?R = "R\<lparr>rl_slots := (rl_slots R)[i := sl]\<rparr>"
  have sub: "submissions ?R = submissions R" using assms(2) by (rule submissions_update)
  have o: "origins s ?R = origins s R" using sub by (rule origins_cong) simp
  have "\<forall>sl'\<in>set ((rl_slots R)[i := sl]). slot_inv X s old (origins s R) sl'"
    using assms(1,3) set_update_subset_insert [of "rl_slots R" i sl] by (auto simp: relay_inv_def)
  then show ?thesis using assms(1) sub o by (simp add: relay_inv_def queue_inv_def)
qed

lemma relay_inv_at: "relay_inv X s old R \<Longrightarrow> i < length (rl_slots R) \<Longrightarrow> slot_inv X s old (origins s R) (rl_slots R ! i)"
  by (simp add: relay_inv_def)

lemma relay_inv_announce:
  assumes "relay_inv X s old R" "set es \<subseteq> origins s R"
  shows "relay_inv X s old (announce es R)"
proof -
  have o: "origins s (announce es R) = origins s R" by (rule origins_cong) (simp, simp add: announce_def)
  have "slot_inv X s old (origins s R) (hear es sl)" if "slot_inv X s old (origins s R) sl" for sl
    using that assms(2) by (simp add: slot_inv_def hear_def)
  with assms(1) show ?thesis unfolding relay_inv_def queue_inv_def submissions_hear o by (simp add: announce_def)
qed

lemma relay_inv_answer:
  assumes "relay_inv X s old R"
  shows "relay_inv X s old (answer_slot i ns R)"
proof (cases "i < length (rl_slots R)")
  case True
  from relay_inv_at [OF assms True] show ?thesis unfolding answer_slot_def
    by (intro relay_inv_slot [OF assms]) (simp_all add: slot_inv_def)
qed (use assms in \<open>simp add: answer_slot_def list_update_beyond\<close>)

lemma relay_inv_tasks:
  assumes "relay_inv X s old R" "rl_slots R' = rl_slots R" "set (rl_own R) \<subseteq> set (rl_own R')" "set (rl_queue R') \<subseteq> set (rl_queue R)"
    "set (rl_metadata R') \<subseteq> origins s R'" "contents (ws_events (rl_writer R')) \<subseteq> known_texts X old (origins s R')"
  shows "relay_inv X s old R'"
proof -
  have sub: "submissions R' = submissions R" by (simp add: submissions_def assms(2))
  have "origins s R \<subseteq> origins s R'" using assms(3) by (auto simp: origins_def sub)
  then have "\<forall>sl\<in>set (rl_slots R'). slot_inv X s old (origins s R') sl"
    using assms(1,2) slot_inv_mono by (auto simp: relay_inv_def)
  moreover have "queue_inv R'" using assms(1,4) by (auto simp: relay_inv_def queue_inv_def sub)
  ultimately show ?thesis using assms(5,6) by (simp add: relay_inv_def)
qed

lemma queue_event:
  assumes "relay_inv X s old R" "rl_queue R = (i, sm) # q" "cleared s (sm_event sm)"
  shows "sm_event sm \<in> origins s R"
proof -
  have "i < length (submissions R)" "sm \<in> set (submissions R ! i)" using assms(1,2) by (auto simp: relay_inv_def queue_inv_def)
  then have "\<exists>sms\<in>set (submissions R). sm_event sm \<in> sm_event ` set sms" by (intro bexI [of _ "submissions R ! i"]) auto
  with assms(3) show ?thesis by (simp add: origins_def)
qed

lemma known_texts_event: "e \<in> es \<Longrightarrow> text_of X e \<subseteq> known_texts X old es"
  by (auto simp: known_texts_def)

lemma after_write_inv:
  assumes inv: "relay_inv X s old R" and q: "rl_queue R = (i, sm) # q"
    and w: "writer_step X s W sm (idle (rl_writer R)) = Done (w, r)"
  shows "relay_inv X s old (after_write i w r R)"
proof -
  let ?R = "R\<lparr>rl_queue := tl (rl_queue R), rl_writer := idle w, rl_up := (r = Ok ()),
    rl_metadata := rl_metadata R @ ws_metadata w, rl_messages := rl_messages R @ ws_payments w\<rparr>"
  have o: "origins s ?R = origins s R" by (rule origins_cong) simp_all
  have old: "set (rl_metadata R) \<subseteq> origins s R" "contents (ws_events (rl_writer R)) \<subseteq> known_texts X old (origins s R)"
    using inv by (simp_all add: relay_inv_def)
  have b: "set (ws_bcast w) \<subseteq> origins s R \<and> set (ws_metadata w) \<subseteq> origins s R \<and> contents (ws_events w) \<subseteq> known_texts X old (origins s R)"
    using writer_sends [OF w]
  proof (elim disjE conjE, goal_cases)
    case 1
    with old(2) show ?case by simp
  next
    case 2
    from queue_event [OF inv q 2(1)] have "sm_event sm \<in> origins s R" .
    with 2 old(2) known_texts_event [OF this, of X old] show ?case by blast
  qed
  have e: "ws_events (idle w) = ws_events w" by (simp add: idle_def)
  have "relay_inv X s old ?R"
    by (rule relay_inv_tasks [OF inv]; (unfold o)?) (use b old(1) q e in auto)
  then have a: "relay_inv X s old (answer_slot i (ws_notices w) ?R)" by (rule relay_inv_answer)
  have "origins s (answer_slot i (ws_notices w) ?R) = origins s ?R" by (rule origins_cong) (simp, simp add: answer_slot_def)
  then show ?thesis unfolding after_write_def using b o by (intro relay_inv_announce [OF a]) simp
qed

lemma after_verify_inv:
  assumes inv: "relay_inv X s old R" and m: "set ms \<subseteq> set (rl_metadata R)" "\<And>e. m = Metadata e \<Longrightarrow> e \<in> set (rl_metadata R)"
    and v: "verifier_run_internal X vu E m \<lparr>vs_db = ws_events (rl_writer R), vs_sent = [], vs_interval = iv\<rparr> = Done (v, r)"
  shows "relay_inv X s old (after_verify ms v R)"
proof -
  let ?R = "set_events (vs_db v) (R\<lparr>rl_metadata := ms, rl_verifier := Some (vs_interval v)\<rparr>)"
  have o: "origins s ?R = origins s R" by (rule origins_cong) (simp_all add: set_events_def)
  have old: "set (rl_metadata R) \<subseteq> origins s R" "contents (ws_events (rl_writer R)) \<subseteq> known_texts X old (origins s R)"
    using inv by (simp_all add: relay_inv_def)
  have t: "text_of X e \<subseteq> known_texts X old (origins s R)" if "m = Metadata e" for e
    using m(2) [OF that] old(1) known_texts_event by blast
  have c: "contents (vs_db v) \<subseteq> known_texts X old (origins s R)" using verifier_sends(2) [OF v] old(2) t by blast
  have "relay_inv X s old ?R"
    by (rule relay_inv_tasks [OF inv]; (unfold o)?) (use m(1) old(1) c in \<open>auto simp: set_events_def\<close>)
  then show ?thesis unfolding after_verify_def
    by (rule relay_inv_announce) (use verifier_sends(1) [OF v] m(2) old(1) o in auto)
qed

lemma after_payment_inv:
  assumes "relay_inv X s old R"
  shows "relay_inv X s old (after_payment X ord E p R)"
proof -
  let ?w = "(rl_writer R)\<lparr>ws_accounts := ps_repo p, ws_events := store_all X ord (pe_sql_now E) (ps_stored p) (ws_events (rl_writer R))\<rparr>"
  let ?R = "R\<lparr>rl_writer := ?w, rl_messages := tl (rl_messages R) @ ps_sent p, rl_own := rl_own R @ ps_stored p @ ps_broadcast p,
    rl_checks := rl_checks R @ [pe_check_invoice E]\<rparr>"
  have o: "origins s R \<union> set (ps_stored p) \<union> set (ps_broadcast p) \<subseteq> origins s ?R" by (auto simp: origins_def)
  have k: "known_texts X old (origins s R) \<subseteq> known_texts X old (origins s ?R)" using o by (intro known_texts_mono) blast
  have "(\<Union>e\<in>set (ps_stored p). text_of X e) \<subseteq> known_texts X old (origins s ?R)" using o by (auto simp: known_texts_def)
  with k contents_store_all [of X ord "pe_sql_now E" "ps_stored p" "ws_events (rl_writer R)"] assms
  have "contents (ws_events ?w) \<subseteq> known_texts X old (origins s ?R)" by (simp add: relay_inv_def) blast
  then have "relay_inv X s old ?R"
    by (intro relay_inv_tasks [OF assms]) (use assms o in \<open>auto simp: relay_inv_def\<close>)
  then show ?thesis unfolding after_payment_def by (rule relay_inv_announce) (use o in blast)
qed

lemma session_inv:
  assumes inv: "relay_inv X s old R" and i: "i < length (rl_slots R)" and st: "slot_step X s E inp (rl_slots R ! i) = Some sl"
  shows "relay_inv X s old (R\<lparr>rl_slots := (rl_slots R)[i := sl],
    rl_queue := rl_queue R @ map (Pair i) (new_submissions (rl_slots R ! i) sl)\<rparr>)" (is "relay_inv X s old ?R")
proof -
  let ?new = "new_submissions (rl_slots R ! i) sl"
  have sub: "submissions ?R = (submissions R)[i := submissions R ! i @ ?new]"
    using slot_step_submitted [OF st] i by (simp add: submissions_def map_update)
  have n: "length (submissions R) = length (rl_slots R)" by (simp add: submissions_def)
  have grow: "\<exists>sms'\<in>set (submissions ?R). set sms \<subseteq> set sms'" if sms: "sms \<in> set (submissions R)" for sms
  proof -
    obtain k where k: "k < length (submissions R)" "sms = submissions R ! k" using sms by (auto simp: in_set_conv_nth)
    then have "set sms \<subseteq> set (submissions ?R ! k)" unfolding sub using i n by (auto simp: nth_list_update)
    moreover have "submissions ?R ! k \<in> set (submissions ?R)" by (rule nth_mem) (use k(1) sub in simp)
    ultimately show ?thesis by blast
  qed
  have o: "origins s R \<subseteq> origins s ?R" unfolding origins_def using grow by fastforce
  have "slot_inv X s old (origins s R) sl'" if "sl' \<in> set ((rl_slots R)[i := sl])" for sl'
    using that set_update_subset_insert [of "rl_slots R" i sl] slot_step_inv [OF st relay_inv_at [OF inv i]] inv
    by (auto simp: relay_inv_def)
  then have "\<forall>sl'\<in>set (rl_slots ?R). slot_inv X s old (origins s ?R) sl'" using slot_inv_mono [OF o] by simp
  moreover have "queue_inv ?R"
    using inv i n unfolding relay_inv_def queue_inv_def sub by (auto simp: nth_list_update)
  ultimately show ?thesis using inv o known_texts_mono [OF o, of X old] by (auto simp: relay_inv_def)
qed

lemma connect_inv:
  assumes "relay_inv X s old R"
  shows "relay_inv X s old (R\<lparr>rl_slots := rl_slots R @ [slot_new s ci u ch E]\<rparr>)" (is "relay_inv X s old ?R")
proof -
  have sub: "submissions ?R = submissions R @ [[]]" by (simp add: submissions_def slot_new_def)
  have o: "origins s ?R = origins s R" by (simp add: origins_def sub)
  have "queue_inv ?R" using assms unfolding relay_inv_def queue_inv_def sub by (auto simp: nth_append)
  then show ?thesis using assms slot_inv_new by (simp add: relay_inv_def o)
qed

lemma relay_query_inv:
  assumes inv: "relay_inv X s old R" and i: "i < length (rl_slots R)" and "run_query X ord now f (ws_events (rl_writer R)) = Ok rows"
  shows "relay_inv X s old (R\<lparr>rl_slots := (rl_slots R)[i := (rl_slots R ! i)\<lparr>
      sl_results := sl_results (rl_slots R ! i) @ map (result_of k) (take n rows), sl_jobs := js\<rparr>]\<rparr>)"
proof -
  have "set (take n rows) \<subseteq> known_texts X old (origins s R)"
    using run_query_contents [OF assms(3)] set_take_subset [of n rows] inv by (auto simp: relay_inv_def)
  moreover have "qr_event ` set (map (result_of k) (take n rows)) = set (take n rows)" by (force simp: result_of_def)
  ultimately have "qr_event ` set (map (result_of k) (take n rows)) \<subseteq> known_texts X old (origins s R)" by simp
  then show ?thesis by (intro relay_inv_slot [OF inv]) (use relay_inv_at [OF inv i] in \<open>auto simp: slot_inv_def image_Un\<close>)
qed

lemma expire_inv:
  assumes "relay_inv X s old R"
  shows "relay_inv X s old (set_events (cleanup_expired c (ws_events (rl_writer R))) R)" (is "relay_inv X s old ?R")
proof -
  have o: "origins s ?R = origins s R" by (rule origins_cong) (simp_all add: set_events_def)
  show ?thesis
    by (rule relay_inv_tasks [OF assms]; (unfold o)?)
      (use assms contents_expire [of c "ws_events (rl_writer R)"] in \<open>auto simp: set_events_def relay_inv_def\<close>)
qed

lemma relay_inv_frame:
  assumes "relay_inv X s old R"
  shows "relay_inv X s old (R\<lparr>rl_messages := ms\<rparr>)" "relay_inv X s old (R\<lparr>rl_verifier := v\<rparr>)"
    "rl_queue R = p # q \<Longrightarrow> relay_inv X s old (R\<lparr>rl_queue := q, rl_up := b\<rparr>)"
  using assms by (auto simp: relay_inv_def queue_inv_def origins_def)

lemma web_inv:
  assumes "relay_inv X s old R"
  shows "relay_inv X s old (after_web check res ms R)" (is "relay_inv X s old ?R")
proof -
  have f: "rl_slots ?R = rl_slots R" "rl_own ?R = rl_own R" "rl_queue ?R = rl_queue R" "rl_metadata ?R = rl_metadata R"
    "ws_events (rl_writer ?R) = ws_events (rl_writer R)"
    by (simp_all add: after_web_def split: web_result.splits exec.splits)
  have o: "origins s ?R = origins s R" by (rule origins_cong) (simp_all add: f submissions_def)
  show ?thesis by (rule relay_inv_tasks [OF assms]; (unfold o)?) (use assms in \<open>simp_all add: f relay_inv_def\<close>)
qed

theorem relay_step_inv:
  assumes "relay_step X s A ord R R'" "relay_inv X s old R"
  shows "relay_inv X s old R'"
  using assms
proof (induction rule: relay_step.induct)
  case (verify R iv m ms e E v r)
  show ?case by (rule after_verify_inv [OF verify.prems _ _ verify.hyps(4)]) (use verify.hyps(2) in auto)
next
  case (lag i R e es)
  show ?case
    by (rule relay_inv_slot [OF lag.prems]) (use relay_inv_at [OF lag.prems lag.hyps(1)] lag.hyps(2) in \<open>auto simp: slot_inv_def\<close>)
next
  case (query_end i R js j js')
  show ?case
    by (rule relay_inv_slot [OF query_end.prems]) (use relay_inv_at [OF query_end.prems query_end.hyps(1)] in \<open>auto simp: slot_inv_def result_of_def\<close>)
next
  case (query_stop i R js j js')
  show ?case
    by (rule relay_inv_slot [OF query_stop.prems]) (use relay_inv_at [OF query_stop.prems query_stop.hyps(1)] in \<open>auto simp: slot_inv_def\<close>)
qed (simp_all add: connect_inv session_inv relay_query_inv after_write_inv after_payment_inv web_inv expire_inv relay_inv_frame)

lemma relay_new_inv: "contents evs \<subseteq> old \<Longrightarrow> relay_inv X s old (relay_new s b evs accs names)"
  by (auto simp: relay_inv_def relay_new_def queue_inv_def writer_new_def known_texts_def)

lemma relay_reachable_inv:
  assumes "(relay_step X s A ord)\<^sup>*\<^sup>* (relay_new s b evs accs names) R"
  shows "relay_inv X s (contents evs) R"
  using assms by (induction rule: rtranclp_induct) (auto intro: relay_new_inv relay_step_inv)

end
