(* ===== verification/Relay_Properties.thy ===== *)
theory Relay_Properties
  imports Relay
begin

text \<open>
  What holds of the running relay (\<open>Relay\<close>) however its tasks interleave: a session runs in it as it does alone, clients only get what
  was admitted, the repository goes through its own operations only, and the books admit nobody unpaid.
\<close>

section \<open>Session runs are relay runs\<close>

text \<open>What a session does on frames from its client it does in the relay, with its submissions queued for the writer.\<close>

lemma session_loop_grows: "session_loop X s adm ci ins st = Done (st', go) \<Longrightarrow> \<exists>sms. se_submitted st' = se_submitted st @ sms"
proof (induction ins arbitrary: st)
  case (Cons p ins)
  obtain E i where p: "p = (E, i)" by force
  with Cons.prems obtain st1 g where st1: "session_step X s adm ci E i st = Done (st1, g)" by (auto split: exec.splits)
  obtain a where "se_submitted st1 = se_submitted st @ a" using session_step_grows [OF st1] by blast
  with Cons p st1 show ?case by (cases g) (fastforce simp: cleanup_def)+
qed simp

lemma frames_run:
  assumes "i < length (rl_slots R)" "sl_live (rl_slots R ! i)"
    "session_loop X s (from_settings X s) (sl_ci (rl_slots R ! i)) (map (\<lambda>fr. (E, WsNext fr)) frs) (sl_st (rl_slots R ! i)) = Done (st, True)"
  shows "\<exists>js envs. (relay_step X s A ord)\<^sup>*\<^sup>* R (R\<lparr>
      rl_slots := (rl_slots R)[i := (rl_slots R ! i)\<lparr>sl_st := st, sl_jobs := js, sl_envs := envs\<rparr>],
      rl_queue := rl_queue R @ map (Pair i) (drop (length (se_submitted (sl_st (rl_slots R ! i)))) (se_submitted st))\<rparr>)"
  using assms
proof (induction frs arbitrary: R)
  case Nil
  let ?sl = "rl_slots R ! i"
  have st: "st = sl_st ?sl" using Nil.prems(3) by simp
  have "R = R\<lparr>rl_slots := (rl_slots R)[i := ?sl\<lparr>sl_st := st, sl_jobs := sl_jobs ?sl, sl_envs := sl_envs ?sl\<rparr>],
      rl_queue := rl_queue R @ map (Pair i) (drop (length (se_submitted (sl_st ?sl))) (se_submitted st))\<rparr>"
    unfolding st by simp
  then show ?case by (metis rtranclp.rtrancl_refl)
next
  case (Cons fr frs)
  let ?sl = "rl_slots R ! i"
  from Cons.prems(3) obtain st1 where st1: "session_step X s (from_settings X s) (sl_ci ?sl) E (WsNext fr) (sl_st ?sl) = Done (st1, True)"
    "session_loop X s (from_settings X s) (sl_ci ?sl) (map (\<lambda>fr. (E, WsNext fr)) frs) st1 = Done (st, True)"
    by (auto split: exec.splits bool.splits)
  let ?sl1 = "?sl\<lparr>sl_st := st1, sl_live := True, sl_envs := sl_envs ?sl @ [E],
    sl_jobs := sl_jobs ?sl @ map job_of (drop (length (se_queries (sl_st ?sl))) (se_queries st1))\<rparr>"
  have "slot_step X s E (WsNext fr) ?sl = Some ?sl1" using st1(1) by (simp add: slot_step_def)
  note go = relay_step.session [OF Cons.prems(1,2) this]
  let ?R = "R\<lparr>rl_slots := (rl_slots R)[i := ?sl1], rl_queue := rl_queue R @ map (Pair i) (new_submissions ?sl ?sl1)\<rparr>"
  have "\<exists>js envs. (relay_step X s A ord)\<^sup>*\<^sup>* ?R (?R\<lparr>rl_slots := (rl_slots ?R)[i := (rl_slots ?R ! i)\<lparr>sl_st := st, sl_jobs := js, sl_envs := envs\<rparr>],
      rl_queue := rl_queue ?R @ map (Pair i) (drop (length (se_submitted (sl_st (rl_slots ?R ! i)))) (se_submitted st))\<rparr>)"
    by (rule Cons.IH) (use Cons.prems st1(2) in simp_all)
  then obtain js envs where tail: "(relay_step X s A ord)\<^sup>*\<^sup>* ?R (?R\<lparr>rl_slots := (rl_slots ?R)[i := (rl_slots ?R ! i)\<lparr>sl_st := st, sl_jobs := js, sl_envs := envs\<rparr>],
      rl_queue := rl_queue ?R @ map (Pair i) (drop (length (se_submitted (sl_st (rl_slots ?R ! i)))) (se_submitted st))\<rparr>)" by blast
  obtain a where a: "se_submitted st1 = se_submitted (sl_st ?sl) @ a" using session_step_grows [OF st1(1)] by blast
  obtain b where b: "se_submitted st = se_submitted st1 @ b" using session_loop_grows [OF st1(2)] by blast
  have live: "?sl\<lparr>sl_live := True\<rparr> = ?sl" by (rule slot.equality) (use Cons.prems(2) in simp_all)
  have e: "?R\<lparr>rl_slots := (rl_slots ?R)[i := (rl_slots ?R ! i)\<lparr>sl_st := st, sl_jobs := js, sl_envs := envs\<rparr>],
      rl_queue := rl_queue ?R @ map (Pair i) (drop (length (se_submitted (sl_st (rl_slots ?R ! i)))) (se_submitted st))\<rparr> =
    R\<lparr>rl_slots := (rl_slots R)[i := ?sl\<lparr>sl_st := st, sl_jobs := js, sl_envs := envs\<rparr>],
      rl_queue := rl_queue R @ map (Pair i) (drop (length (se_submitted (sl_st ?sl))) (se_submitted st))\<rparr>"
    using Cons.prems(1) a b by (simp add: new_submissions_def live)
  show ?case using converse_rtranclp_into_rtranclp [where r = "relay_step X s A ord", OF go tail] unfolding e by blast
qed

section \<open>An example\<close>

text \<open>A client authenticates, asks for gift wraps and publishes one; the writer stores and announces it, and the client's session
  delivers it.\<close>

definition demo_ask :: json where
  "demo_ask = JArray [JString ''REQ'', JString ''some-id'', JObject [(''kinds'', JArray [JNumber (PosInt 1059)])]]"

definition demo_wants :: subscription where
  "demo_wants = \<lparr>sub_id = ''some-id'', sub_filters = [empty_filter\<lparr>rf_kinds := Some [1059]\<rparr>]\<rparr>"

definition demo_frames :: "ws_frame list" where
  "demo_frames = [WsText (demo_text (JArray [JString ''AUTH'', event_to_json demo_auth_event])), WsText (demo_text demo_ask),
     WsText (demo_text (JArray [JString ''EVENT'', event_to_json demo_wrap]))]"

definition demo_relay :: relay where
  "demo_relay = relay_new demo_sess True empty_events demo_accs demo_state"

lemma demo_ask_msg: "convert_to_msg std_ext (demo_text demo_ask) None = Done (Ok (SubMsg demo_wants))"
proof -
  have "de_event_cmd demo_ask = None" by (simp add: demo_ask_def)
  moreover have "de_subscription demo_ask = Done (Ok demo_wants)"
    by (simp add: demo_ask_def demo_wants_def de_subscription_def de_filter_def value_map_def filter_key_def
      empty_filter_def filter_eq_def tags_eq_def)
  ultimately show ?thesis by (simp add: convert_to_msg_def de_nostr_message_def)
qed

lemma demo_ask_subscribe: "subscribe demo_conn demo_wants = (demo_conn\<lparr>subscriptions := [(''some-id'', demo_wants)]\<rparr>, Ok ())"
  by (simp add: subscribe_def Let_def get_id_def demo_wants_def MAX_SUBSCRIPTION_ID_LEN_def demo_conn_def conn_new_def)

lemma demo_frames_session:
  "\<exists>st sm. session_loop std_ext demo_sess (from_settings std_ext demo_sess) demo_ci (map (\<lambda>fr. (demo_sv, WsNext fr)) demo_frames)
       (session_new demo_sess demo_ci ''u'' ''c1'' demo_sv) = Done (st, True) \<and>
     se_conn st = demo_conn\<lparr>subscriptions := [(''some-id'', demo_wants)]\<rparr> \<and> se_submitted st = [sm] \<and> sm_event sm = build_index demo_wrap"
proof -
  let ?e = "build_index demo_wrap"
  have e: "ev_kind ?e = 1059" "ev_tags ?e = ev_tags demo_wrap" by (simp_all, simp add: demo_wrap_def demo_event_def)
  have nexp: "\<not> is_expired n ?e" for n
    by (simp add: is_expired_def expiration_def first_value_def demo_wrap_def demo_event_def)
  have pk: "auth_pubkey (demo_conn\<lparr>subscriptions := subs\<rparr>) = Some (replicate 64 CHR ''a'')" for subs
    by (simp add: auth_pubkey_def demo_conn_def)
  have sub0: "\<not> has_subscription demo_conn demo_wants" "needs_historical_events demo_wants"
    by (simp_all add: has_subscription_def demo_conn_def conn_new_def needs_historical_events_def demo_wants_def empty_filter_def)
  have aw: "event_wrapper_from std_ext \<lparr>ec_cmd = ''AUTH'', ec_event = demo_auth_event\<rparr> = Done (Ok (WrappedAuth demo_auth_event))"
    by (simp add: event_wrapper_from_def)
  have ids: "sub_id demo_wants = ''some-id''" by (simp add: demo_wants_def)
  show ?thesis
    by (simp add: demo_frames_def session_new_def Let_def demo_sv_def demo_ci_def on_frame_def on_text_def demo_ask_msg
        demo_convert aw demo_wrapped on_auth_def demo_auth_step send_notice_def send_client_def nexp on_event_def is_valid_timestamp_def
        demo_admitted [OF e] pk on_subscribe_def sub0 demo_ask_subscribe ids hm_remove_def)
qed

lemma demo_live:
  assumes "se_conn st = demo_conn\<lparr>subscriptions := [(''some-id'', demo_wants)]\<rparr>"
  shows "\<exists>st'. session_step std_ext demo_sess adm ci demo_sv (Broadcast (build_index demo_wrap)) st = Done (st', True) \<and>
    OutEvent ''some-id'' (demo_text (event_to_json demo_wrap)) \<in> set (se_out st')"
proof -
  let ?e = "build_index demo_wrap" and ?t = "demo_text (event_to_json demo_wrap)"
  have t: "event_to_string std_ext ?e = Some ?t"
    by (simp add: event_to_string_def demo_text_def std_json_to_string_def event_to_json_def build_index_def tags_to_canonical_def)
  have "ev_kind ?e = 1059" by (simp, simp add: demo_wrap_def demo_event_def)
  then have i: "interested_in_event demo_wants ?e"
    by (simp add: interested_in_event_def demo_wants_def empty_filter_def any_interested_iff filter_interested_def ids_match_def authors_match_def kind_match_def tag_match_def)
  have "live_messages std_ext demo_sess ?e (se_conn st) (subscriptions (se_conn st)) = [OutEvent ''some-id'' ?t]"
    using t i demo_own_wrap by (simp add: live_messages_def assms strip_quotes_def)
  then show ?thesis by (simp add: deliver_spec Let_def demo_sv_def)
qed

lemma demo_relay_queue:
  "\<exists>R sl sm w es. (relay_step std_ext demo_sess None std_ord)\<^sup>*\<^sup>* demo_relay R \<and> rl_queue R = [(0, sm)] \<and> sm_event sm = build_index demo_wrap \<and>
     writer_step std_ext demo_sess (demo_we None) sm (idle (rl_writer R)) = Done (w, Ok ()) \<and> ws_bcast w = build_index demo_wrap # es \<and>
     rl_up R \<and> rl_own R = [] \<and> rl_slots R = [sl] \<and> sl_live sl \<and> sl_bcasts sl = [] \<and>
     se_conn (sl_st sl) = demo_conn\<lparr>subscriptions := [(''some-id'', demo_wants)]\<rparr>"
proof -
  let ?go = "relay_step std_ext demo_sess None std_ord" and ?e = "build_index demo_wrap"
  let ?sl0 = "slot_new demo_sess demo_ci ''u'' ''c1'' demo_sv"
  let ?R0 = "demo_relay\<lparr>rl_slots := rl_slots demo_relay @ [?sl0]\<rparr>"
  have new: "rl_slots demo_relay = []" "rl_queue demo_relay = []" "rl_own demo_relay = []" "rl_up demo_relay"
    "rl_writer demo_relay = demo_ws demo_sess" "idle (demo_ws demo_sess) = demo_ws demo_sess"
    by (simp_all add: demo_relay_def relay_new_def demo_ws_def idle_def writer_new_def demo_sess_def default_settings_def writer_quota_def)
  have "?go demo_relay ?R0" by (rule relay_step.connect)
  moreover obtain st sm where st: "session_loop std_ext demo_sess (from_settings std_ext demo_sess) demo_ci
      (map (\<lambda>fr. (demo_sv, WsNext fr)) demo_frames) (session_new demo_sess demo_ci ''u'' ''c1'' demo_sv) = Done (st, True)"
    "se_conn st = demo_conn\<lparr>subscriptions := [(''some-id'', demo_wants)]\<rparr>" "se_submitted st = [sm]" "sm_event sm = ?e"
    using demo_frames_session by (elim exE conjE) (rule that)
  moreover obtain js envs where "?go\<^sup>*\<^sup>* ?R0 (?R0\<lparr>rl_slots := [?sl0\<lparr>sl_st := st, sl_jobs := js, sl_envs := envs\<rparr>], rl_queue := [(0, sm)]\<rparr>)"
    using frames_run [of 0 ?R0 std_ext demo_sess demo_sv demo_frames st None std_ord] st(1,3) by (auto simp: new slot_new_def)
  ultimately have run: "?go\<^sup>*\<^sup>* demo_relay (?R0\<lparr>rl_slots := [?sl0\<lparr>sl_st := st, sl_jobs := js, sl_envs := envs\<rparr>], rl_queue := [(0, sm)]\<rparr>)"
    (is "?go\<^sup>*\<^sup>* _ ?R") by (meson converse_rtranclp_into_rtranclp)
  obtain w where w: "writer_step std_ext demo_sess (demo_we None) sm (demo_ws demo_sess) = Done (w, Ok ())"
    "ws_bcast w \<noteq> ws_bcast (demo_ws demo_sess)" using demo_wrap_announced [OF st(4)] by blast
  have "ws_bcast w \<noteq> []" using w(2) by (simp add: demo_ws_def writer_new_def)
  with writer_sends [of std_ext demo_sess "demo_we None" sm "demo_ws demo_sess" w "Ok ()"] w(1) st(4) new(6)
  obtain es where "ws_bcast w = ?e # es" by (cases "ws_bcast w") auto
  then show ?thesis
    by (intro exI [of _ ?R] exI [of _ "?sl0\<lparr>sl_st := st, sl_jobs := js, sl_envs := envs\<rparr>"] exI [of _ sm] exI [of _ w] exI [of _ es])
      (use run w(1) st(2,4) new in \<open>simp add: slot_new_def\<close>)
qed

lemma demo_relay_run:
  "\<exists>R sl. (relay_step std_ext demo_sess None std_ord)\<^sup>*\<^sup>* demo_relay R \<and> sl \<in> set (rl_slots R) \<and> rl_own R = [] \<and>
     OutEvent ''some-id'' (demo_text (event_to_json demo_wrap)) \<in> set (se_out (sl_st sl))"
proof -
  let ?go = "relay_step std_ext demo_sess None std_ord" and ?e = "build_index demo_wrap"
  obtain R sl sm w es where R: "?go\<^sup>*\<^sup>* demo_relay R" "rl_queue R = [(0, sm)]"
    "writer_step std_ext demo_sess (demo_we None) sm (idle (rl_writer R)) = Done (w, Ok ())" "ws_bcast w = ?e # es" "rl_up R" "rl_own R = []"
    "rl_slots R = [sl]" "sl_live sl" "sl_bcasts sl = []" "se_conn (sl_st sl) = demo_conn\<lparr>subscriptions := [(''some-id'', demo_wants)]\<rparr>"
    using demo_relay_queue by (elim exE conjE) (rule that)
  let ?R2 = "after_write 0 w (Ok ()) R"
  have "?go R ?R2" by (rule relay_step.writing [where W = "demo_we None"]) (use R in \<open>simp_all add: demo_we_def\<close>)
  with R(1) have to2: "?go\<^sup>*\<^sup>* demo_relay ?R2" by (rule rtranclp.rtrancl_into_rtrancl)
  let ?sl2 = "rl_slots ?R2 ! 0"
  have sl2: "0 < length (rl_slots ?R2)" "sl_live ?sl2" "sl_st ?sl2 = sl_st sl" "sl_bcasts ?sl2 = ?e # es" "rl_own ?R2 = []"
    by (simp_all add: after_write_def announce_def answer_slot_def hear_def R)
  obtain st' where st': "session_step std_ext demo_sess (from_settings std_ext demo_sess) (sl_ci ?sl2) demo_sv (Broadcast ?e) (sl_st sl) = Done (st', True)"
    "OutEvent ''some-id'' (demo_text (event_to_json demo_wrap)) \<in> set (se_out st')" using demo_live [OF R(10)] by blast
  then obtain sl3 where sl3: "slot_step std_ext demo_sess demo_sv (Broadcast ?e) ?sl2 = Some sl3" "sl_st sl3 = st'"
    using sl2(3,4) by (simp add: slot_step_def)
  from to2 relay_step.session [OF sl2(1,2) sl3(1)]
  have to3: "?go\<^sup>*\<^sup>* demo_relay (?R2\<lparr>rl_slots := (rl_slots ?R2)[0 := sl3], rl_queue := rl_queue ?R2 @ map (Pair 0) (new_submissions ?sl2 sl3)\<rparr>)"
    by (rule rtranclp.rtrancl_into_rtrancl)
  show ?thesis by (rule exI, rule exI [of _ sl3], rule conjI [OF to3]) (use sl2(1,5) sl3(2) st'(2) in \<open>simp add: set_update_memI\<close>)
qed

section \<open>Properties\<close>

lemma slot_submitted:
  assumes "slot_inv X s old es sl" "sm \<in> set (se_submitted (sl_st sl))"
  shows "\<exists>E\<in>set (sl_envs sl). \<exists>a. (\<forall>pk. a = Some pk \<longrightarrow> proved_key X s (sl_challenge sl) (set (sl_envs sl)) pk) \<and>
    admissible X s (from_settings X s) E a (sm_event sm)"
proof -
  have inv: "auth_inv X s (sl_challenge sl) (set (sl_envs sl)) (se_conn (sl_st sl))" and
    ex: "\<exists>E\<in>set (sl_envs sl). \<exists>a. (a = None \<or> auth_pubkey (se_conn (sl_st sl)) = a) \<and> admissible X s (from_settings X s) E a (sm_event sm)"
    using assms by (simp_all add: slot_inv_def client_inv_def)
  have "proved_key X s (sl_challenge sl) (set (sl_envs sl)) pk" if "auth_pubkey (se_conn (sl_st sl)) = Some pk" for pk
    using that inv by (auto simp: auth_inv_def auth_pubkey_def split: nip42_auth_state.splits)
  with ex show ?thesis by blast
qed

lemma queue_admissible:
  assumes "(relay_step X s A ord)\<^sup>*\<^sup>* (relay_new s b evs accs names) R" "rl_queue R = (i, sm) # q"
  shows "\<exists>E a. admissible X s (from_settings X s) E a (sm_event sm)"
proof -
  have inv: "relay_inv X s (contents evs) R" using assms(1) by (rule relay_reachable_inv)
  then have "i < length (rl_slots R)" "sm \<in> set (se_submitted (sl_st (rl_slots R ! i)))"
    using assms(2) by (auto simp: relay_inv_def queue_inv_def submissions_def)
  with slot_submitted [OF relay_inv_at [OF inv]] show ?thesis by blast
qed

lemma slot_private:
  assumes "slot_inv X s old es sl" "OutEvent k str \<in> set (se_out (sl_st sl))" "nip42_dms (s_authorization s)"
    and "event_from_str X str = Some e" "ev_kind e \<in> {4, 44, 1059}"
  shows "\<exists>pk. proved_key X s (sl_challenge sl) (set (sl_envs sl)) pk \<and>
    (pk = ev_pubkey e \<or> (\<exists>more. tag_values_by_name e ''p'' = pk # more))"
proof -
  have inv: "auth_inv X s (sl_challenge sl) (set (sl_envs sl)) (se_conn (sl_st sl))" "allowed_to_send X str (se_conn (sl_st sl)) s"
    using assms(1,2) by (auto simp: slot_inv_def client_inv_def)
  from inv(2) assms(3-5) obtain pk recipient more where
    pk: "auth_pubkey (se_conn (sl_st sl)) = Some pk" "tag_values_by_name e ''p'' = recipient # more" "recipient = pk \<or> ev_pubkey e = pk"
    by (auto simp: allowed_to_send_def split: option.splits list.splits)
  from pk(1) inv(1) have "proved_key X s (sl_challenge sl) (set (sl_envs sl)) pk"
    by (auto simp: auth_inv_def auth_pubkey_def split: nip42_auth_state.splits)
  with pk show ?thesis by blast
qed

text \<open>C2: However the tasks of the running relay interleave, every event that any session sends to its client is one that was
  in the repository before the relay started, a message the relay's own payment task made, or one that a client
  submitted to a session of this run, that passed that session's checks when it arrived (with the key
  that client had proved, if any) and that the settings for kinds and authors let the writer publish.
  With direct-message protection on, a direct message or gift wrap goes only to a session whose client proved the key of its author
  or first recipient, whichever task it came from.\<close>

theorem relay_sends_only_admitted:
  assumes "(relay_step X s A ord)\<^sup>*\<^sup>* (relay_new s b evs accs names) R" "sl \<in> set (rl_slots R)" "OutEvent k str \<in> set (se_out (sl_st sl))"
  shows "(str \<in> contents evs \<or> (\<exists>e. event_to_string X e = Some str \<and> (e \<in> set (rl_own R) \<or> cleared s e \<and>
        (\<exists>sl'\<in>set (rl_slots R). e \<in> sm_event ` set (se_submitted (sl_st sl')) \<and> (\<exists>E\<in>set (sl_envs sl'). \<exists>a.
          (\<forall>pk. a = Some pk \<longrightarrow> proved_key X s (sl_challenge sl') (set (sl_envs sl')) pk) \<and>
          admissible X s (from_settings X s) E a e))))) \<and>
    (\<forall>e. nip42_dms (s_authorization s) \<and> event_from_str X str = Some e \<and> ev_kind e \<in> {4, 44, 1059} \<longrightarrow>
      (\<exists>pk. proved_key X s (sl_challenge sl) (set (sl_envs sl)) pk \<and>
        (pk = ev_pubkey e \<or> (\<exists>more. tag_values_by_name e ''p'' = pk # more))))"
proof -
  have inv: "relay_inv X s (contents evs) R" using assms(1) by (rule relay_reachable_inv)
  then have slots: "slot_inv X s (contents evs) (origins s R) sl'" if "sl' \<in> set (rl_slots R)" for sl'
    using that by (simp add: relay_inv_def)
  have "str \<in> known_texts X (contents evs) (origins s R)"
    using slots [OF assms(2)] assms(3) by (auto simp: slot_inv_def sent_events_def)
  then consider "str \<in> contents evs" | e where "e \<in> origins s R" "event_to_string X e = Some str"
    by (auto simp: known_texts_def text_of_def)
  then have "str \<in> contents evs \<or> (\<exists>e. event_to_string X e = Some str \<and> (e \<in> set (rl_own R) \<or> cleared s e \<and>
        (\<exists>sl'\<in>set (rl_slots R). e \<in> sm_event ` set (se_submitted (sl_st sl')) \<and> (\<exists>E\<in>set (sl_envs sl'). \<exists>a.
          (\<forall>pk. a = Some pk \<longrightarrow> proved_key X s (sl_challenge sl') (set (sl_envs sl')) pk) \<and>
          admissible X s (from_settings X s) E a e))))"
  proof cases
    case 2
    show ?thesis
    proof (cases "e \<in> set (rl_own R)")
      case False
      with 2(1) obtain sl' sm where "cleared s e" "sl' \<in> set (rl_slots R)" "sm \<in> set (se_submitted (sl_st sl'))" "sm_event sm = e"
        by (auto simp: origins_def submissions_def)
      with slot_submitted [OF slots this(3)] 2(2) show ?thesis by blast
    qed (use 2(2) in blast)
  qed simp
  with slot_private [OF slots [OF assms(2)] assms(3)] show ?thesis by blast
qed

theorem relay_sends_only_admitted_witness:
  "\<exists>R sl. (relay_step std_ext demo_sess None std_ord)\<^sup>*\<^sup>* (relay_new demo_sess True empty_events demo_accs demo_state) R \<and> sl \<in> set (rl_slots R) \<and>
     OutEvent ''some-id'' (demo_text (event_to_json demo_wrap)) \<in> set (se_out (sl_st sl)) \<and>
     (\<exists>e sl'. sl' \<in> set (rl_slots R) \<and> cleared demo_sess e \<and> e \<in> sm_event ` set (se_submitted (sl_st sl'))) \<and>
     (\<exists>pk. proved_key std_ext demo_sess (sl_challenge sl) (set (sl_envs sl)) pk \<and>
        (pk = ev_pubkey demo_wrap \<or> (\<exists>more. tag_values_by_name demo_wrap ''p'' = pk # more)))"
proof -
  obtain R sl where R: "(relay_step std_ext demo_sess None std_ord)\<^sup>*\<^sup>* (relay_new demo_sess True empty_events demo_accs demo_state) R"
    "sl \<in> set (rl_slots R)" "rl_own R = []" "OutEvent ''some-id'' (demo_text (event_to_json demo_wrap)) \<in> set (se_out (sl_st sl))"
    using demo_relay_run unfolding demo_relay_def by blast
  note sent = relay_sends_only_admitted [OF R(1,2,4)]
  have "demo_text (event_to_json demo_wrap) \<notin> contents empty_events" by (simp add: contents_def empty_events_def)
  then have "\<exists>e sl'. sl' \<in> set (rl_slots R) \<and> cleared demo_sess e \<and> e \<in> sm_event ` set (se_submitted (sl_st sl'))"
    using conjunct1 [OF sent] R(3) by (auto simp: image_iff)
  moreover have "event_from_str std_ext (demo_text (event_to_json demo_wrap)) = Some demo_wrap" "ev_kind demo_wrap \<in> {4, 44, 1059}"
    by (simp_all add: event_from_str_def de_event_to_json, simp add: demo_wrap_def demo_event_def)
  then have "\<exists>pk. proved_key std_ext demo_sess (sl_challenge sl) (set (sl_envs sl)) pk \<and>
        (pk = ev_pubkey demo_wrap \<or> (\<exists>more. tag_values_by_name demo_wrap ''p'' = pk # more))"
    using conjunct2 [OF sent] demo_sess_sel(3) by blast
  ultimately show ?thesis using R(1,2,4) by blast
qed

section \<open>The repository is only reached through its operations\<close>

text \<open>Between two states of the relay the event tables went through some sequence of repository operations, so what holds of
  such sequences holds of the running relay.\<close>

definition repo_run :: "externals \<Rightarrow> row_order \<Rightarrow> event_db \<Rightarrow> event_db \<Rightarrow> bool" where
  "repo_run X ord db db' \<longleftrightarrow> (\<exists>ps. db' = fold (ev_step X ord) ps db)"

lemma repo_run_refl [simp]: "repo_run X ord db db"
  unfolding repo_run_def by (rule exI [of _ "[]"]) simp

lemma repo_run_trans: "repo_run X ord a b \<Longrightarrow> repo_run X ord b c \<Longrightarrow> repo_run X ord a c"
proof -
  assume "repo_run X ord a b" "repo_run X ord b c"
  then obtain ps qs where "b = fold (ev_step X ord) ps a" "c = fold (ev_step X ord) qs b" unfolding repo_run_def by blast
  then have "c = fold (ev_step X ord) (ps @ qs) a" by simp
  then show ?thesis unfolding repo_run_def by blast
qed

lemma repo_run_step: "db' = ev_step X ord p db \<Longrightarrow> repo_run X ord db db'"
  unfolding repo_run_def by (rule exI [of _ "[p]"]) simp

lemma repo_run_write [simp]: "repo_run X ord db (fst (write_event X ord now pf f e db))"
  by (rule repo_run_step [where p = "WriteEvent now pf f e"]) simp

lemma repo_run_verifs [simp]:
  "repo_run X ord db (fst (create_verification_record X now i n db))"
  "repo_run X ord db (fst (update_verification_timestamp t j db))"
  "repo_run X ord db (fst (fail_verification t j db))"
  "repo_run X ord db (fst (delete_verification j db))"
  by (rule repo_run_step [where p = "CreateVerification now i n"], simp)
    (rule repo_run_step [where p = "UpdateVerification t j"], simp,
     rule repo_run_step [where p = "FailVerification t j"], simp,
     rule repo_run_step [where p = "DeleteVerification j"], simp)

lemma repo_run_verif_update:
  "(\<And>db. repo_run X ord db (fst (op db))) \<Longrightarrow> repo_run X ord (vs_db st) (vs_db (fst (verif_update f op st)))"
  by (simp add: verif_update_cases)

lemma repo_run_expire: "repo_run X ord db (cleanup_expired c db)"
  using repo_run_step [of _ X ord "DeleteExpired (cl_now c)" db] by (simp add: cleanup_expired_def)

lemma repo_run_store_all: "repo_run X ord db (store_all X ord now es db)"
proof (induction es arbitrary: db)
  case (Cons e es)
  from repo_run_trans [OF repo_run_write Cons] show ?case by (simp add: store_all_def)
qed (simp add: store_all_def)

lemma repo_run_new_user:
  assumes "create_new_verified_user X vu E n e st = (v, r)"
  shows "repo_run X (ve_order E) (vs_db st) (vs_db v)"
proof -
  obtain db w where w: "write_event X (ve_order E) (ve_sql_now E) (ve_pool_fault E) (ve_write_fault E) e (vs_db st) = (db, w)" by force
  have c: "repo_run X (ve_order E) (vs_db st) db"
    using repo_run_write [of X "ve_order E" "vs_db st" "ve_sql_now E" "ve_pool_fault E" "ve_write_fault E" e] w by simp
  let ?st1 = "if vu_is_enabled vu then (case w of Ok updated \<Rightarrow> if updated \<noteq> 0 then st\<lparr>vs_db := db, vs_sent := vs_sent st @ [e]\<rparr>
      else st\<lparr>vs_db := db\<rparr> | Err _ \<Rightarrow> st\<lparr>vs_db := db\<rparr>) else st"
  have v: "v = fst (verif_update (ve_fault E AtCreate) (create_verification_record X (ve_sql_now E) (ev_id e) n) ?st1)"
    using assms w by (auto simp: create_new_verified_user_def Let_def split: result.splits if_splits)
  have "repo_run X (ve_order E) (vs_db st) (vs_db ?st1)" using c by (auto split: result.splits)
  then show ?thesis unfolding v by (rule repo_run_trans) (rule repo_run_verif_update, simp)
qed

lemma repo_run_reverify:
  assumes "do_reverify X vu E st = Done (v, r)"
  shows "repo_run X ord (vs_db st) (vs_db v)"
proof -
  have a: "repo_run X ord (vs_db st) (vs_db (fst (apply_reverify X vu E u st)))" for u
    by (auto simp: apply_reverify_def Let_def repo_run_verif_update split: web_status.splits)
  from reverify_result [OF assms] a show ?thesis by auto
qed

lemma repo_run_verifier:
  assumes "verifier_run_internal X vu E m \<lparr>vs_db = db, vs_sent = [], vs_interval = iv\<rparr> = Done (v, r)"
  shows "repo_run X (ve_order E) db (vs_db v)"
proof (cases m)
  case (Metadata e)
  let ?st = "\<lparr>vs_db = db, vs_sent = [], vs_interval = iv\<rparr>"
  from Metadata assms consider "v = ?st" | n where "create_new_verified_user X vu E n e ?st = (v, r)"
    by (auto simp: on_metadata_def Let_def split: option.splits if_splits)
  then show ?thesis
  proof cases
    case 2
    from repo_run_new_user [OF 2] show ?thesis by simp
  qed simp
next
  case Tick
  with assms repo_run_reverify show ?thesis by fastforce
qed (use assms in auto)

lemma repo_run_writer:
  assumes "writer_step X s W sm (idle w0) = Done (w, r)"
  shows "repo_run X (we_order W) (ws_events w0) (ws_events w)"
  using assms
proof (cases rule: writer_step_cases)
  case (drop ns ps c)
  then show ?thesis by (simp add: dropped_def idle_def)
next
  case (publish b a c st1 v)
  obtain db q where d: "write_event X (we_order W) (we_sql_now W) (we_pool_fault W) (we_write_fault W) (sm_event sm) (ws_events w0) = (db, q)" by force
  have "repo_run X (we_order W) (ws_events w0) db"
    using repo_run_write [of X "we_order W" "ws_events w0" "we_sql_now W" "we_pool_fault W" "we_write_fault W" "sm_event sm"] d by simp
  then have "repo_run X (we_order W) (ws_events w0) (ws_events st1)"
    using publish(5) d by (auto simp: publish_def idle_def Let_def split: if_splits result.splits)
  moreover have "ws_events w = ws_events st1"
    using publish(6) by (cases v) (auto simp: charge_def split: if_splits result.splits prod.splits)
  ultimately show ?thesis by simp
qed

theorem relay_step_repo:
  assumes "relay_step X s A ord R R'"
  shows "repo_run X ord (ws_events (rl_writer R)) (ws_events (rl_writer R'))"
  using assms
proof (induction rule: relay_step.induct)
  case (writing R i sm q W w r)
  from repo_run_writer [OF writing.hyps(4)] writing.hyps(3) show ?case by (simp add: after_write_def announce_def answer_slot_def idle_def)
next
  case (verify R iv m ms e E v r)
  from repo_run_verifier [OF verify.hyps(4)] verify.hyps(3) show ?case by (simp add: after_verify_def announce_def set_events_def)
next
  case (web NE WE rq remote R res ms)
  show ?case by (simp add: after_web_def split: web_result.splits exec.splits)
qed (simp_all add: after_payment_def announce_def set_events_def repo_run_store_all repo_run_expire)

lemma relay_run_repo:
  assumes "(relay_step X s A ord)\<^sup>*\<^sup>* R R'"
  shows "repo_run X ord (ws_events (rl_writer R)) (ws_events (rl_writer R'))"
  using assms by (induction rule: rtranclp_induct) (auto intro: repo_run_trans relay_step_repo)

section \<open>The books\<close>

text \<open>A key is paid for when the payment processor reported an invoice of it paid. Along the changes below, invoices stay in the books
  with their keys, and a key is admitted only when it is paid for.\<close>

definition paid_for :: "externals \<Rightarrow> (string \<Rightarrow> bool) \<Rightarrow> account_db \<Rightarrow> string \<Rightarrow> bool" where
  "paid_for X P db q \<longleftrightarrow> (\<exists>h row. P h \<and> find_invoice db h = Some row \<and> (inv_pubkey row = q \<or> pk_from_str X (inv_pubkey row) = Some q))"

definition keeps_books :: "externals \<Rightarrow> (string \<Rightarrow> bool) \<Rightarrow> account_db \<Rightarrow> account_db \<Rightarrow> bool" where
  "keeps_books X P db db' \<longleftrightarrow> (acc_inv db \<longrightarrow> acc_inv db' \<and>
     (\<forall>h row. find_invoice db h = Some row \<longrightarrow> (\<exists>row'. find_invoice db' h = Some row' \<and> inv_pubkey row' = inv_pubkey row)) \<and>
     (\<forall>q. is_admitted db' q \<longrightarrow> is_admitted db q \<or> paid_for X P db' q))"

lemma keeps_books_refl [simp]: "keeps_books X P db db"
  by (simp add: keeps_books_def)

lemma paid_for_later:
  assumes "paid_for X P db q" "keeps_books X P db db'" "acc_inv db"
  shows "paid_for X P db' q"
proof -
  obtain h row where h: "P h" "find_invoice db h = Some row" "inv_pubkey row = q \<or> pk_from_str X (inv_pubkey row) = Some q"
    using assms(1) unfolding paid_for_def by blast
  moreover obtain row' where "find_invoice db' h = Some row'" "inv_pubkey row' = inv_pubkey row"
    using assms(2,3) h(2) unfolding keeps_books_def by blast
  ultimately show ?thesis unfolding paid_for_def by metis
qed

lemma keeps_books_trans:
  assumes a: "keeps_books X P db db1" and b: "keeps_books X P db1 db2"
  shows "keeps_books X P db db2"
  unfolding keeps_books_def
proof (intro impI conjI allI)
  assume i: "acc_inv db"
  then have i1: "acc_inv db1" using a by (simp add: keeps_books_def)
  then show "acc_inv db2" using b by (simp add: keeps_books_def)
  show "\<exists>row'. find_invoice db2 h = Some row' \<and> inv_pubkey row' = inv_pubkey row" if "find_invoice db h = Some row" for h row
    using that a b i i1 unfolding keeps_books_def by metis
  show "is_admitted db q \<or> paid_for X P db2 q" if "is_admitted db2 q" for q
    using that a b i i1 paid_for_later [OF _ b i1, of q] unfolding keeps_books_def by blast
qed

lemma keeps_books_weaken:
  assumes "keeps_books X P db db'" "\<And>h. P h \<Longrightarrow> Q h"
  shows "keeps_books X Q db db'"
proof -
  have "paid_for X P db' q \<Longrightarrow> paid_for X Q db' q" for q using assms(2) unfolding paid_for_def by blast
  with assms(1) show ?thesis unfolding keeps_books_def by blast
qed

lemma invoice_stays:
  assumes "find_invoice db h = Some row"
  shows "\<exists>row'. find_invoice (acc_step X p db) h = Some row' \<and> inv_pubkey row' = inv_pubkey row"
proof (cases p)
  case (UpdateInvoice now k st)
  have "\<exists>row'. find_invoice (set_status now k st db) h = Some row' \<and> inv_pubkey row' = inv_pubkey row"
    using assms find_invoice_Some [OF assms] unfolding find_invoice_def set_status_def by (simp add: find_map)
  then show ?thesis using UpdateInvoice assms
    by (auto simp: update_invoice_def Let_def find_invoice_def map_account_def split: option.splits)
next
  case (CreateInvoice now pk info)
  have "List.find Q xs = Some row \<Longrightarrow> List.find Q (xs @ ys) = Some row" for Q xs ys by (induction xs) auto
  with CreateInvoice assms show ?thesis
    by (auto simp: create_invoice_record_def find_invoice_def split: result.splits)
qed (use assms in \<open>auto simp: find_invoice_def create_account_def admit_account_def update_account_balance_def map_account_def split: result.splits\<close>)

lemma keeps_books_step:
  assumes "\<And>q. admits p q \<Longrightarrow> paid_for X P db q"
  shows "keeps_books X P db (acc_step X p db)"
  unfolding keeps_books_def
proof (intro impI conjI allI)
  assume "acc_inv db"
  then show "acc_inv (acc_step X p db)" by (rule acc_step_inv)
next
  fix q assume "is_admitted (acc_step X p db) q"
  then have "is_admitted db q \<or> admits p q" by (auto simp: led.admitted_step)
  moreover have "paid_for X P (acc_step X p db) q" if "paid_for X P db q"
    using that invoice_stays unfolding paid_for_def by metis
  ultimately show "is_admitted db q \<or> paid_for X P (acc_step X p db) q" using assms by blast
qed (rule invoice_stays)

lemma keeps_books_calls [simp]:
  "keeps_books X P db (fst (create_account pk db))"
  "keeps_books X P db (fst (update_account_balance X pk b n db))"
  "keeps_books X P db (fst (create_invoice_record now pk info db))"
  "keeps_books X P db (fst (update_invoice X now h st db))"
  using keeps_books_step [of "CreateAccount pk" X P db] keeps_books_step [of "UpdateBalance pk b n" X P db]
    keeps_books_step [of "CreateInvoice now pk info" X P db] keeps_books_step [of "UpdateInvoice now h st" X P db] by simp_all

lemma keeps_books_admit: "paid_for X P db pk \<Longrightarrow> keeps_books X P db (fst (admit_account X now pk c db))"
  using keeps_books_step [of "AdmitAccount now pk c" X P db] by simp

lemma keeps_books_try: "try_call f r db = (db', x) \<Longrightarrow> keeps_books X P db (fst r) \<Longrightarrow> keeps_books X P db db'"
  by (auto simp: try_call_def split: option.splits)

lemma keeps_books_try_fst: "keeps_books X P db (fst r) \<Longrightarrow> keeps_books X P db (fst (try_call f r db))"
  by (simp add: try_call_fst)

lemma keeps_books_check: "keeps_books X P db (fst (check_invoice_status X E h db))"
proof (cases "pe_check_invoice E h")
  case (Ok st)
  have "fst (check_invoice_status X E h db) = fst (try_call (pe_fault E AtCheckUpdate) (update_invoice X (pe_sql_now E) h st db) db)"
    using Ok by (simp add: check_invoice_status_def split: prod.splits result.splits)
  then show ?thesis by (simp add: keeps_books_try_fst)
qed (simp add: check_invoice_status_def)

lemma keeps_books_request: "keeps_books X P (ps_repo st) (ps_repo (fst (request_invoice X E s pk key amount st)))"
proof (cases "pe_get_invoice E key amount")
  case (Ok info)
  let ?d = "try_call (pe_fault E AtCreateInvoice) (create_invoice_record (pe_sql_now E) key info (ps_repo st)) (ps_repo st)"
  have "ps_repo (fst (request_invoice X E s pk key amount st)) = fst ?d"
    using Ok send_admission_repo [of X E s pk info "st\<lparr>ps_repo := fst ?d\<rparr>"]
    by (auto simp: request_invoice_def split: prod.splits result.splits)
  then show ?thesis by (simp add: keeps_books_try_fst)
qed (simp add: request_invoice_def)

lemma keeps_books_invoice: "keeps_books X P (ps_repo st) (ps_repo (fst (get_invoice_info X E s pk amount st)))"
proof (cases "keys_of X pk")
  case (Ok key)
  obtain db r where c: "try_call (pe_fault E AtCreateAccount) (create_account key (ps_repo st)) (ps_repo st) = (db, r)" by force
  have d: "keeps_books X P (ps_repo st) db" by (rule keeps_books_try [OF c]) simp
  have "keeps_books X P db (ps_repo (fst (request_invoice X E s pk key amount (st\<lparr>ps_repo := db\<rparr>))))"
    using keeps_books_request [of X P "st\<lparr>ps_repo := db\<rparr>"] by simp
  with d show ?thesis using Ok c
    by (auto simp: get_invoice_info_def keeps_books_trans split: result.splits option.splits)
qed (simp add: get_invoice_info_def)

text \<open>The row that a successful update found pays for its key.\<close>

lemma paid_row:
  assumes "update_invoice X now h st db = (db', Ok pk)" "P h" "pk = q \<or> pk_from_str X pk = Some q"
  shows "paid_for X P db' q"
  using find_update_invoice [OF assms(1)] assms(2,3) unfolding paid_for_def by blast

lemma paid_unpaid:
  assumes "get_unpaid_invoice q db = Ok (Some info)" "acc_inv db" "P (ii_payment_hash info)"
    and "update_invoice X now (ii_payment_hash info) st db = (db', Ok pk)"
  shows "paid_for X P db' q"
proof -
  obtain row where "find_invoice db (ii_payment_hash info) = Some row" "inv_pubkey row = pk"
    using update_invoice_Ok [OF assms(4)] by blast
  with unpaid_invoice_row [OF assms(1,2)] show ?thesis using paid_row [where P = P, OF assms(4,3)] by blast
qed

lemma keeps_books_admit_try:
  "try_call f (admit_account X now pk c db) db = (db', x) \<Longrightarrow> paid_for X P db pk \<Longrightarrow> keeps_books X P db db'"
  by (erule keeps_books_try) (rule keeps_books_admit)

lemma keeps_books_inv: "(acc_inv db \<Longrightarrow> keeps_books X P db db') \<Longrightarrow> keeps_books X P db db'"
  unfolding keeps_books_def by blast

lemma keeps_books_check_account:
  assumes "run_internal X E s (CheckAccount pk) st = (st', r)" "acc_inv (ps_repo st)"
  shows "keeps_books X (\<lambda>h. pe_check_invoice E h = Ok Paid) (ps_repo st) (ps_repo st')" (is "keeps_books X ?P _ _")
proof (cases "keys_of X pk")
  case (Ok keys)
  let ?i = "if pe_fault E AtUnpaid = None then get_unpaid_invoice keys (ps_repo st) else Ok None"
  show ?thesis
  proof (cases "\<exists>info. ?i = Ok (Some info)")
    case True
    then obtain info where i: "?i = Ok (Some info)" by blast
    then have g: "get_unpaid_invoice keys (ps_repo st) = Ok (Some info)" by (simp split: if_splits)
    obtain db x where c: "check_invoice_status X E (ii_payment_hash info) (ps_repo st) = (db, x)" by force
    have k: "keeps_books X ?P (ps_repo st) db" using keeps_books_check [of X ?P "ps_repo st" E "ii_payment_hash info"] c by simp
    obtain db2 y where a: "try_call (pe_fault E AtAdmit) (admit_account X (pe_sql_now E) keys (admission_cost (s_pay_to_relay s)) db) db = (db2, y)"
      by force
    have "keeps_books X ?P db db2" if "x = Ok Paid"
    proof -
      have ok: "pe_check_invoice E (ii_payment_hash info) = Ok Paid"
        "\<exists>pk. update_invoice X (pe_sql_now E) (ii_payment_hash info) Paid (ps_repo st) = (db, Ok pk)"
        using check_status_Ok c that by blast+
      then have "paid_for X ?P db keys" using paid_unpaid [where P = ?P, OF g assms(2)] by blast
      with a show ?thesis by (rule keeps_books_admit_try)
    qed
    moreover have "ps_repo st' = (if x = Ok Paid then db2 else db)"
      using assms(1) Ok i c a by (auto simp: send_msg_def split: result.splits invoice_status.splits)
    ultimately show ?thesis using k keeps_books_trans by auto
  next
    case False
    have "ps_repo st' = ps_repo (fst (get_invoice_info X E s pk (admission_cost (s_pay_to_relay s)) st))"
      using assms(1) Ok False by (auto simp: send_msg_def split: result.splits prod.splits option.splits if_splits)
    then show ?thesis by (simp add: keeps_books_invoice)
  qed
qed (use assms(1) in auto)

lemma keeps_books_invoice_paid:
  assumes "run_internal X E s (InvoicePaid h) st = (st', r)"
  shows "keeps_books X (\<lambda>h. pe_check_invoice E h = Ok Paid) (ps_repo st) (ps_repo st')" (is "keeps_books X ?P _ _")
proof -
  obtain db x where c: "check_invoice_status X E h (ps_repo st) = (db, x)" by force
  have k: "keeps_books X ?P (ps_repo st) db" using keeps_books_check [of X ?P "ps_repo st" E h] c by simp
  obtain db2 y where u: "try_call (pe_fault E AtPaidUpdate) (update_invoice X (pe_sql_now E) h Paid db) db = (db2, y)" by force
  have k2: "keeps_books X ?P db db2" by (rule keeps_books_try [OF u]) simp
  show ?thesis
  proof (cases "x = Ok Paid \<and> (\<exists>pk key. y = Ok pk \<and> keys_of X pk = Ok key)")
    case True
    then obtain pk key where y: "x = Ok Paid" "y = Ok pk" "keys_of X pk = Ok key" by blast
    obtain db3 z where a: "try_call (pe_fault E AtAdmit) (admit_account X (pe_sql_now E) key (admission_cost (s_pay_to_relay s)) db2) db2 = (db3, z)"
      by force
    have "pe_check_invoice E h = Ok Paid" using check_status_Ok c y(1) by blast
    moreover have "update_invoice X (pe_sql_now E) h Paid db = (db2, Ok pk)" using u y(2) by (simp add: try_call_Ok)
    moreover have "pk_from_str X pk = Some key" using y(3) by (auto simp: keys_of_def split: option.splits)
    ultimately have "paid_for X ?P db2 key" using paid_row [where P = ?P] by blast
    with a have "keeps_books X ?P db2 db3" by (rule keeps_books_admit_try)
    moreover have "ps_repo st' = db3" using assms c u y a by (auto split: result.splits)
    ultimately show ?thesis using k k2 by (blast intro: keeps_books_trans)
  next
    case False
    then have "ps_repo st' = db \<or> ps_repo st' = db2" using assms c u by (auto split: result.splits if_splits prod.splits)
    then show ?thesis using k k2 by (auto intro: keeps_books_trans)
  qed
qed

lemma keeps_books_run:
  assumes "run_internal X E s m st = (st', r)"
  shows "keeps_books X (\<lambda>h. pe_check_invoice E h = Ok Paid) (ps_repo st) (ps_repo st')"
proof (cases m)
  case (NewAccount pk)
  have "ps_repo st' = ps_repo (fst (get_invoice_info X E s pk (admission_cost (s_pay_to_relay s)) st))"
    using assms NewAccount by (auto simp: send_msg_def split: prod.splits result.splits)
  then show ?thesis by (simp add: keeps_books_invoice)
next
  case (CheckAccount pk)
  show ?thesis by (rule keeps_books_inv, rule keeps_books_check_account) (use assms CheckAccount in auto)
next
  case (InvoicePaid h)
  show ?thesis by (rule keeps_books_invoice_paid) (use assms InvoicePaid in auto)
qed (use assms in auto)

lemma keeps_books_new_invoice: "keeps_books X P db (fst (new_invoice E keys g p db))"
proof (cases "e_get_invoice E keys p")
  case (Ok info)
  have "fst (new_invoice E keys g p db) = fst (try_call (e_repo_fault E CreateInv) (create_invoice_record (e_sql_now E) keys info db) db)"
    using Ok by (simp add: new_invoice_def split: prod.splits result.splits)
  then show ?thesis by (simp add: keeps_books_try_fst)
qed (simp add: new_invoice_def)

lemma keeps_books_outstanding:
  assumes "get_unpaid_invoice keys db = Ok (Some info)" "acc_inv db"
  shows "keeps_books X (\<lambda>h. e_check_invoice E h = Ok Paid) db (fst (gate_outstanding X E keys g p info db))"
    (is "keeps_books X ?P _ _")
proof (cases "e_check_invoice E (ii_payment_hash info)")
  case (Ok st)
  let ?u = "\<lambda>st. try_call (e_repo_fault E UpdInvoice) (update_invoice X (e_sql_now E) (ii_payment_hash info) st db) db"
  show ?thesis
  proof (cases st)
    case Paid
    obtain db1 y where u: "?u Paid = (db1, y)" by force
    have k: "keeps_books X ?P db db1" by (rule keeps_books_try [OF u]) simp
    obtain db2 z where a: "try_call (e_repo_fault E Admit) (admit_account X (e_sql_now E) keys p db1) db1 = (db2, z)" by force
    have "keeps_books X ?P db1 db2" if y: "y = Ok pk" for pk
    proof -
      have "update_invoice X (e_sql_now E) (ii_payment_hash info) Paid db = (db1, Ok pk)" using u y by (simp add: try_call_Ok)
      then have "paid_for X ?P db1 keys" using paid_unpaid [where P = ?P, OF assms] Ok Paid by blast
      with a show ?thesis by (rule keeps_books_admit_try)
    qed
    moreover have "fst (gate_outstanding X E keys g p info db) = (case y of Ok _ \<Rightarrow> db2 | Err _ \<Rightarrow> db1)"
      using Ok Paid u a by (auto simp: gate_outstanding_def split: result.splits)
    ultimately show ?thesis using k keeps_books_trans by (cases y) auto
  next
    case Expired
    have "keeps_books X ?P db (fst (?u Expired))" by (simp add: keeps_books_try_fst)
    from keeps_books_trans [OF this keeps_books_new_invoice] Ok Expired show ?thesis by (simp add: gate_outstanding_def Let_def)
  qed (use Ok in \<open>simp add: gate_outstanding_def\<close>)
qed (simp add: gate_outstanding_def)

lemma keeps_books_gate: "keeps_books X (\<lambda>h. e_check_invoice E h = Ok Paid) db (fst (paid_gate X A E pk db))" (is "keeps_books X ?P _ _")
proof (rule keeps_books_inv)
  assume inv: "acc_inv db"
  show ?thesis
  proof (cases "au_paid A")
    case (PaidNames p g)
    show ?thesis
    proof (cases "pk_from_str X pk")
      case (Some keys)
      show ?thesis
      proof (cases "e_repo_fault E GetBalance = None \<and> ok (map_ok fst (get_account_balance keys db)) = Some True")
        case False
        from PaidNames Some False refl refl show ?thesis
        proof (cases rule: paid_gate_shut [where X = X and A = A and E = E and pk = pk and db = db])
          case (outstanding info)
          then have "get_unpaid_invoice keys db = Ok (Some info)" by (simp split: if_splits)
          from keeps_books_outstanding [OF this inv] outstanding(2) show ?thesis by simp
        next
          case fresh
          have "keeps_books X ?P db (fst (try_call (e_repo_fault E CreateAcc) (create_account keys db) db))"
            by (simp add: keeps_books_try_fst)
          from keeps_books_trans [OF this keeps_books_new_invoice] fresh show ?thesis by simp
        qed
      qed (use PaidNames Some in \<open>auto simp: paid_gate_def\<close>)
    qed (use PaidNames in \<open>simp add: paid_gate_def\<close>)
  qed (simp add: paid_gate_def)
qed

text \<open>Of the endpoints of the name authority only the registration touches the books, in its paid gate.\<close>

lemma register_body_books:
  "register_body X A E key body st = Done (st', r) \<Longrightarrow> st_repo st' = st_repo st \<or> (\<exists>pk. st_repo st' = fst (paid_gate X A E pk (st_repo st)))"
  unfolding register_body_def Let_def
  by (auto split: option.splits exec.splits bool.splits if_splits prod.splits) (metis fst_conv)+

lemma register_books:
  assumes "register X A E rq addr st = Done (st', r)"
  shows "st_repo st' = st_repo st \<or> (\<exists>pk. st_repo st' = fst (paid_gate X A E pk (st_repo st)))"
proof -
  obtain st1 x where pre: "register_pre X A E rq addr st = Done (st1, x)" "st_repo st' = st_repo st1"
    using assms unfolding register_def register_commit_def
    by (auto split: exec.splits sum.splits prod.splits dest!: arg_cong [of _ "(st', r)" fst])
  then show ?thesis unfolding register_pre_def Let_def
    by (auto split: option.splits bool.splits if_splits prod.splits result.splits dest!: register_body_books)
qed

lemma keeps_books_handle:
  assumes "handle X A E rq remote st = Done (st', r)"
  shows "keeps_books X (\<lambda>h. e_check_invoice E h = Ok Paid) (st_repo st) (st_repo st')"
proof -
  have u: "st_repo (fst (unregister X A E n rq addr st)) = st_repo st" for n addr
    by (simp add: unregister_def Let_def split: prod.splits bool.splits option.splits result.splits)
  have "st_repo st' = st_repo st \<or> (\<exists>pk. st_repo st' = fst (paid_gate X A E pk (st_repo st)))"
  proof (cases "rq_method rq = ''POST'' \<or> rq_method rq = ''DELETE''")
    case True
    then show ?thesis using assms register_books unfolding handle_def Let_def
      by (auto split: if_splits dest!: arg_cong [of _ "(st', r)" fst] simp: u)
  next
    case False
    then show ?thesis using handle_read [OF assms] by auto
  qed
  then show ?thesis using keeps_books_gate by auto
qed

lemma keeps_books_writer:
  assumes "writer_step X s W sm st = Done (st', r)"
  shows "keeps_books X P (ws_accounts st) (ws_accounts st')"
  using assms
proof (cases rule: writer_step_cases)
  case (drop ns ps c)
  then show ?thesis by (simp add: dropped_def)
next
  case (publish b a c st1 v)
  have "ws_accounts st1 = ws_accounts st" using publish(5) by (auto simp: publish_def Let_def split: if_splits result.splits prod.splits)
  moreover have "keeps_books X P (ws_accounts st1) (ws_accounts (fst (charge X s W e n st1)))" for e n
    by (auto simp: charge_def keeps_books_try_fst split: result.splits prod.splits dest!: keeps_books_try [where X = X and P = P])
  ultimately show ?thesis using publish(6) by (cases v) (metis fst_conv, simp)
qed

section \<open>The running relay keeps its books\<close>

definition reported_paid :: "relay \<Rightarrow> string \<Rightarrow> bool" where
  "reported_paid R h \<longleftrightarrow> (\<exists>c\<in>set (rl_checks R). c h = Ok Paid)"

lemma web_authority:
  assumes "handle_web_request X s au WE rq remote st = Done (Authority x, ms)"
  shows "\<exists>a NE. au = Some (a, NE) \<and> x = handle X a NE rq remote st"
proof (cases "if is_authority_path (rq_path rq) then au else None")
  case None
  then show ?thesis using assms unfolding handle_web_request_def Let_def
    by (auto split: if_splits prod.splits exec.splits option.splits simp: websocket_def)
next
  case (Some p)
  obtain a NE where p: "p = (a, NE)" by force
  then show ?thesis using assms Some by (auto simp: handle_web_request_def Let_def split: if_splits)
qed

lemma keeps_books_web:
  assumes "handle_web_request X s au WE rq remote ((rl_names R)\<lparr>st_repo := ws_accounts (rl_writer R)\<rparr>) = Done (res, ms)"
    "au = map_option (\<lambda>a. (a, NE)) A"
  shows "keeps_books X (reported_paid (after_web (e_check_invoice NE) res ms R)) (ws_accounts (rl_writer R))
    (ws_accounts (rl_writer (after_web (e_check_invoice NE) res ms R)))"
proof (cases "\<exists>st r. res = Authority (Done (st, r))")
  case True
  then obtain st r where res: "res = Authority (Done (st, r))" by blast
  obtain a where "handle X a NE rq remote ((rl_names R)\<lparr>st_repo := ws_accounts (rl_writer R)\<rparr>) = Done (st, r)"
    using assms web_authority [OF assms(1) [unfolded res]] by auto
  from keeps_books_handle [OF this] have "keeps_books X (\<lambda>h. e_check_invoice NE h = Ok Paid) (ws_accounts (rl_writer R)) (st_repo st)" by simp
  then have "keeps_books X (reported_paid (after_web (e_check_invoice NE) res ms R)) (ws_accounts (rl_writer R)) (st_repo st)"
    by (rule keeps_books_weaken) (simp add: reported_paid_def after_web_def res)
  then show ?thesis by (simp add: after_web_def res)
next
  case False
  then have "ws_accounts (rl_writer (after_web (e_check_invoice NE) res ms R)) = ws_accounts (rl_writer R)"
    by (auto simp: after_web_def split: web_result.splits exec.splits)
  then show ?thesis by simp
qed

theorem relay_step_books:
  assumes "relay_step X s A ord R R'"
  shows "keeps_books X (reported_paid R') (ws_accounts (rl_writer R)) (ws_accounts (rl_writer R')) \<and>
    set (rl_checks R) \<subseteq> set (rl_checks R')"
  using assms
proof (induction rule: relay_step.induct)
  case (writing R i sm q W w r)
  have "keeps_books X P (ws_accounts (rl_writer R)) (ws_accounts w)" for P
    using keeps_books_writer [OF writing.hyps(4)] by (simp add: idle_def)
  then show ?case by (simp add: after_write_def announce_def answer_slot_def idle_def)
next
  case (pay R m ms E p r)
  have "keeps_books X (\<lambda>h. pe_check_invoice E h = Ok Paid) (ws_accounts (rl_writer R)) (ps_repo p)"
    using keeps_books_run [OF pay.hyps(3)] by simp
  then have "keeps_books X (reported_paid (after_payment X ord E p R)) (ws_accounts (rl_writer R)) (ps_repo p)"
    by (rule keeps_books_weaken) (simp add: reported_paid_def after_payment_def announce_def)
  then show ?case by (auto simp: after_payment_def announce_def)
next
  case (web NE WE rq remote R res ms)
  have "set (rl_checks R) \<subseteq> set (rl_checks (after_web (e_check_invoice NE) res ms R))"
    by (auto simp: after_web_def split: web_result.splits exec.splits)
  with keeps_books_web [OF web.hyps refl] show ?case by simp
qed (simp_all add: after_verify_def announce_def set_events_def)

lemma relay_run_books:
  assumes "(relay_step X s A ord)\<^sup>*\<^sup>* R R'"
  shows "keeps_books X (reported_paid R') (ws_accounts (rl_writer R)) (ws_accounts (rl_writer R'))"
  using assms
proof (induction rule: rtranclp_induct)
  case (step R1 R2)
  note s = relay_step_books [OF step.hyps(2)]
  have "keeps_books X (reported_paid R2) (ws_accounts (rl_writer R)) (ws_accounts (rl_writer R1))"
    using step.IH by (rule keeps_books_weaken) (use s in \<open>auto simp: reported_paid_def\<close>)
  with s show ?case by (blast intro: keeps_books_trans)
qed simp

text \<open>C3: Nobody is admitted unpaid in the running relay. However sessions, the writer, the payment task, the web front end with its
  callbacks and the paid name authority interleave, the account and invoice tables keep their invariant, and a key
  that is admitted and was not at the start has an invoice in the books that the payment processor reported paid to one of the tasks.\<close>

theorem relay_admits_only_paid:
  assumes "(relay_step X s A ord)\<^sup>*\<^sup>* (relay_new s b evs accs names) R" "acc_inv accs"
  shows "acc_inv (ws_accounts (rl_writer R)) \<and> (\<forall>q. is_admitted (ws_accounts (rl_writer R)) q \<longrightarrow> is_admitted accs q \<or>
    (\<exists>check\<in>set (rl_checks R). \<exists>h row. check h = Ok Paid \<and> find_invoice (ws_accounts (rl_writer R)) h = Some row \<and>
       (inv_pubkey row = q \<or> pk_from_str X (inv_pubkey row) = Some q)))"
proof -
  have "keeps_books X (reported_paid R) accs (ws_accounts (rl_writer R))"
    using relay_run_books [OF assms(1)] by (simp add: relay_new_def writer_new_def)
  with assms(2) show ?thesis unfolding keeps_books_def paid_for_def reported_paid_def by blast
qed

definition paid_sess :: settings where
  "paid_sess = default_settings\<lparr>s_pay_to_relay := (s_pay_to_relay default_settings)\<lparr>ptr_enabled := True\<rparr>\<rparr>"

text \<open>A callback of the payment server for a paid invoice reaches the payment task and admits its key.\<close>

lemma demo_paid_run:
  "\<exists>R. (relay_step hook_ext paid_sess None std_ord)\<^sup>*\<^sup>* (relay_new paid_sess True empty_events (ps_repo pay_demo_state) demo_state) R \<and>
     is_admitted (ws_accounts (rl_writer R)) (replicate 64 CHR ''a'')"
proof -
  let ?go = "relay_step hook_ext paid_sess None std_ord" and ?rq = "demo_rq ''/goblinpay'' ''hook''"
  let ?R0 = "relay_new paid_sess True empty_events (ps_repo pay_demo_state) demo_state"
  have rq: "rq_path ?rq = ''/goblinpay''" "rq_headers ?rq ''upgrade'' = None" "rq_body ?rq = Some ''hook''" by (simp_all add: demo_rq_def)
  have w: "handle_web_request hook_ext paid_sess (map_option (\<lambda>a. (a, NE)) None) demo_wv ?rq ''::1''
      ((rl_names ?R0)\<lparr>st_repo := ws_accounts (rl_writer ?R0)\<rparr>) = Done (Answer (answer 200 [] (Plain ''ok'')), [InvoicePaid ''h''])" for NE
    unfolding web_goblinpay [OF rq(1,2)]
    by (simp add: goblinpay_webhook_def rq demo_wv_def webhook_id_def hook_ext_def value_get_def value_map_def)
  let ?R1 = "?R0\<lparr>rl_messages := [InvoicePaid ''h'']\<rparr>"
  have one: "?go ?R0 ?R1" using relay_step.web [OF w] by (simp add: after_web_def relay_new_def)
  have cost: "admission_cost (s_pay_to_relay paid_sess) = 4200" using pay_demo_facts(3) by (simp add: paid_sess_def)
  have f: "\<And>c. pe_fault hook_env c = None" by (simp add: hook_env_def pay_demo_def)
  obtain p where p: "run_internal hook_ext hook_env paid_sess (InvoicePaid ''h'') pay_demo_state = (p, Ok ())"
    "find_account (ps_repo p) (replicate 64 CHR ''a'') = Some (hd (accounts (ps_repo pay_demo_state))\<lparr>acc_admitted := True,
       acc_tos_accepted_at := Some (pe_sql_now hook_env), acc_balance := IntCol 0\<rparr>)"
    using paid_callback [OF hook_paid f pay_demo_facts(4) _ pay_demo_facts(9), of paid_sess hook_ext
        "hd (accounts (ps_repo pay_demo_state))" 0 4200] by (auto simp: pay_demo_facts hook_ext_def cost)
  have st: "\<lparr>ps_repo = ws_accounts (rl_writer ?R1), ps_sent = [], ps_stored = [], ps_broadcast = []\<rparr> = pay_demo_state"
    by (simp add: relay_new_def writer_new_def pay_demo_state_def)
  have "?go ?R1 (after_payment hook_ext std_ord hook_env p ?R1)"
    by (rule relay_step.pay [of paid_sess _ "InvoicePaid ''h''" "[]"]) (use p(1) st in \<open>simp_all add: paid_sess_def\<close>)
  with one have "?go\<^sup>*\<^sup>* ?R0 (after_payment hook_ext std_ord hook_env p ?R1)" by simp
  moreover have "is_admitted (ps_repo p) (replicate 64 CHR ''a'')"
    using p(2) by (auto simp: is_admitted_def dest!: find_account_Some)
  ultimately show ?thesis by (intro exI conjI) (assumption, simp add: after_payment_def announce_def)
qed

theorem relay_admits_only_paid_witness:
  "\<exists>R. (relay_step hook_ext paid_sess None std_ord)\<^sup>*\<^sup>* (relay_new paid_sess True empty_events (ps_repo pay_demo_state) demo_state) R \<and>
     is_admitted (ws_accounts (rl_writer R)) (replicate 64 CHR ''a'') \<and> \<not> is_admitted (ps_repo pay_demo_state) (replicate 64 CHR ''a'') \<and>
     (\<exists>check\<in>set (rl_checks R). \<exists>h. check h = Ok Paid)"
proof -
  obtain R where "(relay_step hook_ext paid_sess None std_ord)\<^sup>*\<^sup>* (relay_new paid_sess True empty_events (ps_repo pay_demo_state) demo_state) R"
    "is_admitted (ws_accounts (rl_writer R)) (replicate 64 CHR ''a'')" using demo_paid_run by blast
  with relay_admits_only_paid [OF this(1) pay_demo_facts(16)] pay_demo_facts(15) show ?thesis by blast
qed

end
