(* ===== verification/Pg_Query.thy ===== *)
theory Pg_Query
  imports Pg_Store Query_Properties
begin

text \<open>
  Queries of the PostgreSQL repository (\<^verbatim>\<open>src/src/repo/postgres.rs\<close>: \<^verbatim>\<open>query_from_filter\<close>, \<^verbatim>\<open>query_subscription\<close>). A
  statement is a value \<open>pg_stmt\<close>: the joins with the tag table, the conditions, the order and the limit. It is
  rendered to the text with numbered parameters that the source builds, and evaluated on the tables as SQL does, where
  a join yields one row per combination of matching tags. The values of an OR condition come from a
  hash set; their order has no influence on the rows, and the model uses the sorted one.
\<close>

section \<open>Statements\<close>

datatype pg_join =
    PgJoinIn rchar "string list" "string option list" bool
  | PgJoinValue rchar string
  | PgJoinHex rchar "string option"

datatype pg_cond =
    PgAuthors "string option list"
  | PgKinds "int list"
  | PgIds "string option list"
  | PgSince int
  | PgUntil int

record pg_stmt =
  pq_joins :: "pg_join list"
  pq_conds :: "pg_cond list"
  pq_desc :: bool
  pq_limit :: nat

text \<open>The joins of one tag condition. The last argument of \<open>PgJoinIn\<close> says whether the binary column is asked at all,
  which any lower case hexadecimal value causes, also one of odd length that has no binary form.\<close>

definition pg_joins_of :: "externals \<Rightarrow> rchar \<times> tag_operand \<Rightarrow> pg_join list" where
  "pg_joins_of X kv =
     (case snd kv of
        Or v \<Rightarrow> (let vs = sorted_list_of_fset v in
          [PgJoinIn (fst kv) (filter (\<lambda>x. \<not> is_lower_hex x) vs)
             (map (hex_decode X) (filter (\<lambda>x. even (length x) \<and> is_lower_hex x) vs)) (list_ex is_lower_hex vs)])
      | And v \<Rightarrow> map (\<lambda>x. if is_lower_hex x then PgJoinHex (fst kv) (hex_decode X x) else PgJoinValue (fst kv) x)
          (sorted_list_of_fset v))"

text \<open>A list of hexadecimal strings: the others are ignored, and nothing is asked if none is left.\<close>

definition pg_list_cond ::
  "(string option list \<Rightarrow> pg_cond) \<Rightarrow> externals \<Rightarrow> string list option \<Rightarrow> pg_cond list option" where
  "pg_list_cond mk X vs =
     (case vs of None \<Rightarrow> Some []
      | Some v \<Rightarrow> (let hs = filter is_hex v in if hs = [] then None else Some [mk (map (hex_decode X) hs)]))"

definition pg_time_cond :: "(int \<Rightarrow> bool) \<Rightarrow> (int \<Rightarrow> pg_cond) \<Rightarrow> u64 option \<Rightarrow> pg_cond list exec" where
  "pg_time_cond ts_ok mk t =
     (case t of None \<Rightarrow> Done [] | Some s \<Rightarrow> if ts_ok (as_i64 s) then Done [mk (as_i64 s)] else Panic)"

definition pg_query_from_filter :: "externals \<Rightarrow> (int \<Rightarrow> bool) \<Rightarrow> req_filter \<Rightarrow> pg_stmt option exec" where
  "pg_query_from_filter X ts_ok f =
     (if rf_force_no_match f then Done None
      else
      (let m = (case rf_tags f of None \<Rightarrow> [] | Some m \<Rightarrow> sort_key fst m) in
       if list_ex (\<lambda>kv. operand_set (snd kv) = {||}) m then Done None
       else
       (case pg_list_cond PgAuthors X (rf_authors f) of None \<Rightarrow> Done None | Some ca \<Rightarrow>
       (case (case rf_kinds f of None \<Rightarrow> Some [] | Some ks \<Rightarrow> if ks = [] then None else Some [PgKinds (map as_i64 ks)]) of
          None \<Rightarrow> Done None | Some ck \<Rightarrow>
       (case pg_list_cond PgIds X (rf_ids f) of None \<Rightarrow> Done None | Some ci \<Rightarrow>
       (case pg_time_cond ts_ok PgSince (rf_since f) of Panic \<Rightarrow> Panic | Done cs \<Rightarrow>
       (case pg_time_cond ts_ok PgUntil (rf_until f) of Panic \<Rightarrow> Panic | Done cu \<Rightarrow>
         Done (Some \<lparr>pq_joins = concat (map (pg_joins_of X) m), pq_conds = ca @ ck @ ci @ cs @ cu,
           pq_desc = (rf_limit f \<noteq> None),
           pq_limit = (case rf_limit f of None \<Rightarrow> 1000 | Some lim \<Rightarrow> unat (min lim 1000))\<rparr>))))))))"

section \<open>Text\<close>

text \<open>The pieces pushed to the builder, and the text with the parameters numbered in order.\<close>

datatype pg_param = BText string | BBytes "string option" | BInt int | BTime int

datatype pg_token = Push string | PushBind pg_param

definition quoted :: "string \<Rightarrow> string" where
  "quoted s = CHR 0x22 # s @ [CHR 0x22]"

definition separated :: "pg_param list \<Rightarrow> pg_token list" where
  "separated ps = (case ps of [] \<Rightarrow> [] | p # qs \<Rightarrow> PushBind p # concat (map (\<lambda>q. [Push '', '', PushBind q]) qs))"

fun join_tokens :: "nat \<Rightarrow> pg_join \<Rightarrow> pg_token list" where
  "join_tokens n (PgJoinIn k vs hs use_hex) =
     [Push ('' JOIN tag t'' @ show_nat n @ '' on e.id = t'' @ show_nat n @ ''.event_id AND t'' @ show_nat n @ ''.'' @ quoted ''name'' @ '' = ''),
      PushBind (BText k), Push '' AND (''] @
     (if vs \<noteq> [] then Push (''t'' @ show_nat n @ ''.'' @ quoted ''value'' @ '' in ('') # separated (map (BBytes \<circ> Some) vs) else []) @
     (if vs \<noteq> [] \<and> use_hex then [Push '') OR ''] else []) @
     (if use_hex then Push (''t'' @ show_nat n @ ''.'' @ quoted ''value_hex'' @ '' in ('') # separated (map BBytes hs) else []) @
     [Push ''))'']"
| "join_tokens n (PgJoinValue k v) =
     [Push ('' JOIN '' @ quoted ''tag'' @ '' t'' @ show_nat n @ '' on e.id = t'' @ show_nat n @ ''.event_id AND t'' @ show_nat n @ ''.'' @
        quoted ''name'' @ '' = ''), PushBind (BText k), Push '' AND '',
      Push (''t'' @ show_nat n @ ''.'' @ quoted ''value'' @ '' = ''), PushBind (BBytes (Some v))]"
| "join_tokens n (PgJoinHex k h) =
     [Push ('' JOIN '' @ quoted ''tag'' @ '' t'' @ show_nat n @ '' on e.id = t'' @ show_nat n @ ''.event_id AND t'' @ show_nat n @ ''.'' @
        quoted ''name'' @ '' = ''), PushBind (BText k), Push '' AND '',
      Push (''t'' @ show_nat n @ ''.'' @ quoted ''value_hex'' @ '' = ''), PushBind (BBytes h)]"

fun cond_tokens :: "pg_cond \<Rightarrow> pg_token list" where
  "cond_tokens (PgAuthors vs) =
     Push ''(e.pub_key in ('' # separated (map BBytes vs) @ Push '') OR e.delegated_by in ('' # separated (map BBytes vs) @ [Push ''))'']"
| "cond_tokens (PgKinds ks) = Push ''e.kind in ('' # separated (map BInt ks) @ [Push '')'']"
| "cond_tokens (PgIds vs) = Push ''(id in ('' # separated (map BBytes vs) @ [Push ''))'']"
| "cond_tokens (PgSince t) = [Push ''e.created_at >= '', PushBind (BTime t)]"
| "cond_tokens (PgUntil t) = [Push ''e.created_at <= '', PushBind (BTime t)]"

definition stmt_tokens :: "pg_stmt \<Rightarrow> pg_token list" where
  "stmt_tokens q =
     Push (''SELECT e.'' @ quoted ''content'' @ '', e.created_at FROM '' @ quoted ''event'' @ '' e'') #
     concat (map (\<lambda>(n, j). join_tokens (Suc n) j) (enumerate 0 (pq_joins q))) @ Push '' WHERE '' #
     concat (map (\<lambda>c. cond_tokens c @ [Push '' AND '']) (pq_conds q)) @
     [Push ''e.hidden != 1::bit(1)'', Push '' AND (e.expires_at IS NULL OR e.expires_at > now())'',
      Push ('' ORDER BY e.created_at '' @ (if pq_desc q then ''DESC'' else ''ASC'') @ '' LIMIT '' @ show_nat (pq_limit q))]"

fun pg_sql :: "nat \<Rightarrow> pg_token list \<Rightarrow> string" where
  "pg_sql n [] = []"
| "pg_sql n (Push s # ts) = s @ pg_sql n ts"
| "pg_sql n (PushBind p # ts) = ''$'' @ show_nat n @ pg_sql (Suc n) ts"

section \<open>Evaluation\<close>

fun join_matches :: "pg_join \<Rightarrow> pg_tag_row \<Rightarrow> bool" where
  "join_matches (PgJoinIn k vs hs use_hex) t =
     (pgt_name t = k \<and> ((\<exists>v\<in>set vs. pgt_value t = Some v) \<or> (use_hex \<and> pgt_value_hex t \<noteq> None \<and> pgt_value_hex t \<in> set hs)))"
| "join_matches (PgJoinValue k v) t = (pgt_name t = k \<and> pgt_value t = Some v)"
| "join_matches (PgJoinHex k h) t = (pgt_name t = k \<and> pgt_value_hex t \<noteq> None \<and> pgt_value_hex t = h)"

fun cond_holds :: "pg_event_row \<Rightarrow> pg_cond \<Rightarrow> bool" where
  "cond_holds r (PgAuthors vs) =
     (Some (pge_pub_key r) \<in> set vs \<or> (pge_delegated_by r \<noteq> None \<and> pge_delegated_by r \<in> set vs))"
| "cond_holds r (PgKinds ks) = (pge_kind r \<in> set ks)"
| "cond_holds r (PgIds vs) = (Some (pge_id r) \<in> set vs)"
| "cond_holds r (PgSince t) = (t \<le> pge_created_at r)"
| "cond_holds r (PgUntil t) = (pge_created_at r \<le> t)"

definition pg_alive :: "int \<Rightarrow> pg_event_row \<Rightarrow> bool" where
  "pg_alive now r = (case pge_expires_at r of None \<Rightarrow> True | Some x \<Rightarrow> now < x)"

text \<open>How many rows an event contributes: one for each choice of a matching tag per join.\<close>

definition multiplicity :: "pg_stmt \<Rightarrow> pg_store \<Rightarrow> pg_event_row \<Rightarrow> nat" where
  "multiplicity q db r =
     prod_list (map (\<lambda>j. length (filter (\<lambda>t. pgt_event_id t = pge_id r \<and> join_matches j t) (pgs_tags db))) (pq_joins q))"

definition pg_rows :: "int \<Rightarrow> pg_stmt \<Rightarrow> pg_store \<Rightarrow> pg_event_row list" where
  "pg_rows now q db =
     concat (map (\<lambda>r. replicate (multiplicity q db r) r)
       (filter (\<lambda>r. list_all (cond_holds r) (pq_conds q) \<and> \<not> pge_hidden r \<and> pg_alive now r) (pgs_events db)))"

text \<open>Statements PostgreSQL refuses: an empty \<^verbatim>\<open>in ()\<close>, and the unqualified column \<^verbatim>\<open>id\<close> beside a joined table that
  has one too.\<close>

fun empty_in :: "pg_join \<Rightarrow> bool" where
  "empty_in (PgJoinIn k vs hs use_hex) \<longleftrightarrow> use_hex \<and> hs = []"
| "empty_in _ \<longleftrightarrow> False"

definition pg_valid :: "pg_stmt \<Rightarrow> bool" where
  "pg_valid q \<longleftrightarrow> \<not> list_ex empty_in (pq_joins q) \<and>
     \<not> (pq_joins q \<noteq> [] \<and> list_ex (\<lambda>c. case c of PgIds _ \<Rightarrow> True | _ \<Rightarrow> False) (pq_conds q))"

type_synonym pg_row_order = "pg_event_row list \<Rightarrow> pg_event_row list"

definition orders_newest :: "pg_row_order \<Rightarrow> bool" where
  "orders_newest ord \<longleftrightarrow> (\<forall>xs. mset (ord xs) = mset xs \<and> sorted_wrt (\<lambda>a b. pge_created_at b \<le> pge_created_at a) (ord xs))"

definition pg_fetch :: "pg_row_order \<Rightarrow> int \<Rightarrow> pg_stmt \<Rightarrow> pg_store \<Rightarrow> (string list, error) result" where
  "pg_fetch ord now q db =
     (if \<not> pg_valid q then Err pg_syntax_error
      else (let rows = ord (pg_rows now q db) in
        Ok (map pge_content (take (pq_limit q) (if pq_desc q then rows else rev rows)))))"

section \<open>Answering a subscription\<close>

text \<open>
  The environment of a query: the clock and the snapshot at each filter, after how many rows a result stream fails,
  before which rows the reader is stopped (abandoned, or a slow client). A filter whose statement fails is left
  at the failure and the next filter follows; a filter without statement is skipped. The flag of the
  result says that the task panicked.
\<close>

record pg_query_env =
  pqe_now :: "nat \<Rightarrow> int"
  pqe_db :: "nat \<Rightarrow> pg_store"
  pqe_fail :: "nat \<Rightarrow> nat option"
  pqe_stop :: "nat \<Rightarrow> bool"

definition pg_stream :: "nat option \<Rightarrow> (string list, error) result \<Rightarrow> string list" where
  "pg_stream n r = (case r of Err _ \<Rightarrow> [] | Ok rows \<Rightarrow> (case n of None \<Rightarrow> rows | Some k \<Rightarrow> take k rows))"

fun pg_query_filters ::
  "externals \<Rightarrow> (int \<Rightarrow> bool) \<Rightarrow> pg_row_order \<Rightarrow> pg_query_env \<Rightarrow> nat \<Rightarrow> nat \<Rightarrow> string \<Rightarrow> req_filter list \<Rightarrow> query_result list \<times> bool" where
  "pg_query_filters X ts_ok ord E k n i [] = ([\<lparr>qr_sub_id = i, qr_event = ''EOSE''\<rparr>], False)"
| "pg_query_filters X ts_ok ord E k n i (f # fs) =
     (case pg_query_from_filter X ts_ok f of
        Panic \<Rightarrow> ([], True)
      | Done None \<Rightarrow> pg_query_filters X ts_ok ord E (Suc k) n i fs
      | Done (Some q) \<Rightarrow>
        (let rows = pg_stream (pqe_fail E k) (pg_fetch ord (pqe_now E k) q (pqe_db E k)) in
         case send_rows (pqe_stop E) n i rows of
           (out, fin) \<Rightarrow>
             if fin then (case pg_query_filters X ts_ok ord E (Suc k) (n + length rows) i fs of (rest, p) \<Rightarrow> (out @ rest, p))
             else (out, False)))"

definition pg_query_subscription ::
  "externals \<Rightarrow> (int \<Rightarrow> bool) \<Rightarrow> pg_row_order \<Rightarrow> pg_query_env \<Rightarrow> subscription \<Rightarrow> query_result list \<times> bool" where
  "pg_query_subscription X ts_ok ord E s = pg_query_filters X ts_ok ord E 0 0 (get_id s) (sub_filters s)"

end
