(* ===== verification/Pg_Query_Properties.thy ===== *)
theory Pg_Query_Properties
  imports Pg_Query
begin

text \<open>
  What the PostgreSQL statements mean: a row is selected exactly when the live match would deliver its event, for
  filters in the form that both treat alike; how many rows a query returns and which ones a limit leaves out; and
  that an event can be returned more than once.
\<close>

section \<open>Text\<close>

text \<open>The text the unit test \<^verbatim>\<open>test_query_gen_tag_value_and_value_hex\<close> expects.\<close>

lemma generated_text:
  \<open>pg_sql 1 (stmt_tokens \<lparr>pq_joins = [PgJoinHex ''d'' h, PgJoinValue ''d'' v], pq_conds = [PgAuthors [a], PgKinds [k]],
      pq_desc = False, pq_limit = 1000\<rparr>) =
   ''SELECT e."content", e.created_at FROM "event" e JOIN "tag" t1 on e.id = t1.event_id AND t1."name" = $1 AND t1."value_hex" = $2 JOIN "tag" t2 on e.id = t2.event_id AND t2."name" = $3 AND t2."value" = $4 WHERE (e.pub_key in ($5) OR e.delegated_by in ($6)) AND e.kind in ($7) AND e.hidden != 1::bit(1) AND (e.expires_at IS NULL OR e.expires_at > now()) ORDER BY e.created_at ASC LIMIT 1000''\<close>
  by (simp add: stmt_tokens_def quoted_def separated_def show_nat.simps) code_simp

text \<open>Two statements that differ only in what is bound have the same text.\<close>

definition unbound :: "pg_token \<Rightarrow> string option" where
  "unbound t = (case t of Push s \<Rightarrow> Some s | PushBind _ \<Rightarrow> None)"

lemma text_of_pushes: "map unbound ts = map unbound us \<Longrightarrow> pg_sql n ts = pg_sql n us"
proof (induction ts arbitrary: us n)
  case (Cons t ts)
  then obtain u us' where u: "us = u # us'" "unbound t = unbound u" "map unbound ts = map unbound us'" by (cases us) auto
  with Cons.IH [OF u(3)] show ?case by (cases t; cases u) (auto simp: unbound_def)
qed simp

section \<open>Rows and the events they store\<close>

definition pg_stores :: "externals \<Rightarrow> pg_store \<Rightarrow> pg_event_row \<Rightarrow> event \<Rightarrow> bool" where
  "pg_stores X db r e \<longleftrightarrow> hex_decode X (ev_id e) = Some (pge_id r) \<and> hex_decode X (ev_pubkey e) = Some (pge_pub_key r) \<and>
     pge_kind r = as_i64 (ev_kind e) \<and> pge_created_at r = as_i64 (ev_created_at e) \<and>
     pge_delegated_by r = Option.bind (ev_delegated_by e) (hex_decode X) \<and> event_to_string X e = Some (pge_content r) \<and>
     {t \<in> set (pgs_tags db). pgt_event_id t = pge_id r} = pg_tag_row_of X (pge_id r) ` set (searchable_tags e)"

definition pg_faithful :: "(event \<Rightarrow> bool) \<Rightarrow> externals \<Rightarrow> pg_store \<Rightarrow> bool" where
  "pg_faithful P X db \<longleftrightarrow> (\<forall>r\<in>set (pgs_events db). \<exists>e. P e \<and> pg_stores X db r e)"

lemma pg_faithful_delete:
  assumes "pg_faithful P X db" "pg_inv db"
  shows "pg_faithful P X (pg_delete Q db)"
proof -
  have "{t \<in> set (pgs_tags (pg_delete Q db)). pgt_event_id t = pge_id r} = {t \<in> set (pgs_tags db). pgt_event_id t = pge_id r}"
    if "r \<in> set (pgs_events db)" "\<not> Q r" for r
    using that assms(2) by (auto simp: pg_delete_def Let_def pg_inv_def distinct_map dest: inj_onD)
  with assms(1) show ?thesis by (fastforce simp: pg_faithful_def pg_stores_def)
qed

lemma pg_faithful_hide: "pg_faithful P X db \<Longrightarrow> pg_faithful P X (pg_hide Q db)"
proof -
  assume a: "pg_faithful P X db"
  have t: "pgs_tags (pg_hide Q db) = pgs_tags db" by simp
  have "\<exists>e. P e \<and> pg_stores X (pg_hide Q db) r e" if "r \<in> set (pgs_events (pg_hide Q db))" for r
  proof -
    from that obtain r0 where r0: "r0 \<in> set (pgs_events db)" "r = (if Q r0 then r0\<lparr>pge_hidden := True\<rparr> else r0)"
      by (auto simp: pg_hide_def)
    from a r0(1) obtain e where e: "P e" "pg_stores X db r0 e" by (auto simp: pg_faithful_def)
    have "pg_stores X (pg_hide Q db) r0 e" using e(2) unfolding pg_stores_def t .
    then have "pg_stores X (pg_hide Q db) r e" using r0(2) by (simp add: pg_stores_def)
    with e(1) show ?thesis by blast
  qed
  then show ?thesis by (simp add: pg_faithful_def)
qed

lemma pg_faithful_insert:
  assumes "pg_faithful P X db" "pg_inv db" "P e" "hex_decode X (ev_id e) = Some h" "hex_decode X (ev_pubkey e) = Some a"
    "event_to_string X e = Some c" "h \<notin> pge_id ` set (pgs_events db)"
  shows "pg_faithful P X (pg_insert X tk e h a c db)"
proof -
  let ?d = "pg_insert X tk e h a c db"
  have tags: "set (pgs_tags ?d) = set (pgs_tags db) \<union> pg_tag_row_of X h ` set (searchable_tags e)" by (simp add: pg_insert_def)
  have old: "pgt_event_id t \<noteq> h" if "t \<in> set (pgs_tags db)" for t
    using that assms(2,7) unfolding pg_inv_def by (metis image_eqI subsetD)
  have "{t \<in> set (pgs_tags ?d). pgt_event_id t = h} = pg_tag_row_of X h ` set (searchable_tags e)"
    unfolding tags using old by auto
  then have new: "pg_stores X ?d (pg_new_row X tk e h a c) e"
    using assms(4-6) by (simp add: pg_stores_def) (simp add: pg_new_row_def)
  have keep: "{t \<in> set (pgs_tags ?d). pgt_event_id t = pge_id r} = {t \<in> set (pgs_tags db). pgt_event_id t = pge_id r}"
    if "r \<in> set (pgs_events db)" for r
    unfolding tags using that assms(7) by auto
  have "\<exists>e'. P e' \<and> pg_stores X ?d r e'" if "r \<in> set (pgs_events db)" for r
    using assms(1) that keep [OF that] unfolding pg_faithful_def pg_stores_def by simp
  with new assms(3) show ?thesis unfolding pg_faithful_def by (auto simp: pg_insert_def)
qed

lemma pg_faithful_write:
  assumes "pg_faithful P X db" "pg_inv db" "P e"
  shows "pg_faithful P X (after db (pg_write_event X ord tk f e db))"
proof (cases rule: pg_write_cases [of db X ord tk f e])
  case (stored h a c db' n)
  let ?d1 = "pg_insert X tk e h a c db"
  have 1: "pg_faithful P X ?d1" "pg_inv ?d1"
    using pg_faithful_insert [OF assms stored(1-4)] pg_insert_inv [OF assms(2) stored(4)] by blast+
  then have 2: "pg_faithful P X (pg_drop_replaced ord e a ?d1)" "pg_inv (pg_drop_replaced ord e a ?d1)"
    by (simp_all add: pg_drop_replaced_def Let_def pg_faithful_delete pg_delete_inv)
  then have "pg_faithful P X (pg_drop_param_replaced X ord e a (pg_drop_replaced ord e a ?d1))"
    by (simp add: pg_drop_param_replaced_def Let_def pg_faithful_delete split: option.splits)
  with stored(7) have "pg_faithful P X db'"
    by (auto simp: pg_apply_deletions_def pg_faithful_hide split: if_splits option.splits)
  with stored(8) show ?thesis by (simp add: after_def)
qed (use assms in simp)

fun pg_writes_only :: "(event \<Rightarrow> bool) \<Rightarrow> pg_op \<Rightarrow> bool" where
  "pg_writes_only P (PgWrite f e) = P e"
| "pg_writes_only P _ = True"

lemma pg_faithful_cong:
  "pgs_events d = pgs_events db \<Longrightarrow> pgs_tags d = pgs_tags db \<Longrightarrow> pg_faithful P X d = pg_faithful P X db"
  by (simp add: pg_faithful_def pg_stores_def)

lemma pg_faithful_step:
  assumes "pg_faithful P X db" "pg_inv db" "pg_writes_only P p"
  shows "pg_faithful P X (pg_ev_step X ord tk p db)"
proof (cases p)
  case (PgWrite f e)
  with assms show ?thesis by (simp add: pg_faithful_write)
next
  case (PgExpire f1 f2 now)
  with assms show ?thesis by (auto simp: pg_delete_expired_def Let_def after_def pg_faithful_delete split: option.splits)
qed (use assms in \<open>auto simp: pg_create_verification_record_def pg_update_verification_timestamp_def pg_fail_verification_def
    pg_on_verif_def pg_delete_verification_def after_def Let_def split: option.splits elim!: pg_faithful_cong [THEN iffD2, rotated 2]\<close>)

lemma pg_faithful_run:
  "pg_faithful P X db \<Longrightarrow> pg_inv db \<Longrightarrow> \<forall>p\<in>set ps. pg_writes_only P p \<Longrightarrow> pg_faithful P X (fold (pg_ev_step X ord tk) ps db)"
  by (induction ps arbitrary: db) (auto simp: pg_step_inv pg_faithful_step)

section \<open>Tags\<close>

lemma pg_tag_row_matches:
  assumes "hex_laws X"
  shows "pg_tag_matches X k v (pg_tag_row_of X h t) \<longleftrightarrow> t ! 0 = k \<and> t ! 1 = v"
proof (cases "pg_hex_value v")
  case True
  then obtain b where b: "hex_decode X v = Some b"
    using hex_decode_even [OF assms] by (auto simp: pg_hex_value_def is_hex_iff is_lower_hex_iff list_all_iff)
  show ?thesis
  proof (cases "pg_hex_value (t ! 1)")
    case t: True
    then have "hex_decode X (t ! 1) = Some b \<longleftrightarrow> v = t ! 1"
      using hex_decode_lower_inj [OF assms _ _ b, of "t ! 1"] True by (simp add: pg_hex_value_def)
    moreover have "\<exists>b'. hex_decode X (t ! 1) = Some b'"
      using t hex_decode_even [OF assms] by (auto simp: pg_hex_value_def is_hex_iff is_lower_hex_iff list_all_iff)
    ultimately show ?thesis using True t b by (auto simp: pg_tag_matches_def pg_tag_row_of_def)
  next
    case False
    with True show ?thesis by (auto simp: pg_tag_matches_def pg_tag_row_of_def)
  qed
next
  case False
  then show ?thesis by (auto simp: pg_tag_matches_def pg_tag_row_of_def)
qed

lemma pg_tag_values:
  assumes "hex_laws X" "pg_stores X db r e"
  shows "(\<exists>t\<in>set (pgs_tags db). pgt_event_id t = pge_id r \<and> pg_tag_matches X k v t) \<longleftrightarrow> v \<in> tag_values e k"
proof -
  have "(\<exists>t\<in>set (pgs_tags db). pgt_event_id t = pge_id r \<and> pg_tag_matches X k v t) \<longleftrightarrow>
      (\<exists>t\<in>pg_tag_row_of X (pge_id r) ` set (searchable_tags e). pg_tag_matches X k v t)"
    using assms(2) unfolding pg_stores_def by blast
  also have "\<dots> \<longleftrightarrow> (\<exists>t\<in>set (searchable_tags e). t ! 0 = k \<and> t ! 1 = v)" by (simp add: pg_tag_row_matches [OF assms(1)])
  also have "\<dots> \<longleftrightarrow> v \<in> tag_values e k"
  proof -
    have "hd t = t ! 0" if "1 < length t" for t :: "string list" using that by (cases t) auto
    then show ?thesis unfolding searchable_tags_def tag_values_def by (force dest: single_char_name)
  qed
  finally show ?thesis .
qed

text \<open>A value both columns can be asked for.\<close>

definition good_value :: "string \<Rightarrow> bool" where
  "good_value v \<longleftrightarrow> (is_lower_hex v \<longrightarrow> even (length v))"

lemma good_hex_value: "good_value v \<Longrightarrow> is_lower_hex v = pg_hex_value v"
  by (auto simp: good_value_def pg_hex_value_def)

definition joined :: "pg_store \<Rightarrow> pg_event_row \<Rightarrow> pg_join \<Rightarrow> bool" where
  "joined db r j \<longleftrightarrow> (\<exists>t\<in>set (pgs_tags db). pgt_event_id t = pge_id r \<and> join_matches j t)"

lemma multiplicity_pos: "multiplicity q db r \<noteq> 0 \<longleftrightarrow> list_all (joined db r) (pq_joins q)"
  by (auto simp: multiplicity_def prod_list_zero_iff joined_def list_all_iff filter_empty_conv)

lemma pg_hex_decodes:
  assumes "hex_laws X" "pg_hex_value v"
  obtains b where "hex_decode X v = Some b"
  using assms hex_decode_even [OF assms(1)] by (auto simp: pg_hex_value_def is_hex_iff is_lower_hex_iff list_all_iff)

lemma join_or_matches:
  assumes "\<forall>v\<in>fset a. good_value v" "pg_joins_of X (k, Or a) = [j]"
  shows "join_matches j t \<longleftrightarrow> (\<exists>v\<in>fset a. pg_tag_matches X k v t)"
proof -
  have "join_matches j t \<longleftrightarrow> pgt_name t = k \<and> ((\<exists>v\<in>fset a. \<not> is_lower_hex v \<and> pgt_value t = Some v) \<or>
      (\<exists>v\<in>fset a. is_lower_hex v \<and> even (length v) \<and> pgt_value_hex t \<noteq> None \<and> pgt_value_hex t = hex_decode X v))"
  proof -
    let ?vs = "sorted_list_of_fset a"
    have j: "j = PgJoinIn k (filter (\<lambda>x. \<not> is_lower_hex x) ?vs) (map (hex_decode X) (filter (\<lambda>x. even (length x) \<and> is_lower_hex x) ?vs))
        (list_ex is_lower_hex ?vs)"
      using assms(2) by (simp add: pg_joins_of_def Let_def)
    have s: "set ?vs = fset a" by simp
    show ?thesis unfolding j join_matches.simps list_ex_iff set_map set_filter s by blast
  qed
  also have "\<dots> \<longleftrightarrow> (\<exists>v\<in>fset a. pg_tag_matches X k v t)"
    using assms(1) unfolding pg_tag_matches_def good_value_def pg_hex_value_def by auto
  finally show ?thesis .
qed

lemma joins_hold:
  assumes "hex_laws X" "pg_stores X db r e" "indexed e" "operand_set v \<noteq> {||}" "\<forall>x\<in>fset (operand_set v). good_value x"
  shows "list_all (joined db r) (pg_joins_of X (k, v)) \<longleftrightarrow> generic_tag_val_intersect e k v"
proof -
  have e: "e = build_index (e\<lparr>ev_tagidx := None\<rparr>)" using assms(3) by (simp add: indexed_def)
  have tv: "tag_values (e\<lparr>ev_tagidx := None\<rparr>) k = tag_values e k" by (simp add: tag_values_def)
  show ?thesis
  proof (cases v)
    case (Or a)
    obtain j where j: "pg_joins_of X (k, Or a) = [j]" by (simp add: pg_joins_of_def Let_def)
    have g: "\<forall>v\<in>fset a. good_value v" using assms(5) Or by simp
    have "list_all (joined db r) (pg_joins_of X (k, v)) \<longleftrightarrow> (\<exists>x\<in>fset a. \<exists>t\<in>set (pgs_tags db). pgt_event_id t = pge_id r \<and> pg_tag_matches X k x t)"
      unfolding Or j using join_or_matches [OF g j] by (auto simp: joined_def)
    also have "\<dots> \<longleftrightarrow> tag_values e k \<inter> fset a \<noteq> {}" unfolding pg_tag_values [OF assms(1,2)] by blast
    also have "\<dots> \<longleftrightarrow> generic_tag_val_intersect e k v"
      using intersect_build_index(1) [of "e\<lparr>ev_tagidx := None\<rparr>" k a] e tv Or by simp
    finally show ?thesis .
  next
    case (And a)
    then have ne: "fset a \<noteq> {}" using assms(4) by auto
    let ?j = "\<lambda>x. if is_lower_hex x then PgJoinHex k (hex_decode X x) else PgJoinValue k x"
    have m: "joined db r (?j x) \<longleftrightarrow> (\<exists>t\<in>set (pgs_tags db). pgt_event_id t = pge_id r \<and> pg_tag_matches X k x t)"
      if "x \<in> fset a" for x
      using that assms(5) And good_hex_value [of x] by (simp add: pg_tag_matches_def joined_def)
    have "list_all (joined db r) (pg_joins_of X (k, v)) \<longleftrightarrow> (\<forall>x\<in>fset a. joined db r (?j x))"
      unfolding And pg_joins_of_def by (simp only: snd_conv fst_conv tag_operand.case list.pred_map) (simp add: list_all_iff)
    then have "list_all (joined db r) (pg_joins_of X (k, v)) \<longleftrightarrow> (\<forall>x\<in>fset a. \<exists>t\<in>set (pgs_tags db). pgt_event_id t = pge_id r \<and> pg_tag_matches X k x t)"
      using m by simp
    also have "\<dots> \<longleftrightarrow> tag_values e k \<noteq> {} \<and> fset a \<subseteq> tag_values e k" unfolding pg_tag_values [OF assms(1,2)] using ne by blast
    also have "\<dots> \<longleftrightarrow> generic_tag_val_intersect e k v"
      using intersect_build_index(2) [of "e\<lparr>ev_tagidx := None\<rparr>" k a] e tv And by simp
    finally show ?thesis .
  qed
qed

section \<open>Conditions\<close>

lemma full_is_hex: "full_hex v \<Longrightarrow> is_hex v"
  by (auto simp: full_hex_def is_hex_iff is_lower_hex_iff list_all_iff)

lemma pg_list_cond_holds:
  assumes "hex_laws X" "list_all full_hex (case vs of None \<Rightarrow> [] | Some v \<Rightarrow> v)" "full_hex s" "hex_decode X s = Some b"
    "\<And>us. cond_holds r (mk us) \<longleftrightarrow> Some b \<in> set us"
  shows "case pg_list_cond mk X vs of
      None \<Rightarrow> \<not> (case vs of None \<Rightarrow> True | Some v \<Rightarrow> prefix_match v s)
    | Some cs \<Rightarrow> list_all (cond_holds r) cs \<longleftrightarrow> (case vs of None \<Rightarrow> True | Some v \<Rightarrow> prefix_match v s)"
proof (cases vs)
  case (Some v)
  with assms(2) have l: "list_all full_hex v" by simp
  then have "filter is_hex v = v" by (simp add: list_all_iff full_is_hex)
  with decoded_mem [OF assms(1) l assms(3,4)] prefix_match_full [OF l assms(3)] Some
  show ?thesis by (auto simp: pg_list_cond_def Let_def assms(5))
qed (simp add: pg_list_cond_def)

definition time_bound :: "(int \<Rightarrow> bool) \<Rightarrow> u64 option \<Rightarrow> bool" where
  "time_bound tk t \<longleftrightarrow> (case t of None \<Rightarrow> True | Some s \<Rightarrow> fits_i64 s \<and> tk (as_i64 s))"

lemma as_i64_le: "fits_i64 v \<Longrightarrow> fits_i64 w \<Longrightarrow> as_i64 v \<le> as_i64 w \<longleftrightarrow> v \<le> w"
  by (simp add: as_i64_fits word_le_def)

lemma pg_time_cond_done: "time_bound tk t \<Longrightarrow> \<exists>cs. pg_time_cond tk mk t = Done cs \<and> (cs = [] \<or> (\<exists>i. cs = [mk i]))"
  by (auto simp: pg_time_cond_def time_bound_def split: option.splits)

lemma pg_since_holds:
  "time_bound tk t \<Longrightarrow> fits_i64 c \<Longrightarrow> pge_created_at r = as_i64 c \<Longrightarrow> pg_time_cond tk PgSince t = Done cs \<Longrightarrow>
     list_all (cond_holds r) cs \<longleftrightarrow> (case t of None \<Rightarrow> True | Some s \<Rightarrow> s \<le> c)"
  by (auto simp: pg_time_cond_def time_bound_def as_i64_le split: option.splits)

lemma pg_until_holds:
  "time_bound tk t \<Longrightarrow> fits_i64 c \<Longrightarrow> pge_created_at r = as_i64 c \<Longrightarrow> pg_time_cond tk PgUntil t = Done cs \<Longrightarrow>
     list_all (cond_holds r) cs \<longleftrightarrow> (case t of None \<Rightarrow> True | Some s \<Rightarrow> c \<le> s)"
  by (auto simp: pg_time_cond_def time_bound_def as_i64_le split: option.splits)

section \<open>Selection and live matching\<close>

text \<open>Events and filters that PostgreSQL treats as live matching does: complete ids and keys, no
  delegation, times in the signed range, no hexadecimal tag value of odd length, and ids not together with tags.\<close>

definition pg_plain_event :: "event \<Rightarrow> bool" where
  "pg_plain_event e \<longleftrightarrow> plain_event e \<and> fits_i64 (ev_created_at e)"

definition filter_tags :: "req_filter \<Rightarrow> tag_map" where
  "filter_tags f = (case rf_tags f of None \<Rightarrow> [] | Some m \<Rightarrow> m)"

definition pg_exact_filter :: "(int \<Rightarrow> bool) \<Rightarrow> req_filter \<Rightarrow> bool" where
  "pg_exact_filter tk f \<longleftrightarrow> exact_filter f \<and> time_bound tk (rf_since f) \<and> time_bound tk (rf_until f) \<and>
     (\<forall>(k, v)\<in>set (filter_tags f). \<forall>x\<in>fset (operand_set v). good_value x) \<and> (rf_ids f = None \<or> filter_tags f = [])"

lemma pg_tags_match:
  assumes "hex_laws X" "pg_stores X db r e" "indexed e" "exact_filter f" "pg_exact_filter tk f"
  shows "list_all (joined db r) (concat (map (pg_joins_of X) (sort_key fst (filter_tags f)))) \<longleftrightarrow> tag_match f e"
proof -
  let ?m = "filter_tags f"
  have ok: "operand_set v \<noteq> {||} \<and> (\<forall>x\<in>fset (operand_set v). good_value x)" if "(k, v) \<in> set ?m" for k v
    using that assms(4,5) by (fastforce simp: exact_filter_def pg_exact_filter_def filter_tags_def list_all_iff split: option.splits)
  have "list_all (joined db r) (concat (map (pg_joins_of X) (sort_key fst ?m))) \<longleftrightarrow>
      (\<forall>(k, v)\<in>set ?m. list_all (joined db r) (pg_joins_of X (k, v)))"
    by (auto simp: list_all_iff)
  also have "\<dots> \<longleftrightarrow> (\<forall>(k, v)\<in>set ?m. generic_tag_val_intersect e k v)"
    using ok joins_hold [OF assms(1-3)] by fastforce
  also have "\<dots> \<longleftrightarrow> tag_match f e" by (auto simp: tag_match_def filter_tags_def tags_all_match_iff split: option.splits)
  finally show ?thesis .
qed

lemma pg_query_done:
  assumes "pg_exact_filter tk f"
  obtains (none) "pg_query_from_filter X tk f = Done None"
      "rf_force_no_match f \<or> pg_list_cond PgAuthors X (rf_authors f) = None \<or> rf_kinds f = Some [] \<or>
       pg_list_cond PgIds X (rf_ids f) = None"
  | (some) ca ck ci cs cu q where "pg_query_from_filter X tk f = Done (Some q)" "\<not> rf_force_no_match f"
      "pg_list_cond PgAuthors X (rf_authors f) = Some ca" "pg_list_cond PgIds X (rf_ids f) = Some ci"
      "ck = (case rf_kinds f of None \<Rightarrow> [] | Some ks \<Rightarrow> [PgKinds (map as_i64 ks)])"
      "pg_time_cond tk PgSince (rf_since f) = Done cs" "pg_time_cond tk PgUntil (rf_until f) = Done cu"
      "pq_conds q = ca @ ck @ ci @ cs @ cu" "pq_joins q = concat (map (pg_joins_of X) (sort_key fst (filter_tags f)))"
      "pq_desc q = (rf_limit f \<noteq> None)" "pq_limit q = (case rf_limit f of None \<Rightarrow> 1000 | Some lim \<Rightarrow> unat (min lim 1000))"
proof -
  have t: "time_bound tk (rf_since f)" "time_bound tk (rf_until f)" using assms by (simp_all add: pg_exact_filter_def)
  obtain cs cu where c: "pg_time_cond tk PgSince (rf_since f) = Done cs" "pg_time_cond tk PgUntil (rf_until f) = Done cu"
    using pg_time_cond_done [OF t(1), of PgSince] pg_time_cond_done [OF t(2), of PgUntil] by blast
  have m: "(case rf_tags f of None \<Rightarrow> [] | Some m \<Rightarrow> sort_key fst m) = sort_key fst (filter_tags f)"
    by (simp add: filter_tags_def split: option.splits)
  have o: "\<not> list_ex (\<lambda>kv. operand_set (snd kv) = {||}) (sort_key fst (filter_tags f))"
    using assms by (auto simp: pg_exact_filter_def exact_filter_def filter_tags_def list_ex_iff list_all_iff split: option.splits)
  show thesis
  proof (cases "rf_force_no_match f \<or> pg_list_cond PgAuthors X (rf_authors f) = None \<or> rf_kinds f = Some [] \<or>
      pg_list_cond PgIds X (rf_ids f) = None")
    case True
    have "pg_query_from_filter X tk f = Done None"
      using True unfolding pg_query_from_filter_def m Let_def by (auto simp: o split: option.splits)
    then show thesis using True by (rule none)
  next
    case False
    then obtain ca ci where "pg_list_cond PgAuthors X (rf_authors f) = Some ca" "pg_list_cond PgIds X (rf_ids f) = Some ci" by auto
    note l = this
    let ?ck = "case rf_kinds f of None \<Rightarrow> [] | Some ks \<Rightarrow> [PgKinds (map as_i64 ks)]"
    let ?q = "\<lparr>pq_joins = concat (map (pg_joins_of X) (sort_key fst (filter_tags f))), pq_conds = ca @ ?ck @ ci @ cs @ cu,
      pq_desc = (rf_limit f \<noteq> None), pq_limit = (case rf_limit f of None \<Rightarrow> 1000 | Some lim \<Rightarrow> unat (min lim 1000))\<rparr>"
    have "pg_query_from_filter X tk f = Done (Some ?q)"
      using False c l o unfolding pg_query_from_filter_def m Let_def by (cases "rf_kinds f") (simp_all del: not_None_eq)
    from some [OF this _ l refl c] False show thesis by simp
  qed
qed

lemma pg_query_selects:
  assumes "hex_laws X" "pg_stores X db r e" "pg_plain_event e" "pg_exact_filter tk f"
  shows "case pg_query_from_filter X tk f of Panic \<Rightarrow> False
    | Done None \<Rightarrow> \<not> filter_interested f e
    | Done (Some q) \<Rightarrow> list_all (cond_holds r) (pq_conds q) \<and> list_all (joined db r) (pq_joins q) \<longleftrightarrow> filter_interested f e"
proof -
  have st: "hex_decode X (ev_id e) = Some (pge_id r)" "hex_decode X (ev_pubkey e) = Some (pge_pub_key r)"
    "pge_kind r = as_i64 (ev_kind e)" "pge_created_at r = as_i64 (ev_created_at e)" using assms(2) by (simp_all add: pg_stores_def)
  have pl: "full_hex (ev_id e)" "full_hex (ev_pubkey e)" "ev_delegated_by e = None" "indexed e" "fits_i64 (ev_created_at e)"
    using assms(3) by (simp_all add: pg_plain_event_def plain_event_def)
  have nd: "pge_delegated_by r = None" using assms(2) pl(3) by (simp add: pg_stores_def)
  have f: "exact_filter f" "time_bound tk (rf_since f)" "time_bound tk (rf_until f)" using assms(4) by (simp_all add: pg_exact_filter_def)
  have A: "case pg_list_cond PgAuthors X (rf_authors f) of None \<Rightarrow> \<not> authors_match f e
      | Some cs \<Rightarrow> list_all (cond_holds r) cs \<longleftrightarrow> authors_match f e"
    using f(1) nd unfolding authors_match_def
    by (intro pg_list_cond_holds [OF assms(1) _ pl(2) st(2)]) (simp_all add: exact_filter_def)
  have I: "case pg_list_cond PgIds X (rf_ids f) of None \<Rightarrow> \<not> ids_match f e
      | Some cs \<Rightarrow> list_all (cond_holds r) cs \<longleftrightarrow> ids_match f e"
    using f(1) unfolding ids_match_def
    by (intro pg_list_cond_holds [OF assms(1) _ pl(1) st(1)]) (simp_all add: exact_filter_def)
  have D: "\<not> delegated_authors_match f e" using pl(3) by (simp add: delegated_authors_match_def)
  from assms(4) show ?thesis
  proof (cases rule: pg_query_done [where X = X])
    case none
    with A I D show ?thesis by (auto simp: filter_interested_def kind_match_def)
  next
    case (some ca ck ci cs cu q)
    have K: "list_all (cond_holds r) ck \<longleftrightarrow> kind_match f (ev_kind e)"
      using some(5) st(3) by (auto simp: kind_match_def split: option.splits)
    note S = pg_since_holds [OF f(2) pl(5) st(4) some(6)] and U = pg_until_holds [OF f(3) pl(5) st(4) some(7)]
    note T = pg_tags_match [OF assms(1,2) pl(4) f(1) assms(4)]
    show ?thesis
      using A I D K S U T some(1-4) unfolding some(1) some(8) some(9) by (auto simp: filter_interested_def some(8,9))
  qed
qed

lemma pg_query_valid:
  assumes "pg_exact_filter tk f" "pg_query_from_filter X tk f = Done (Some q)"
  shows "pg_valid q"
  using assms(1)
proof (cases rule: pg_query_done [where X = X])
  case (some ca ck ci cs cu q')
  then have [simp]: "q' = q" using assms(2) by simp
  have "\<not> empty_in j" if "j \<in> set (pg_joins_of X (k, v))" "(k, v) \<in> set (filter_tags f)" for j k v
  proof -
    have "good_value x" if "x \<in> fset (operand_set v)" for x
      using that assms(1) \<open>(k, v) \<in> set (filter_tags f)\<close> by (fastforce simp: pg_exact_filter_def)
    with that(1) show ?thesis by (auto simp: pg_joins_of_def Let_def list_ex_iff filter_empty_conv good_value_def split: tag_operand.splits)
  qed
  then have 1: "\<not> list_ex empty_in (pq_joins q)" using some(9) by (fastforce simp: list_ex_iff)
  have "ci = [] \<or> filter_tags f = []"
    using assms(1) some(4) by (auto simp: pg_exact_filter_def pg_list_cond_def)
  moreover have "\<not> list_ex (\<lambda>c. case c of PgIds _ \<Rightarrow> True | _ \<Rightarrow> False) (ca @ ck @ cs @ cu)"
    using some(3,5,6,7) by (auto simp: pg_list_cond_def pg_time_cond_def Let_def split: option.splits if_splits)
  ultimately have "pq_joins q = [] \<or> \<not> list_ex (\<lambda>c. case c of PgIds _ \<Rightarrow> True | _ \<Rightarrow> False) (pq_conds q)"
    using some(8,9) by auto
  with 1 show ?thesis by (auto simp: pg_valid_def)
qed (use assms(2) in simp)

section \<open>Results\<close>

definition pg_row_event :: "externals \<Rightarrow> pg_event_row \<Rightarrow> event option" where
  "pg_row_event X r = map_option build_index (event_from_str X (pge_content r))"

lemma pg_row_event_stored:
  assumes "json_roundtrips X" "pg_stores X db r e" "plain_event e"
  shows "pg_row_event X r = Some e"
proof -
  have "event_from_str X (pge_content r) = Some (e\<lparr>ev_delegated_by := None, ev_tagidx := None\<rparr>)"
    using assms(1,2) by (intro event_from_to_str) (simp_all add: pg_stores_def)
  moreover have "e\<lparr>ev_delegated_by := None, ev_tagidx := None\<rparr> = e\<lparr>ev_tagidx := None\<rparr>"
    using assms(3) by (simp add: plain_event_def)
  ultimately show ?thesis using assms(3) by (simp add: pg_row_event_def plain_event_def indexed_def)
qed

text \<open>What a client with this filter should get.\<close>

definition pg_wanted :: "externals \<Rightarrow> int \<Rightarrow> req_filter \<Rightarrow> pg_store \<Rightarrow> pg_event_row set" where
  "pg_wanted X now f db = {r \<in> set (pgs_events db). \<not> pge_hidden r \<and> pg_alive now r \<and>
     (\<exists>e. pg_row_event X r = Some e \<and> filter_interested f e)}"

lemma pg_rows_mem:
  "r \<in> set (pg_rows now q db) \<longleftrightarrow> r \<in> set (pgs_events db) \<and> \<not> pge_hidden r \<and> pg_alive now r \<and>
     list_all (cond_holds r) (pq_conds q) \<and> list_all (joined db r) (pq_joins q)"
  by (auto simp: pg_rows_def multiplicity_pos [symmetric])

lemma orders_newest_set: "orders_newest ord \<Longrightarrow> set (ord xs) = set xs \<and> length (ord xs) = length xs"
  unfolding orders_newest_def by (metis set_mset_mset size_mset)

lemma pg_fetch_content:
  assumes "orders_newest ord" "pg_valid q"
  shows "\<exists>out. pg_fetch ord now q db = Ok out \<and> set out \<subseteq> pge_content ` set (pg_rows now q db) \<and>
    (length (pg_rows now q db) \<le> pq_limit q \<longrightarrow> set out = pge_content ` set (pg_rows now q db))"
proof -
  obtain rs where rs: "rs = (if pq_desc q then ord (pg_rows now q db) else rev (ord (pg_rows now q db)))" by simp
  then have s: "set rs = set (pg_rows now q db)" "length rs = length (pg_rows now q db)"
    using orders_newest_set [OF assms(1)] by auto
  have "pg_fetch ord now q db = Ok (map pge_content (take (pq_limit q) rs))" using assms(2) rs by (simp add: pg_fetch_def)
  moreover have "set (map pge_content (take (pq_limit q) rs)) \<subseteq> pge_content ` set rs"
    using set_take_subset [of "pq_limit q" rs] by auto
  ultimately show ?thesis using s by auto
qed

definition std_newest :: pg_row_order where
  "std_newest xs = rev (sort_key pge_created_at xs)"

lemma std_newest_orders: "orders_newest std_newest"
proof -
  have "sorted_wrt (\<lambda>a b. pge_created_at b \<le> pge_created_at a) (rev (sort_key pge_created_at xs))" for xs :: "pg_event_row list"
    using sorted_sort_key [of pge_created_at xs] by (simp add: sorted_wrt_rev sorted_map)
  then show ?thesis by (simp add: orders_newest_def std_newest_def)
qed

lemma pg_query_limit:
  assumes "pg_query_from_filter X tk f = Done (Some q)"
  shows "pq_desc q = (rf_limit f \<noteq> None)" "pq_limit q = (case rf_limit f of None \<Rightarrow> 1000 | Some lim \<Rightarrow> unat (min lim 1000))"
  using assms by (auto simp: pg_query_from_filter_def Let_def split: if_splits option.splits exec.splits)

lemma min_1000: "unat (min lim (1000 :: u64)) = min (unat lim) 1000"
  by (auto simp: min_def word_le_nat_alt)

text \<open>A tag condition with several values counts every matching tag.\<close>

lemma or_join_counts:
  assumes "pg_joins_of X (k, Or a) = [j]" "pq_joins q = [j]" "\<forall>v\<in>fset a. good_value v"
  shows "multiplicity q db r =
    length (filter (\<lambda>t. pgt_event_id t = pge_id r \<and> (\<exists>v\<in>fset a. pg_tag_matches X k v t)) (pgs_tags db))"
  using join_or_matches [OF assms(3,1)] assms(2) by (simp add: multiplicity_def)

section \<open>Gift wraps\<close>

definition wraps_for :: "string \<Rightarrow> req_filter" where
  "wraps_for pk = empty_filter\<lparr>rf_kinds := Some [1059], rf_tags := Some [(''p'', Or {|pk|})]\<rparr>"

lemma wraps_for_query:
  "pg_query_from_filter X tk (wraps_for pk) =
     Done (Some \<lparr>pq_joins = pg_joins_of X (''p'', Or {|pk|}), pq_conds = [PgKinds [1059]], pq_desc = False, pq_limit = 1000\<rparr>)"
  by (simp add: pg_query_from_filter_def wraps_for_def empty_filter_def pg_list_cond_def pg_time_cond_def as_i64_numeral)

lemma wraps_for_valid:
  assumes "pg_query_from_filter X tk (wraps_for pk) = Done (Some q)" "good_value pk"
  shows "pg_valid q"
  using assms by (auto simp: wraps_for_query pg_valid_def pg_joins_of_def Let_def good_value_def list_ex_iff filter_empty_conv)

lemma tagged_row_selected:
  assumes "hex_laws X" "pg_tagged (r, t) db" "pg_tag_matches X ''p'' pk t" "\<not> pge_hidden r" "good_value pk"
    and "pg_query_from_filter X tk (wraps_for pk) = Done (Some q)"
  shows "r \<in> set (pg_rows now q db)"
proof -
  have q: "pq_joins q = pg_joins_of X (''p'', Or {|pk|})" "pq_conds q = [PgKinds [1059]]"
    using assms(6) by (auto simp: wraps_for_query)
  obtain j where j: "pg_joins_of X (''p'', Or {|pk|}) = [j]" by (simp add: pg_joins_of_def Let_def)
  have "join_matches j t" using join_or_matches [OF _ j, of t] assms(3,5) by simp
  then have "joined db r j" using assms(2) by (auto simp: joined_def pg_tagged_def)
  with assms(2,4) show ?thesis unfolding pg_rows_mem q j by (simp add: pg_tagged_def pg_alive_def)
qed

lemma pg_gift_wrap_stored:
  assumes "pg_write_event X ord tk f e db = Done (db', Ok 1)" "ev_kind e = 1059" "expiration e = None" "pg_inv db"
    "[''p'', pk] \<in> set (ev_tags e)" "hex_laws X"
  obtains r t where "pg_tagged (r, t) db'" "pg_tag_matches X ''p'' pk t" "\<not> pge_hidden r" "event_to_string X e = Some (pge_content r)"
proof -
  have "\<not> is_replaceable e" "\<not> is_param_replaceable e"
    using assms(2) by (simp_all add: is_replaceable_def is_param_replaceable_def)
  note drops = pg_drops_plain [OF this]
  from assms(1) obtain h a c where "event_to_string X e = Some c"
    "pg_apply_deletions X f e h a (pg_insert X tk e h a c db) = Ok (db', 1)"
    by (auto simp: drops elim: pg_write_stored [where n = 0, simplified])
  then have c: "event_to_string X e = Some c" "db' = pg_insert X tk e h a c db" using assms(2) by (auto simp: pg_apply_deletions_def)
  let ?r = "pg_new_row X tk e h a c" and ?t = "pg_tag_row_of X h [''p'', pk]"
  have "[''p'', pk] \<in> set (searchable_tags e)" using assms(5) by (simp add: searchable_tags_def single_char_tagname_def)
  moreover have "pge_expires_at ?r = None" using assms(3) by (simp add: pg_new_row_def)
  moreover have "pg_inv db'" using pg_write_inv [OF assms(4), of X ord tk f e] assms(1) by (simp add: after_def)
  ultimately have "pg_tagged (?r, ?t) db'" using c(2) assms(2) by (auto simp: pg_tagged_def pg_insert_def as_i64_numeral)
  moreover have "pg_tag_matches X ''p'' pk ?t" using pg_tag_row_matches [OF assms(6), of "''p''" pk h "[''p'', pk]"] by simp
  ultimately show thesis using that c(1) by simp
qed

section \<open>Properties\<close>



text \<open>C23: A PostgreSQL query returns at most a thousand rows, whatever limit was asked for, and with
  a limit these are the newest of the joined rows, newest first. Without a limit they are the oldest ones: when more than a
  thousand rows match, it is the newest events that the client does not get.\<close>

theorem postgres_query_bounded:
  assumes "orders_newest ord" "pg_query_from_filter X tk f = Done (Some q)" "pg_fetch ord now q db = Ok out"
  shows "\<exists>sent rest. out = map pge_content sent \<and> mset (sent @ rest) = mset (pg_rows now q db) \<and>
    length sent = min (min 1000 (case rf_limit f of None \<Rightarrow> 1000 | Some lim \<Rightarrow> unat lim)) (length (pg_rows now q db)) \<and>
    (if rf_limit f = None then sorted_wrt (\<lambda>a b. pge_created_at a \<le> pge_created_at b) (sent @ rest)
     else sorted_wrt (\<lambda>a b. pge_created_at b \<le> pge_created_at a) (sent @ rest))"
proof -
  define rs where "rs = (if pq_desc q then ord (pg_rows now q db) else rev (ord (pg_rows now q db)))"
  have n: "pq_limit q = min 1000 (case rf_limit f of None \<Rightarrow> 1000 | Some lim \<Rightarrow> unat lim)"
    by (auto simp: pg_query_limit(2) [OF assms(2)] min_1000 split: option.splits)
  have out: "out = map pge_content (take (pq_limit q) rs)"
    using assms(3) by (auto simp: pg_fetch_def rs_def Let_def split: if_splits)
  have m: "mset rs = mset (pg_rows now q db)" and s: "if rf_limit f = None then sorted_wrt (\<lambda>a b. pge_created_at a \<le> pge_created_at b) rs
      else sorted_wrt (\<lambda>a b. pge_created_at b \<le> pge_created_at a) rs"
    using assms(1) pg_query_limit(1) [OF assms(2)] by (auto simp: orders_newest_def rs_def sorted_wrt_rev)
  have l: "length rs = length (pg_rows now q db)" using m by (metis size_mset)
  show ?thesis
    by (rule exI [of _ "take (pq_limit q) rs"], rule exI [of _ "drop (pq_limit q) rs"])
      (use m s in \<open>simp add: out l n [symmetric] min.commute del: mset_append\<close>)
qed

theorem postgres_query_bounded_witness:
  "\<exists>sent rest. [] = map pge_content sent \<and> mset (sent @ rest) = mset (pg_rows 7 \<lparr>pq_joins = [], pq_conds = [], pq_desc = False, pq_limit = 1000\<rparr> pg_empty)"
proof -
  have q: "pg_query_from_filter std_ext (\<lambda>_. True) empty_filter = Done (Some \<lparr>pq_joins = [], pq_conds = [], pq_desc = False, pq_limit = 1000\<rparr>)"
    by (simp add: pg_query_from_filter_def empty_filter_def pg_list_cond_def pg_time_cond_def)
  have "pg_fetch std_newest 7 \<lparr>pq_joins = [], pq_conds = [], pq_desc = False, pq_limit = 1000\<rparr> pg_empty = Ok []"
    by (simp add: pg_fetch_def pg_valid_def pg_rows_def pg_empty_def std_newest_def)
  from postgres_query_bounded [OF std_newest_orders q this] show ?thesis by blast
qed

text \<open>C14: A gift wrap stored on PostgreSQL is not lost. Once a gift wrap without expiration for a recipient is
  written, then after any later operations of the repository (other writes, deletion requests, replacement, expiry
  sweeps, verification records, failing or not) PostgreSQL accepts the query for the gift wraps of
  that recipient, and the answer contains it, provided that at most a thousand rows match.\<close>

theorem postgres_gift_wrap_found:
  assumes "hex_laws X" "orders_newest ord'" "pg_write_event X ord tk f e (fold (pg_ev_step X ord tk) ps pg_empty) = Done (db, Ok 1)"
    and "ev_kind e = 1059" "expiration e = None" "[''p'', pk] \<in> set (ev_tags e)" "good_value pk"
  shows "\<exists>content q out. event_to_string X e = Some content \<and> pg_query_from_filter X tk (wraps_for pk) = Done (Some q) \<and>
    pg_fetch ord' now q (fold (pg_ev_step X ord tk) qs db) = Ok out \<and>
    (length (pg_rows now q (fold (pg_ev_step X ord tk) qs db)) \<le> 1000 \<longrightarrow> content \<in> set out)"
proof -
  have inv: "pg_inv (fold (pg_ev_step X ord tk) ps pg_empty)"
    by (rule pg_run_inv) (simp add: pg_inv_def pg_empty_def)
  from pg_gift_wrap_stored [OF assms(3-5) inv assms(6,1)] obtain r t where
    r: "pg_tagged (r, t) db" "pg_tag_matches X ''p'' pk t" "\<not> pge_hidden r" "event_to_string X e = Some (pge_content r)" .
  let ?db = "fold (pg_ev_step X ord tk) qs db"
  obtain q where q: "pg_query_from_filter X tk (wraps_for pk) = Done (Some q)" "pq_limit q = 1000" by (simp add: wraps_for_query)
  have "r \<in> set (pg_rows now q ?db)"
    using tagged_row_selected [OF assms(1) pg_tags.kept_run [OF r(1)] r(2,3) assms(7) q(1)] .
  moreover obtain out where "pg_fetch ord' now q ?db = Ok out"
    "length (pg_rows now q ?db) \<le> 1000 \<Longrightarrow> set out = pge_content ` set (pg_rows now q ?db)"
    using pg_fetch_content [OF assms(2) wraps_for_valid [OF q(1) assms(7)], of now ?db] q(2) by auto
  ultimately show ?thesis using r(4) q(1) by blast
qed

theorem postgres_gift_wrap_found_witness:
  "\<exists>db content q out. pg_write_event std_ext id (\<lambda>_. True) (\<lambda>_. None) (demo_event\<lparr>ev_id := replicate 64 CHR ''0''\<rparr>) pg_empty = Done (db, Ok 1) \<and>
    event_to_string std_ext (demo_event\<lparr>ev_id := replicate 64 CHR ''0''\<rparr>) = Some content \<and>
    pg_query_from_filter std_ext (\<lambda>_. True) (wraps_for (replicate 64 CHR ''b'')) = Done (Some q) \<and>
    pg_fetch std_newest 7 q db = Ok out \<and> (length (pg_rows 7 q db) \<le> 1000 \<longrightarrow> content \<in> set out)"
proof -
  let ?e = "demo_event\<lparr>ev_id := replicate 64 CHR ''0''\<rparr>" and ?tk = "\<lambda>_. True" and ?pk = "replicate 64 CHR ''b''"
  have hd: "\<exists>b. hex_decode std_ext (ev_id ?e) = Some b" "\<exists>b. hex_decode std_ext (ev_pubkey ?e) = Some b"
    using std_hex_dec_64 [of "ev_id ?e"] std_hex_dec_64 [of "ev_pubkey ?e"]
    by (auto simp: demo_event_def hexdigits_replicate ascii_defs)
  have k: "ev_kind ?e = 1059" "\<not> is_replaceable ?e" "\<not> is_param_replaceable ?e" "expiration ?e = None"
    by (simp_all add: demo_event_def is_replaceable_def is_param_replaceable_def expiration_def first_value_def)
  obtain c where c: "event_to_string std_ext ?e = Some c" by (simp add: event_to_string_def std_json_to_string_def)
  have "\<exists>db. pg_write_event std_ext id ?tk (\<lambda>_. None) ?e pg_empty = Done (db, Ok 1)"
    using hd k c by (auto simp: pg_write_event_def pg_store_event_def pg_superseded_def pg_param_superseded_def pg_drops_plain
        pg_apply_deletions_def distinct_param_def pg_empty_def as_i64_numeral in_i32_def)
  then obtain db where db: "pg_write_event std_ext id ?tk (\<lambda>_. None) ?e pg_empty = Done (db, Ok 1)" ..
  then have "pg_write_event std_ext id ?tk (\<lambda>_. None) ?e (fold (pg_ev_step std_ext id ?tk) [] pg_empty) = Done (db, Ok 1)" by simp
  moreover have "[''p'', ?pk] \<in> set (ev_tags ?e)" "good_value ?pk" by (simp_all add: demo_event_def good_value_def)
  ultimately have "\<exists>content q out. event_to_string std_ext ?e = Some content \<and>
      pg_query_from_filter std_ext ?tk (wraps_for ?pk) = Done (Some q) \<and> pg_fetch std_newest 7 q (fold (pg_ev_step std_ext id ?tk) [] db) = Ok out \<and>
      (length (pg_rows 7 q (fold (pg_ev_step std_ext id ?tk) [] db)) \<le> 1000 \<longrightarrow> content \<in> set out)"
    by (intro postgres_gift_wrap_found [OF std_hex_laws std_newest_orders _ k(1,4)])
  with db show ?thesis by simp
qed

end
