(* ===== verification/Pg_Migration.thy ===== *)
theory Pg_Migration
  imports Pg_Query_Properties
begin

text \<open>
  Migrations of the PostgreSQL repository (\<^verbatim>\<open>src/src/repo/postgres_migration.rs\<close>). The database is the table of
  applied serial numbers, the tables with their columns, and the event store. Each migration runs in a transaction of its own; all
  failures there are unwrapped. After the second migration the tag table is filled again, in another transaction: there a failure to begin or
  to read the events (\<open>PmRead\<close>) panics, and a failure to write the tags (\<open>PmRebuild\<close>) is returned. The argument \<open>F\<close> says which database calls fail.
\<close>

section \<open>Statements\<close>

datatype pg_ddl =
    PgCreateTable string "string list"
  | PgAddColumn string string
  | PgOther \<comment> \<open>indexes, types, constraints\<close>

record pg_mig_db =
  pm_serials :: "nat list"
  pm_tables :: "(string \<times> string list) list"
  pm_store :: pg_store

fun pg_exec_ddl :: "pg_ddl \<Rightarrow> (string \<times> string list) list \<Rightarrow> (string \<times> string list) list option" where
  "pg_exec_ddl (PgCreateTable t cs) ts = (if map_of ts t = None then Some (ts @ [(t, cs)]) else None)"
| "pg_exec_ddl (PgAddColumn t c) ts =
     (case map_of ts t of None \<Rightarrow> None
      | Some cs \<Rightarrow> if c \<in> set cs then None else Some (map (\<lambda>(u, ds). (u, if u = t then ds @ [c] else ds)) ts))"
| "pg_exec_ddl PgOther ts = Some ts"

fun pg_exec_all :: "pg_ddl list \<Rightarrow> (string \<times> string list) list \<Rightarrow> (string \<times> string list) list option" where
  "pg_exec_all [] ts = Some ts"
| "pg_exec_all (d # ds) ts = Option.bind (pg_exec_ddl d ts) (pg_exec_all ds)"

section \<open>Migrations\<close>

record pg_migration =
  serial_number :: nat
  mig_sql :: "pg_ddl list"

definition m001 :: pg_migration where
  "m001 = \<lparr>serial_number = 1, mig_sql =
     [PgCreateTable ''event'' [''id'', ''pub_key'', ''created_at'', ''kind'', ''content'', ''hidden'', ''delegated_by'', ''first_seen''],
      PgOther, PgOther, PgOther,
      PgCreateTable ''tag'' [''id'', ''event_id'', ''name'', ''value''], PgOther, PgOther,
      PgCreateTable ''user_verification'' [''id'', ''event_id'', ''name'', ''verified_at'', ''failed_at'', ''fail_count''], PgOther, PgOther]\<rparr>"

definition m002 :: pg_migration where
  "m002 = \<lparr>serial_number = 2, mig_sql = [PgAddColumn ''tag'' ''value_hex'', PgOther, PgOther]\<rparr>"

definition m003 :: pg_migration where
  "m003 = \<lparr>serial_number = 3, mig_sql = [PgOther]\<rparr>"

definition m004 :: pg_migration where
  "m004 = \<lparr>serial_number = 4, mig_sql = [PgAddColumn ''event'' ''expires_at'', PgOther]\<rparr>"

definition m005 :: pg_migration where
  "m005 = \<lparr>serial_number = 5, mig_sql =
     [PgCreateTable ''account'' [''pubkey'', ''is_admitted'', ''balance'', ''tos_accepted_at''], PgOther,
      PgCreateTable ''invoice'' [''payment_hash'', ''pubkey'', ''invoice'', ''amount'', ''status'', ''description'', ''created_at'', ''confirmed_at'']]\<rparr>"

datatype migration_result = Upgraded | NotNeeded

datatype pg_mig_place = PmPrepare | PmRun nat | PmRead | PmRebuild | PmVersion

text \<open>\<open>None\<close> is a panic; nothing of the failed transaction stays.\<close>

definition run_migration :: "(pg_mig_place \<Rightarrow> bool) \<Rightarrow> pg_migration \<Rightarrow> pg_mig_db \<Rightarrow> (pg_mig_db \<times> migration_result) option" where
  "run_migration F m db =
     (if F (PmRun (serial_number m)) then None
      else if serial_number m \<in> set (pm_serials db) then Some (db, NotNeeded)
      else map_option (\<lambda>ts. (db\<lparr>pm_tables := ts, pm_serials := pm_serials db @ [serial_number m]\<rparr>, Upgraded))
        (pg_exec_all (mig_sql m) (pm_tables db)))"

fun pg_rebuilt_tags :: "externals \<Rightarrow> pg_event_row list \<Rightarrow> pg_tag_row list option" where
  "pg_rebuilt_tags X [] = Some []"
| "pg_rebuilt_tags X (r # rs) =
     (case event_from_str X (pge_content r) of None \<Rightarrow> None
      | Some e \<Rightarrow> map_option (\<lambda>ts. map (pg_tag_row_of X (pge_id r)) (searchable_tags e) @ ts) (pg_rebuilt_tags X rs))"

definition pg_rebuild_tags :: "externals \<Rightarrow> (pg_mig_place \<Rightarrow> bool) \<Rightarrow> pg_mig_db \<Rightarrow> pg_mig_db \<times> (unit, error) result exec" where
  "pg_rebuild_tags X F db =
     (if F PmRead then (db, Panic)
      else if F PmRebuild then (db, Done (Err (SqlxError (OtherSqlxError ''rebuild failed''))))
      else (case pg_rebuilt_tags X (sort_key pge_id (pgs_events (pm_store db))) of
          None \<Rightarrow> (db, Done (Err (JsonParseFailed [])))
        | Some ts \<Rightarrow> (db\<lparr>pm_store := (pm_store db)\<lparr>pgs_tags := ts\<rparr>\<rparr>, Done (Ok ()))))"

fun run_all :: "(pg_mig_place \<Rightarrow> bool) \<Rightarrow> pg_migration list \<Rightarrow> pg_mig_db \<Rightarrow> pg_mig_db \<times> bool" where
  "run_all F [] db = (db, True)"
| "run_all F (m # ms) db = (case run_migration F m db of None \<Rightarrow> (db, False) | Some (db', _) \<Rightarrow> run_all F ms db')"

definition current_version :: "pg_mig_db \<Rightarrow> nat" where
  "current_version db = fold max (pm_serials db) 0"

definition run_migrations :: "externals \<Rightarrow> (pg_mig_place \<Rightarrow> bool) \<Rightarrow> pg_mig_db \<Rightarrow> pg_mig_db \<times> (nat, error) result exec" where
  "run_migrations X F db =
     (if F PmPrepare then (db, Panic)
      else (case run_migration F m001 db of None \<Rightarrow> (db, Panic) | Some (db1, _) \<Rightarrow>
      (case run_migration F m002 db1 of None \<Rightarrow> (db1, Panic) | Some (db2, r) \<Rightarrow>
      (case (if r = Upgraded then pg_rebuild_tags X F db2 else (db2, Done (Ok ()))) of
         (db3, Panic) \<Rightarrow> (db3, Panic)
       | (db3, Done (Err e)) \<Rightarrow> (db3, Done (Err e))
       | (db3, Done (Ok _)) \<Rightarrow>
         (case run_all F [m003, m004, m005] db3 of
            (db4, False) \<Rightarrow> (db4, Panic)
          | (db4, True) \<Rightarrow> if F PmVersion then (db4, Panic) else (db4, Done (Ok (current_version db4))))))))"

section \<open>Lemmas\<close>

lemmas migration_defs = m001_def m002_def m003_def m004_def m005_def

lemma rebuilt_tags_of:
  assumes "pg_rebuilt_tags X rs = Some ts" "distinct (map pge_id rs)" "r \<in> set rs"
  shows "\<exists>e. event_from_str X (pge_content r) = Some e \<and> {t \<in> set ts. pgt_event_id t = pge_id r} = pg_tag_row_of X (pge_id r) ` set (searchable_tags e)"
  using assms
proof (induction rs arbitrary: ts)
  case (Cons q rs)
  from Cons.prems(1) obtain e us where e: "event_from_str X (pge_content q) = Some e" "pg_rebuilt_tags X rs = Some us"
    "ts = map (pg_tag_row_of X (pge_id q)) (searchable_tags e) @ us" by (auto split: option.splits)
  have ids: "pgt_event_id ` set us \<subseteq> pge_id ` set rs" using e(2)
  proof (induction rs arbitrary: us)
    case (Cons p ps)
    from Cons.prems obtain e' vs where "pg_rebuilt_tags X ps = Some vs" "us = map (pg_tag_row_of X (pge_id p)) (searchable_tags e') @ vs"
      by (auto split: option.splits)
    with Cons.IH [of vs] show ?case by auto
  qed simp
  show ?case
  proof (cases "r = q")
    case True
    have "pge_id q \<notin> pgt_event_id ` set us" using ids Cons.prems(2) by auto
    then have "{t \<in> set ts. pgt_event_id t = pge_id q} = pg_tag_row_of X (pge_id q) ` set (searchable_tags e)"
      using e(3) by (auto simp: image_iff)
    with True e(1) show ?thesis by blast
  next
    case False
    with Cons.prems(3) have r: "r \<in> set rs" by simp
    with Cons.prems(2) have "pge_id r \<noteq> pge_id q" by (metis distinct.simps(2) image_eqI list.simps(9) set_map)
    then have "{t \<in> set ts. pgt_event_id t = pge_id r} = {t \<in> set us. pgt_event_id t = pge_id r}" using e(3) by auto
    with Cons.IH [OF e(2) _ r] Cons.prems(2) show ?thesis by simp
  qed
qed simp

definition pg_new :: pg_mig_db where
  "pg_new = \<lparr>pm_serials = [], pm_tables = [], pm_store = pg_empty\<rparr>"

definition pg_calm :: "pg_mig_place \<Rightarrow> bool" where
  "pg_calm p = False"

lemma run_migrations_again:
  assumes "{1, 2, 3, 4, 5} \<subseteq> set (pm_serials db)"
  shows "run_migrations X pg_calm db = (db, Done (Ok (current_version db)))"
  using assms by (simp add: run_migrations_def run_migration_def pg_calm_def migration_defs)

text \<open>The schema version 1 left.\<close>

definition schema_1 :: "(string \<times> string list) list" where
  "schema_1 = the (pg_exec_all (mig_sql m001) [])"

section \<open>Properties\<close>

text \<open>The PostgreSQL migrations arrive at version 5 and stay there. On a new database they create all tables with all columns
  the repository uses and answer 5; running them again, as every start does, changes nothing. On a
  database of version 1 whose events parse they also fill the tag table so that every event has exactly
  the rows that writing it would have inserted.\<close>

theorem postgres_migrations_complete:
  assumes "db = pg_new \<or> (pm_serials db = [1] \<and> pm_tables db = schema_1 \<and> distinct (map pge_id (pgs_events (pm_store db))) \<and>
    (\<forall>r\<in>set (pgs_events (pm_store db)). event_from_str X (pge_content r) \<noteq> None))"
  shows "\<exists>db'. run_migrations X pg_calm db = (db', Done (Ok 5)) \<and> run_migrations X pg_calm db' = (db', Done (Ok 5)) \<and>
    map_of (pm_tables db') ''event'' = Some [''id'', ''pub_key'', ''created_at'', ''kind'', ''content'', ''hidden'', ''delegated_by'', ''first_seen'', ''expires_at''] \<and>
    map_of (pm_tables db') ''tag'' = Some [''id'', ''event_id'', ''name'', ''value'', ''value_hex''] \<and>
    map_of (pm_tables db') ''account'' \<noteq> None \<and> map_of (pm_tables db') ''invoice'' \<noteq> None \<and>
    pgs_events (pm_store db') = pgs_events (pm_store db) \<and>
    (\<forall>r\<in>set (pgs_events (pm_store db')). \<exists>e. event_from_str X (pge_content r) = Some e \<and>
      {t \<in> set (pgs_tags (pm_store db')). pgt_event_id t = pge_id r} = pg_tag_row_of X (pge_id r) ` set (searchable_tags e))"
proof -
  have total: "\<exists>ts. pg_rebuilt_tags X rs = Some ts" if "\<forall>r\<in>set rs. event_from_str X (pge_content r) \<noteq> None" for rs
    using that by (induction rs) auto
  let ?rs = "sort_key pge_id (pgs_events (pm_store db))"
  have "\<forall>r\<in>set ?rs. event_from_str X (pge_content r) \<noteq> None" using assms by (auto simp: pg_new_def pg_empty_def)
  then obtain ts where ts: "pg_rebuilt_tags X ?rs = Some ts" using total by blast
  have "distinct (map pge_id ?rs)" using assms by (auto simp: pg_new_def pg_empty_def distinct_map)
  note tags = rebuilt_tags_of [OF ts this]
  let ?T = "[(''event'', [''id'', ''pub_key'', ''created_at'', ''kind'', ''content'', ''hidden'', ''delegated_by'', ''first_seen'', ''expires_at'']),
     (''tag'', [''id'', ''event_id'', ''name'', ''value'', ''value_hex'']),
     (''user_verification'', [''id'', ''event_id'', ''name'', ''verified_at'', ''failed_at'', ''fail_count'']),
     (''account'', [''pubkey'', ''is_admitted'', ''balance'', ''tos_accepted_at'']),
     (''invoice'', [''payment_hash'', ''pubkey'', ''invoice'', ''amount'', ''status'', ''description'', ''created_at'', ''confirmed_at''])]"
  let ?db' = "\<lparr>pm_serials = [1, 2, 3, 4, 5], pm_tables = ?T, pm_store = (pm_store db)\<lparr>pgs_tags := ts\<rparr>\<rparr>"
  have "run_migrations X pg_calm db = (?db', Done (Ok 5))"
    using assms ts
    by (elim disjE) (simp_all add: run_migrations_def run_migration_def pg_calm_def migration_defs pg_rebuild_tags_def current_version_def
        pg_new_def schema_1_def)
  moreover have "run_migrations X pg_calm ?db' = (?db', Done (Ok 5))"
    by (simp add: run_migrations_again current_version_def)
  ultimately show ?thesis using tags by (intro exI [of _ ?db']) auto
qed

theorem postgres_migrations_complete_witness:
  "\<exists>db'. run_migrations std_ext pg_calm pg_new = (db', Done (Ok 5)) \<and> run_migrations std_ext pg_calm db' = (db', Done (Ok 5))"
  using postgres_migrations_complete [of pg_new std_ext] by blast

text \<open>A failed rebuild of the PostgreSQL tag table is never repeated. When the second migration is
  committed and the rebuild after it fails, the start ends with an error; the next start finds the
  migration applied, does not rebuild, and reaches version 5 with the tag rows as they were before:
  values in the text column only. No binary value is ever found in them, so queries for keys and event ids
  miss all events stored before.\<close>

theorem postgres_tag_rebuild_lost:
  assumes "pm_serials db = [1]" "pm_tables db = schema_1" "\<forall>t\<in>set (pgs_tags (pm_store db)). pgt_value_hex t = None"
    and "F = (\<lambda>p. p = PmRebuild)"
  shows "\<exists>db1 x db2. run_migrations X F db = (db1, Done (Err x)) \<and> run_migrations X pg_calm db1 = (db2, Done (Ok 5)) \<and>
    pm_store db2 = pm_store db \<and> (\<forall>k v. pg_hex_value v \<longrightarrow> (\<forall>t\<in>set (pgs_tags (pm_store db2)). \<not> pg_tag_matches X k v t))"
proof -
  let ?db1 = "db\<lparr>pm_serials := [1, 2], pm_tables := the (pg_exec_all (mig_sql m002) schema_1)\<rparr>"
  let ?db2 = "?db1\<lparr>pm_serials := [1, 2, 3, 4, 5], pm_tables := the (pg_exec_all (mig_sql m004 @ mig_sql m005) (pm_tables ?db1))\<rparr>"
  have "run_migrations X F db = (?db1, Done (Err (SqlxError (OtherSqlxError ''rebuild failed''))))"
    using assms(1,2) by (simp add: assms(4) run_migrations_def run_migration_def migration_defs pg_rebuild_tags_def schema_1_def)
  moreover have "run_migrations X pg_calm ?db1 = (?db2, Done (Ok 5))"
    by (simp add: run_migrations_def run_migration_def migration_defs schema_1_def pg_calm_def current_version_def)
  moreover have "\<not> pg_tag_matches X k v t" if "pg_hex_value v" "t \<in> set (pgs_tags (pm_store ?db2))" for k v t
    using that assms(3) by (auto simp: pg_tag_matches_def)
  moreover have "pm_store ?db2 = pm_store db" by simp
  ultimately show ?thesis by blast
qed

theorem postgres_tag_rebuild_lost_witness:
  "\<exists>db1 x db2. run_migrations std_ext (\<lambda>p. p = PmRebuild) \<lparr>pm_serials = [1], pm_tables = schema_1, pm_store = pg_empty\<rparr> = (db1, Done (Err x)) \<and>
     run_migrations std_ext pg_calm db1 = (db2, Done (Ok 5)) \<and> pm_store db2 = pg_empty"
  using postgres_tag_rebuild_lost [of "\<lparr>pm_serials = [1], pm_tables = schema_1, pm_store = pg_empty\<rparr>" "\<lambda>p. p = PmRebuild" std_ext]
  by (auto simp: pg_empty_def)

end
