(* ===== verification/Migration.thy ===== *)
theory Migration
  imports Sqlite_Query
begin

text \<open>
  Schema and migrations of the SQLite repository (\<^verbatim>\<open>src/src/repo/sqlite_migration.rs\<close>). A database on disk is its
  catalogue (tables with their columns, indexes, \<^verbatim>\<open>user_version\<close>) and the rows that migrations read or change. A batch
  of statements runs statement by statement outside of a transaction: a failure leaves
  what came before it, and the source then panics. The argument \<open>F\<close> says which database calls
  fail; \<open>F p n\<close> is the n-th statement of place \<open>p\<close>.
\<close>

section \<open>Catalogue and rows\<close>

record old_event =
  oe_id :: nat
  oe_author :: string
  oe_kind :: u64
  oe_created_at :: u64
  oe_hidden :: "bool option"
  oe_content :: string

record old_tag =
  ot_event_id :: nat
  ot_name :: string
  ot_value :: "string option"
  ot_value_hex :: "string option"
  ot_kind :: "u64 option"
  ot_created_at :: "u64 option"

record mig_db =
  md_version :: nat
  md_tables :: "(string \<times> string list) list"
  md_indexes :: "(string \<times> string \<times> string list) list"
  md_events :: "old_event list"
  md_tags :: "old_tag list"
  md_event_refs :: "(nat \<times> string) list"
  md_pubkey_refs :: "(nat \<times> string) list"

datatype ddl =
    CreateTable bool string "string list" \<comment> \<open>\<^verbatim>\<open>IF NOT EXISTS\<close>, name, columns\<close>
  | AddColumn string string
  | DropTable bool string
  | CreateIndex string string "string list" \<comment> \<open>always \<^verbatim>\<open>IF NOT EXISTS\<close>\<close>
  | DropIndex string
  | SetVersion nat
  | ShowAll \<comment> \<open>\<^verbatim>\<open>UPDATE event SET hidden=FALSE\<close>\<close>
  | DeleteHidden \<comment> \<open>\<^verbatim>\<open>DELETE FROM event WHERE HIDDEN=true\<close>\<close>
  | Maintenance \<comment> \<open>pragmas, reindex, optimize\<close>

definition has_column :: "mig_db \<Rightarrow> string \<Rightarrow> string \<Rightarrow> bool" where
  "has_column db t c \<longleftrightarrow> (case map_of (md_tables db) t of None \<Rightarrow> False | Some cs \<Rightarrow> c \<in> set cs)"

definition has_table :: "mig_db \<Rightarrow> string \<Rightarrow> bool" where
  "has_table db t \<longleftrightarrow> map_of (md_tables db) t \<noteq> None"

definition has_index :: "mig_db \<Rightarrow> string \<Rightarrow> bool" where
  "has_index db i \<longleftrightarrow> map_of (md_indexes db) i \<noteq> None"

definition delete_hidden_events :: "mig_db \<Rightarrow> mig_db" where
  "delete_hidden_events db =
     (let gone = oe_id ` {e \<in> set (md_events db). oe_hidden e = Some True} in
      db\<lparr>md_events := filter (\<lambda>e. oe_hidden e \<noteq> Some True) (md_events db),
         md_tags := filter (\<lambda>t. ot_event_id t \<notin> gone) (md_tags db)\<rparr>)"

definition create_table :: "string \<Rightarrow> string list \<Rightarrow> mig_db \<Rightarrow> mig_db" where
  "create_table t cs db = (if has_table db t then db else db\<lparr>md_tables := md_tables db @ [(t, cs)]\<rparr>)"

definition add_column :: "string \<Rightarrow> string \<Rightarrow> mig_db \<Rightarrow> mig_db" where
  "add_column t c db = db\<lparr>md_tables := map (\<lambda>(u, cs). (u, if u = t then cs @ [c] else cs)) (md_tables db)\<rparr>"

definition drop_table :: "string \<Rightarrow> mig_db \<Rightarrow> mig_db" where
  "drop_table t db =
     db\<lparr>md_tables := filter (\<lambda>(u, _). u \<noteq> t) (md_tables db),
        md_indexes := filter (\<lambda>(_, u, _). u \<noteq> t) (md_indexes db),
        md_tags := (if t = ''tag'' then [] else md_tags db),
        md_event_refs := (if t = ''event_ref'' then [] else md_event_refs db),
        md_pubkey_refs := (if t = ''pubkey_ref'' then [] else md_pubkey_refs db)\<rparr>"

definition create_index :: "string \<Rightarrow> string \<Rightarrow> string list \<Rightarrow> mig_db \<Rightarrow> mig_db" where
  "create_index i t cs db = (if has_index db i then db else db\<lparr>md_indexes := md_indexes db @ [(i, t, cs)]\<rparr>)"

definition drop_index :: "string \<Rightarrow> mig_db \<Rightarrow> mig_db" where
  "drop_index i db = db\<lparr>md_indexes := filter (\<lambda>(j, _). j \<noteq> i) (md_indexes db)\<rparr>"

text \<open>One statement; \<open>None\<close> is an error of SQLite.\<close>

fun exec_ddl :: "ddl \<Rightarrow> mig_db \<Rightarrow> mig_db option" where
  "exec_ddl (CreateTable ifne t cs) db = (if has_table db t \<and> \<not> ifne then None else Some (create_table t cs db))"
| "exec_ddl (AddColumn t c) db = (if has_table db t \<and> \<not> has_column db t c then Some (add_column t c db) else None)"
| "exec_ddl (DropTable ife t) db =
     (if has_table db t then Some (drop_table t db) else if ife then Some db else None)"
| "exec_ddl (CreateIndex i t cs) db =
     (if has_index db i \<or> list_all (has_column db t) cs then Some (create_index i t cs db) else None)"
| "exec_ddl (DropIndex i) db = Some (drop_index i db)"
| "exec_ddl (SetVersion v) db = Some (db\<lparr>md_version := v\<rparr>)"
| "exec_ddl ShowAll db =
     (if has_column db ''event'' ''hidden''
      then Some (db\<lparr>md_events := map (\<lambda>e. e\<lparr>oe_hidden := Some False\<rparr>) (md_events db)\<rparr>) else None)"
| "exec_ddl DeleteHidden db = (if has_column db ''event'' ''hidden'' then Some (delete_hidden_events db) else None)"
| "exec_ddl Maintenance db = Some db"

text \<open>A batch, with the number of its first statement; the flag says whether it ran to its end.\<close>

fun run_batch :: "(nat \<Rightarrow> bool) \<Rightarrow> nat \<Rightarrow> ddl list \<Rightarrow> mig_db \<Rightarrow> mig_db \<times> bool" where
  "run_batch fail n [] db = (db, True)"
| "run_batch fail n (s # ss) db =
     (if fail n then (db, False)
      else (case exec_ddl s db of None \<Rightarrow> (db, False) | Some db' \<Rightarrow> run_batch fail (Suc n) ss db'))"

section \<open>The schema\<close>

definition DB_VERSION :: nat where
  "DB_VERSION = 19"

definition INIT_SQL :: "ddl list" where
  "INIT_SQL =
     [Maintenance, Maintenance, Maintenance, Maintenance, Maintenance, Maintenance, SetVersion DB_VERSION,
      CreateTable True ''event'' [''id'', ''event_hash'', ''first_seen'', ''created_at'', ''expires_at'', ''author'', ''delegated_by'',
        ''kind'', ''hidden'', ''content''],
      CreateIndex ''event_hash_index'' ''event'' [''event_hash''],
      CreateIndex ''author_index'' ''event'' [''author''],
      CreateIndex ''kind_index'' ''event'' [''kind''],
      CreateIndex ''created_at_index'' ''event'' [''created_at''],
      CreateIndex ''delegated_by_index'' ''event'' [''delegated_by''],
      CreateIndex ''event_composite_index'' ''event'' [''kind'', ''created_at''],
      CreateIndex ''kind_author_index'' ''event'' [''kind'', ''author''],
      CreateIndex ''kind_created_at_index'' ''event'' [''kind'', ''created_at''],
      CreateIndex ''author_created_at_index'' ''event'' [''author'', ''created_at''],
      CreateIndex ''author_kind_index'' ''event'' [''author'', ''kind''],
      CreateIndex ''event_expiration'' ''event'' [''expires_at''],
      CreateTable True ''tag'' [''id'', ''event_id'', ''name'', ''value'', ''value_hex'', ''created_at'', ''kind''],
      CreateIndex ''tag_val_index'' ''tag'' [''value''],
      CreateIndex ''tag_composite_index'' ''tag'' [''event_id'', ''name'', ''value''],
      CreateIndex ''tag_name_eid_index'' ''tag'' [''name'', ''event_id'', ''value''],
      CreateIndex ''tag_covering_index'' ''tag'' [''name'', ''kind'', ''value'', ''created_at'', ''event_id''],
      CreateTable True ''user_verification'' [''id'', ''metadata_event'', ''name'', ''verified_at'', ''failed_at'', ''failure_count''],
      CreateIndex ''user_verification_name_index'' ''user_verification'' [''name''],
      CreateIndex ''user_verification_event_index'' ''user_verification'' [''metadata_event''],
      CreateTable True ''account'' [''pubkey'', ''is_admitted'', ''balance'', ''tos_accepted_at''],
      CreateIndex ''user_pubkey_index'' ''account'' [''pubkey''],
      CreateTable True ''invoice'' [''payment_hash'', ''pubkey'', ''invoice'', ''amount'', ''status'', ''description'', ''created_at'', ''confirmed_at''],
      CreateIndex ''invoice_pubkey_index'' ''invoice'' [''pubkey''],
      CreateTable True ''name_claims'' [''name'', ''pubkey'', ''created_at'', ''released_at''],
      CreateIndex ''name_claims_pubkey_index'' ''name_claims'' [''pubkey''],
      CreateIndex ''name_claims_active_pubkey'' ''name_claims'' [''pubkey'']]"

section \<open>Migrations\<close>

datatype mig_place =
  AtVersion | AtInit | AtBatch nat | AtTx nat | AtVacuum nat | AtHidden | AtCount | AtStartup

type_synonym mig_faults = "mig_place \<Rightarrow> nat \<Rightarrow> bool"

text \<open>What a migration leaves on disk, and how it ended: a version, an error or a panic.\<close>

type_synonym mig_result = "mig_db \<times> (nat, error) result exec"

definition mig_error :: error where
  "mig_error = SqlError (OtherSqlError ''migration statement failed'')"

definition batch_or_panic :: "mig_faults \<Rightarrow> mig_place \<Rightarrow> ddl list \<Rightarrow> nat \<Rightarrow> mig_db \<Rightarrow> mig_result" where
  "batch_or_panic F p sql v db =
     (case run_batch (F p) 0 sql db of (db', fin) \<Rightarrow> (db', if fin then Done (Ok v) else Panic))"

definition curr_db_version :: "mig_faults \<Rightarrow> mig_db \<Rightarrow> (nat, error) result" where
  "curr_db_version F db = (if F AtVersion 0 then Err mig_error else Ok (md_version db))"

definition mig_init :: "mig_faults \<Rightarrow> mig_db \<Rightarrow> mig_result" where
  "mig_init F db = batch_or_panic F AtInit INIT_SQL DB_VERSION db"

definition mig_1_to_2 :: "mig_faults \<Rightarrow> mig_db \<Rightarrow> mig_result" where
  "mig_1_to_2 F db = batch_or_panic F (AtBatch 1) [AddColumn ''event'' ''hidden'', ShowAll, SetVersion 2] 2 db"

text \<open>The old reference tables become tags. The version is already set when this begins.\<close>

definition ref_tags :: "externals \<Rightarrow> mig_db \<Rightarrow> old_tag list" where
  "ref_tags X db =
     map (\<lambda>(i, n, v). \<lparr>ot_event_id = i, ot_name = n, ot_value = None, ot_value_hex = hex_decode X v, ot_kind = None, ot_created_at = None\<rparr>)
       (filter (\<lambda>(i, n, v). is_lower_hex v)
         (remdups (map (\<lambda>(i, b). (i, ''e'', hex_encode X b)) (md_event_refs db) @
                   map (\<lambda>(i, b). (i, ''p'', hex_encode X b)) (md_pubkey_refs db))))"

definition mig_2_to_3 :: "externals \<Rightarrow> mig_faults \<Rightarrow> mig_db \<Rightarrow> mig_result" where
  "mig_2_to_3 X F db =
     (case run_batch (F (AtBatch 2)) 0
         [CreateTable True ''tag'' [''id'', ''event_id'', ''name'', ''value'', ''value_hex''], SetVersion 3] db of
        (db1, False) \<Rightarrow> (db1, Panic)
      | (db1, True) \<Rightarrow>
        if F (AtTx 2) 0 \<or> \<not> has_table db1 ''event_ref'' \<or> \<not> has_table db1 ''pubkey_ref'' then (db1, Done (Err mig_error))
        else (db1\<lparr>md_tags := md_tags db1 @ ref_tags X db1\<rparr>, Done (Ok 3)))"

definition mig_3_to_4 :: "mig_faults \<Rightarrow> mig_db \<Rightarrow> mig_result" where
  "mig_3_to_4 F db = batch_or_panic F (AtBatch 3)
     [CreateTable True ''user_verification'' [''id'', ''metadata_event'', ''name'', ''verified_at'', ''failed_at'', ''failure_count''],
      CreateIndex ''user_verification_name_index'' ''user_verification'' [''name''],
      CreateIndex ''user_verification_event_index'' ''user_verification'' [''metadata_event''], SetVersion 4] 4 db"

definition mig_4_to_5 :: "mig_faults \<Rightarrow> mig_db \<Rightarrow> mig_result" where
  "mig_4_to_5 F db = batch_or_panic F (AtBatch 4) [DropTable True ''event_ref'', DropTable True ''pubkey_ref'', SetVersion 5] 5 db"

text \<open>The tags of all events, in the order of their ids; \<open>None\<close> if the content of one does not parse.\<close>

fun rebuilt_tags :: "externals \<Rightarrow> (old_event \<Rightarrow> string list \<Rightarrow> old_tag) \<Rightarrow> old_event list \<Rightarrow> old_tag list option" where
  "rebuilt_tags X mk [] = Some []"
| "rebuilt_tags X mk (e # es) =
     (case event_from_str X (oe_content e) of None \<Rightarrow> None
      | Some ev \<Rightarrow> map_option (\<lambda>ts. map (mk e) (searchable_tags ev) @ ts) (rebuilt_tags X mk es))"

definition hex_tag :: "externals \<Rightarrow> old_event \<Rightarrow> string list \<Rightarrow> old_tag" where
  "hex_tag X e t =
     (if even (length (t ! 1)) \<and> is_lower_hex (t ! 1)
      then \<lparr>ot_event_id = oe_id e, ot_name = t ! 0, ot_value = None, ot_value_hex = hex_decode X (t ! 1), ot_kind = None, ot_created_at = None\<rparr>
      else \<lparr>ot_event_id = oe_id e, ot_name = t ! 0, ot_value = Some (t ! 1), ot_value_hex = None, ot_kind = None, ot_created_at = None\<rparr>)"

definition text_tag :: "old_event \<Rightarrow> string list \<Rightarrow> old_tag" where
  "text_tag e t = \<lparr>ot_event_id = oe_id e, ot_name = t ! 0, ot_value = Some (t ! 1), ot_value_hex = None,
     ot_kind = Some (oe_kind e), ot_created_at = Some (oe_created_at e)\<rparr>"

definition vacuum :: "mig_faults \<Rightarrow> nat \<Rightarrow> mig_db \<Rightarrow> mig_result" where
  "vacuum F v db = (db, Done (if F (AtVacuum v) 0 then Err mig_error else Ok v))"

definition mig_5_to_6 :: "externals \<Rightarrow> mig_faults \<Rightarrow> mig_db \<Rightarrow> mig_result" where
  "mig_5_to_6 X F db =
     (if F (AtTx 5) 0 then (db, Done (Err mig_error))
      else (case rebuilt_tags X (hex_tag X) (sort_key oe_id (md_events db)) of
          None \<Rightarrow> (db, Done (Err (JsonParseFailed [])))
        | Some ts \<Rightarrow> vacuum F 6 (db\<lparr>md_tags := ts, md_version := 6\<rparr>)))"

definition mig_6_to_7 :: "mig_faults \<Rightarrow> mig_db \<Rightarrow> mig_result" where
  "mig_6_to_7 F db = batch_or_panic F (AtBatch 6)
     [AddColumn ''event'' ''delegated_by'', CreateIndex ''delegated_by_index'' ''event'' [''delegated_by''], SetVersion 7] 7 db"

definition mig_7_to_8 :: "mig_faults \<Rightarrow> mig_db \<Rightarrow> mig_result" where
  "mig_7_to_8 F db = batch_or_panic F (AtBatch 7)
     [DropIndex ''created_at_index'', DropIndex ''kind_index'',
      CreateIndex ''event_composite_index'' ''event'' [''kind'', ''created_at''], SetVersion 8] 8 db"

definition mig_8_to_9 :: "mig_faults \<Rightarrow> mig_db \<Rightarrow> mig_result" where
  "mig_8_to_9 F db = batch_or_panic F (AtBatch 8)
     [CreateIndex ''created_at_index'' ''event'' [''created_at''],
      CreateIndex ''event_composite_index'' ''event'' [''kind'', ''created_at''], SetVersion 9] 9 db"

definition mig_9_to_10 :: "mig_faults \<Rightarrow> mig_db \<Rightarrow> mig_result" where
  "mig_9_to_10 F db = batch_or_panic F (AtBatch 9)
     [CreateIndex ''tag_composite_index'' ''tag'' [''event_id'', ''name'', ''value_hex'', ''value''], SetVersion 10] 10 db"

definition mig_10_to_11 :: "mig_faults \<Rightarrow> mig_db \<Rightarrow> mig_result" where
  "mig_10_to_11 F db = batch_or_panic F (AtBatch 10)
     [CreateIndex ''tag_name_eid_index'' ''tag'' [''name'', ''event_id'', ''value_hex''], Maintenance, Maintenance, SetVersion 11] 11 db"

definition old_replaceable :: "old_event \<Rightarrow> bool" where
  "old_replaceable e \<longleftrightarrow> oe_kind e \<in> {0, 3, 41} \<or> (10000 \<le> oe_kind e \<and> oe_kind e < 20000)"

text \<open>Hide all but the newest event of one author and kind; \<^verbatim>\<open>hidden!=TRUE\<close> is not true for NULL.\<close>

definition hide_older :: "row_order \<Rightarrow> old_event \<Rightarrow> old_event list \<Rightarrow> old_event list" where
  "hide_older ord e es =
     (let same = (\<lambda>x. oe_kind x = oe_kind e \<and> oe_author x = oe_author e);
          kept = take 1 (ord (map (\<lambda>x. (oe_id x, oe_created_at x)) (filter same es)))
      in map (\<lambda>x. if oe_hidden x = Some False \<and> same x \<and> oe_id x \<notin> fst ` set kept then x\<lparr>oe_hidden := Some True\<rparr> else x) es)"

definition mig_11_to_12 :: "row_order \<Rightarrow> mig_faults \<Rightarrow> mig_db \<Rightarrow> mig_result" where
  "mig_11_to_12 ord F db =
     (if F (AtTx 11) 0 then (db, Done (Err mig_error))
      else vacuum F 12 (db\<lparr>md_events := fold (hide_older ord) (filter old_replaceable (sort_key oe_id (md_events db))) (md_events db),
        md_version := 12\<rparr>))"

definition mig_12_to_13 :: "mig_faults \<Rightarrow> mig_db \<Rightarrow> mig_result" where
  "mig_12_to_13 F db = batch_or_panic F (AtBatch 12)
     [CreateIndex ''kind_author_index'' ''event'' [''kind'', ''author''], Maintenance, Maintenance, SetVersion 13] 13 db"

definition mig_13_to_14 :: "mig_faults \<Rightarrow> mig_db \<Rightarrow> mig_result" where
  "mig_13_to_14 F db = batch_or_panic F (AtBatch 13)
     [CreateIndex ''kind_index'' ''event'' [''kind''], CreateIndex ''kind_created_at_index'' ''event'' [''kind'', ''created_at''],
      Maintenance, SetVersion 14] 14 db"

definition mig_14_to_15 :: "mig_faults \<Rightarrow> mig_db \<Rightarrow> mig_result" where
  "mig_14_to_15 F db =
     (case run_batch (F (AtBatch 14)) 0
         [CreateIndex ''author_created_at_index'' ''event'' [''author'', ''created_at''],
          CreateIndex ''author_kind_index'' ''event'' [''author'', ''kind''], SetVersion 15] db of
        (db1, False) \<Rightarrow> (db1, Panic)
      | (db1, True) \<Rightarrow> batch_or_panic F AtHidden [DeleteHidden] 15 db1)"

text \<open>One transaction: the tag table is dropped, created anew and filled.\<close>

definition mig_15_to_16 :: "externals \<Rightarrow> mig_faults \<Rightarrow> mig_db \<Rightarrow> mig_result" where
  "mig_15_to_16 X F db =
     (if F AtCount 0 \<or> F (AtTx 15) 0 then (db, Done (Err mig_error))
      else (case run_batch (F (AtBatch 15)) 0
          [DropTable False ''tag'', CreateTable False ''tag'' [''id'', ''event_id'', ''name'', ''value'', ''created_at'', ''kind''],
           CreateIndex ''tag_val_index'' ''tag'' [''value''],
           CreateIndex ''tag_composite_index'' ''tag'' [''event_id'', ''name'', ''value''],
           CreateIndex ''tag_name_eid_index'' ''tag'' [''name'', ''event_id'', ''value''],
           CreateIndex ''tag_covering_index'' ''tag'' [''name'', ''kind'', ''value'', ''created_at'', ''event_id'']] db of
          (_, False) \<Rightarrow> (db, Done (Err mig_error))
        | (db1, True) \<Rightarrow>
          (case rebuilt_tags X text_tag (sort_key oe_id (md_events db)) of
             None \<Rightarrow> (db, Done (Err (JsonParseFailed [])))
           | Some ts \<Rightarrow> (db1\<lparr>md_tags := ts, md_version := 16\<rparr>, Done (Ok 16)))))"

definition mig_16_to_17 :: "mig_faults \<Rightarrow> mig_db \<Rightarrow> mig_result" where
  "mig_16_to_17 F db = batch_or_panic F (AtBatch 16)
     [AddColumn ''event'' ''expires_at'', CreateIndex ''event_expiration'' ''event'' [''expires_at''], SetVersion 17] 17 db"

definition mig_17_to_18 :: "mig_faults \<Rightarrow> mig_db \<Rightarrow> mig_result" where
  "mig_17_to_18 F db = batch_or_panic F (AtBatch 17)
     [CreateTable True ''invoice'' [''payment_hash'', ''pubkey'', ''invoice'', ''amount'', ''status'', ''description'', ''created_at'', ''confirmed_at''],
      CreateIndex ''invoice_pubkey_index'' ''invoice'' [''pubkey''],
      CreateTable True ''account'' [''pubkey'', ''is_admitted'', ''balance'', ''tos_accepted_at''],
      CreateIndex ''account_pubkey_index'' ''account'' [''pubkey''], Maintenance, SetVersion 18] 18 db"

definition mig_18_to_19 :: "mig_faults \<Rightarrow> mig_db \<Rightarrow> mig_result" where
  "mig_18_to_19 F db = batch_or_panic F (AtBatch 18)
     [CreateTable True ''name_claims'' [''name'', ''pubkey'', ''created_at'', ''released_at''],
      CreateIndex ''name_claims_pubkey_index'' ''name_claims'' [''pubkey''],
      CreateIndex ''name_claims_active_pubkey'' ''name_claims'' [''pubkey''], SetVersion 19] 19 db"

section \<open>Upgrading\<close>

text \<open>The sequence of \<^verbatim>\<open>if curr_version == k\<close> tests: each migration runs only on its version, an error or a panic
  ends the sequence.\<close>

definition migration :: "externals \<Rightarrow> row_order \<Rightarrow> mig_faults \<Rightarrow> nat \<Rightarrow> mig_db \<Rightarrow> mig_result" where
  "migration X ord F k =
     [mig_init F, mig_1_to_2 F, mig_2_to_3 X F, mig_3_to_4 F, mig_4_to_5 F, mig_5_to_6 X F, mig_6_to_7 F, mig_7_to_8 F, mig_8_to_9 F,
      mig_9_to_10 F, mig_10_to_11 F, mig_11_to_12 ord F, mig_12_to_13 F, mig_13_to_14 F, mig_14_to_15 F, mig_15_to_16 X F,
      mig_16_to_17 F, mig_17_to_18 F, mig_18_to_19 F] ! k"

fun mig_chain :: "externals \<Rightarrow> row_order \<Rightarrow> mig_faults \<Rightarrow> nat list \<Rightarrow> nat \<Rightarrow> mig_db \<Rightarrow> mig_result" where
  "mig_chain X ord F [] v db = (db, Done (Ok v))"
| "mig_chain X ord F (k # ks) v db =
     (if v = k then
        (case migration X ord F k db of
           (db', Done (Ok v')) \<Rightarrow> mig_chain X ord F ks v' db'
         | r \<Rightarrow> r)
      else mig_chain X ord F ks v db)"

definition upgrade_db :: "externals \<Rightarrow> row_order \<Rightarrow> mig_faults \<Rightarrow> mig_db \<Rightarrow> mig_result" where
  "upgrade_db X ord F db =
     (case curr_db_version F db of
        Err e \<Rightarrow> (db, Done (Err e))
      | Ok v \<Rightarrow>
        if DB_VERSION < v then (db, Panic)
        else
          (case (if v < DB_VERSION then mig_chain X ord F [0..<19] v db else (db, Done (Ok v))) of
             (db', Done (Ok _)) \<Rightarrow> (db', Done (if F AtStartup 0 then Err mig_error else Ok DB_VERSION))
           | r \<Rightarrow> r))"

section \<open>Helpers beside the upgrade\<close>

definition db_event_count :: "mig_faults \<Rightarrow> mig_db \<Rightarrow> (nat, error) result" where
  "db_event_count F db = (if F AtCount 0 then Err mig_error else Ok (length (md_events db)))"

definition db_tag_count :: "mig_faults \<Rightarrow> mig_db \<Rightarrow> (nat, error) result" where
  "db_tag_count F db = (if F AtCount 1 then Err mig_error else Ok (length (md_tags db)))"

text \<open>\<^verbatim>\<open>rebuild_tags\<close> inserts as the migration to version 6 did. From version 16 on the columns \<^verbatim>\<open>created_at\<close> and \<^verbatim>\<open>kind\<close> of the tag
  table must not be NULL, and every insertion fails.\<close>

definition rebuild_tags :: "externals \<Rightarrow> mig_faults \<Rightarrow> mig_db \<Rightarrow> mig_db \<times> (unit, error) result" where
  "rebuild_tags X F db =
     (case db_event_count F db of Err e \<Rightarrow> (db, Err e)
      | Ok _ \<Rightarrow>
        if F (AtTx 0) 0 then (db, Err mig_error)
        else (case rebuilt_tags X (hex_tag X) (sort_key oe_id (md_events db)) of
            None \<Rightarrow> (db, Err (JsonParseFailed []))
          | Some ts \<Rightarrow> if ts \<noteq> [] \<and> has_column db ''tag'' ''created_at'' then (db, Err (SqlError (SqliteFailure True)))
                       else (db\<lparr>md_tags := ts\<rparr>, Ok ())))"

section \<open>What statements do to the catalogue\<close>

text \<open>An index on the event table.\<close>

definition event_index :: "mig_db \<Rightarrow> string \<Rightarrow> bool" where
  "event_index db i \<longleftrightarrow> (\<exists>cs. (i, ''event'', cs) \<in> set (md_indexes db))"

text \<open>Names that queries give after \<^verbatim>\<open>INDEXED BY\<close>.\<close>

definition forced :: "string set" where
  "forced = {''event_hash_index'', ''kind_created_at_index'', ''author_index'', ''author_kind_index'', ''author_created_at_index''}"

definition forced_on_event :: "mig_db \<Rightarrow> bool" where
  "forced_on_event db \<longleftrightarrow> (\<forall>(i, t, cs)\<in>set (md_indexes db). i \<in> forced \<longrightarrow> t = ''event'')"

lemma has_table_update [simp]:
  "has_table (create_table t cs db) u \<longleftrightarrow> has_table db u \<or> u = t"
  "has_table (add_column t c db) u = has_table db u"
  "has_table (drop_table t db) u \<longleftrightarrow> has_table db u \<and> u \<noteq> t"
  "has_table (create_index i t cs db) u = has_table db u"
  "has_table (drop_index i db) u = has_table db u"
  "has_table (db\<lparr>md_version := v\<rparr>) u = has_table db u"
  "has_table (db\<lparr>md_events := es\<rparr>) u = has_table db u"
  "has_table (db\<lparr>md_tags := ts\<rparr>) u = has_table db u"
  "has_table (delete_hidden_events db) u = has_table db u"
proof -
  have "map_of (map (\<lambda>(u, cs). (u, if u = t then cs @ [c] else cs)) ts) u = map_option (\<lambda>cs. if u = t then cs @ [c] else cs) (map_of ts u)"
    for ts :: "(string \<times> string list) list" by (induction ts) auto
  then show "has_table (add_column t c db) u = has_table db u" by (simp add: has_table_def add_column_def)
  have "map_of (filter (\<lambda>(u, _). u \<noteq> t) ts) u = (if u = t then None else map_of ts u)"
    for ts :: "(string \<times> string list) list" by (induction ts) auto
  then show "has_table (drop_table t db) u \<longleftrightarrow> has_table db u \<and> u \<noteq> t" by (simp add: has_table_def drop_table_def)
qed (auto simp: has_table_def create_table_def create_index_def drop_index_def delete_hidden_events_def Let_def map_add_def split: option.splits)

lemma has_column_update [simp]:
  "has_column (create_table t cs db) u c \<longleftrightarrow> has_column db u c \<or> (u = t \<and> \<not> has_table db t \<and> c \<in> set cs)"
  "has_column (add_column t d db) u c \<longleftrightarrow> has_column db u c \<or> (u = t \<and> c = d \<and> has_table db t)"
  "has_column (drop_table t db) u c \<longleftrightarrow> has_column db u c \<and> u \<noteq> t"
  "has_column (create_index i t cs db) u c = has_column db u c"
  "has_column (drop_index i db) u c = has_column db u c"
  "has_column (db\<lparr>md_version := v\<rparr>) u c = has_column db u c"
  "has_column (db\<lparr>md_events := es\<rparr>) u c = has_column db u c"
  "has_column (db\<lparr>md_tags := ts\<rparr>) u c = has_column db u c"
  "has_column (delete_hidden_events db) u c = has_column db u c"
proof -
  have "map_of (map (\<lambda>(u, cs). (u, if u = t then cs @ [d] else cs)) ts) u = map_option (\<lambda>cs. if u = t then cs @ [d] else cs) (map_of ts u)"
    for ts :: "(string \<times> string list) list" by (induction ts) auto
  then show "has_column (add_column t d db) u c \<longleftrightarrow> has_column db u c \<or> (u = t \<and> c = d \<and> has_table db t)"
    by (auto simp: has_table_def has_column_def add_column_def split: option.splits)
  have "map_of (filter (\<lambda>(u, _). u \<noteq> t) ts) u = (if u = t then None else map_of ts u)"
    for ts :: "(string \<times> string list) list" by (induction ts) auto
  then show "has_column (drop_table t db) u c \<longleftrightarrow> has_column db u c \<and> u \<noteq> t" by (auto simp: has_column_def drop_table_def)
qed (auto simp: has_table_def has_column_def create_table_def create_index_def drop_index_def delete_hidden_events_def Let_def map_add_def
    split: option.splits)

lemma column_table: "has_column db t c \<Longrightarrow> has_table db t"
  by (auto simp: has_column_def has_table_def split: option.splits)

lemma event_index_update [simp]:
  "event_index (create_table t cs db) i = event_index db i"
  "event_index (add_column t c db) i = event_index db i"
  "t \<noteq> ''event'' \<Longrightarrow> event_index (drop_table t db) i = event_index db i"
  "j \<noteq> i \<Longrightarrow> event_index (drop_index j db) i = event_index db i"
  "event_index (db\<lparr>md_version := v\<rparr>) i = event_index db i"
  "event_index (db\<lparr>md_events := es\<rparr>) i = event_index db i"
  "event_index (db\<lparr>md_tags := ts\<rparr>) i = event_index db i"
  "event_index (delete_hidden_events db) i = event_index db i"
  by (auto simp: event_index_def create_table_def add_column_def drop_table_def drop_index_def delete_hidden_events_def Let_def)

lemma event_index_create [simp]:
  "j \<noteq> i \<Longrightarrow> event_index (create_index j t cs db) i = event_index db i"
  "forced_on_event db \<Longrightarrow> i \<in> forced \<Longrightarrow> event_index (create_index i ''event'' cs db) i"
  by (auto simp: event_index_def create_index_def has_index_def forced_on_event_def dest!: map_of_SomeD)

lemma forced_update [simp]:
  "forced_on_event (create_table t cs db) = forced_on_event db"
  "forced_on_event (add_column t c db) = forced_on_event db"
  "forced_on_event (db\<lparr>md_version := v\<rparr>) = forced_on_event db"
  "forced_on_event (db\<lparr>md_events := es\<rparr>) = forced_on_event db"
  "forced_on_event (db\<lparr>md_tags := ts\<rparr>) = forced_on_event db"
  "forced_on_event (delete_hidden_events db) = forced_on_event db"
  by (simp_all add: forced_on_event_def create_table_def add_column_def delete_hidden_events_def Let_def)

lemma forced_kept [simp]:
  "forced_on_event db \<Longrightarrow> forced_on_event (drop_table t db)"
  "forced_on_event db \<Longrightarrow> forced_on_event (drop_index i db)"
  "forced_on_event db \<Longrightarrow> t = ''event'' \<or> i \<notin> forced \<Longrightarrow> forced_on_event (create_index i t cs db)"
  by (auto simp: forced_on_event_def drop_table_def drop_index_def create_index_def)

lemma rows_update [simp]:
  "md_events (create_table t cs db) = md_events db" "md_events (add_column t c db) = md_events db"
  "md_events (drop_table t db) = md_events db" "md_events (create_index i t cs db) = md_events db"
  "md_events (drop_index i db) = md_events db"
  "md_version (create_table t cs db) = md_version db" "md_version (add_column t c db) = md_version db"
  "md_version (drop_table t db) = md_version db" "md_version (create_index i t cs db) = md_version db"
  "md_version (drop_index i db) = md_version db" "md_version (delete_hidden_events db) = md_version db"
  "md_tags (create_table t cs db) = md_tags db" "md_tags (add_column t c db) = md_tags db"
  "md_tags (create_index i t cs db) = md_tags db" "md_tags (drop_index i db) = md_tags db"
  by (simp_all add: create_table_def add_column_def drop_table_def create_index_def drop_index_def delete_hidden_events_def Let_def)

section \<open>Versions\<close>

text \<open>What a database of a version looks like, as far as the migrations rely on it. The source does not
  contain the schema of version 1.\<close>

definition readable :: "externals \<Rightarrow> mig_db \<Rightarrow> bool" where
  "readable X db \<longleftrightarrow> (\<forall>e\<in>set (md_events db). event_from_str X (oe_content e) \<noteq> None)"

definition event_columns :: "nat \<Rightarrow> mig_db \<Rightarrow> bool" where
  "event_columns v db \<longleftrightarrow>
     list_all (has_column db ''event'') [''id'', ''event_hash'', ''first_seen'', ''created_at'', ''author'', ''kind'', ''content''] \<and>
     (has_column db ''event'' ''hidden'' \<longleftrightarrow> 2 \<le> v) \<and> (has_column db ''event'' ''delegated_by'' \<longleftrightarrow> 7 \<le> v) \<and>
     (has_column db ''event'' ''expires_at'' \<longleftrightarrow> 17 \<le> v)"

definition other_tables :: "nat \<Rightarrow> mig_db \<Rightarrow> bool" where
  "other_tables v db \<longleftrightarrow>
     (v \<le> 2 \<longrightarrow> has_table db ''event_ref'' \<and> has_table db ''pubkey_ref'') \<and>
     (has_table db ''tag'' \<longleftrightarrow> 3 \<le> v) \<and> (3 \<le> v \<and> v < 16 \<longrightarrow> list_all (has_column db ''tag'') [''event_id'', ''name'', ''value'', ''value_hex'']) \<and>
     (16 \<le> v \<longrightarrow> list_all (has_column db ''tag'') [''event_id'', ''name'', ''value'', ''created_at'', ''kind'']) \<and>
     (has_table db ''user_verification'' \<longleftrightarrow> 4 \<le> v) \<and>
     (4 \<le> v \<longrightarrow> list_all (has_column db ''user_verification'') [''id'', ''metadata_event'', ''name'', ''verified_at'', ''failed_at'', ''failure_count'']) \<and>
     (has_table db ''account'' \<longleftrightarrow> 18 \<le> v) \<and> (has_table db ''invoice'' \<longleftrightarrow> 18 \<le> v) \<and>
     (18 \<le> v \<longrightarrow> list_all (has_column db ''account'') [''pubkey'', ''is_admitted'', ''balance'', ''tos_accepted_at'']) \<and>
     (18 \<le> v \<longrightarrow> list_all (has_column db ''invoice'') [''payment_hash'', ''pubkey'', ''invoice'', ''amount'', ''status'', ''description'', ''created_at'', ''confirmed_at'']) \<and>
     (has_table db ''name_claims'' \<longleftrightarrow> 19 \<le> v) \<and>
     (19 \<le> v \<longrightarrow> list_all (has_column db ''name_claims'') [''name'', ''pubkey'', ''created_at'', ''released_at''])"

definition event_indexes :: "nat \<Rightarrow> mig_db \<Rightarrow> bool" where
  "event_indexes v db \<longleftrightarrow> forced_on_event db \<and> event_index db ''event_hash_index'' \<and> event_index db ''author_index'' \<and>
     (14 \<le> v \<longrightarrow> event_index db ''kind_created_at_index'') \<and>
     (15 \<le> v \<longrightarrow> event_index db ''author_created_at_index'' \<and> event_index db ''author_kind_index'')"

text \<open>From version 16 on the tag table holds the tags of the stored events.\<close>

definition tags_of_events :: "externals \<Rightarrow> nat \<Rightarrow> mig_db \<Rightarrow> bool" where
  "tags_of_events X v db \<longleftrightarrow> (16 \<le> v \<longrightarrow> rebuilt_tags X text_tag (sort_key oe_id (md_events db)) = Some (md_tags db))"

definition at_version :: "externals \<Rightarrow> nat \<Rightarrow> mig_db \<Rightarrow> bool" where
  "at_version X v db \<longleftrightarrow> md_version db = v \<and> event_columns v db \<and> other_tables v db \<and> event_indexes v db \<and>
     readable X db \<and> tags_of_events X v db"

definition no_faults :: mig_faults where
  "no_faults = (\<lambda>_ _. False)"

lemma rebuilt_total: "(\<forall>e\<in>set es. event_from_str X (oe_content e) \<noteq> None) \<Longrightarrow> \<exists>ts. rebuilt_tags X mk es = Some ts"
  by (induction es) auto

lemma readable_rebuilt:
  assumes "readable X db"
  obtains ts where "rebuilt_tags X mk (sort_key oe_id (md_events db)) = Some ts"
  using rebuilt_total [of "sort_key oe_id (md_events db)" X mk] assms by (auto simp: readable_def)

lemma hide_older_contents: "map oe_content (fold (hide_older ord) rs es) = map oe_content es"
proof (induction rs arbitrary: es)
  case (Cons r rs)
  have "map oe_content (hide_older ord r es) = map oe_content es" by (simp add: hide_older_def Let_def)
  with Cons show ?case by simp
qed simp

lemma readable_contents: "map oe_content es = map oe_content (md_events db) \<Longrightarrow> readable X db \<Longrightarrow> readable X (db\<lparr>md_events := es\<rparr>)"
proof -
  assume a: "map oe_content es = map oe_content (md_events db)" "readable X db"
  have "oe_content ` set es = oe_content ` set (md_events db)" using a(1) by (metis set_map)
  with a(2) show ?thesis unfolding readable_def by simp (metis image_iff)
qed

lemma readable_update [simp]:
  "readable X (create_table t cs db) = readable X db" "readable X (add_column t c db) = readable X db"
  "readable X (drop_table t db) = readable X db" "readable X (create_index i t cs db) = readable X db"
  "readable X (drop_index i db) = readable X db" "readable X (db\<lparr>md_version := v\<rparr>) = readable X db"
  "readable X (db\<lparr>md_tags := ts\<rparr>) = readable X db"
  by (simp_all add: readable_def)

lemma readable_delete: "readable X db \<Longrightarrow> readable X (delete_hidden_events db)"
  by (auto simp: readable_def delete_hidden_events_def Let_def)

lemmas version_defs = at_version_def event_columns_def other_tables_def event_indexes_def tags_of_events_def
lemmas batch_defs = batch_or_panic_def no_faults_def

lemma mig_1_step: "at_version X 1 db \<Longrightarrow> \<exists>db'. mig_1_to_2 no_faults db = (db', Done (Ok 2)) \<and> at_version X 2 db'"
  by (auto simp: mig_1_to_2_def version_defs batch_defs column_table forced_def intro: readable_contents)

lemma mig_3_step: "at_version X 3 db \<Longrightarrow> \<exists>db'. mig_3_to_4 no_faults db = (db', Done (Ok 4)) \<and> at_version X 4 db'"
  by (auto simp: mig_3_to_4_def version_defs batch_defs column_table forced_def)

lemma mig_4_step: "at_version X 4 db \<Longrightarrow> \<exists>db'. mig_4_to_5 no_faults db = (db', Done (Ok 5)) \<and> at_version X 5 db'"
  by (auto simp: mig_4_to_5_def version_defs batch_defs column_table forced_def)

lemma mig_6_step: "at_version X 6 db \<Longrightarrow> \<exists>db'. mig_6_to_7 no_faults db = (db', Done (Ok 7)) \<and> at_version X 7 db'"
  by (auto simp: mig_6_to_7_def version_defs batch_defs column_table forced_def)

lemma mig_7_step: "at_version X 7 db \<Longrightarrow> \<exists>db'. mig_7_to_8 no_faults db = (db', Done (Ok 8)) \<and> at_version X 8 db'"
  by (auto simp: mig_7_to_8_def version_defs batch_defs column_table forced_def)

lemma mig_8_step: "at_version X 8 db \<Longrightarrow> \<exists>db'. mig_8_to_9 no_faults db = (db', Done (Ok 9)) \<and> at_version X 9 db'"
  by (auto simp: mig_8_to_9_def version_defs batch_defs column_table forced_def)

lemma mig_9_step: "at_version X 9 db \<Longrightarrow> \<exists>db'. mig_9_to_10 no_faults db = (db', Done (Ok 10)) \<and> at_version X 10 db'"
  by (auto simp: mig_9_to_10_def version_defs batch_defs column_table forced_def)

lemma mig_10_step: "at_version X 10 db \<Longrightarrow> \<exists>db'. mig_10_to_11 no_faults db = (db', Done (Ok 11)) \<and> at_version X 11 db'"
  by (auto simp: mig_10_to_11_def version_defs batch_defs column_table forced_def)

lemma mig_12_step: "at_version X 12 db \<Longrightarrow> \<exists>db'. mig_12_to_13 no_faults db = (db', Done (Ok 13)) \<and> at_version X 13 db'"
  by (auto simp: mig_12_to_13_def version_defs batch_defs column_table forced_def)

lemma mig_13_step: "at_version X 13 db \<Longrightarrow> \<exists>db'. mig_13_to_14 no_faults db = (db', Done (Ok 14)) \<and> at_version X 14 db'"
  by (auto simp: mig_13_to_14_def version_defs batch_defs column_table forced_def)

lemma mig_16_step: "at_version X 16 db \<Longrightarrow> \<exists>db'. mig_16_to_17 no_faults db = (db', Done (Ok 17)) \<and> at_version X 17 db'"
  by (auto simp: mig_16_to_17_def version_defs batch_defs column_table forced_def)

lemma mig_17_step: "at_version X 17 db \<Longrightarrow> \<exists>db'. mig_17_to_18 no_faults db = (db', Done (Ok 18)) \<and> at_version X 18 db'"
  by (auto simp: mig_17_to_18_def version_defs batch_defs column_table forced_def)

lemma mig_18_step: "at_version X 18 db \<Longrightarrow> \<exists>db'. mig_18_to_19 no_faults db = (db', Done (Ok 19)) \<and> at_version X 19 db'"
  by (auto simp: mig_18_to_19_def version_defs batch_defs column_table forced_def)

lemma mig_2_step: "at_version X 2 db \<Longrightarrow> \<exists>db'. mig_2_to_3 X no_faults db = (db', Done (Ok 3)) \<and> at_version X 3 db'"
  by (simp add: mig_2_to_3_def version_defs batch_defs column_table)

lemma mig_5_step:
  assumes "at_version X 5 db"
  shows "\<exists>db'. mig_5_to_6 X no_faults db = (db', Done (Ok 6)) \<and> at_version X 6 db'"
proof -
  from assms obtain ts where "rebuilt_tags X (hex_tag X) (sort_key oe_id (md_events db)) = Some ts"
    by (auto simp: at_version_def elim: readable_rebuilt)
  with assms show ?thesis by (auto simp: mig_5_to_6_def vacuum_def version_defs batch_defs)
qed

lemma mig_11_step: "at_version X 11 db \<Longrightarrow> \<exists>db'. mig_11_to_12 ord no_faults db = (db', Done (Ok 12)) \<and> at_version X 12 db'"
  by (auto simp: mig_11_to_12_def vacuum_def version_defs batch_defs hide_older_contents intro!: readable_contents)

lemma mig_14_step: "at_version X 14 db \<Longrightarrow> \<exists>db'. mig_14_to_15 no_faults db = (db', Done (Ok 15)) \<and> at_version X 15 db'"
  by (auto simp: mig_14_to_15_def version_defs batch_defs column_table forced_def
      intro: readable_delete)

lemma mig_15_step:
  assumes "at_version X 15 db"
  shows "\<exists>db'. mig_15_to_16 X no_faults db = (db', Done (Ok 16)) \<and> at_version X 16 db'"
proof -
  from assms obtain ts where "rebuilt_tags X text_tag (sort_key oe_id (md_events db)) = Some ts"
    by (auto simp: at_version_def elim: readable_rebuilt)
  with assms show ?thesis
    by (auto simp: mig_15_to_16_def version_defs batch_defs column_table forced_def)
qed

lemmas mig_steps = mig_1_step mig_2_step mig_3_step mig_4_step mig_5_step mig_6_step mig_7_step mig_8_step mig_9_step mig_10_step
  mig_11_step mig_12_step mig_13_step mig_14_step mig_15_step mig_16_step mig_17_step mig_18_step

lemma migration_step:
  assumes "at_version X k db" "1 \<le> k" "k < 19"
  shows "\<exists>db'. migration X ord no_faults k db = (db', Done (Ok (Suc k))) \<and> at_version X (Suc k) db'"
proof -
  have "k = 1 \<or> k = 2 \<or> k = 3 \<or> k = 4 \<or> k = 5 \<or> k = 6 \<or> k = 7 \<or> k = 8 \<or> k = 9 \<or> k = 10 \<or> k = 11 \<or> k = 12 \<or> k = 13 \<or> k = 14 \<or> k = 15 \<or> k = 16 \<or> k = 17 \<or> k = 18"
    using assms(2,3) by presburger
  then show ?thesis using assms(1) mig_steps [of X db] by (auto simp: migration_def numeral_2_eq_2 [symmetric])
qed

lemma mig_chain_step:
  "at_version X v db \<Longrightarrow> 1 \<le> v \<Longrightarrow> v \<le> 19 \<Longrightarrow> j \<le> v \<Longrightarrow>
     \<exists>db'. mig_chain X ord no_faults [j..<19] v db = (db', Done (Ok 19)) \<and> at_version X 19 db'"
proof (induction "19 - j" arbitrary: j v db)
  case 0
  then have "v = 19" by simp
  with 0 show ?case by simp
next
  case (Suc n)
  then have l: "[j..<19] = j # [Suc j..<19]" by (simp add: upt_conv_Cons)
  show ?case
  proof (cases "v = j")
    case True
    moreover have "j < 19" using Suc.hyps(2) by simp
    ultimately obtain db1 where "migration X ord no_faults j db = (db1, Done (Ok (Suc j)))" "at_version X (Suc j) db1"
      using migration_step [of X j db ord] Suc.prems by auto
    with True Suc.hyps Suc.prems Suc.hyps(1) [of "Suc j" "Suc j" db1] show ?thesis unfolding l by auto
  next
    case False
    with Suc.hyps Suc.prems Suc.hyps(1) [of "Suc j" v db] show ?thesis unfolding l by auto
  qed
qed

lemma mig_chain_skip:
  "j \<le> v \<Longrightarrow> v < 19 \<Longrightarrow> mig_chain X ord F [j..<19] v db =
     (case migration X ord F v db of (db', Done (Ok v')) \<Rightarrow> mig_chain X ord F [Suc v..<19] v' db' | r \<Rightarrow> r)"
proof (induction "v - j" arbitrary: j)
  case 0
  then show ?case by (simp add: upt_conv_Cons)
next
  case (Suc n)
  then have "j \<noteq> v" "[j..<19] = j # [Suc j..<19]" by (auto simp: upt_conv_Cons)
  with Suc show ?case by simp
qed

definition new_database :: mig_db where
  "new_database = \<lparr>md_version = 0, md_tables = [], md_indexes = [], md_events = [], md_tags = [], md_event_refs = [], md_pubkey_refs = []\<rparr>"

lemma new_database_init: "\<exists>db'. mig_init no_faults new_database = (db', Done (Ok 19)) \<and> at_version X 19 db'"
proof -
  have n: "\<not> has_table new_database t" "\<not> has_column new_database t c" "forced_on_event new_database"
    "md_events new_database = []" "md_tags new_database = []" for t c
    by (simp_all add: new_database_def has_table_def has_column_def forced_on_event_def)
  show ?thesis
    by (simp add: mig_init_def INIT_SQL_def DB_VERSION_def batch_defs version_defs readable_def n forced_def)
qed

lemma forced_indexes: "override_index f = Some i \<Longrightarrow> i \<in> forced"
  by (auto simp: override_index_def forced_def split: if_splits)

lemma upgrade_current:
  assumes "db = new_database \<or> (1 \<le> v \<and> v \<le> 19 \<and> at_version X v db)"
  shows "\<exists>db'. upgrade_db X ord no_faults db = (db', Done (Ok 19)) \<and> at_version X 19 db'"
proof (cases "db = new_database")
  case True
  obtain db' where db': "mig_init no_faults new_database = (db', Done (Ok 19))" "at_version X 19 db'"
    using new_database_init [of X] by blast
  have "mig_chain X ord no_faults [1..<19] 19 db' = (db', Done (Ok 19))"
    using mig_chain_step [OF db'(2), of 1 ord] by (simp add: upt_rec)
  then have "mig_chain X ord no_faults [0..<19] 0 new_database = (db', Done (Ok 19))"
    using mig_chain_skip [of 0 0 X ord no_faults new_database] db'(1) by (simp add: migration_def)
  with True db'(2) show ?thesis
    by (simp add: upgrade_db_def curr_db_version_def no_faults_def DB_VERSION_def new_database_def)
next
  case False
  with assms have v: "1 \<le> v" "v \<le> 19" "at_version X v db" by auto
  have "md_version db = v" using v(3) by (simp add: at_version_def)
  with mig_chain_step [OF v(3,1,2), of 0 ord] v show ?thesis
    by (cases "v = 19") (auto simp: upgrade_db_def curr_db_version_def no_faults_def DB_VERSION_def)
qed

section \<open>Properties\<close>

text \<open>C26: An upgrade always arrives at the current schema. From a new database and from every version between 1 and 19
  whose schema is as that version left it and whose events parse, an upgrade without database failures ends with
  version 19: all tables and columns the relay uses exist, the tag table holds exactly the searchable tags of the stored events
  (where this was established by version 16 or is by the upgrade), and every index that a generated query forces with
  \<^verbatim>\<open>INDEXED BY\<close> exists on the event table.\<close>

theorem upgrade_reaches_current:
  assumes "db = new_database \<or> (1 \<le> v \<and> v \<le> 19 \<and> at_version X v db)"
  shows "\<exists>db'. upgrade_db X ord no_faults db = (db', Done (Ok 19)) \<and> at_version X 19 db' \<and>
    (\<forall>f i. override_index f = Some i \<longrightarrow> event_index db' i)"
proof -
  obtain db' where db': "upgrade_db X ord no_faults db = (db', Done (Ok 19))" "at_version X 19 db'"
    using upgrade_current [OF assms] by blast
  have "event_index db' i" if "override_index f = Some i" for f i
    using forced_indexes [OF that] db'(2) by (auto simp: forced_def version_defs)
  with db' show ?thesis by blast
qed

definition demo_database :: mig_db where
  "demo_database = \<lparr>md_version = 1,
     md_tables = [(''event'', [''id'', ''event_hash'', ''first_seen'', ''created_at'', ''author'', ''kind'', ''content'']),
       (''event_ref'', [''event_id'', ''referenced_event'']), (''pubkey_ref'', [''event_id'', ''referenced_pubkey''])],
     md_indexes = [(''event_hash_index'', ''event'', [''event_hash'']), (''author_index'', ''event'', [''author''])],
     md_events = [], md_tags = [], md_event_refs = [], md_pubkey_refs = []\<rparr>"

lemma demo_database_version: "at_version X 1 demo_database"
  by (simp add: demo_database_def version_defs has_column_def has_table_def event_index_def forced_on_event_def forced_def readable_def)

theorem upgrade_reaches_current_witness:
  "\<exists>db'. upgrade_db std_ext std_ord no_faults demo_database = (db', Done (Ok 19)) \<and> at_version std_ext 19 db'"
  using upgrade_reaches_current [of demo_database 1 std_ext std_ord] demo_database_version by auto

text \<open>An interrupted change of a table cannot be repeated. When the upgrade from version 16 stops after it added the
  column and before it set the version, it panics, and from then on every upgrade panics at the same place: adding
  the column again fails, and the version stays 16.\<close>

theorem interrupted_upgrade_blocks:
  assumes "at_version X 16 db" "\<not> F AtVersion 0" "\<not> F (AtBatch 16) 0" "F (AtBatch 16) 1"
  shows "\<exists>db1. upgrade_db X ord F db = (db1, Panic) \<and> md_version db1 = 16 \<and>
    (\<forall>F'. \<not> F' AtVersion 0 \<longrightarrow> upgrade_db X ord F' db1 = (db1, Panic))"
proof -
  let ?db1 = "add_column ''event'' ''expires_at'' db"
  have v: "md_version db = 16" "has_table db ''event''" "\<not> has_column db ''event'' ''expires_at''"
    using assms(1) by (auto simp: version_defs intro: column_table)
  have m: "migration X ord G 16 d = mig_16_to_17 G d" for G d by (simp add: migration_def)
  have "upgrade_db X ord F db = (?db1, Panic)"
    using assms v by (simp add: upgrade_db_def curr_db_version_def DB_VERSION_def mig_chain_skip m mig_16_to_17_def batch_or_panic_def)
  moreover have "upgrade_db X ord F' ?db1 = (?db1, Panic)" if "\<not> F' AtVersion 0" for F'
    using that v by (simp add: upgrade_db_def curr_db_version_def DB_VERSION_def mig_chain_skip m mig_16_to_17_def batch_or_panic_def)
  ultimately show ?thesis using v(1) by auto
qed

definition demo_database_16 :: mig_db where
  "demo_database_16 = \<lparr>md_version = 16,
     md_tables = [(''event'', [''id'', ''event_hash'', ''first_seen'', ''created_at'', ''author'', ''kind'', ''content'', ''hidden'', ''delegated_by'']),
       (''tag'', [''id'', ''event_id'', ''name'', ''value'', ''created_at'', ''kind'']),
       (''user_verification'', [''id'', ''metadata_event'', ''name'', ''verified_at'', ''failed_at'', ''failure_count''])],
     md_indexes = map (\<lambda>i. (i, ''event'', [])) [''event_hash_index'', ''author_index'', ''kind_created_at_index'', ''author_created_at_index'', ''author_kind_index''],
     md_events = [], md_tags = [], md_event_refs = [], md_pubkey_refs = []\<rparr>"

lemma demo_database_16_version: "at_version X 16 demo_database_16"
  by (simp add: demo_database_16_def version_defs has_column_def has_table_def event_index_def forced_on_event_def forced_def readable_def)

theorem interrupted_upgrade_blocks_witness:
  "\<exists>db1. upgrade_db std_ext std_ord (\<lambda>p n. p = AtBatch 16 \<and> n = 1) demo_database_16 = (db1, Panic) \<and> md_version db1 = 16 \<and>
    (\<forall>F'. \<not> F' AtVersion 0 \<longrightarrow> upgrade_db std_ext std_ord F' db1 = (db1, Panic))"
  by (rule interrupted_upgrade_blocks [OF demo_database_16_version]) simp_all

end
