(* ===== verification/Startup.thy ===== *)
theory Startup
  imports Pg_Migration Migration Lightning Name_Authority Db_Writer
begin

text \<open>
  Start of the relay: \<^verbatim>\<open>src/src/main.rs\<close>, \<^verbatim>\<open>start_server\<close> of \<^verbatim>\<open>src/src/server.rs\<close>, \<^verbatim>\<open>build_repo\<close> of \<^verbatim>\<open>src/src/db.rs\<close>, the pools of
  \<^verbatim>\<open>src/src/repo/sqlite.rs\<close> and \<^verbatim>\<open>Payment::new\<close>. A start ends serving, with the exit status 1, with a panic, or waits
  forever for a database file. It brings the database to the current schema on the way; both databases are
  the record \<open>disk\<close>. What the operating system, the database servers and other packages answer is the record \<open>start_env\<close>.
  Building HTTP clients, logging, metrics and the listeners for signals have no part in it.
\<close>

section \<open>Ways a start ends\<close>

datatype 'a startup = Going 'a | Fails error | Exits | Panics | Waits

primrec start_then :: "'a startup \<Rightarrow> ('a \<Rightarrow> 'b startup) \<Rightarrow> 'b startup" where
  "start_then (Going a) f = f a"
| "start_then (Fails e) f = Fails e"
| "start_then Exits f = Exits"
| "start_then Panics f = Panics"
| "start_then Waits f = Waits"

lemma start_then_Going: "start_then r f = Going b \<longleftrightarrow> (\<exists>a. r = Going a \<and> f a = Going b)"
  by (cases r) simp_all

record disk =
  dk_sqlite :: mig_db
  dk_postgres :: pg_mig_db

record cli_args =
  arg_db :: "string option"
  arg_config :: "string option"

record start_env =
  su_exists :: "string \<Rightarrow> bool"
  su_is_file :: "string \<Rightarrow> bool"
  su_metadata :: "string \<Rightarrow> bool"
  su_open :: "string \<Rightarrow> bool"
  su_load :: "string option \<Rightarrow> (settings, string) result" \<comment> \<open>file and defaults merged by the \<^verbatim>\<open>config\<close> package\<close>
  su_env :: "string \<Rightarrow> string option"
  su_parse_f64 :: "string \<Rightarrow> f64 option"
  su_parse_duration :: "string \<Rightarrow> duration option"
  su_nanogrin :: "f64 \<Rightarrow> u64"
  su_log :: bool \<comment> \<open>the log could be set up\<close>
  su_is_dir :: "string \<Rightarrow> bool"
  su_parse_addr :: "string \<Rightarrow> bool"
  su_pool_fails :: "string \<Rightarrow> bool"
  su_db_exists :: bool \<comment> \<open>the file exists once the writer pool was built\<close>
  su_write_conn :: "string option" \<comment> \<open>why the writer pool gives no connection\<close>
  su_mig :: mig_faults
  su_pg_parse :: "string \<Rightarrow> bool"
  su_pg_connect :: "string \<Rightarrow> bool"
  su_pg_mig :: "pg_mig_place \<Rightarrow> bool"
  su_read_file :: "string \<Rightarrow> (string, string) result"
  su_is_utf8 :: "string \<Rightarrow> bool"
  su_is_header :: "string \<Rightarrow> bool"
  su_claims_open :: "sql_error option"
  su_keys :: "string \<Rightarrow> (string, error) result" \<comment> \<open>the key pair of a secret key\<close>
  su_bind :: bool

section \<open>Repositories\<close>

text \<open>The package \<^verbatim>\<open>r2d2\<close> refuses an empty pool and a minimum above the maximum with a panic.\<close>

definition build_pool :: "start_env \<Rightarrow> settings \<Rightarrow> string \<Rightarrow> nat \<Rightarrow> nat \<Rightarrow> bool \<Rightarrow> unit startup" where
  "build_pool E s name min_size max_size wait_for_db =
     (if \<not> in_memory (s_database s) \<and> \<not> su_db_exists E \<and> wait_for_db then Waits
      else if max_size = 0 \<or> max_size < min_size \<or> su_pool_fails E name then Panics
      else Going ())"

definition sqlite_repo_new :: "start_env \<Rightarrow> settings \<Rightarrow> unit startup" where
  "sqlite_repo_new E s =
     start_then (build_pool E s ''writer'' 0 2 False) (\<lambda>_.
     start_then (build_pool E s ''maintenance'' 0 2 True) (\<lambda>_.
       build_pool E s ''reader'' (min_conn (s_database s)) (max_conn (s_database s)) True))"

text \<open>The upgrade runs in a task of its own: its panic is a \<^verbatim>\<open>JoinError\<close> here.\<close>

definition sqlite_migrate_up :: "externals \<Rightarrow> row_order \<Rightarrow> start_env \<Rightarrow> mig_db \<Rightarrow> mig_db \<times> (nat, error) result" where
  "sqlite_migrate_up X ord E db =
     (case su_write_conn E of
        Some e \<Rightarrow> (db, Err (DatabasePoolError e))
      | None \<Rightarrow>
        (case upgrade_db X ord (su_mig E) db of
           (db', Done r) \<Rightarrow> (db', r)
         | (db', Panic) \<Rightarrow> (db', Err JoinError)))"

definition build_sqlite_pool :: "externals \<Rightarrow> row_order \<Rightarrow> start_env \<Rightarrow> settings \<Rightarrow> mig_db \<Rightarrow> mig_db \<times> unit startup" where
  "build_sqlite_pool X ord E s db =
     (case sqlite_repo_new E s of
        Going _ \<Rightarrow> (case sqlite_migrate_up X ord E db of (db', _) \<Rightarrow> (db', Going ()))
      | r \<Rightarrow> (db, r))"

definition build_postgres_pool :: "externals \<Rightarrow> start_env \<Rightarrow> settings \<Rightarrow> pg_mig_db \<Rightarrow> pg_mig_db \<times> unit startup" where
  "build_postgres_pool X E s db =
     (let reached = (\<lambda>c. su_pg_parse E c \<and> su_pg_connect E c) in
      if \<not> reached (connection (s_database s)) then (db, Panics)
      else if (case connection_write (s_database s) of None \<Rightarrow> False | Some c \<Rightarrow> \<not> reached c) then (db, Panics)
      else (case run_migrations X (su_pg_mig E) db of
         (db', Done (Ok _)) \<Rightarrow> (db', Going ())
       | (db', _) \<Rightarrow> (db', Panics)))"

definition build_repo :: "externals \<Rightarrow> row_order \<Rightarrow> start_env \<Rightarrow> settings \<Rightarrow> disk \<Rightarrow> disk \<times> unit startup" where
  "build_repo X ord E s d =
     (if engine (s_database s) = ''sqlite'' then
        (case build_sqlite_pool X ord E s (dk_sqlite d) of (db, r) \<Rightarrow> (d\<lparr>dk_sqlite := db\<rparr>, r))
      else if engine (s_database s) = ''postgres'' then
        (case build_postgres_pool X E s (dk_postgres d) of (db, r) \<Rightarrow> (d\<lparr>dk_postgres := db\<rparr>, r))
      else (d, Panics))"

section \<open>Payment task\<close>

datatype payment_processor = LNBitsProcessor | ClnRestProcessor cln_processor | GoblinPayProcessor gp_processor

record payment_task =
  pt_nostr_keys :: "string option"
  pt_processor :: payment_processor

definition payment_new :: "start_env \<Rightarrow> settings \<Rightarrow> (payment_task, error) result" where
  "payment_new E s =
     (let p = s_pay_to_relay s in
      case (case secret_key p of None \<Rightarrow> Ok None | Some k \<Rightarrow> map_ok Some (su_keys E k)) of
        Err e \<Rightarrow> Err e
      | Ok ks \<Rightarrow>
        map_ok (\<lambda>q. \<lparr>pt_nostr_keys = ks, pt_processor = q\<rparr>)
          (case ptr_processor p of
             LNBits \<Rightarrow> Ok LNBitsProcessor
           | ClnRest \<Rightarrow> map_ok ClnRestProcessor (cln_new (su_read_file E) (su_is_utf8 E) (su_is_header E) s)
           | GoblinPayProc \<Rightarrow> Ok (GoblinPayProcessor (gp_new (node_url p) (api_secret p)))))"

section \<open>The server\<close>

text \<open>What runs once the server listens: the policies, the name authority, the writer (its task may panic when it computes
  its quota), the verifier and the payment task.\<close>

record running =
  ru_settings :: settings
  ru_admission :: "policy list"
  ru_authority :: "authority option"
  ru_writer :: bool
  ru_verifier :: bool
  ru_payment :: "payment_task option"
  ru_favicon :: "string option"

text \<open>Documented limits of the package \<^verbatim>\<open>tokio\<close>: threads and channels must not be empty, and the sizes of channels
  are bounded.\<close>

definition limits_usable :: "limits_settings \<Rightarrow> bool" where
  "limits_usable l \<longleftrightarrow> 0 < max_blocking_threads l \<and> 0 < broadcast_buffer l \<and> broadcast_buffer l < 2 ^ 63 \<and>
     0 < event_persist_buffer l \<and> event_persist_buffer l < 2 ^ 61"

definition start_tasks :: "externals \<Rightarrow> start_env \<Rightarrow> settings \<Rightarrow> running startup" where
  "start_tasks X E s =
     start_then (if na_enabled (s_name_authority s)
        then (case authority_new X (su_nanogrin E) (su_read_file E) (su_claims_open E) s of Ok a \<Rightarrow> Going (Some a) | Err _ \<Rightarrow> Exits)
        else Going None) (\<lambda>authority.
     start_then (if ptr_enabled (s_pay_to_relay s)
        then (case payment_new E s of Ok p \<Rightarrow> Going (Some p) | Err _ \<Rightarrow> Exits)
        else Going None) (\<lambda>payment.
     if \<not> su_bind E then Panics
     else Going \<lparr>ru_settings = s, ru_admission = from_settings X s, ru_authority = authority,
        ru_writer = (writer_quota (messages_per_sec (s_limits s)) \<noteq> Panic),
        ru_verifier = (vu_mode (s_verified_users s) \<noteq> Disabled \<and> vu_is_active (s_verified_users s)),
        ru_payment = payment,
        ru_favicon = Option.bind (info_favicon (s_info s)) (\<lambda>path. case su_read_file E path of Ok b \<Rightarrow> Some b | Err _ \<Rightarrow> None)\<rparr>))"

definition start_server :: "externals \<Rightarrow> row_order \<Rightarrow> start_env \<Rightarrow> settings \<Rightarrow> disk \<Rightarrow> disk \<times> running startup" where
  "start_server X ord E s d =
     (if \<not> su_is_dir E (data_directory (s_database s)) then (d, Fails DatabaseDirError)
      else if \<not> su_parse_addr E (trim (address (s_network s)) @ '':'' @ show_nat (port (s_network s))) then (d, Panics)
      else if \<not> limits_usable (s_limits s) then (d, Panics)
      else (case build_repo X ord E s d of (d', r) \<Rightarrow> (d', start_then r (\<lambda>_. start_tasks X E s))))"

section \<open>The program\<close>

definition load_settings :: "start_env \<Rightarrow> string option \<Rightarrow> (settings, string) result exec" where
  "load_settings E config_file =
     settings_new default_settings config_file
       (new_from_default (su_env E) (su_parse_f64 E) (su_parse_duration E) (su_nanogrin E) (su_load E config_file))"

definition main :: "externals \<Rightarrow> row_order \<Rightarrow> start_env \<Rightarrow> cli_args \<Rightarrow> disk \<Rightarrow> disk \<times> running startup" where
  "main X ord E args d =
     (if (case arg_config args of None \<Rightarrow> False
          | Some path \<Rightarrow> \<not> su_exists E path \<or> \<not> su_is_file E path \<or> \<not> su_metadata E path \<or> \<not> su_open E path) then (d, Exits)
      else (case load_settings E (arg_config args) of
         Panic \<Rightarrow> (d, Panics)
       | Done (Err _) \<Rightarrow> (d, Exits)
       | Done (Ok s) \<Rightarrow>
         if \<not> su_log E then (d, Panics)
         else
           (let s' = (case arg_db args of None \<Rightarrow> s | Some dir \<Rightarrow> s\<lparr>s_database := (s_database s)\<lparr>data_directory := dir\<rparr>\<rparr>)
            in case start_server X ord E s' d of
                 (d', Fails _) \<Rightarrow> (d', Exits)
               | (d', r) \<Rightarrow> (d', r))))"

section \<open>Lemmas\<close>

lemma default_settings_checked:
  "check_name_authority default_settings" "check_pay_to_relay default_settings"
  by (simp_all add: check_name_authority_def check_pay_to_relay_def default_settings_def)

lemma load_settings_checked:
  assumes "load_settings E c = Done (Ok s)"
  shows "check_name_authority s" "check_pay_to_relay s"
proof -
  have "check_name_authority s \<and> check_pay_to_relay s"
  proof (cases "s = default_settings")
    case True
    then show ?thesis using default_settings_checked by simp
  next
    case False
    with assms have "new_from_default (su_env E) (su_parse_f64 E) (su_parse_duration E) (su_nanogrin E) (su_load E c) = Done (Ok s)"
      by (auto simp: load_settings_def settings_new_def split: exec.splits result.splits if_splits)
    moreover from this obtain s0 where "su_load E c = Ok s0" by (auto simp: new_from_default_def split: result.splits)
    ultimately obtain s1 where "s = s1\<lparr>s_verified_users := vu_init (su_parse_duration E) (s_verified_users s1)\<rparr>"
      "check_name_authority s1" "check_pay_to_relay s" using new_from_default_Ok by metis
    then show ?thesis using check_name_authority_cong [of s1 s] by simp
  qed
  then show "check_name_authority s" "check_pay_to_relay s" by auto
qed

lemma run_migration_serials:
  assumes "run_migration F m db = Some (db', r)"
  shows "set (pm_serials db') = insert (serial_number m) (set (pm_serials db))"
  using assms by (auto simp: run_migration_def split: if_splits)

lemma run_all_serials: "run_all F ms db = (db', True) \<Longrightarrow> set (pm_serials db') = serial_number ` set ms \<union> set (pm_serials db)"
  by (induction ms arbitrary: db) (auto split: option.splits dest: run_migration_serials)

lemma pg_rebuild_tags_serials: "pg_rebuild_tags X F db = (db', r) \<Longrightarrow> pm_serials db' = pm_serials db"
  by (auto simp: pg_rebuild_tags_def split: if_splits option.splits)

lemma run_migrations_serials:
  assumes "run_migrations X F db = (db', Done (Ok v))"
  shows "{1, 2, 3, 4, 5} \<subseteq> set (pm_serials db')"
proof -
  from assms obtain db1 r1 where 1: "run_migration F m001 db = Some (db1, r1)"
    by (auto simp: run_migrations_def split: if_splits option.splits)
  with assms obtain db2 r where 2: "run_migration F m002 db1 = Some (db2, r)"
    by (auto simp: run_migrations_def split: if_splits option.splits)
  obtain db3 t where 3: "(if r = migration_result.Upgraded then pg_rebuild_tags X F db2 else (db2, Done (Ok ()))) = (db3, t)"
    by (cases "if r = migration_result.Upgraded then pg_rebuild_tags X F db2 else (db2, Done (Ok ()))")
  with assms 1 2 have 4: "run_all F [m003, m004, m005] db3 = (db', True)"
    by (auto simp: run_migrations_def split: if_splits exec.splits result.splits prod.splits bool.splits)
  have "pm_serials db3 = pm_serials db2" using 3 pg_rebuild_tags_serials [of X F db2 db3 t] by (auto split: if_splits)
  then show ?thesis
    using run_all_serials [OF 4] run_migration_serials [OF 1] run_migration_serials [OF 2] by (auto simp: migration_defs)
qed

lemma build_repo_Going:
  assumes "build_repo X ord E s d = (d', Going u)"
  shows "engine (s_database s) \<in> {''sqlite'', ''postgres''}"
    and "engine (s_database s) = ''postgres'' \<Longrightarrow> {1, 2, 3, 4, 5} \<subseteq> set (pm_serials (dk_postgres d'))"
  using assms run_migrations_serials
  by (auto simp: build_repo_def build_postgres_pool_def Let_def split: if_splits prod.splits exec.splits result.splits option.splits)

lemma start_tasks_Going:
  assumes "start_tasks X E s = Going R"
  shows "ru_settings R = s" "ru_admission R = from_settings X s" "ru_verifier R \<longleftrightarrow> vu_mode (s_verified_users s) \<noteq> Disabled"
    and "ru_authority R = None \<longleftrightarrow> \<not> na_enabled (s_name_authority s)"
    and "ru_authority R = Some a \<Longrightarrow> authority_new X (su_nanogrin E) (su_read_file E) (su_claims_open E) s = Ok a"
    and "ru_payment R = None \<longleftrightarrow> \<not> ptr_enabled (s_pay_to_relay s)"
    and "ru_payment R = Some p \<Longrightarrow> payment_new E s = Ok p"
  using assms by (auto simp: start_tasks_def start_then_Going vu_is_active_def split: if_splits result.splits)
    (use verified_users_mode.exhaust in blast)+

lemma payment_new_keys:
  assumes "payment_new E s = Ok p"
  shows "pt_nostr_keys p = None \<longleftrightarrow> secret_key (s_pay_to_relay s) = None"
  using assms by (auto simp: payment_new_def Let_def split: option.splits result.splits)

lemma authority_new_Ok_cfg: "authority_new X ng rf db s = Ok a \<Longrightarrow> au_cfg a = s_name_authority s"
  by (auto simp: authority_new_def Let_def split: option.splits result.splits if_splits)

lemma start_server_sqlite:
  assumes "engine (s_database s) = ''sqlite''" "su_is_dir E (data_directory (s_database s))"
    and "su_parse_addr E (trim (address (s_network s)) @ '':'' @ show_nat (port (s_network s)))" "limits_usable (s_limits s)"
    and "sqlite_repo_new E s = Going ()" "start_tasks X E s = Going R" "su_write_conn E = None"
  shows "start_server X ord E s d = (d\<lparr>dk_sqlite := fst (upgrade_db X ord (su_mig E) (dk_sqlite d))\<rparr>, Going R)"
proof -
  have "build_repo X ord E s d = (d\<lparr>dk_sqlite := fst (upgrade_db X ord (su_mig E) (dk_sqlite d))\<rparr>, Going ())"
    using assms(1,5,7) by (simp add: build_repo_def build_sqlite_pool_def sqlite_migrate_up_def split: prod.splits exec.splits)
  with assms(2-4,6) show ?thesis by (simp add: start_server_def)
qed

lemma blocked_upgrade:
  assumes "\<not> F AtVersion 0" "DB_VERSION < md_version db \<or> md_version db = 16 \<and> has_column db ''event'' ''expires_at''"
  shows "upgrade_db X ord F db = (db, Panic)"
proof (cases "DB_VERSION < md_version db")
  case True
  with assms(1) show ?thesis by (simp add: upgrade_db_def curr_db_version_def)
next
  case False
  with assms(2) have v: "md_version db = 16" "has_column db ''event'' ''expires_at''" by auto
  have "migration X ord F 16 db = mig_16_to_17 F db" by (simp add: migration_def)
  with v assms(1) show ?thesis
    by (simp add: upgrade_db_def curr_db_version_def DB_VERSION_def mig_chain_skip mig_16_to_17_def batch_or_panic_def)
qed

text \<open>Environment variables count only if there is a configuration file. Without one the program runs on the built-in
  settings as they are, whatever \<^verbatim>\<open>FLOONET_PAY_MODE\<close> and its relatives say.\<close>

theorem missing_config_ignores_environment:
  assumes "su_load E None = Err e"
  shows "load_settings E None = Done (Ok default_settings)"
  using assms by (simp add: load_settings_def settings_new_def new_from_default_def)

text \<open>A machine on which everything works, started without a configuration file.\<close>

definition demo_start :: start_env where
  "demo_start = \<lparr>su_exists = (\<lambda>_. True), su_is_file = (\<lambda>_. True), su_metadata = (\<lambda>_. True), su_open = (\<lambda>_. True),
     su_load = (\<lambda>_. Err ''config.toml not found''), su_env = (\<lambda>_. None), su_parse_f64 = (\<lambda>_. None), su_parse_duration = (\<lambda>_. None),
     su_nanogrin = (\<lambda>_. 0), su_log = True, su_is_dir = (\<lambda>_. True), su_parse_addr = (\<lambda>_. True), su_pool_fails = (\<lambda>_. False),
     su_db_exists = True, su_write_conn = None, su_mig = no_faults, su_pg_parse = (\<lambda>_. True), su_pg_connect = (\<lambda>_. True),
     su_pg_mig = pg_calm, su_read_file = (\<lambda>_. Err ''no such file''), su_is_utf8 = (\<lambda>_. True), su_is_header = (\<lambda>_. True),
     su_claims_open = None, su_keys = (\<lambda>k. Ok k), su_bind = True\<rparr>"

definition demo_running :: running where
  "demo_running = \<lparr>ru_settings = default_settings, ru_admission = from_settings std_ext default_settings, ru_authority = None,
     ru_writer = True, ru_verifier = False, ru_payment = None, ru_favicon = None\<rparr>"

lemma demo_start_fields:
  "su_is_dir demo_start p" "su_parse_addr demo_start q" "limits_usable (s_limits default_settings)"
  "sqlite_repo_new demo_start default_settings = Going ()" "start_tasks std_ext demo_start default_settings = Going demo_running"
  "su_write_conn demo_start = None" "su_mig demo_start = no_faults" "engine (s_database default_settings) = ''sqlite''"
  by (simp_all add: demo_start_def limits_usable_def default_settings_def sqlite_repo_new_def build_pool_def start_tasks_def demo_running_def
      writer_quota_def vu_is_active_def)

lemma demo_load: "load_settings demo_start None = Done (Ok default_settings)"
  by (rule missing_config_ignores_environment) (simp add: demo_start_def)

theorem missing_config_ignores_environment_witness:
  "load_settings (demo_start\<lparr>su_env := (\<lambda>k. if k = ''FLOONET_PAY_MODE'' then Some ''write'' else None)\<rparr>) None =
     Done (Ok default_settings)"
  by (rule missing_config_ignores_environment) (simp add: demo_start_def)

section \<open>Properties\<close>



text \<open>C27: A SQLite relay starts whatever becomes of the upgrade. Where the pools can be built and the tasks
  started, the server serves in every case with the database as the upgrade left it: the upgrade runs in a task of
  its own, its panic becomes an error, and errors of \<^verbatim>\<open>migrate_up\<close> are dropped. So a database newer than the program
  understands, for which the upgrade is meant to abort, is served unchanged, and so is one whose upgrade
  from version 16 was interrupted, at every later start.\<close>

theorem sqlite_start_ignores_failed_upgrade:
  assumes "engine (s_database s) = ''sqlite''" "su_is_dir E (data_directory (s_database s))"
    and "su_parse_addr E (trim (address (s_network s)) @ '':'' @ show_nat (port (s_network s)))" "limits_usable (s_limits s)"
    and "sqlite_repo_new E s = Going ()" "start_tasks X E s = Going R" "su_write_conn E = None"
  shows "start_server X ord E s d = (d\<lparr>dk_sqlite := fst (upgrade_db X ord (su_mig E) (dk_sqlite d))\<rparr>, Going R) \<and>
    (\<not> su_mig E AtVersion 0 \<and>
      (DB_VERSION < md_version (dk_sqlite d) \<or> md_version (dk_sqlite d) = 16 \<and> has_column (dk_sqlite d) ''event'' ''expires_at'') \<longrightarrow>
      upgrade_db X ord (su_mig E) (dk_sqlite d) = (dk_sqlite d, Panic) \<and> start_server X ord E s d = (d, Going R))"
proof -
  have served: "start_server X ord E s d = (d\<lparr>dk_sqlite := fst (upgrade_db X ord (su_mig E) (dk_sqlite d))\<rparr>, Going R)"
    using start_server_sqlite [OF assms(1-7)] .
  have "upgrade_db X ord (su_mig E) db = (db, Panic)"
    if "\<not> su_mig E AtVersion 0" "DB_VERSION < md_version db \<or> md_version db = 16 \<and> has_column db ''event'' ''expires_at''" for db
    using that blocked_upgrade [of "su_mig E" db] by blast
  with served show ?thesis by fastforce
qed

theorem sqlite_start_ignores_failed_upgrade_witness:
  "let d = \<lparr>dk_sqlite = demo_database\<lparr>md_version := 20\<rparr>, dk_postgres = pg_new\<rparr> in
     start_server std_ext std_ord demo_start default_settings d = (d, Going demo_running)"
  unfolding Let_def
  using sqlite_start_ignores_failed_upgrade [where X = std_ext and E = demo_start and s = default_settings and R = demo_running and ord = std_ord
      and d = "\<lparr>dk_sqlite = demo_database\<lparr>md_version := 20\<rparr>, dk_postgres = pg_new\<rparr>"]
  by (simp add: demo_start_fields no_faults_def DB_VERSION_def)

text \<open>A start on SQLite without failures arrives at the current schema, from a new database and from every earlier version.\<close>

theorem clean_start_is_current:
  assumes "engine (s_database s) = ''sqlite''" "su_is_dir E (data_directory (s_database s))"
    and "su_parse_addr E (trim (address (s_network s)) @ '':'' @ show_nat (port (s_network s)))" "limits_usable (s_limits s)"
    and "sqlite_repo_new E s = Going ()" "start_tasks X E s = Going R" "su_write_conn E = None" "su_mig E = no_faults"
    and "dk_sqlite d = new_database \<or> (1 \<le> v \<and> v \<le> 19 \<and> at_version X v (dk_sqlite d))"
  shows "\<exists>db. start_server X ord E s d = (d\<lparr>dk_sqlite := db\<rparr>, Going R) \<and> at_version X 19 db"
  using upgrade_current [OF assms(9), of ord] start_server_sqlite [OF assms(1-7), of ord d] assms(8) by auto

theorem clean_start_is_current_witness:
  "\<exists>db. start_server std_ext std_ord demo_start default_settings \<lparr>dk_sqlite = new_database, dk_postgres = pg_new\<rparr> =
     (\<lparr>dk_sqlite = db, dk_postgres = pg_new\<rparr>, Going demo_running) \<and> at_version std_ext 19 db"
  using clean_start_is_current [where X = std_ext and E = demo_start and s = default_settings and R = demo_running and ord = std_ord
      and d = "\<lparr>dk_sqlite = new_database, dk_postgres = pg_new\<rparr>"]
  by (simp add: demo_start_fields)

end
