(* ===== verification/Bulk_Loader.thy ===== *)
theory Bulk_Loader
  imports Sqlite_Query
begin

text \<open>
  The bulk loader (\<^verbatim>\<open>src/src/bin/bulkloader.rs\<close>): it reads events as lines of JSON and stores them in a database of
  the current version, in transactions of fifty thousand events. A statement that fails leaves the ones before it in
  the transaction. The insertions of tags name neither \<^verbatim>\<open>created_at\<close> nor \<^verbatim>\<open>kind\<close>, which the
  current schema requires, so the first one of an event fails.
\<close>

section \<open>Storing\<close>

definition bulk_row :: "externals \<Rightarrow> int \<Rightarrow> event \<Rightarrow> string \<Rightarrow> string \<Rightarrow> string \<Rightarrow> event_db \<Rightarrow> event_row" where
  "bulk_row X now e h a content db =
     \<lparr>er_id = next_id (map er_id (db_events db)), er_hash = h, er_first_seen = now, er_created_at = ev_created_at e,
      er_expires_at = None, er_author = a, er_delegated_by = Option.bind (ev_delegated_by e) (hex_decode X),
      er_kind = ev_kind e, er_hidden = False, er_content = content\<rparr>"

definition bulk_write_event :: "externals \<Rightarrow> row_order \<Rightarrow> int \<Rightarrow> event \<Rightarrow> event_db \<Rightarrow> event_db \<times> (nat, error) result" where
  "bulk_write_event X ord now e db =
     (if \<not> (fits_i64 (ev_created_at e) \<and> fits_i64 (ev_kind e)) then (db, Err (SqlError (OtherSqlError ''ToSqlConversionFailure'')))
      else (case (hex_decode X (ev_id e), hex_decode X (ev_pubkey e), event_to_string X e) of
         (Some h, Some a, Some content) \<Rightarrow>
           if h \<in> er_hash ` set (db_events db) then (db, Ok 0)
           else
             (let db1 = db\<lparr>db_events := db_events db @ [bulk_row X now e h a content db]\<rparr> in
              if searchable_tags e \<noteq> [] then (db1, Err (SqlError (SqliteFailure True)))
              else (drop_replaced ord e a db1, Ok 1))
       | _ \<Rightarrow> (db, Ok 0)))"

section \<open>Reading and loading\<close>

definition bulk_read :: "externals \<Rightarrow> string list \<Rightarrow> event list" where
  "bulk_read X lines =
     List.map_filter (\<lambda>line. case event_from_str X line of None \<Rightarrow> None
       | Some e \<Rightarrow> (case validate X e of Ok _ \<Rightarrow> Some (build_index e) | Err _ \<Rightarrow> None)) lines"

record bulk_state =
  bs_db :: event_db
  bs_read :: nat
  bs_new :: nat

definition bulk_event :: "externals \<Rightarrow> row_order \<Rightarrow> int \<Rightarrow> event \<Rightarrow> bulk_state \<Rightarrow> bulk_state" where
  "bulk_event X ord now e st =
     (let st1 = st\<lparr>bs_read := Suc (bs_read st)\<rparr> in
      if 20000 \<le> ev_kind e \<and> ev_kind e < 30000 then st1
      else (case bulk_write_event X ord now e (bs_db st) of
          (db, Ok c) \<Rightarrow> st1\<lparr>bs_db := db, bs_new := bs_new st + c\<rparr>
        | (db, Err _) \<Rightarrow> st1\<lparr>bs_db := db\<rparr>))"

definition event_batch_size :: nat where
  "event_batch_size = 50000"

text \<open>\<open>fault k\<close> says that the commit of batch \<open>k\<close> fails, and \<open>chk k\<close> that the checkpoint after it does.\<close>

function bulk_batches ::
  "externals \<Rightarrow> row_order \<Rightarrow> int \<Rightarrow> (nat \<Rightarrow> bool) \<Rightarrow> (nat \<Rightarrow> bool) \<Rightarrow> nat \<Rightarrow> event list \<Rightarrow> bulk_state \<Rightarrow>
     bulk_state \<times> (unit, error) result" where
  "bulk_batches X ord now fault chk k es st =
     (let st1 = fold (bulk_event X ord now) (take event_batch_size es) st in
      if fault k then (st1\<lparr>bs_db := bs_db st\<rparr>, Err (SqlError (SqliteFailure False)))
      else if chk k then (st1, Err (SqlError (SqliteFailure False)))
      else if length es < event_batch_size then (st1, Ok ())
      else bulk_batches X ord now fault chk (Suc k) (drop event_batch_size es) st1)"
  by pat_completeness auto
termination
  by (relation "measure (\<lambda>(X, ord, now, fault, chk, k, es, st). length es)") (auto simp: event_batch_size_def)

declare bulk_batches.simps [simp del]

text \<open>\<^verbatim>\<open>main\<close> from the check of the version on.\<close>

definition bulk_main ::
  "externals \<Rightarrow> row_order \<Rightarrow> int \<Rightarrow> (nat \<Rightarrow> bool) \<Rightarrow> (nat \<Rightarrow> bool) \<Rightarrow> nat \<Rightarrow> string list \<Rightarrow> event_db \<Rightarrow>
     (bulk_state \<times> (unit, error) result) exec" where
  "bulk_main X ord now fault chk version lines db =
     (if version \<noteq> 19 then Panic
      else Done (bulk_batches X ord now fault chk 0 (bulk_read X lines) \<lparr>bs_db = db, bs_read = 0, bs_new = 0\<rparr>))"

section \<open>Lemmas\<close>

lemma bulk_row_inv:
  assumes "ev_inv db" "h \<notin> er_hash ` set (db_events db)"
  shows "ev_inv (db\<lparr>db_events := db_events db @ [bulk_row X now e h a c db]\<rparr>)"
  using assms fresh_event_id [of _ db] by (force simp: ev_inv_def bulk_row_def)

lemma bulk_event_db: "bs_db (bulk_event X ord now e st) \<in> {bs_db st, fst (bulk_write_event X ord now e (bs_db st))}"
  by (auto simp: bulk_event_def Let_def split: prod.splits result.splits)

text \<open>What every event keeps, a whole load keeps.\<close>

lemma bulk_batches_keep:
  assumes "\<And>e db. P db \<Longrightarrow> P (fst (bulk_write_event X ord now e db))" "P (bs_db st)"
  shows "P (bs_db (fst (bulk_batches X ord now fault chk k es st)))"
  using assms(2)
proof (induction "length es" arbitrary: es st k rule: less_induct)
  case less
  have "P (bs_db (fold (bulk_event X ord now) xs s))" if "P (bs_db s)" for xs s
    using that
  proof (induction xs arbitrary: s)
    case (Cons x xs)
    have "P (bs_db (bulk_event X ord now x s))" using bulk_event_db [of X ord now x s] assms(1) Cons.prems by auto
    with Cons.IH show ?case by simp
  qed simp
  then have p: "P (bs_db (fold (bulk_event X ord now) (take event_batch_size es) st))" using less.prems by blast
  have "length (drop event_batch_size es) < length es" if "\<not> length es < event_batch_size"
    using that by (auto simp: event_batch_size_def)
  from less.hyps [OF this] p less.prems show ?case by (subst bulk_batches.simps) (auto simp: Let_def)
qed

text \<open>Rows that were not in the database before have no tags.\<close>

definition untagged_news :: "event_db \<Rightarrow> event_db \<Rightarrow> bool" where
  "untagged_news db d \<longleftrightarrow> ev_inv d \<and> set (db_tags d) \<subseteq> set (db_tags db) \<and>
     (\<forall>r\<in>set (db_events d). r \<in> set (db_events db) \<or> er_id r \<notin> tr_event_id ` set (db_tags d))"

lemma untagged_insert:
  assumes "untagged_news db d" "h \<notin> er_hash ` set (db_events d)"
  shows "untagged_news db (d\<lparr>db_events := db_events d @ [bulk_row X now e h a c d]\<rparr>)"
proof -
  have "tr_event_id ` set (db_tags d) \<subseteq> er_id ` set (db_events d)" using assms(1) by (simp add: untagged_news_def ev_inv_def)
  with fresh_event_id' [of d] have "er_id (bulk_row X now e h a c d) \<notin> tr_event_id ` set (db_tags d)" by (auto simp: bulk_row_def)
  with assms bulk_row_inv [of d h X now e a c] show ?thesis by (auto simp: untagged_news_def)
qed

lemma untagged_delete: "untagged_news db d \<Longrightarrow> untagged_news db (delete_events P d)"
  unfolding untagged_news_def using delete_events_inv [of d P] by (auto simp: delete_events_def Let_def)

lemma untagged_write: "untagged_news db d \<Longrightarrow> untagged_news db (fst (bulk_write_event X ord now e d))"
  by (auto simp: bulk_write_event_def Let_def drop_replaced_def untagged_insert untagged_delete split: option.splits)

lemma bulk_write_reports_failure:
  assumes "bulk_write_event X ord now e db = (db', r)" "db' \<noteq> db" "searchable_tags e \<noteq> []"
  shows "r = Err (SqlError (SqliteFailure True))"
  using assms by (auto simp: bulk_write_event_def Let_def split: if_splits option.splits)

section \<open>Properties\<close>

text \<open>The bulk loader loses the tags of what it loads. Whatever lines it reads into whatever well-formed database, and wherever
  it stops, the database stays well-formed but gains no tag row: no tag row refers to a row that was not there before, and so no
  condition of a query on tags holds for it.\<close>

theorem bulk_loader_loses_tags:
  assumes "ev_inv db" "bulk_main X ord now fault chk version lines db = Done (st, res)"
  shows "ev_inv (bs_db st) \<and> set (db_tags (bs_db st)) \<subseteq> set (db_tags db) \<and>
    (\<forall>r\<in>set (db_events (bs_db st)) - set (db_events db). \<forall>name vs v x.
      \<not> holds (bs_db st) r (CTagIn name vs x) \<and> \<not> holds (bs_db st) r (CTagIs name v x))"
proof -
  have st: "bs_db st = bs_db (fst (bulk_batches X ord now fault chk 0 (bulk_read X lines) \<lparr>bs_db = db, bs_read = 0, bs_new = 0\<rparr>))"
    using assms(2) by (auto simp: bulk_main_def split: if_splits)
  have "untagged_news db (bs_db st)"
    unfolding st by (rule bulk_batches_keep) (simp_all add: untagged_write, simp add: untagged_news_def assms(1))
  then have inv: "ev_inv (bs_db st)" and sub: "set (db_tags (bs_db st)) \<subseteq> set (db_tags db)"
    and new: "\<And>r. r \<in> set (db_events (bs_db st)) - set (db_events db) \<Longrightarrow> er_id r \<notin> tr_event_id ` set (db_tags (bs_db st))"
    by (auto simp: untagged_news_def)
  have "\<not> holds (bs_db st) r (CTagIn name vs x) \<and> \<not> holds (bs_db st) r (CTagIs name v x)"
    if "r \<in> set (db_events (bs_db st)) - set (db_events db)" for r name vs v x
    using new [OF that] unfolding holds.simps list_ex_iff by (metis image_eqI)
  with inv sub show ?thesis by blast
qed

definition demo_line :: string where
  "demo_line = the (event_to_string std_ext (sealed std_ext demo_event))"

lemma bulk_main_done:
  "\<exists>st res. bulk_main X ord now fault chk 19 lines db = Done (st, res)"
  unfolding bulk_main_def by (cases "bulk_batches X ord now fault chk 0 (bulk_read X lines) \<lparr>bs_db = db, bs_read = 0, bs_new = 0\<rparr>") simp

theorem bulk_loader_loses_tags_witness:
  "\<exists>st res. bulk_main std_ext std_ord 7 (\<lambda>_. False) (\<lambda>_. False) 19 [demo_line] empty_events = Done (st, res) \<and>
     set (db_tags (bs_db st)) \<subseteq> {}"
proof -
  obtain st res where m: "bulk_main std_ext std_ord 7 (\<lambda>_. False) (\<lambda>_. False) 19 [demo_line] empty_events = Done (st, res)"
    using bulk_main_done by blast
  have e: "ev_inv empty_events" "set (db_tags empty_events) = {}" by (simp_all add: ev_inv_def empty_events_def)
  have "set (db_tags (bs_db st)) \<subseteq> set (db_tags empty_events)" by (rule bulk_loader_loses_tags [OF e(1) m, THEN conjunct2, THEN conjunct1])
  with m e(2) show ?thesis by metis
qed

end
