(* ===== verification/Subscription_Tests.thy ===== *)
theory Subscription_Tests
  imports Subscription
begin

text \<open>
  The unit tests of \<^verbatim>\<open>src/src/subscription.rs\<close> as executable checks of the model, one definition per test function, and the proof that the
  model passes them. The JSON texts of the tests are given as the values that \<^verbatim>\<open>serde_json\<close> reads from them.
\<close>

section \<open>Helpers\<close>

definition req :: "string \<Rightarrow> json list \<Rightarrow> json" where
  "req i fs = JArray ([JString ''REQ'', JString i] @ fs)"

definition strs :: "string list \<Rightarrow> json" where
  "strs xs = JArray (map JString xs)"

definition nums :: "u64 list \<Rightarrow> json" where
  "nums ns = JArray (map (\<lambda>n. JNumber (PosInt n)) ns)"

definition num :: "u64 \<Rightarrow> json" where
  "num n = JNumber (PosInt n)"

definition parses_to :: "json \<Rightarrow> (subscription \<Rightarrow> bool) \<Rightarrow> bool" where
  "parses_to v P = (case de_subscription v of Done (Ok s) \<Rightarrow> P s | _ \<Rightarrow> False)"

definition refused :: "json \<Rightarrow> bool" where
  "refused v = (case de_subscription v of Done (Err _) \<Rightarrow> True | _ \<Rightarrow> False)"

definition test_note :: "string \<Rightarrow> string \<Rightarrow> u64 \<Rightarrow> event" where
  "test_note i pubkey created_at = \<lparr>ev_id = i, ev_pubkey = pubkey, ev_delegated_by = None, ev_created_at = created_at, ev_kind = 0, ev_tags = [],
     ev_content = [], ev_sig = [], ev_tagidx = None\<rparr>"

definition wants :: "json \<Rightarrow> event \<Rightarrow> bool" where
  "wants f e = parses_to (req ''xyz'' [f]) (\<lambda>s. interested_in_event s e)"

definition ignores :: "json \<Rightarrow> event \<Rightarrow> bool" where
  "ignores f e = parses_to (req ''xyz'' [f]) (\<lambda>s. \<not> interested_in_event s e)"

section \<open>The tests\<close>

definition empty_request_parse :: bool where
  "empty_request_parse = parses_to (req ''some-id'' [JObject []])
     (\<lambda>s. sub_id s = ''some-id'' \<and> length (sub_filters s) = 1 \<and> rf_authors (hd (sub_filters s)) = None)"

definition incorrect_header :: bool where
  "incorrect_header = refused (JArray [JString ''REQUEST'', JString ''some-id'', JString ''{}''])"

definition req_missing_filters :: bool where
  "req_missing_filters = refused (req ''some-id'' [])"

definition req_empty_authors_prefix :: bool where
  "req_empty_authors_prefix = refused (req ''some-id'' [JObject [(''authors'', strs [[]])]])"

definition req_empty_ids_prefix :: bool where
  "req_empty_ids_prefix = refused (req ''some-id'' [JObject [(''ids'', strs [[]])]])"

definition req_empty_ids_prefix_mixed :: bool where
  "req_empty_ids_prefix_mixed = refused (req ''some-id'' [JObject [(''ids'', strs [[], ''aaa''])]])"

definition legacy_filter :: bool where
  "legacy_filter = parses_to (req ''some-id'' [JObject [(''kind'', num 3)]]) (\<lambda>_. True)"

definition dupe_filter :: bool where
  "dupe_filter = parses_to (req ''some-id'' (replicate 2 (JObject [(''kinds'', nums [1984])]))) (\<lambda>s. length (sub_filters s) = 1)"

definition dupe_filter_many :: bool where
  "dupe_filter_many = parses_to (req ''some-id'' (replicate 4 (JObject [(''kinds'', nums [1984])]))) (\<lambda>s. length (sub_filters s) = 1)"

definition author_filter :: bool where
  "author_filter = parses_to (req ''some-id'' [JObject [(''authors'', strs [''test-author-id''])]])
     (\<lambda>s. sub_id s = ''some-id'' \<and> length (sub_filters s) = 1 \<and> rf_authors (hd (sub_filters s)) = Some [''test-author-id''])"

definition interest_author_prefix_match :: bool where
  "interest_author_prefix_match = wants (JObject [(''authors'', strs [''abc''])]) (test_note ''foo'' ''abcd'' 0)"

definition interest_id_prefix_match :: bool where
  "interest_id_prefix_match = wants (JObject [(''ids'', strs [''abc''])]) (test_note ''abcd'' [] 0)"

definition interest_id_nomatch :: bool where
  "interest_id_nomatch = ignores (JObject [(''ids'', strs [''xyz''])]) (test_note ''abcde'' [] 0)"

definition interest_until :: bool where
  "interest_until = wants (JObject [(''ids'', strs [''abc'']), (''until'', num 1000)]) (test_note ''abc'' [] 50)"

definition interest_range :: bool where
  "interest_range \<longleftrightarrow> (let e = test_note ''abc'' [] 150; f = (\<lambda>a b. JObject [(''ids'', strs [''abc'']), (''since'', num a), (''until'', num b)])
     in wants (f 100 200) e \<and> ignores (f 100 140) e \<and> ignores (f 160 200) e)"

definition interest_time_and_id :: bool where
  "interest_time_and_id = ignores (JObject [(''ids'', strs [''abc'']), (''since'', num 1000)]) (test_note ''abc'' [] 50)"

definition interest_time_and_id2 :: bool where
  "interest_time_and_id2 = wants (JObject [(''id'', JString ''abc''), (''since'', num 1000)]) (test_note ''abc'' [] 1001)"

definition interest_id :: bool where
  "interest_id = wants (JObject [(''id'', JString ''abc'')]) (test_note ''abc'' [] 0)"

definition authors_single :: bool where
  "authors_single = wants (JObject [(''authors'', strs [''abc''])]) (test_note ''123'' ''abc'' 0)"

definition authors_multi_pubkey :: bool where
  "authors_multi_pubkey = wants (JObject [(''authors'', strs [''abc'', ''bcd''])]) (test_note ''123'' ''bcd'' 0)"

definition authors_multi_no_match :: bool where
  "authors_multi_no_match = ignores (JObject [(''authors'', strs [''abc'', ''bcd''])]) (test_note ''123'' ''xyz'' 0)"

definition serialize_filter_test :: "(string fset \<Rightarrow> string list) \<Rightarrow> bool" where
  "serialize_filter_test order = parses_to (req ''xyz'' [JObject [(''authors'', strs [''abc'', ''bcd'']), (''since'', num 10), (''until'', num 20),
       (''limit'', num 100), (''#e'', strs [''foo'', ''bar'']), (''#d'', strs [''test''])]])
     (\<lambda>s. parses_to (req ''xyz'' [case sub_filters s of [] \<Rightarrow> JNull | f # _ \<Rightarrow> serialize_filter order f])
       (\<lambda>t. case sub_filters t of
          [] \<Rightarrow> False
        | pf # _ \<Rightarrow> rf_since pf = Some 10 \<and> rf_until pf = Some 20 \<and> rf_limit pf = Some 100))"

definition is_scraper_test :: bool where
  "is_scraper_test \<longleftrightarrow>
     parses_to (req ''some-id'' [JObject [(''kinds'', nums [1984]), (''since'', num 123), (''limit'', num 1)]]) is_scraper \<and>
     parses_to (req ''some-id'' [JObject [(''kinds'', nums [1984])], JObject [(''kinds'', nums [1984]), (''authors'', strs [''aaaa''])]]) is_scraper \<and>
     parses_to (req ''some-id'' [JObject [(''kinds'', nums [1984]), (''authors'', strs [''aaaa''])]]) (\<lambda>s. \<not> is_scraper s) \<and>
     parses_to (req ''some-id'' [JObject [(''ids'', strs [''aaaa''])]]) (\<lambda>s. \<not> is_scraper s) \<and>
     parses_to (req ''some-id'' [JObject [(''#p'', strs [''aaaa'']), (''kinds'', nums [1, 4])]]) (\<lambda>s. \<not> is_scraper s)"

section \<open>The model passes\<close>

lemmas parse_eval = parses_to_def refused_def req_def strs_def nums_def num_def de_subscription_def de_filter_def value_map_def filter_key_def
  empty_filter_def filter_eq_def tags_eq_def Let_def de_string_def

lemmas match_eval = wants_def ignores_def test_note_def interested_in_event_def filter_interested_def ids_match_def authors_match_def
  delegated_authors_match_def kind_match_def tag_match_def starts_with_def

lemma parse_tests:
  "empty_request_parse" "incorrect_header" "req_missing_filters" "req_empty_authors_prefix" "req_empty_ids_prefix"
  "req_empty_ids_prefix_mixed" "legacy_filter" "dupe_filter" "dupe_filter_many" "author_filter"
  by (simp_all add: empty_request_parse_def incorrect_header_def req_missing_filters_def req_empty_authors_prefix_def
      req_empty_ids_prefix_def req_empty_ids_prefix_mixed_def legacy_filter_def dupe_filter_def dupe_filter_many_def author_filter_def
      parse_eval starts_with_def eval_nat_numeral)

lemma interest_tests:
  "interest_author_prefix_match" "interest_id_prefix_match" "interest_id_nomatch" "interest_until" "interest_range"
  "interest_time_and_id" "interest_time_and_id2" "interest_id" "authors_single" "authors_multi_pubkey" "authors_multi_no_match"
  by (simp_all add: interest_author_prefix_match_def interest_id_prefix_match_def interest_id_nomatch_def interest_until_def interest_range_def
      interest_time_and_id_def interest_time_and_id2_def interest_id_def authors_single_def authors_multi_pubkey_def
      authors_multi_no_match_def parse_eval match_eval)

lemmas tag_eval = insert_tag_key_def tag_key_operand_def is_array_def cont_byte_def starts_with_def

lemma serialize_test: "serialize_filter_test order"
  by (simp add: serialize_filter_test_def parse_eval tag_eval serialize_filter_def optional_entry_def)

lemma scraper_test: "is_scraper_test"
  by (simp add: is_scraper_test_def parse_eval tag_eval is_scraper_def filter_precision_def)

end
