(* ===== verification/Event_Tests.thy ===== *)
theory Event_Tests
  imports Delegation Names
begin

text \<open>
  The unit tests of \<^verbatim>\<open>src/src/event.rs\<close>, \<^verbatim>\<open>src/src/delegation.rs\<close>, \<^verbatim>\<open>src/src/utils.rs\<close> and \<^verbatim>\<open>src/src/name_authority/names.rs\<close> as executable
  checks of the model, one definition per test function, and the proof that the model passes them. An expected JSON text is given as
  the value it is the text of.
\<close>

section \<open>Events\<close>

definition simple_event :: event where
  "simple_event = \<lparr>ev_id = ''0'', ev_pubkey = ''0'', ev_delegated_by = None, ev_created_at = 0, ev_kind = 0, ev_tags = [],
     ev_content = [], ev_sig = ''0'', ev_tagidx = None\<rparr>"

definition of_kind :: "u64 \<Rightarrow> event" where
  "of_kind k = simple_event\<lparr>ev_kind := k\<rparr>"

definition tagged :: "u64 \<Rightarrow> string list list \<Rightarrow> event" where
  "tagged k ts = simple_event\<lparr>ev_kind := k, ev_tags := ts\<rparr>"

definition test_event :: "string list list \<Rightarrow> event" where
  "test_event ts = \<lparr>ev_id = ''999'', ev_pubkey = ''012345'', ev_delegated_by = None, ev_created_at = 501234, ev_kind = 1, ev_tags = ts,
     ev_content = ''this is a test'', ev_sig = ''abcde'', ev_tagidx = None\<rparr>"

definition tag_json :: "string list list \<Rightarrow> json" where
  "tag_json ts = JArray (map (\<lambda>t. JArray (map JString t)) ts)"

definition simple_json :: "string list list \<Rightarrow> json" where
  "simple_json ts = JObject [(''id'', JString ''0''), (''pubkey'', JString ''0''), (''created_at'', JNumber (PosInt 0)),
     (''kind'', JNumber (PosInt 0)), (''tags'', tag_json ts), (''content'', JString []), (''sig'', JString ''0'')]"

definition canonical_json :: "string list list \<Rightarrow> json" where
  "canonical_json ts = JArray [JNumber (PosInt 0), JString ''012345'', JNumber (PosInt 501234), JNumber (PosInt 1), tag_json ts,
     JString ''this is a test'']"

definition event_creation :: bool where
  "event_creation \<longleftrightarrow> ev_id simple_event = ''0''"

definition event_serialize :: "externals \<Rightarrow> bool" where
  "event_serialize X \<longleftrightarrow> event_to_string X simple_event = json_to_string X (simple_json [])"

definition empty_event_tag_match :: bool where
  "empty_event_tag_match \<longleftrightarrow> \<not> generic_tag_val_intersect simple_event ''e'' (Or {|''foo'', ''bar''|})"

definition single_event_tag_match :: bool where
  "single_event_tag_match \<longleftrightarrow> generic_tag_val_intersect (build_index (tagged 0 [[''e'', ''foo'']])) ''e'' (Or {|''foo'', ''bar''|})"

definition event_tags_serialize :: "externals \<Rightarrow> bool" where
  "event_tags_serialize X \<longleftrightarrow>
     (let ts = [[''e'', ''xxxx'', ''wss://example.com''], [''p'', ''yyyyy'', ''wss://example.com:3033'']]
      in event_to_string X (tagged 0 ts) = json_to_string X (simple_json ts))"

definition event_deserialize :: bool where
  "event_deserialize \<longleftrightarrow>
     (case de_event (JObject
        [(''id'', JString ''1384757da583e6129ce831c3d7afc775a33a090578f888dd0d010328ad047d0c''),
         (''pubkey'', JString ''bbbd9711d357df4f4e498841fd796535c95c8e751fa35355008a911c41265fca''),
         (''created_at'', JNumber (PosInt 1612650459)), (''kind'', JNumber (PosInt 1)), (''tags'', JNull), (''content'', JString ''hello world''),
         (''sig'', JString ''59d0cc47ab566e81f72fe5f430bcfb9b3c688cb0093d1e6daa49201c00d28ecc3651468b7938642869ed98c0f1b262998e49a05a6ed056c0d92b193f4e93bc21'')]) of
        Some e \<Rightarrow> ev_kind e = 1 \<and> length (ev_tags e) = 0
      | None \<Rightarrow> False)"

definition event_canonical :: "externals \<Rightarrow> bool" where
  "event_canonical X \<longleftrightarrow> to_canonical X (test_event []) = json_to_string X (canonical_json [])"

definition event_tag_select :: bool where
  "event_tag_select \<longleftrightarrow> tag_values_by_name (test_event [[''j'', ''abc''], [''e'', ''foo''], [''e'', ''bar''], [''e'', ''baz''],
     [''p'', ''aaaa'', ''ws://example.com'']]) ''e'' = [''foo'', ''bar'', ''baz'']"

definition event_no_tag_select :: bool where
  "event_no_tag_select \<longleftrightarrow> length (tag_values_by_name (test_event [[''j'', ''abc''], [''e'', ''foo''], [''e'', ''baz''],
     [''p'', ''aaaa'', ''ws://example.com'']]) ''x'') = 0"

definition event_canonical_with_tags :: "externals \<Rightarrow> bool" where
  "event_canonical_with_tags X \<longleftrightarrow>
     (let ts = [[''#e'', ''aoeu''], [''#p'', ''aaaa'', ''ws://example.com''] ]
      in to_canonical X (test_event ts) = json_to_string X (canonical_json ts))"

definition ephemeral_event :: bool where
  "ephemeral_event \<longleftrightarrow> is_ephemeral (of_kind 20000) \<and> is_ephemeral (of_kind 29999) \<and> \<not> is_ephemeral (of_kind 30000) \<and>
     \<not> is_ephemeral (of_kind 19999)"

definition replaceable_event :: bool where
  "replaceable_event \<longleftrightarrow> list_all (\<lambda>k. is_replaceable (of_kind k)) [0, 3, 10000, 19999] \<and> \<not> is_replaceable (of_kind 20000)"

definition param_replaceable_event :: bool where
  "param_replaceable_event \<longleftrightarrow> is_param_replaceable (of_kind 30000) \<and> is_param_replaceable (of_kind 39999) \<and>
     \<not> is_param_replaceable (of_kind 29999) \<and> \<not> is_param_replaceable (of_kind 40000)"

definition param_replaceable_value_case_1 :: bool where
  "param_replaceable_value_case_1 \<longleftrightarrow> distinct_param (tagged 30000 [[''d'', [] ]]) = Some []"

definition param_replaceable_value_case_2 :: bool where
  "param_replaceable_value_case_2 \<longleftrightarrow> distinct_param (of_kind 30000) = Some []"

definition param_replaceable_value_case_3 :: bool where
  "param_replaceable_value_case_3 \<longleftrightarrow> distinct_param (tagged 30000 [[''d'']]) = Some []"

definition param_replaceable_value_case_4 :: bool where
  "param_replaceable_value_case_4 \<longleftrightarrow> distinct_param (tagged 30000 [[''d'', [] ], [''d'', ''not empty'']]) = Some []"

definition param_replaceable_value_case_4b :: bool where
  "param_replaceable_value_case_4b \<longleftrightarrow> distinct_param (tagged 30000 [[''d'', ''not empty''], [''d'', [] ]]) = Some ''not empty''"

definition param_replaceable_value_case_5 :: bool where
  "param_replaceable_value_case_5 \<longleftrightarrow> distinct_param (tagged 30000 [[''d''], [''d'', ''second value''], [''d'', ''third value'']]) = Some []"

definition param_replaceable_value_case_6 :: bool where
  "param_replaceable_value_case_6 \<longleftrightarrow> distinct_param (tagged 30000 [[''e'']]) = Some []"

definition expiring_event_none :: bool where
  "expiring_event_none \<longleftrightarrow> expiration (tagged 7 [[''test'', ''foo'']]) = None"

definition expiring_event_empty :: bool where
  "expiring_event_empty \<longleftrightarrow> expiration (tagged 7 [[''expiration'']]) = None"

definition expiring_event_future :: bool where
  "expiring_event_future \<longleftrightarrow> expiration (tagged 1 [[''expiration'', ''1676264138'']]) = Some 1676264138"

definition expiring_event_negative :: bool where
  "expiring_event_negative \<longleftrightarrow> expiration (tagged 1 [[''expiration'', ''-90'']]) = None"

definition expiring_event_zero :: bool where
  "expiring_event_zero \<longleftrightarrow> expiration (tagged 1 [[''expiration'', ''0'']]) = Some 0"

definition expiring_event_fraction :: bool where
  "expiring_event_fraction \<longleftrightarrow> expiration (tagged 1 [[''expiration'', ''23.334'']]) = None"

definition expiring_event_multiple :: bool where
  "expiring_event_multiple \<longleftrightarrow> expiration (tagged 1 [[''expiration'', ''10''], [''expiration'', ''20'']]) = Some 10"

lemmas test_events = simple_event_def of_kind_def tagged_def test_event_def tag_json_def simple_json_def canonical_json_def

lemma serialize_tests: "event_creation" "event_serialize X" "event_tags_serialize X" "event_canonical X" "event_canonical_with_tags X"
  by (simp_all add: event_creation_def event_serialize_def event_tags_serialize_def event_canonical_def event_canonical_with_tags_def
      event_to_string_def event_to_json_def to_canonical_def canonical_value_def tags_to_canonical_def Let_def test_events)

lemma deserialize_test: "event_deserialize"
  by (simp add: event_deserialize_def field1_def event_of_fields_def de_string_def tag_from_string_def)

lemma tag_tests: "empty_event_tag_match" "single_event_tag_match" "event_tag_select" "event_no_tag_select"
  by (simp_all add: empty_event_tag_match_def single_event_tag_match_def event_tag_select_def event_no_tag_select_def
      generic_tag_val_intersect_def build_index_def index_tag_def tag_values_by_name_def single_char_tagname_def ascii_defs fcard_finsert_disjoint test_events)

lemma kind_tests:
  "ephemeral_event" "replaceable_event" "param_replaceable_event"
  by (simp_all add: ephemeral_event_def replaceable_event_def param_replaceable_event_def is_ephemeral_def is_replaceable_def
      is_param_replaceable_def test_events)

lemma param_tests:
  "param_replaceable_value_case_1" "param_replaceable_value_case_2" "param_replaceable_value_case_3" "param_replaceable_value_case_4"
  "param_replaceable_value_case_4b" "param_replaceable_value_case_5" "param_replaceable_value_case_6"
  by (simp_all add: param_replaceable_value_case_1_def param_replaceable_value_case_2_def param_replaceable_value_case_3_def
      param_replaceable_value_case_4_def param_replaceable_value_case_4b_def param_replaceable_value_case_5_def
      param_replaceable_value_case_6_def distinct_param_def is_param_replaceable_def first_value_def test_events)

lemma expiration_tests:
  "expiring_event_none" "expiring_event_empty" "expiring_event_future" "expiring_event_negative" "expiring_event_zero"
  "expiring_event_fraction" "expiring_event_multiple"
  by (simp_all add: expiring_event_none_def expiring_event_empty_def expiring_event_future_def expiring_event_negative_def
      expiring_event_zero_def expiring_event_fraction_def expiring_event_multiple_def expiration_def first_value_def
      parse_u64_def starts_with_def ascii_defs digit_val_def test_events)

section \<open>Delegation\<close>

definition kind_cq :: "u64 list \<Rightarrow> condition_query" where
  "kind_cq vs = \<lparr>conditions = [\<lparr>c_field = Kind, c_operator = Equals, c_values = vs\<rparr>]\<rparr>"

definition parse_empty :: bool where
  "parse_empty \<longleftrightarrow> query_from_str [] = Ok \<lparr>conditions = []\<rparr>"

definition test_kind_field_parse :: bool where
  "test_kind_field_parse \<longleftrightarrow> field_from_str ''kind'' = Ok Kind"

definition test_created_at_field_parse :: bool where
  "test_created_at_field_parse \<longleftrightarrow> field_from_str ''created_at'' = Ok CreatedAt"

definition unknown_field_parse :: bool where
  "unknown_field_parse \<longleftrightarrow> ok (field_from_str ''unk'') = None"

definition parse_kind_equals_empty :: bool where
  "parse_kind_equals_empty \<longleftrightarrow> query_from_str ''kind='' = Ok (kind_cq [])"

definition parse_kind_equals_singleval :: bool where
  "parse_kind_equals_singleval \<longleftrightarrow> query_from_str ''kind=1'' = Ok (kind_cq [1])"

definition parse_kind_equals_multival :: bool where
  "parse_kind_equals_multival \<longleftrightarrow> query_from_str ''kind=1,2,4'' = Ok (kind_cq [1, 2, 4])"

definition parse_multi_conditions :: bool where
  "parse_multi_conditions \<longleftrightarrow> query_from_str ''kind>10000&kind<20000&kind!10001&created_at<1665867123'' = Ok \<lparr>conditions =
     [\<lparr>c_field = Kind, c_operator = GreaterThan, c_values = [10000]\<rparr>, \<lparr>c_field = Kind, c_operator = LessThan, c_values = [20000]\<rparr>,
      \<lparr>c_field = Kind, c_operator = NotEquals, c_values = [10001]\<rparr>,
      \<lparr>c_field = CreatedAt, c_operator = LessThan, c_values = [1665867123]\<rparr>]\<rparr>"

definition kind_allows :: "operator \<Rightarrow> u64 list \<Rightarrow> u64 \<Rightarrow> bool" where
  "kind_allows f vs k = condition_allows_event \<lparr>c_field = Kind, c_operator = f, c_values = vs\<rparr> (of_kind k)"

definition condition_with_empty_values :: bool where
  "condition_with_empty_values \<longleftrightarrow> \<not> kind_allows GreaterThan [] 0 \<and> \<not> kind_allows LessThan [] 0 \<and> \<not> kind_allows Equals [] 0 \<and>
     kind_allows NotEquals [] 0"

definition condition_kind_gt_event_single :: bool where
  "condition_kind_gt_event_single \<longleftrightarrow> \<not> kind_allows GreaterThan [10] 1 \<and> kind_allows GreaterThan [10] 100 \<and> \<not> kind_allows GreaterThan [10] 10"

definition condition_with_multi_values :: bool where
  "condition_with_multi_values \<longleftrightarrow> (let vs = [0, 10, 20] in kind_allows Equals vs 10 \<and> \<not> kind_allows Equals vs 11 \<and>
     \<not> kind_allows NotEquals vs 10 \<and> kind_allows NotEquals vs 99 \<and> \<not> kind_allows LessThan vs 99 \<and> \<not> kind_allows GreaterThan vs 99)"

lemma captures:
  "re_captures ''kind='' = Some (''kind'', ''='', [])" "re_captures ''kind=1'' = Some (''kind'', ''='', ''1'')"
  "re_captures ''kind=1,2,4'' = Some (''kind'', ''='', ''1,2,4'')" "re_captures ''kind>10000'' = Some (''kind'', ''>'', ''10000'')"
  "re_captures ''kind<20000'' = Some (''kind'', ''<'', ''20000'')" "re_captures ''kind!10001'' = Some (''kind'', ''!'', ''10001'')"
  "re_captures ''created_at<1665867123'' = Some (''created_at'', ''<'', ''1665867123'')"
  by (subst re_captures.simps, simp add: re_word_def re_op_def re_val_def ascii_defs Let_def)+

lemma field_tests: "test_kind_field_parse" "test_created_at_field_parse" "unknown_field_parse"
  by (simp_all add: test_kind_field_parse_def test_created_at_field_parse_def unknown_field_parse_def field_from_str_def)

lemma condition_parse_tests:
  "parse_empty" "parse_kind_equals_empty" "parse_kind_equals_singleval" "parse_kind_equals_multival" "parse_multi_conditions"
  by (simp_all add: parse_empty_def parse_kind_equals_empty_def parse_kind_equals_singleval_def parse_kind_equals_multival_def
      parse_multi_conditions_def kind_cq_def query_from_str_def split_terminator_def str_to_condition_def captures
      field_from_str_def operator_from_str_def parse_u64_def starts_with_def ascii_defs digit_val_def)

lemma condition_tests: "condition_with_empty_values" "condition_kind_gt_event_single" "condition_with_multi_values"
  by (simp_all add: condition_with_empty_values_def condition_kind_gt_event_single_def condition_with_multi_values_def Let_def
      kind_allows_def condition_allows_event_def test_events)

section \<open>String utilities\<close>

definition nip19_hex_key :: string where
  "nip19_hex_key = ''3bf0c63fcb93463407af97a5e5ee64fa883d107ef9e558472c4eb9aaaefa459d''"

definition nip19_key :: string where
  "nip19_key = ''npub180cvv07tjdrrgpa0j7j7tmnyl2yr6yr7l8j4s3evf6u64th6gkwsyjh6w6''"

definition lower_hex :: bool where
  "lower_hex \<longleftrightarrow> is_lower_hex ''abcd0123''"

definition nip19 :: bool where
  "nip19 \<longleftrightarrow> \<not> is_nip19 nip19_hex_key \<and> is_nip19 nip19_key"

text \<open>The decoding of bech32 is that of a package: this test is a fact of the package, and what the tests of admission rely on.\<close>

definition nip19_hex :: "externals \<Rightarrow> bool" where
  "nip19_hex X \<longleftrightarrow> nip19_to_hex X nip19_key = Some nip19_hex_key"

lemma utils_tests: "lower_hex" "nip19"
  by (simp_all add: lower_hex_def nip19_def nip19_hex_key_def nip19_key_def is_lower_hex_iff is_nip19_def starts_with_def ascii_defs)

section \<open>Names\<close>

definition name_validation :: bool where
  "name_validation \<longleftrightarrow> list_all (\<lambda>n. valid_name n 3 20 = Done True) [''ada'', ''ada.wren-99_x'', replicate 20 CHR ''a''] \<and>
     list_all (\<lambda>n. valid_name n 3 20 = Done False)
       [''ab'', ''Ada'', ''.ada'', ''ada.'', ''a d a'', replicate 21 CHR ''a'', [CHR ''p'', CHR 0xC3, CHR 0xA4, CHR ''g'', CHR ''e'']]"

definition reserved_and_lookalikes :: bool where
  "reserved_and_lookalikes \<longleftrightarrow> is_reserved ''support'' [] \<and> is_reserved ''supp0rt'' [] \<and> is_reserved ''adm1n'' [] \<and>
     \<not> is_reserved ''goblin'' [] \<and> is_reserved ''acme'' [''acme''] \<and> is_reserved ''acm3'' [''acme''] \<and> \<not> is_reserved ''acmecorp'' [''acme'']"

definition domain_labels_reserved :: "externals \<Rightarrow> bool" where
  "domain_labels_reserved X \<longleftrightarrow> domain_reserved X ''goblin.st'' = [''goblin''] \<and> domain_reserved X ''acme.example'' = [''acme''] \<and>
     domain_reserved X ''names.acme.example'' = [''names'', ''acme''] \<and> domain_reserved X ''GOBLIN.ST'' = [''goblin''] \<and>
     domain_reserved X ''localhost'' = [''localhost''] \<and>
     (let extra = domain_reserved X ''goblin.st'' in is_reserved ''goblin'' extra \<and> is_reserved ''g0blin'' extra \<and>
        is_reserved ''g-o-b-l-i-n'' extra \<and> \<not> is_reserved ''goblinfan'' extra)"

definition pubkey_validation :: bool where
  "pubkey_validation \<longleftrightarrow> valid_pubkey_hex ''91cf9dbbea5e6511fd2bbb190b112055ee4131c5d2bbb9faedf3ee8cbeac0d05'' \<and>
     \<not> valid_pubkey_hex ''91CF9DBBEA5E6511FD2BBB190B112055EE4131C5D2BBB9FAEDF3EE8CBEAC0D05'' \<and> \<not> valid_pubkey_hex ''abc''"

lemma name_test: "name_validation"
  by code_simp

lemma pubkey_test: "pubkey_validation"
  by (simp add: pubkey_validation_def valid_pubkey_hex_def ascii_defs)

lemma reserved_test: "reserved_and_lookalikes"
  by code_simp

lemma domain_test: "domain_labels_reserved X"
  by code_simp

end
