(* ===== verification/Name_Tests.thy ===== *)
theory Name_Tests
  imports Event_Tests Nip05 Nip98
begin

text \<open>
  The unit tests of \<^verbatim>\<open>src/src/nip05.rs\<close> and \<^verbatim>\<open>src/src/name_authority/nip98.rs\<close> as executable checks of the model, one definition per
  test function, and the proof that the model passes them. The tests of NIP-98 sign a real event; the key, the signature and the
  encoding are arguments, and what the tests rely on of them is \<open>test_signer\<close>.
\<close>

section \<open>NIP-05 addresses\<close>

definition rejected :: "externals \<Rightarrow> string \<Rightarrow> bool" where
  "rejected X addr = (case nip05_try_from X addr of Ok _ \<Rightarrow> False | Err _ \<Rightarrow> True)"

definition local_from_inet :: "externals \<Rightarrow> bool" where
  "local_from_inet X \<longleftrightarrow>
     (case nip05_try_from X ''bob@example.com'' of Ok v \<Rightarrow> n5_local v = ''bob'' \<and> n5_domain v = ''example.com'' | Err _ \<Rightarrow> False)"

definition not_enough_sep :: "externals \<Rightarrow> bool" where
  "not_enough_sep X = rejected X ''bob_example.com''"

definition too_many_sep :: "externals \<Rightarrow> bool" where
  "too_many_sep X = rejected X ''foo@bob@example.com''"

text \<open>The dash is U+2010 and the emoji U+1F62D.\<close>

definition unicode_dash :: string where
  "unicode_dash = [CHR 0xE2, CHR 0x80, CHR 0x90]"

definition emoji :: string where
  "emoji = [CHR 0xF0, CHR 0x9F, CHR 0x98, CHR 0xAD]"

definition invalid_local_name :: "externals \<Rightarrow> bool" where
  "invalid_local_name X = list_all (rejected X)
     [''foo!@example.com'', ''foo @example.com'', '' foo@example.com'', ''f oo@example.com'', ''foo<@example.com'',
      ''foo'' @ unicode_dash @ ''bar@example.com'', ''foo'' @ emoji @ ''bar@example.com'']"

definition invalid_domain_name :: "externals \<Rightarrow> bool" where
  "invalid_domain_name X = list_all (rejected X)
     [''foo@examp!e.com'', ''foo@ example.com'', ''foo@exa mple.com'', ''foo@example .com'', ''foo@exa<mple.com'',
      ''foobar@exa'' @ unicode_dash @ ''mple.com'', ''foobar@ex'' @ emoji @ ''ample.com'']"

definition to_url_test :: "externals \<Rightarrow> (string \<Rightarrow> bool) \<Rightarrow> bool" where
  "to_url_test X parses \<longleftrightarrow>
     (case nip05_try_from X ''foobar@example.com'' of
        Ok nip \<Rightarrow> to_url parses nip = Some ''https://example.com/.well-known/nostr.json?name=foobar''
      | Err _ \<Rightarrow> False)"

lemmas addr_eval = rejected_def nip05_try_from_def is_alphanumeric_def ascii_defs unicode_dash_def emoji_def

lemma addr_ascii_tests: "local_from_inet X" "not_enough_sep X" "too_many_sep X"
  "parses ''https://example.com/.well-known/nostr.json?name=foobar'' \<Longrightarrow> to_url_test X parses"
  by (simp_all add: local_from_inet_def not_enough_sep_def too_many_sep_def to_url_test_def to_url_def addr_eval)

lemma unicode_chars:
  "chars (''foo'' @ unicode_dash @ ''bar'') = [''f'', ''o'', ''o'', unicode_dash, ''b'', ''a'', ''r'']"
  "chars (''foo'' @ emoji @ ''bar'') = [''f'', ''o'', ''o'', emoji, ''b'', ''a'', ''r'']"
  "chars (''exa'' @ unicode_dash @ ''mple.com'') = [''e'', ''x'', ''a'', unicode_dash, ''m'', ''p'', ''l'', ''e'', ''.'', ''c'', ''o'', ''m'']"
  "chars (''ex'' @ emoji @ ''ample.com'') = [''e'', ''x'', emoji, ''a'', ''m'', ''p'', ''l'', ''e'', ''.'', ''c'', ''o'', ''m'']"
  by code_simp+

lemma unicode_split:
  "split_on CHR ''@'' (''foo'' @ unicode_dash @ ''bar@example.com'') = [''foo'' @ unicode_dash @ ''bar'', ''example.com'']"
  "split_on CHR ''@'' (''foo'' @ emoji @ ''bar@example.com'') = [''foo'' @ emoji @ ''bar'', ''example.com'']"
  "split_on CHR ''@'' (''foobar@exa'' @ unicode_dash @ ''mple.com'') = [''foobar'', ''exa'' @ unicode_dash @ ''mple.com'']"
  "split_on CHR ''@'' (''foobar@ex'' @ emoji @ ''ample.com'') = [''foobar'', ''ex'' @ emoji @ ''ample.com'']"
  by code_simp+

lemma unicode_rejected:
  assumes "\<not> ualnum X unicode_dash" "\<not> ualnum X emoji"
  shows "rejected X (''foo'' @ unicode_dash @ ''bar@example.com'')" "rejected X (''foo'' @ emoji @ ''bar@example.com'')"
    "rejected X (''foobar@exa'' @ unicode_dash @ ''mple.com'')" "rejected X (''foobar@ex'' @ emoji @ ''ample.com'')"
  using assms unfolding rejected_def nip05_try_from_def unicode_split
  by (simp_all only: unicode_chars list.simps list.pred_inject prod.case) (simp_all add: is_alphanumeric_def unicode_dash_def emoji_def)

lemma addr_unicode_tests:
  assumes "\<not> ualnum X unicode_dash" "\<not> ualnum X emoji"
  shows "invalid_local_name X" "invalid_domain_name X"
  using unicode_rejected [OF assms] unfolding invalid_local_name_def invalid_domain_name_def list.pred_inject
  by (simp_all only: simp_thms) (simp_all add: addr_eval)

section \<open>NIP-98 authorization\<close>

definition signed_auth_event ::
  "externals \<Rightarrow> string \<Rightarrow> (string \<Rightarrow> string) \<Rightarrow> (string \<Rightarrow> string) \<Rightarrow> string \<Rightarrow> string \<Rightarrow> string option \<Rightarrow> u64 \<Rightarrow> u64 \<Rightarrow> string option" where
  "signed_auth_event X pubkey_hex sign_schnorr encode url meth body kind created_at =
     (let tags = [[''u'', url], [''method'', meth]] @
            (case body of None \<Rightarrow> [] | Some b \<Rightarrow> [[''payload'', hex_encode X (sha256 X b)]]);
          event = \<lparr>ev_id = [], ev_pubkey = pubkey_hex, ev_delegated_by = None, ev_created_at = created_at, ev_kind = kind, ev_tags = tags,
            ev_content = [], ev_sig = [], ev_tagidx = None\<rparr>
      in Option.bind (to_canonical X event) (\<lambda>canonical.
         let digest = sha256 X canonical;
             event = event\<lparr>ev_id := hex_encode X digest, ev_sig := sign_schnorr digest\<rparr>
         in map_option (\<lambda>json. ''Nostr '' @ encode json) (event_to_string X event)))"

definition test_base :: string where
  "test_base = ''https://names.example''"

definition test_url :: string where
  "test_url = test_base @ ''/api/v1/register''"

text \<open>A test: the header is made and the check of it has the outcome that is asked for.\<close>

definition nip98_test ::
  "externals \<Rightarrow> u64 \<Rightarrow> string option \<Rightarrow> string \<Rightarrow> (string \<times> string, string) result option" where
  "nip98_test X now header body = map_option (\<lambda>h. verify_nip98 X now (Some h) ''POST'' ''/api/v1/register'' body test_base 60) header"

definition accepts_valid_auth :: "externals \<Rightarrow> string \<Rightarrow> (string \<Rightarrow> string) \<Rightarrow> (string \<Rightarrow> string) \<Rightarrow> u64 \<Rightarrow> bool" where
  \<open>accepts_valid_auth X pk sign enc now \<longleftrightarrow>
     (let body = ''{"name":"ada","pubkey":"aa"}'';
          header = signed_auth_event X pk sign enc test_url ''POST'' (Some body) HTTP_AUTH_KIND now
      in map_option is_ok (nip98_test X now header body) = Some True)\<close>

definition rejects_wrong_kind :: "externals \<Rightarrow> string \<Rightarrow> (string \<Rightarrow> string) \<Rightarrow> (string \<Rightarrow> string) \<Rightarrow> u64 \<Rightarrow> bool" where
  "rejects_wrong_kind X pk sign enc now \<longleftrightarrow>
     map_option is_ok (nip98_test X now (signed_auth_event X pk sign enc test_url ''POST'' None 1 now) []) = Some False"

definition rejects_stale_event :: "externals \<Rightarrow> string \<Rightarrow> (string \<Rightarrow> string) \<Rightarrow> (string \<Rightarrow> string) \<Rightarrow> u64 \<Rightarrow> bool" where
  "rejects_stale_event X pk sign enc now \<longleftrightarrow>
     map_option is_ok (nip98_test X now (signed_auth_event X pk sign enc test_url ''POST'' None HTTP_AUTH_KIND (now - 3600)) []) = Some False"

definition rejects_url_mismatch :: "externals \<Rightarrow> string \<Rightarrow> (string \<Rightarrow> string) \<Rightarrow> (string \<Rightarrow> string) \<Rightarrow> u64 \<Rightarrow> bool" where
  "rejects_url_mismatch X pk sign enc now \<longleftrightarrow>
     map_option is_ok (nip98_test X now
       (signed_auth_event X pk sign enc ''https://evil.example/api/v1/register'' ''POST'' None HTTP_AUTH_KIND now) []) = Some False"

definition rejects_method_mismatch :: "externals \<Rightarrow> string \<Rightarrow> (string \<Rightarrow> string) \<Rightarrow> (string \<Rightarrow> string) \<Rightarrow> u64 \<Rightarrow> bool" where
  "rejects_method_mismatch X pk sign enc now \<longleftrightarrow>
     map_option is_ok (nip98_test X now (signed_auth_event X pk sign enc test_url ''DELETE'' None HTTP_AUTH_KIND now) []) = Some False"

definition rejects_payload_tampering :: "externals \<Rightarrow> string \<Rightarrow> (string \<Rightarrow> string) \<Rightarrow> (string \<Rightarrow> string) \<Rightarrow> u64 \<Rightarrow> bool" where
  \<open>rejects_payload_tampering X pk sign enc now \<longleftrightarrow>
     (let header = signed_auth_event X pk sign enc test_url ''POST'' (Some ''{"name":"ada"}'') HTTP_AUTH_KIND now
      in map_option is_ok (nip98_test X now header ''{"name":"eve"}'') = Some False)\<close>

definition rejects_missing_header_and_bad_scheme :: "externals \<Rightarrow> u64 \<Rightarrow> bool" where
  "rejects_missing_header_and_bad_scheme X now \<longleftrightarrow> \<not> is_ok (verify_nip98 X now None ''POST'' ''/x'' [] ''https://a'' 60) \<and>
     \<not> is_ok (verify_nip98 X now (Some ''Bearer zzz'') ''POST'' ''/x'' [] ''https://a'' 60)"

text \<open>What the tests rely on: texts read back as what they are the text of, and the signature is one of the key.\<close>

definition test_signer :: "externals \<Rightarrow> string \<Rightarrow> (string \<Rightarrow> string) \<Rightarrow> (string \<Rightarrow> string) \<Rightarrow> bool" where
  "test_signer X pk sign enc \<longleftrightarrow> json_roundtrips X \<and> json_total X \<and>
     (\<forall>v s. json_to_string X v = Some s \<longrightarrow> base64_decode X (trim (enc s)) = Some s) \<and>
     (\<forall>c. \<exists>sg msg k. sig_from_str X (sign (sha256 X c)) = Some sg \<and> msg_from_slice X (sha256 X c) = Some msg \<and>
        xonly_from_str X pk = Some k \<and> verify_schnorr X sg msg k)"

lemma signed_event:
  assumes "test_signer X pk sign enc"
  obtains h e where "signed_auth_event X pk sign enc url meth body kind created = Some h" "header_event X (Some h) = Some e"
    "validate X e = Ok ()" "ev_kind e = kind" "ev_created_at e = created"
    "ev_tags e = [[''u'', url], [''method'', meth]] @ (case body of None \<Rightarrow> [] | Some b \<Rightarrow> [[''payload'', hex_encode X (sha256 X b)]])"
proof -
  define ts where "ts = [[''u'', url], [''method'', meth]] @
    (case body of None \<Rightarrow> [] | Some b \<Rightarrow> [[''payload'', hex_encode X (sha256 X b)]])"
  define e0 where "e0 = \<lparr>ev_id = [], ev_pubkey = pk, ev_delegated_by = None, ev_created_at = created, ev_kind = kind, ev_tags = ts,
    ev_content = [], ev_sig = [], ev_tagidx = None\<rparr>"
  from assms obtain c where c: "to_canonical X e0 = Some c" unfolding test_signer_def json_total_def to_canonical_def by blast
  define e where "e = e0\<lparr>ev_id := hex_encode X (sha256 X c), ev_sig := sign (sha256 X c)\<rparr>"
  from assms obtain j where j: "event_to_string X e = Some j" unfolding test_signer_def json_total_def event_to_string_def by blast
  have "to_canonical X e = Some c" using c by (simp add: e_def to_canonical_def canonical_value_def tags_to_canonical_def)
  moreover obtain sg msg k where "sig_from_str X (sign (sha256 X c)) = Some sg" "msg_from_slice X (sha256 X c) = Some msg"
    "xonly_from_str X pk = Some k" "verify_schnorr X sg msg k" using assms unfolding test_signer_def by blast
  ultimately have "validate X e = Ok ()" by (simp add: validate_def Let_def) (simp add: e_def e0_def)
  moreover have "signed_auth_event X pk sign enc url meth body kind created = Some (''Nostr '' @ enc j)"
    unfolding signed_auth_event_def Let_def ts_def [symmetric] e0_def [symmetric] using c j by (simp add: e_def)
  moreover have "header_event X (Some (''Nostr '' @ enc j)) = Some e"
    using assms event_from_to_str [OF _ j] j
    by (simp add: header_event_def strip_prefix_def starts_with_def test_signer_def event_to_string_def e_def e0_def)
  ultimately show thesis by (intro that [of _ e]) (simp_all add: e_def e0_def ts_def)
qed

lemma nip98_outcome:
  assumes "test_signer X pk sign enc"
  shows "map_option is_ok (nip98_test X now (signed_auth_event X pk sign enc url meth body kind created) b) =
    Some (kind = 27235 \<and> -5 \<le> sint (now - created) \<and> sint (now - created) \<le> 60 \<and>
      trim_end_matches CHR ''/'' url = trim_end_matches CHR ''/'' test_url \<and> eq_ignore_ascii_case meth ''POST'' \<and>
      (case body of None \<Rightarrow> b = [] | Some p \<Rightarrow> eq_ignore_ascii_case (hex_encode X (sha256 X p)) (hex_encode X (sha256 X b))))"
proof -
  obtain h e where h: "signed_auth_event X pk sign enc url meth body kind created = Some h" "header_event X (Some h) = Some e"
    and e: "validate X e = Ok ()" "ev_kind e = kind" "ev_created_at e = created"
      "ev_tags e = [[''u'', url], [''method'', meth]] @ (case body of None \<Rightarrow> [] | Some b \<Rightarrow> [[''payload'', hex_encode X (sha256 X b)]])"
    by (rule signed_event [OF assms])
  have "is_ok (verify_nip98 X now (Some h) ''POST'' ''/api/v1/register'' b test_base 60) \<longleftrightarrow>
      authorizes X now e ''POST'' ''/api/v1/register'' b test_base 60"
    using h(2) verify_nip98_Ok [of X now "Some h" "''POST''" "''/api/v1/register''" b test_base 60]
    by (cases "verify_nip98 X now (Some h) ''POST'' ''/api/v1/register'' b test_base 60") auto
  then show ?thesis using e
    by (auto simp: nip98_test_def h(1) authorizes_def scan_tags_def scan_tag_def auth_age_def Let_def test_url_def split: option.splits)
qed

lemma url_texts:
  "trim_end_matches CHR ''/'' ''https://evil.example/api/v1/register'' \<noteq> trim_end_matches CHR ''/'' test_url"
  "eq_ignore_ascii_case ''POST'' ''POST''" "\<not> eq_ignore_ascii_case ''DELETE'' ''POST''"
  by code_simp+

lemma nip98_tests:
  assumes "test_signer X pk sign enc"
  shows "accepts_valid_auth X pk sign enc now" "rejects_wrong_kind X pk sign enc now" "rejects_stale_event X pk sign enc now"
    "rejects_url_mismatch X pk sign enc now" "rejects_method_mismatch X pk sign enc now"
  unfolding accepts_valid_auth_def rejects_wrong_kind_def rejects_stale_event_def rejects_url_mismatch_def rejects_method_mismatch_def
    Let_def nip98_outcome [OF assms]
  by (simp_all add: url_texts HTTP_AUTH_KIND_def eq_ignore_ascii_case_def)

lemma nip98_tamper_test:
  assumes "test_signer X pk sign enc"
    and \<open>\<not> eq_ignore_ascii_case (hex_encode X (sha256 X ''{"name":"ada"}'')) (hex_encode X (sha256 X ''{"name":"eve"}''))\<close>
  shows "rejects_payload_tampering X pk sign enc now"
  unfolding rejects_payload_tampering_def Let_def nip98_outcome [OF assms(1)] using assms(2) by simp

lemma nip98_header_test: "rejects_missing_header_and_bad_scheme X now"
  by (simp add: rejects_missing_header_and_bad_scheme_def verify_nip98_def strip_prefix_def starts_with_def)

text \<open>There is such a signer.\<close>

lemma std_signer: "test_signer std_ext (replicate 64 CHR ''a'') (\<lambda>_. replicate 128 CHR ''a'') (\<lambda>s. s)"
proof -
  obtain k where "hex_dec (replicate 64 CHR ''a'') = Some k"
    using hex_dec_defined [of "replicate 64 CHR ''a''"] by (auto simp: list_all_iff ascii_defs)
  then show ?thesis unfolding test_signer_def
    by (auto simp: std_json_roundtrips std_json_total std_json_to_string_def trim_replicate is_whitespace_def is_ascii_def)
qed

end
