(* ===== verification/Admission_Tests.thy ===== *)
theory Admission_Tests
  imports Event_Tests Admission Nip05
begin

text \<open>
  The unit tests of \<^verbatim>\<open>src/src/admission.rs\<close> as executable checks of the model, one definition per test function, and the proof that the
  model passes them. A test that goes through a package of its own, the decoding of an npub, takes what that package answers as a hypothesis.
\<close>

section \<open>Helpers of the tests\<close>

definition str_repeat :: "string \<Rightarrow> nat \<Rightarrow> string" where
  "str_repeat s n = concat (replicate n s)"

definition event_of_kind :: "u64 \<Rightarrow> event" where
  "event_of_kind kind =
     (let e = simple_event\<lparr>ev_kind := kind\<rparr>
      in if kind = GIFT_WRAP_KIND then e\<lparr>ev_tags := [[''p'', str_repeat ''aa'' 32]]\<rparr> else e)"

definition floonet_settings :: settings where
  "floonet_settings = default_settings"

definition AUTH_HEX :: string where
  "AUTH_HEX = ''3bf0c63fcb93463407af97a5e5ee64fa883d107ef9e558472c4eb9aaaefa459d''"

definition AUTH_NPUB :: string where
  "AUTH_NPUB = ''npub180cvv07tjdrrgpa0j7j7tmnyl2yr6yr7l8j4s3evf6u64th6gkwsyjh6w6''"

definition event_from :: "u64 \<Rightarrow> string \<Rightarrow> event" where
  "event_from kind pubkey = (event_of_kind kind)\<lparr>ev_pubkey := pubkey\<rparr>"

definition giftwrap_with_tags :: "string list list \<Rightarrow> event" where
  "giftwrap_with_tags tags = (event_of_kind GIFT_WRAP_KIND)\<lparr>ev_tags := tags\<rparr>"

text \<open>Settings with other authorization values, and what the tests ask of a denial.\<close>

definition auth_settings :: "(authorization_settings \<Rightarrow> authorization_settings) \<Rightarrow> settings" where
  "auth_settings f = floonet_settings\<lparr>s_authorization := f (s_authorization floonet_settings)\<rparr>"

definition kinds_settings :: "u64 list option \<Rightarrow> settings" where
  "kinds_settings ks = floonet_settings\<lparr>s_limits := (s_limits floonet_settings)\<lparr>event_kind_allowlist := ks\<rparr>\<rparr>"

definition authors :: "string list \<Rightarrow> authorization_settings \<Rightarrow> authorization_settings" where
  "authors as a = a\<lparr>public_note_authors := Some as\<rparr>"

definition auth_to_write :: "bool \<Rightarrow> authorization_settings \<Rightarrow> authorization_settings" where
  "auth_to_write b a = a\<lparr>nip42_auth := b, require_auth_to_write := True\<rparr>"

definition check_with :: "externals \<Rightarrow> settings \<Rightarrow> event \<Rightarrow> string option \<Rightarrow> decision" where
  "check_with X s e a = admission_check X (from_settings X s) e a"

definition denied_with :: "bool \<Rightarrow> decision \<Rightarrow> bool" where
  "denied_with hint d = (case d of Deny _ b \<Rightarrow> b = hint | Allow \<Rightarrow> False)"

definition denied_for :: "string \<Rightarrow> decision \<Rightarrow> bool" where
  "denied_for text d = (case d of Deny r _ \<Rightarrow> str_contains r text | Allow \<Rightarrow> False)"

section \<open>The tests\<close>

definition default_whitelist_accepts_allowed_kinds :: "externals \<Rightarrow> bool" where
  "default_whitelist_accepts_allowed_kinds X =
     (let author = str_repeat ''aa'' 32; s = auth_settings (authors [author])
      in list_all (\<lambda>kind. check_with X s (event_from kind author) None = Allow) DEFAULT_ALLOWED_KINDS)"

definition default_whitelist_rejects_disallowed_kinds :: "externals \<Rightarrow> bool" where
  "default_whitelist_rejects_disallowed_kinds X =
     list_all (\<lambda>kind. denied_with False (check_with X floonet_settings (event_of_kind kind) None))
       [4, 6, 42, 1984, 9735, 25910, 30017, 30018]"

definition missing_allowlist_falls_back_to_floonet_set_not_allow_all :: "externals \<Rightarrow> bool" where
  "missing_allowlist_falls_back_to_floonet_set_not_allow_all X \<longleftrightarrow> check_with X (kinds_settings None) (event_of_kind 1059) None = Allow \<and>
     check_with X (kinds_settings None) (event_of_kind 9735) None \<noteq> Allow"

definition empty_allowlist_denies_everything :: "externals \<Rightarrow> bool" where
  "empty_allowlist_denies_everything X \<longleftrightarrow> check_with X (kinds_settings (Some [])) (event_of_kind 0) None \<noteq> Allow \<and>
     check_with X (kinds_settings (Some [])) (event_of_kind 1059) None \<noteq> Allow"

definition custom_allowlist_is_respected :: "externals \<Rightarrow> bool" where
  "custom_allowlist_is_respected X \<longleftrightarrow> check_with X (kinds_settings (Some [1, 7])) (event_of_kind 7) None = Allow \<and>
     check_with X (kinds_settings (Some [1, 7])) (event_of_kind 0) None \<noteq> Allow"

definition require_auth_denies_unauthed_writes_with_auth_required :: "externals \<Rightarrow> bool" where
  "require_auth_denies_unauthed_writes_with_auth_required X \<longleftrightarrow> denied_with True (check_with X (auth_settings (auth_to_write True)) (event_of_kind 1059) None) \<and>
     check_with X (auth_settings (auth_to_write True)) (event_of_kind 1059) (Some (str_repeat ''aa'' 32)) = Allow"

definition require_auth_without_nip42_is_inert :: "externals \<Rightarrow> bool" where
  "require_auth_without_nip42_is_inert X \<longleftrightarrow> check_with X (auth_settings (auth_to_write False)) (event_of_kind 1059) None = Allow"

definition pubkey_whitelist_enforced_when_free :: "externals \<Rightarrow> bool" where
  "pubkey_whitelist_enforced_when_free X \<longleftrightarrow>
     (let good = str_repeat ''aa'' 32; s = auth_settings (pubkey_whitelist_update (\<lambda>_. Some [good]))
      in check_with X s (event_from 0 good) None = Allow \<and> check_with X s (event_from 0 (str_repeat ''bb'' 32)) None \<noteq> Allow)"

definition kind_check_runs_before_auth_check :: "externals \<Rightarrow> bool" where
  "kind_check_runs_before_auth_check X = denied_with False (check_with X (auth_settings (auth_to_write True)) (event_of_kind 30023) None)"

definition locked_kinds_closed_by_default :: "externals \<Rightarrow> bool" where
  "locked_kinds_closed_by_default X = list_all (\<lambda>kind. denied_with False (check_with X floonet_settings (event_from kind AUTH_HEX) None)) LOCKED_KINDS"

definition locked_kind_from_unauthorized_key_denied :: "externals \<Rightarrow> bool" where
  "locked_kind_from_unauthorized_key_denied X =
     list_all (\<lambda>kind. check_with X (auth_settings (authors [AUTH_HEX])) (event_from kind (str_repeat ''bb'' 32)) None \<noteq> Allow) LOCKED_KINDS"

definition locked_kind_from_authorized_hex_accepted :: "externals \<Rightarrow> bool" where
  "locked_kind_from_authorized_hex_accepted X =
     list_all (\<lambda>kind. check_with X (auth_settings (authors [AUTH_HEX])) (event_from kind AUTH_HEX) None = Allow) LOCKED_KINDS"

definition locked_kind_from_authorized_npub_accepted :: "externals \<Rightarrow> bool" where
  "locked_kind_from_authorized_npub_accepted X =
     list_all (\<lambda>kind. check_with X (auth_settings (authors [AUTH_NPUB])) (event_from kind AUTH_HEX) None = Allow) LOCKED_KINDS"

definition non_locked_kinds_unaffected_by_random_keys :: "externals \<Rightarrow> bool" where
  "non_locked_kinds_unaffected_by_random_keys X =
     list_all (\<lambda>kind. check_with X floonet_settings (event_from kind (str_repeat ''cc'' 32)) None = Allow) [0, 1059, 30402]"

definition malformed_authors_skipped_valid_survives :: "externals \<Rightarrow> bool" where
  "malformed_authors_skipped_valid_survives X \<longleftrightarrow>
     (let s = auth_settings (authors [''npub1notvalid'', ''dead'', AUTH_HEX])
      in check_with X s (event_from 1 AUTH_HEX) None = Allow \<and> check_with X s (event_from 1 (str_repeat ''bb'' 32)) None \<noteq> Allow)"

definition lockdown_denies_before_auth_check :: "externals \<Rightarrow> bool" where
  "lockdown_denies_before_auth_check X = denied_with False
     (check_with X (auth_settings (authors [AUTH_HEX] \<circ> auth_to_write True)) (event_from 1 (str_repeat ''bb'' 32)) (Some AUTH_HEX))"

definition giftwrap_expiration_tag_rejected :: "externals \<Rightarrow> bool" where
  "giftwrap_expiration_tag_rejected X \<longleftrightarrow>
     (let d = check_with X floonet_settings (giftwrap_with_tags [[''p'', str_repeat ''aa'' 32], [''expiration'', ''1700000100'']]) None
      in denied_with False d \<and> denied_for ''expiration not allowed'' d)"

definition giftwrap_no_p_tag_rejected :: "externals \<Rightarrow> bool" where
  "giftwrap_no_p_tag_rejected X = denied_for ''missing recipient'' (check_with X floonet_settings (giftwrap_with_tags []) None)"

definition giftwrap_multiple_p_tags_rejected :: "externals \<Rightarrow> bool" where
  "giftwrap_multiple_p_tags_rejected X = denied_for ''missing recipient''
     (check_with X floonet_settings (giftwrap_with_tags [[''p'', str_repeat ''aa'' 32], [''p'', str_repeat ''bb'' 32]]) None)"

definition giftwrap_malformed_p_tag_rejected :: "externals \<Rightarrow> bool" where
  "giftwrap_malformed_p_tag_rejected X \<longleftrightarrow>
     list_all (\<lambda>bad. denied_for ''missing recipient'' (check_with X floonet_settings (giftwrap_with_tags [[''p'', bad]]) None))
       [''short'', str_repeat ''z'' 64, []] \<and>
     denied_for ''missing recipient'' (check_with X floonet_settings (giftwrap_with_tags [[''p'']]) None)"

definition giftwrap_valid_single_p_no_expiration_accepted :: "externals \<Rightarrow> bool" where
  "giftwrap_valid_single_p_no_expiration_accepted X \<longleftrightarrow>
     check_with X floonet_settings (giftwrap_with_tags [[''p'', str_repeat ''aa'' 32]]) None = Allow"

definition giftwrap_minimal_valid_wrap_accepted :: "externals \<Rightarrow> bool" where
  "giftwrap_minimal_valid_wrap_accepted X \<longleftrightarrow>
     check_with X floonet_settings (giftwrap_with_tags [[''p'', str_repeat ''df'' 32]]) None = Allow"

definition giftwrap_valid_lowercase_p_accepted :: "externals \<Rightarrow> bool" where
  "giftwrap_valid_lowercase_p_accepted X \<longleftrightarrow>
     (let recipient = str_repeat ''0123456789abcdef'' 4 in length recipient = 64 \<and>
       check_with X floonet_settings (giftwrap_with_tags [[''p'', recipient]]) None = Allow)"

definition giftwrap_uppercase_p_rejected :: "externals \<Rightarrow> bool" where
  "giftwrap_uppercase_p_rejected X = denied_for ''missing recipient''
     (check_with X floonet_settings (giftwrap_with_tags [[''p'', str_repeat ''AA'' 32]]) None)"

definition giftwrap_mixedcase_p_rejected :: "externals \<Rightarrow> bool" where
  "giftwrap_mixedcase_p_rejected X \<longleftrightarrow>
     (let recipient = ''A'' @ drop 1 (str_repeat ''aa'' 32)
      in length recipient = 64 \<and> denied_for ''missing recipient'' (check_with X floonet_settings (giftwrap_with_tags [[''p'', recipient]]) None))"

definition giftwrap_extraneous_tags_rejected :: "externals \<Rightarrow> bool" where
  "giftwrap_extraneous_tags_rejected X = denied_for ''extraneous tags''
     (check_with X floonet_settings (giftwrap_with_tags [[''p'', str_repeat ''aa'' 32], [''t'', ''spam'']]) None)"

definition non_giftwrap_unaffected_by_case_and_tag_count :: "externals \<Rightarrow> bool" where
  "non_giftwrap_unaffected_by_case_and_tag_count X \<longleftrightarrow> check_with X floonet_settings
     ((event_of_kind 0)\<lparr>ev_tags := [[''p'', str_repeat ''AA'' 32], [''p'', str_repeat ''bb'' 32], [''t'', ''hello'']]\<rparr>) None = Allow"

definition non_giftwrap_with_expiration_unaffected :: "externals \<Rightarrow> bool" where
  "non_giftwrap_with_expiration_unaffected X \<longleftrightarrow> check_with X (auth_settings (authors [AUTH_HEX]))
     ((event_from 1 AUTH_HEX)\<lparr>ev_tags := [[''expiration'', ''1700000100'']]\<rparr>) None = Allow"

definition giftwrap_guard_runs_before_auth_check :: "externals \<Rightarrow> bool" where
  "giftwrap_guard_runs_before_auth_check X \<longleftrightarrow>
     (let d = check_with X (auth_settings (auth_to_write True))
            (giftwrap_with_tags [[''expiration'', ''1700000100''], [''p'', str_repeat ''aa'' 32]]) None
      in denied_with False d \<and> denied_for ''expiration not allowed'' d)"

section \<open>The model passes\<close>

lemma str_repeat_props:
  "length (str_repeat s n) = n * length s"
  "list_all P s \<Longrightarrow> list_all P (str_repeat s n)"
  by (induction n) (auto simp: str_repeat_def)

lemma lower_hex_ascii:
  assumes "is_lower_hex h"
  shows "list_all is_ascii h" "list_all (\<lambda>c. \<not> is_ascii_uppercase c) h" "chars h = map (\<lambda>c. [c]) h"
proof -
  show a: "list_all is_ascii h" using assms by (auto simp: is_lower_hex_iff list_all_iff hexdigit_ascii)
  show "list_all (\<lambda>c. \<not> is_ascii_uppercase c) h" using assms by (auto simp: is_lower_hex_iff list_all_iff)
  show "chars h = map (\<lambda>c. [c]) h" using a by (intro chars_ascii) (auto simp: list_all_iff)
qed

lemma lower_hex_trim:
  assumes "is_lower_hex h"
  shows "trim h = h"
proof -
  have w: "\<not> is_whitespace [c]" if "c \<in> set h" for c
    using that assms by (auto simp: is_lower_hex_iff list_all_iff is_whitespace_def ascii_defs)
  have "dropWhile is_whitespace (map (\<lambda>c. [c]) xs) = map (\<lambda>c. [c]) xs" if "set xs \<subseteq> set h" for xs
    using that w by (cases xs) auto
  then show ?thesis unfolding trim_def lower_hex_ascii(3) [OF assms] by (simp add: rev_map)
qed

lemma lower_hex_entry:
  assumes "length h = 64" "is_lower_hex h"
  shows "author_entry X h = Some h" "to_lowercase f h = h"
proof -
  show l: "to_lowercase f h = h" for f using lower_hex_ascii [OF assms(2)] by (intro to_lowercase_fixed) auto
  have "h \<noteq> []" using assms(1) by auto
  moreover have "\<not> is_nip19 h"
    using assms by (cases h) (auto simp: is_nip19_def starts_with_def is_lower_hex_iff ascii_defs)
  ultimately show "author_entry X h = Some h"
    using assms l is_lower_hex_is_hex [OF assms(2)] by (simp add: author_entry_def Let_def lower_hex_trim)
qed

lemma test_keys:
  "length AUTH_HEX = 64" "is_lower_hex AUTH_HEX" "length (str_repeat ''aa'' 32) = 64" "is_lower_hex (str_repeat ''aa'' 32)"
  "length (str_repeat ''bb'' 32) = 64" "is_lower_hex (str_repeat ''bb'' 32)" "is_lower_hex (str_repeat ''cc'' 32)"
  "length (str_repeat ''cc'' 32) = 64" "str_repeat ''bb'' 32 \<noteq> AUTH_HEX" "str_repeat ''bb'' 32 \<noteq> str_repeat ''aa'' 32"
  by (simp_all add: AUTH_HEX_def is_lower_hex_iff str_repeat_props ascii_defs)
    (simp_all add: str_repeat_def AUTH_HEX_def eval_nat_numeral)

lemmas settings_eval = check_with_def from_settings_def allowed_kinds_def note_entries_def auth_settings_def kinds_settings_def
  authors_def auth_to_write_def floonet_settings_def default_settings_def from_entries_def List.map_filter_simps

lemmas policy_eval = kind_whitelist_check_def gift_wrap_check_def restricted_kind_check_def require_auth_check_def pubkey_whitelist_check_def
  deny_def deny_auth_def denied_with_def LOCKED_KINDS_def GIFT_WRAP_KIND_def DEFAULT_ALLOWED_KINDS_def

lemmas event_eval = event_from_def event_of_kind_def giftwrap_with_tags_def simple_event_def

lemma accept_tests:
  "default_whitelist_accepts_allowed_kinds X" "default_whitelist_rejects_disallowed_kinds X" "missing_allowlist_falls_back_to_floonet_set_not_allow_all X"
  "empty_allowlist_denies_everything X" "custom_allowlist_is_respected X"
  by (simp_all add: default_whitelist_accepts_allowed_kinds_def default_whitelist_rejects_disallowed_kinds_def
      missing_allowlist_falls_back_to_floonet_set_not_allow_all_def empty_allowlist_denies_everything_def custom_allowlist_is_respected_def
      Let_def settings_eval policy_eval event_eval lower_hex_entry test_keys)
lemma auth_tests:
  "require_auth_denies_unauthed_writes_with_auth_required X" "require_auth_without_nip42_is_inert X" "pubkey_whitelist_enforced_when_free X"
  "kind_check_runs_before_auth_check X"
  by (simp_all add: require_auth_denies_unauthed_writes_with_auth_required_def require_auth_without_nip42_is_inert_def pubkey_whitelist_enforced_when_free_def
      kind_check_runs_before_auth_check_def Let_def settings_eval policy_eval event_eval lower_hex_entry test_keys)

lemma bad_entry: "nip19_to_hex X ''npub1notvalid'' = None \<Longrightarrow> List.map_filter (author_entry X) [''npub1notvalid'', ''dead'', AUTH_HEX] = [AUTH_HEX]"
proof -
  assume bad: "nip19_to_hex X ''npub1notvalid'' = None"
  have t: "trim ''npub1notvalid'' = ''npub1notvalid''" "trim ''dead'' = ''dead''" by code_simp+
  have n: "is_nip19 ''npub1notvalid''" "\<not> is_nip19 ''dead''" by code_simp+
  have "author_entry X ''npub1notvalid'' = None" "author_entry X ''dead'' = None"
    by (simp_all add: author_entry_def Let_def t n bad)
  then show ?thesis by (simp add: List.map_filter_simps lower_hex_entry test_keys)
qed

lemma lockdown_tests:
  "locked_kinds_closed_by_default X" "locked_kind_from_unauthorized_key_denied X" "locked_kind_from_authorized_hex_accepted X"
  "non_locked_kinds_unaffected_by_random_keys X" "lockdown_denies_before_auth_check X"
  by (simp_all add: locked_kinds_closed_by_default_def locked_kind_from_unauthorized_key_denied_def locked_kind_from_authorized_hex_accepted_def
      non_locked_kinds_unaffected_by_random_keys_def lockdown_denies_before_auth_check_def
      settings_eval policy_eval event_eval lower_hex_entry test_keys)

lemma npub_test:
  assumes "nip19_hex X"
  shows "locked_kind_from_authorized_npub_accepted X"
proof -
  have "nip19_to_hex X AUTH_NPUB = Some AUTH_HEX"
    using assms by (simp add: nip19_hex_def AUTH_NPUB_def nip19_key_def AUTH_HEX_def nip19_hex_key_def)
  moreover have n: "trim AUTH_NPUB = AUTH_NPUB" "is_nip19 AUTH_NPUB" "AUTH_NPUB \<noteq> []" by code_simp+
  ultimately have "author_entry X AUTH_NPUB = Some AUTH_HEX" by (simp add: author_entry_def Let_def lower_hex_entry test_keys)
  then show ?thesis
    by (simp add: locked_kind_from_authorized_npub_accepted_def settings_eval policy_eval event_eval lower_hex_entry test_keys)
qed

lemma malformed_test: "nip19_to_hex X ''npub1notvalid'' = None \<Longrightarrow> malformed_authors_skipped_valid_survives X"
  using bad_entry [of X] by (simp add: malformed_authors_skipped_valid_survives_def Let_def check_with_def from_settings_def allowed_kinds_def
      note_entries_def auth_settings_def authors_def floonet_settings_def default_settings_def from_entries_def
      policy_eval event_eval lower_hex_entry test_keys)

lemma denial_texts:
  "str_contains ''expiration not allowed on gift wraps'' ''expiration not allowed''"
  "str_contains ''gift wrap missing recipient'' ''missing recipient''"
  "str_contains ''gift wrap has extraneous tags'' ''extraneous tags''"
  by code_simp+

lemma str_repeat_all: "0 < n \<Longrightarrow> list_all P (str_repeat s n) \<longleftrightarrow> list_all P s"
  by (auto simp: str_repeat_def list_all_iff)

lemma test_recipients:
  "\<not> is_lower_hex (str_repeat ''z'' 64)" "\<not> is_lower_hex (str_repeat ''AA'' 32)" "length (str_repeat ''z'' 64) = 64"
  "\<not> is_lower_hex (CHR ''A'' # xs)" "is_lower_hex (str_repeat ''df'' 32)" "length (str_repeat ''df'' 32) = 64"
  "is_lower_hex (str_repeat ''0123456789abcdef'' 4)" "length (str_repeat ''0123456789abcdef'' 4) = 64"
  by (simp_all add: is_lower_hex_iff str_repeat_props(1) str_repeat_all ascii_defs)

lemma giftwrap_tests:
  "giftwrap_expiration_tag_rejected X" "giftwrap_no_p_tag_rejected X" "giftwrap_multiple_p_tags_rejected X" "giftwrap_malformed_p_tag_rejected X"
  "giftwrap_valid_single_p_no_expiration_accepted X" "giftwrap_minimal_valid_wrap_accepted X" "giftwrap_valid_lowercase_p_accepted X"
  "giftwrap_uppercase_p_rejected X" "giftwrap_mixedcase_p_rejected X" "giftwrap_extraneous_tags_rejected X"
  "giftwrap_guard_runs_before_auth_check X"
  by (simp_all add: giftwrap_expiration_tag_rejected_def giftwrap_no_p_tag_rejected_def giftwrap_multiple_p_tags_rejected_def
      giftwrap_malformed_p_tag_rejected_def giftwrap_valid_single_p_no_expiration_accepted_def giftwrap_minimal_valid_wrap_accepted_def giftwrap_valid_lowercase_p_accepted_def
      giftwrap_uppercase_p_rejected_def giftwrap_mixedcase_p_rejected_def giftwrap_extraneous_tags_rejected_def
      giftwrap_guard_runs_before_auth_check_def denied_for_def denial_texts test_recipients
      Let_def settings_eval policy_eval event_eval test_keys str_repeat_props(1) del: str_contains.simps)

lemma other_kind_tests:
  "non_giftwrap_unaffected_by_case_and_tag_count X" "non_giftwrap_with_expiration_unaffected X"
  by (simp_all add: non_giftwrap_unaffected_by_case_and_tag_count_def non_giftwrap_with_expiration_unaffected_def
      settings_eval policy_eval event_eval lower_hex_entry test_keys)

end
