(* ===== verification/Store_Tests.thy ===== *)
theory Store_Tests
  imports Admission_Tests Pg_Query
begin

text \<open>
  The unit tests of the repositories (\<^verbatim>\<open>src/src/repo/sqlite.rs\<close>, \<^verbatim>\<open>src/src/repo/postgres.rs\<close>), the texts of the generated statements
  and the deletion of gift wraps, as executable checks of the model, one definition per test function, and the proof that the model
  passes them.
\<close>

section \<open>Helpers\<close>

definition AUTHOR_84 :: string where
  "AUTHOR_84 = ''84de35e2584d2b144aae823c9ed0b0f3deda09648530b93d1a2a146d1dea9864''"

definition VALUE_63 :: string where
  "VALUE_63 = ''63fe6318dc58583cfe16810f86dd09e18bfd76aabc24a0081ce2856f330504ed''"

definition test_filter :: "u64 list \<Rightarrow> string list option \<Rightarrow> (rchar \<times> tag_operand) list \<Rightarrow> req_filter" where
  "test_filter ks as ts = \<lparr>rf_ids = None, rf_kinds = Some ks, rf_since = None, rf_until = None, rf_authors = as, rf_limit = None,
     rf_tags = Some ts, rf_force_no_match = False\<rparr>"

definition sqlite_text :: "externals \<Rightarrow> u64 \<Rightarrow> req_filter \<Rightarrow> string" where
  "sqlite_text X now f = fst (query_from_filter X now f)"

text \<open>\<^verbatim>\<open>str::matches(..).count()\<close>: occurrences that do not overlap.\<close>

fun str_matches :: "nat \<Rightarrow> string \<Rightarrow> string \<Rightarrow> nat" where
  "str_matches k [] p = 0"
| "str_matches (Suc k) (c # s) p = str_matches k s p"
| "str_matches 0 (c # s) p = (if starts_with (c # s) p then Suc (str_matches (length p - 1) s p) else str_matches 0 s p)"

definition pg_text :: "externals \<Rightarrow> (int \<Rightarrow> bool) \<Rightarrow> req_filter \<Rightarrow> string option" where
  "pg_text X ts_ok f = (case pg_query_from_filter X ts_ok f of Done (Some q) \<Rightarrow> Some (pg_sql 1 (stmt_tokens q)) | _ \<Rightarrow> None)"

section \<open>SQLite\<close>

definition test_query_gen_tag_value_or :: "externals \<Rightarrow> u64 \<Rightarrow> bool" where
  "test_query_gen_tag_value_or X now \<longleftrightarrow> sqlite_text X now (test_filter [1000] (Some [AUTHOR_84]) [(''d'', Or {|''test''|})]) =
     ''SELECT e.content FROM event e INDEXED BY author_kind_index WHERE hidden!=TRUE AND (author=?) AND kind IN (1000) AND e.id IN (SELECT t.event_id FROM tag t WHERE (name=? AND value IN (?) AND kind IN (1000))) AND (expires_at IS NULL OR expires_at > ?) ORDER BY e.created_at ASC''"

definition test_query_gen_tag_value_or_multiple :: "externals \<Rightarrow> u64 \<Rightarrow> bool" where
  "test_query_gen_tag_value_or_multiple X now \<longleftrightarrow> sqlite_text X now (test_filter [30001] None [(''d'', Or {|''test'', ''test2''|})]) =
     ''SELECT e.content FROM event e  WHERE hidden!=TRUE AND kind IN (30001) AND e.id IN (SELECT t.event_id FROM tag t WHERE (name=? AND value IN (?, ?) AND kind IN (30001))) AND (expires_at IS NULL OR expires_at > ?) ORDER BY e.created_at ASC''"

definition test_query_gen_tag_value_and :: "externals \<Rightarrow> u64 \<Rightarrow> bool" where
  "test_query_gen_tag_value_and X now \<longleftrightarrow>
     (let query = sqlite_text X now (test_filter [1000] (Some [AUTHOR_84]) [(''d'', And {|''test'', ''test2''|})])
      in str_contains query ''SELECT e.content FROM event e'' \<and> str_contains query ''WHERE hidden!=TRUE'' \<and>
         str_contains query ''(author=?)'' \<and> str_contains query ''kind IN (1000)'' \<and>
         str_matches 0 query ''e.id IN (SELECT t.event_id FROM tag t WHERE (name=? AND value=?'' = 2 \<and>
         str_contains query ''ORDER BY e.created_at ASC'')"

definition test_query_gen_tag_value_and_hex :: "externals \<Rightarrow> u64 \<Rightarrow> bool" where
  "test_query_gen_tag_value_and_hex X now \<longleftrightarrow>
     (let query = sqlite_text X now (test_filter [1000] (Some [AUTHOR_84]) [(''p'', And {|VALUE_63, AUTHOR_84|})])
      in str_contains query ''SELECT e.content FROM event e'' \<and> str_contains query ''WHERE hidden!=TRUE'' \<and>
         str_contains query ''(author=?)'' \<and> str_contains query ''kind IN (1000)'' \<and>
         str_matches 0 query ''e.id IN (SELECT t.event_id FROM tag t WHERE (name=? AND value=?'' = 2)"

definition empty_tags_filter :: req_filter where
  "empty_tags_filter = (test_filter [1, 6, 16, 30023, 1063, 6969] None [(''a'', And {||})])\<lparr>rf_since := Some 1700697846\<rparr>"

definition test_query_empty_tags :: "externals \<Rightarrow> u64 \<Rightarrow> bool" where
  "test_query_empty_tags X now \<longleftrightarrow>
     (let query = sqlite_text X now empty_tags_filter
      in str_contains query ''SELECT e.content FROM event e'' \<and> str_contains query ''WHERE hidden!=TRUE'' \<and>
         str_contains query ''kind IN (1, 6, 16, 30023, 1063, 6969)'' \<and> \<not> str_contains query ''e.id IN (SELECT t.event_id FROM tag t'')"

definition test_query_tag_with_since_until :: "externals \<Rightarrow> u64 \<Rightarrow> bool" where
  "test_query_tag_with_since_until X now \<longleftrightarrow>
     (let query = sqlite_text X now ((test_filter [1000] None [(''d'', Or {|''test''|})])\<lparr>rf_since := Some 1234567890, rf_until := Some 9876543210\<rparr>)
      in str_contains query ''created_at >= 1234567890'' \<and> str_contains query ''created_at <= 9876543210'' \<and>
         str_contains query ''AND created_at >= 1234567890'' \<and> str_contains query ''AND created_at <= 9876543210'')"

definition test_query_multiple_tag_keys_or :: "externals \<Rightarrow> u64 \<Rightarrow> bool" where
  "test_query_multiple_tag_keys_or X now \<longleftrightarrow>
     (let query = sqlite_text X now (test_filter [1000] None [(''d'', Or {|''test''|}), (''e'', Or {|''event1''|})])
      in str_matches 0 query ''e.id IN (SELECT t.event_id FROM tag t WHERE (name=?'' = 2)"

section \<open>PostgreSQL\<close>

definition pg_tag_value_hex :: "externals \<Rightarrow> (int \<Rightarrow> bool) \<Rightarrow> bool" where
  \<open>pg_tag_value_hex X ts_ok \<longleftrightarrow> pg_text X ts_ok (test_filter [1000] (Some [AUTHOR_84]) [(''p'', Or {|VALUE_63|})]) =
     Some ''SELECT e."content", e.created_at FROM "event" e JOIN tag t1 on e.id = t1.event_id AND t1."name" = $1 AND (t1."value_hex" in ($2)) WHERE (e.pub_key in ($3) OR e.delegated_by in ($4)) AND e.kind in ($5) AND e.hidden != 1::bit(1) AND (e.expires_at IS NULL OR e.expires_at > now()) ORDER BY e.created_at ASC LIMIT 1000''\<close>

definition pg_tag_value :: "externals \<Rightarrow> (int \<Rightarrow> bool) \<Rightarrow> bool" where
  \<open>pg_tag_value X ts_ok \<longleftrightarrow> pg_text X ts_ok (test_filter [1000] (Some [AUTHOR_84]) [(''d'', Or {|''test''|})]) =
     Some ''SELECT e."content", e.created_at FROM "event" e JOIN tag t1 on e.id = t1.event_id AND t1."name" = $1 AND (t1."value" in ($2)) WHERE (e.pub_key in ($3) OR e.delegated_by in ($4)) AND e.kind in ($5) AND e.hidden != 1::bit(1) AND (e.expires_at IS NULL OR e.expires_at > now()) ORDER BY e.created_at ASC LIMIT 1000''\<close>

definition pg_tag_value_and_value_hex :: "externals \<Rightarrow> (int \<Rightarrow> bool) \<Rightarrow> bool" where
  \<open>pg_tag_value_and_value_hex X ts_ok \<longleftrightarrow> pg_text X ts_ok (test_filter [1000] (Some [AUTHOR_84]) [(''d'', And {|''test'', VALUE_63|})]) =
     Some ''SELECT e."content", e.created_at FROM "event" e JOIN "tag" t1 on e.id = t1.event_id AND t1."name" = $1 AND t1."value_hex" = $2 JOIN "tag" t2 on e.id = t2.event_id AND t2."name" = $3 AND t2."value" = $4 WHERE (e.pub_key in ($5) OR e.delegated_by in ($6)) AND e.kind in ($7) AND e.hidden != 1::bit(1) AND (e.expires_at IS NULL OR e.expires_at > now()) ORDER BY e.created_at ASC LIMIT 1000''\<close>

definition pg_multiple_tags :: "externals \<Rightarrow> (int \<Rightarrow> bool) \<Rightarrow> bool" where
  \<open>pg_multiple_tags X ts_ok \<longleftrightarrow> pg_text X ts_ok (test_filter [30001] None [(''d'', Or {|''test'', VALUE_63|})]) =
     Some ''SELECT e."content", e.created_at FROM "event" e JOIN tag t1 on e.id = t1.event_id AND t1."name" = $1 AND (t1."value" in ($2) OR t1."value_hex" in ($3)) WHERE e.kind in ($4) AND e.hidden != 1::bit(1) AND (e.expires_at IS NULL OR e.expires_at > now()) ORDER BY e.created_at ASC LIMIT 1000''\<close>

definition pg_tag_value_hex_and :: "externals \<Rightarrow> (int \<Rightarrow> bool) \<Rightarrow> bool" where
  \<open>pg_tag_value_hex_and X ts_ok \<longleftrightarrow> pg_text X ts_ok (test_filter [1000] (Some [AUTHOR_84]) [(''p'', And {|VALUE_63, AUTHOR_84|})]) =
     Some ''SELECT e."content", e.created_at FROM "event" e JOIN "tag" t1 on e.id = t1.event_id AND t1."name" = $1 AND t1."value_hex" = $2 JOIN "tag" t2 on e.id = t2.event_id AND t2."name" = $3 AND t2."value_hex" = $4 WHERE (e.pub_key in ($5) OR e.delegated_by in ($6)) AND e.kind in ($7) AND e.hidden != 1::bit(1) AND (e.expires_at IS NULL OR e.expires_at > now()) ORDER BY e.created_at ASC LIMIT 1000''\<close>

definition pg_empty_tags :: "externals \<Rightarrow> (int \<Rightarrow> bool) \<Rightarrow> bool" where
  "pg_empty_tags X ts_ok \<longleftrightarrow> pg_query_from_filter X ts_ok empty_tags_filter = Done None"

section \<open>The model passes\<close>

lemma sorted_fset:
  "sorted_list_of_fset {|a|} = [a]"
  "a < b \<Longrightarrow> sorted_list_of_fset {|a, b|} = [a, b]" "a < b \<Longrightarrow> sorted_list_of_fset {|b, a|} = [a, b]"
  by (auto simp: sorted_list_of_fset.rep_eq)

lemma value_order: "''test'' < ''test2''" "VALUE_63 < AUTHOR_84" "VALUE_63 < ''test''"
  by code_simp+

lemma value_hex: "is_lower_hex VALUE_63" "is_lower_hex AUTHOR_84" "is_hex AUTHOR_84" "even (length VALUE_63)" "\<not> is_lower_hex ''test''"
  by code_simp+

lemma starts_with_code:
  "starts_with s []" "starts_with [] (d # p) \<longleftrightarrow> False" "starts_with (c # s) (d # p) \<longleftrightarrow> c = d \<and> starts_with s p"
  by (auto simp: starts_with_def)

lemma digit_chars:
  "char_of (48 :: nat) = CHR ''0''" "char_of (49 :: nat) = CHR ''1''" "char_of (50 :: nat) = CHR ''2''" "char_of (51 :: nat) = CHR ''3''"
  "char_of (52 :: nat) = CHR ''4''" "char_of (53 :: nat) = CHR ''5''" "char_of (54 :: nat) = CHR ''6''" "char_of (55 :: nat) = CHR ''7''"
  "char_of (56 :: nat) = CHR ''8''" "char_of (57 :: nat) = CHR ''9''"
  by code_simp+

lemma digits:
  "show_u64 1000 = ''1000''" "show_u64 30001 = ''30001''" "show_u64 1234567890 = ''1234567890''" "show_u64 9876543210 = ''9876543210''"
  "show_u64 1700697846 = ''1700697846''" "show_u64 1 = ''1''" "show_u64 6 = ''6''" "show_u64 16 = ''16''" "show_u64 30023 = ''30023''"
  "show_u64 1063 = ''1063''" "show_u64 6969 = ''6969''"
  by (simp_all add: show_u64_def show_nat.simps digit_chars)

lemma numbers:
  "show_list [1, 6, 16, 30023, 1063, 6969] = ''1, 6, 16, 30023, 1063, 6969''"
  "show_list [1000] = ''1000''" "show_list [30001] = ''30001''" "repeat_vars (Suc 0) = ''?''" "repeat_vars (Suc (Suc 0)) = ''?, ?''"
  by (simp_all add: show_list_def digits repeat_vars_def)

lemmas text_eval = sqlite_text_def test_filter_def query_from_filter_def override_index_def filter_clauses_def list_clause_def
  tag_clauses_def filter_extra_def opt_list_def extra_parts_def tag_subquery_def Let_def

lemma sqlite_exact_tests: "test_query_gen_tag_value_or X now" "test_query_gen_tag_value_or_multiple X now"
  by (simp_all add: test_query_gen_tag_value_or_def test_query_gen_tag_value_or_multiple_def text_eval sorted_fset value_order numbers digits)



lemma sqlite_and_tests: "test_query_gen_tag_value_and X now" "test_query_gen_tag_value_and_hex X now"
  by (simp_all add: test_query_gen_tag_value_and_def test_query_gen_tag_value_and_hex_def text_eval sorted_fset value_order numbers digits
      starts_with_code)

lemma sqlite_empty_test: "test_query_empty_tags X now"
  by (simp add: test_query_empty_tags_def empty_tags_filter_def text_eval numbers digits starts_with_code)

lemma sqlite_time_test: "test_query_tag_with_since_until X now"
  by (simp add: test_query_tag_with_since_until_def text_eval sorted_fset numbers digits starts_with_code)

lemma sqlite_keys_test: "test_query_multiple_tag_keys_or X now"
  by (simp add: test_query_multiple_tag_keys_or_def text_eval sorted_fset numbers digits starts_with_code)

lemmas pg_eval = pg_text_def test_filter_def pg_query_from_filter_def pg_joins_of_def pg_list_cond_def pg_time_cond_def Let_def
  stmt_tokens_def quoted_def separated_def

lemma pg_or_tests: "pg_tag_value_hex X ts_ok" "pg_tag_value X ts_ok" "pg_multiple_tags X ts_ok"
  by (simp_all add: pg_tag_value_hex_def pg_tag_value_def pg_multiple_tags_def pg_eval sorted_fset value_order value_hex show_nat.simps digit_chars)

lemma pg_and_tests: "pg_tag_value_and_value_hex X ts_ok" "pg_tag_value_hex_and X ts_ok"
  by (simp_all add: pg_tag_value_and_value_hex_def pg_tag_value_hex_and_def pg_eval sorted_fset value_order value_hex show_nat.simps digit_chars)

lemma pg_empty_test: "pg_empty_tags X ts_ok"
  by (simp add: pg_empty_tags_def empty_tags_filter_def pg_eval)

section \<open>Deletion of gift wraps\<close>

text \<open>A new database after its migration is empty. Writing fails for no outside reason, and \<^verbatim>\<open>unwrap\<close> asks for success.\<close>

definition store_test_event :: "u64 \<Rightarrow> string \<Rightarrow> string \<Rightarrow> string list list \<Rightarrow> event" where
  "store_test_event kind i pubkey tags = simple_event\<lparr>ev_kind := kind, ev_id := i, ev_pubkey := pubkey, ev_tags := tags\<rparr>"

definition hidden_flag :: "externals \<Rightarrow> event_db \<Rightarrow> string \<Rightarrow> bool option" where
  "hidden_flag X db i = Option.bind (hex_decode X i) (\<lambda>h. map_option er_hidden (List.find (\<lambda>r. er_hash r = h) (db_events db)))"

definition written :: "externals \<Rightarrow> row_order \<Rightarrow> int \<Rightarrow> event list \<Rightarrow> event_db option" where
  "written X ord now es =
     fold (\<lambda>e st. Option.bind st (\<lambda>db. case write_event X ord now None (\<lambda>_. None) e db of (db', r) \<Rightarrow> if is_ok r then Some db' else None))
       es (Some empty_events)"

definition kind5_delete_of_giftwrap_is_blocked_even_from_same_ephemeral_author :: "externals \<Rightarrow> row_order \<Rightarrow> int \<Rightarrow> bool" where
  "kind5_delete_of_giftwrap_is_blocked_even_from_same_ephemeral_author X ord now \<longleftrightarrow>
     (let ephemeral_author = str_repeat ''ab'' 32; recipient = str_repeat ''cd'' 32; giftwrap_id = str_repeat ''11'' 32;
          delete_id = str_repeat ''22'' 32;
          giftwrap = store_test_event 1059 giftwrap_id ephemeral_author [[''p'', recipient]];
          delete = store_test_event 5 delete_id ephemeral_author [[''e'', giftwrap_id]]
      in Option.bind (written X ord now [giftwrap, delete]) (\<lambda>db. hidden_flag X db giftwrap_id) = Some False)"

definition kind5_predating_giftwrap_does_not_hide_it_on_arrival :: "externals \<Rightarrow> row_order \<Rightarrow> int \<Rightarrow> bool" where
  "kind5_predating_giftwrap_does_not_hide_it_on_arrival X ord now \<longleftrightarrow>
     (let ephemeral_author = str_repeat ''ab'' 32; recipient = str_repeat ''cd'' 32; giftwrap_id = str_repeat ''33'' 32;
          delete_id = str_repeat ''44'' 32;
          delete = store_test_event 5 delete_id ephemeral_author [[''e'', giftwrap_id]];
          giftwrap = store_test_event 1059 giftwrap_id ephemeral_author [[''p'', recipient]]
      in Option.bind (written X ord now [delete, giftwrap]) (\<lambda>db. hidden_flag X db giftwrap_id) = Some False)"

definition kind5_delete_still_works_for_non_giftwrap_kinds :: "externals \<Rightarrow> row_order \<Rightarrow> int \<Rightarrow> bool" where
  "kind5_delete_still_works_for_non_giftwrap_kinds X ord now \<longleftrightarrow>
     (let author = str_repeat ''ab'' 32; note_id = str_repeat ''55'' 32; delete_id = str_repeat ''66'' 32;
          n = store_test_event 7 note_id author [];
          delete = store_test_event 5 delete_id author [[''e'', note_id]]
      in Option.bind (written X ord now [n, delete]) (\<lambda>db. hidden_flag X db note_id) = Some True)"

text \<open>The decoding of hexadecimal texts and the printing of events are those of packages: what the tests rely on.\<close>

definition decodes_hex :: "externals \<Rightarrow> bool" where
  "decodes_hex X \<longleftrightarrow> json_total X \<and> (\<forall>s. even (length s) \<and> is_lower_hex s \<longrightarrow> hex_decode X s \<noteq> None) \<and>
     (\<forall>s t. is_lower_hex s \<and> is_lower_hex t \<and> hex_decode X s \<noteq> None \<and> hex_decode X s = hex_decode X t \<longrightarrow> s = t)"

lemma write_once:
  "persist_event X ord now None e db = (db', Ok n) \<Longrightarrow> write_event X ord now None (\<lambda>_. None) e db = (db', Ok n)"
  by (simp add: write_event_def is_sqlite_failure_def eval_nat_numeral)

lemma store_keys:
  "even (length (str_repeat s 32))" "is_lower_hex (str_repeat ''ab'' 32)" "is_lower_hex (str_repeat ''11'' 32)" "is_lower_hex (str_repeat ''22'' 32)"
  "is_lower_hex (str_repeat ''33'' 32)" "is_lower_hex (str_repeat ''44'' 32)" "is_lower_hex (str_repeat ''55'' 32)" "is_lower_hex (str_repeat ''66'' 32)"
  "str_repeat ''11'' 32 \<noteq> str_repeat ''22'' 32" "str_repeat ''33'' 32 \<noteq> str_repeat ''44'' 32" "str_repeat ''55'' 32 \<noteq> str_repeat ''66'' 32"
  "length (str_repeat ''55'' 32) = 64"
  by (simp_all add: is_lower_hex_iff str_repeat_props(1) str_repeat_all ascii_defs) (simp_all add: str_repeat_def eval_nat_numeral)

lemmas store_eval = written_def hidden_flag_def store_test_event_def simple_event_def persist_event_def superseded_def param_superseded_def
  store_event_def insert_event_def drop_replaced_def drop_param_replaced_def apply_deletions_def hide_targets_def hide_events_def
  already_deleted_def deletion_targets_def bindable_def distinct_param_def is_replaceable_def is_param_replaceable_def expiration_def
  first_value_def searchable_tags_def single_char_tagname_def tag_values_by_name_def next_id_def empty_events_def fits_i64_def Let_def

lemma decoded:
  assumes "decodes_hex X" "is_lower_hex (str_repeat s 32)" "is_lower_hex (str_repeat t 32)" "str_repeat s 32 \<noteq> str_repeat t 32"
  obtains g d a c where "hex_decode X (str_repeat s 32) = Some g" "hex_decode X (str_repeat t 32) = Some d" "g \<noteq> d"
    "hex_decode X (str_repeat ''ab'' 32) = Some a" "\<And>e. event_to_string X e = Some (c e)"
proof -
  have h: "\<exists>b. hex_decode X u = Some b" if "even (length u)" "is_lower_hex u" for u
    using that assms(1) unfolding decodes_hex_def by blast
  obtain g d a where "hex_decode X (str_repeat s 32) = Some g" "hex_decode X (str_repeat t 32) = Some d"
    "hex_decode X (str_repeat ''ab'' 32) = Some a" using h assms(2,3) store_keys(1,2) by metis
  moreover from this have "g \<noteq> d" using assms unfolding decodes_hex_def by (metis option.distinct(1))
  moreover have "event_to_string X e = Some (the (event_to_string X e))" for e
    using assms(1) by (auto simp: decodes_hex_def json_total_def event_to_string_def)
  ultimately show thesis by (intro that)
qed

lemma deletion_tests:
  assumes "decodes_hex X"
  shows "kind5_delete_of_giftwrap_is_blocked_even_from_same_ephemeral_author X ord now"
    "kind5_predating_giftwrap_does_not_hide_it_on_arrival X ord now" "kind5_delete_still_works_for_non_giftwrap_kinds X ord now"
proof -
  show "kind5_delete_of_giftwrap_is_blocked_even_from_same_ephemeral_author X ord now"
    unfolding kind5_delete_of_giftwrap_is_blocked_even_from_same_ephemeral_author_def
    by (rule decoded [OF assms store_keys(3,4,9)]) (simp add: write_once store_eval)
  show "kind5_predating_giftwrap_does_not_hide_it_on_arrival X ord now"
    unfolding kind5_predating_giftwrap_does_not_hide_it_on_arrival_def
    by (rule decoded [OF assms store_keys(5,6,10)]) (simp add: write_once store_eval)
  show "kind5_delete_still_works_for_non_giftwrap_kinds X ord now"
    unfolding kind5_delete_still_works_for_non_giftwrap_kinds_def
    by (rule decoded [OF assms store_keys(7,8,11)]) (simp add: write_once store_eval store_keys is_lower_hex_is_hex)
qed

text \<open>The premise can be met.\<close>

lemma std_decodes_hex: "decodes_hex std_ext"
proof -
  have "hex_dec s \<noteq> None" if "even (length s)" "is_lower_hex s" for s
    using that by (simp only: hex_dec_defined) (auto simp: is_lower_hex_iff list_all_iff)
  moreover have "s = t" if "is_lower_hex s" "is_lower_hex t" "hex_dec s \<noteq> None" "hex_dec s = hex_dec t" for s t
  proof -
    have "map to_ascii_lower u = u" if "is_lower_hex u" for u
      using that by (intro map_idI) (auto simp: is_lower_hex_iff list_all_iff to_ascii_lower_def)
    with that hex_dec_inj [of s _ t] show ?thesis by (metis not_None_eq)
  qed
  ultimately show ?thesis unfolding decodes_hex_def std_ext_sel using std_json_total by blast
qed

end
