(* ===== verification/Spec2Isabelle.thy ===== *)
theory Spec2Isabelle
  imports Relay_Properties Startup Bulk_Loader Subscription_Tests Name_Tests Store_Tests
begin

text \<open>
  A verification development for floonet-rs, a Nostr relay (\<^verbatim>\<open>src/\<close>, written in Rust). The relay accepts
  signed events over websockets, decides which of them it stores, stores them in SQLite or PostgreSQL, answers
  subscriptions from the store and live, runs a NIP-05 name authority over HTTP, and can charge for
  admission, for names and for events.

  \<^bold>\<open>Parts and how they interact.\<close> A websocket session (\<^verbatim>\<open>server.rs\<close>, \<^verbatim>\<open>nostr_server\<close>) parses messages
  (\<^verbatim>\<open>event.rs\<close>, \<^verbatim>\<open>subscription.rs\<close>, \<^verbatim>\<open>close.rs\<close>), keeps the state of its client (\<^verbatim>\<open>conn.rs\<close>), asks the admission
  policies (\<^verbatim>\<open>admission.rs\<close>) and hands admitted events to the one writer task (\<^verbatim>\<open>db.rs\<close>). The writer checks
  kinds, account, NIP-05 verification (\<^verbatim>\<open>nip05.rs\<close>) and the gRPC admission service (\<^verbatim>\<open>nauthz.rs\<close>), stores the
  event (\<^verbatim>\<open>repo/sqlite.rs\<close>), broadcasts it to all sessions and charges the author. Subscriptions are
  answered by SQL queries (\<^verbatim>\<open>repo/sqlite.rs\<close>, \<^verbatim>\<open>query_subscription\<close>) and by the broadcasts. The payment task
  (\<^verbatim>\<open>payment/\<close>) creates invoices, checks them with a payment server and admits accounts; HTTP requests
  (\<^verbatim>\<open>server.rs\<close>, \<^verbatim>\<open>handle_web_request\<close>) reach it through webhooks, or go to the name authority
  (\<^verbatim>\<open>name_authority/\<close>). The repository is chosen when the program starts (\<^verbatim>\<open>main.rs\<close>, \<^verbatim>\<open>start_server\<close>, \<^verbatim>\<open>build_repo\<close>): SQLite, or
  PostgreSQL (\<^verbatim>\<open>repo/postgres.rs\<close>) behind the same trait; each upgrades its schema first (\<^verbatim>\<open>repo/sqlite_migration.rs\<close>,
  \<^verbatim>\<open>repo/postgres_migration.rs\<close>) and begins tasks that remove expired events. \<^verbatim>\<open>bin/bulkloader.rs\<close> fills a SQLite database from
  a list of events.

  \<^bold>\<open>Conventions.\<close> A Rust string is a list of bytes (\<^typ>\<open>string\<close>), a \<^verbatim>\<open>u64\<close> or \<^verbatim>\<open>u32\<close> a word, a signed
  integer an \<^typ>\<open>int\<close> with its bounds written out. An error is a value of \<open>error\<close> in a \<open>result\<close>; a panic is
  \<open>Panic\<close> in \<open>exec\<close>. A struct is a record, an enum a datatype, a hash map an association list with distinct
  keys. Stateful code takes and returns its state. What the program gets from outside (clocks, random
  identifiers, failures of single calls, answers of servers, the order of SQL rows with equal keys) is
  an argument, mostly a record \<open>..._env\<close>; failures are given per call site. Functions of other packages (JSON
  text, hashes, signatures, hexadecimal, URLs) are the record \<open>externals\<close> and its relatives; where a property
  relies on what they do, the documented behaviour is a hypothesis (\<open>json_roundtrips\<close>, \<open>hex_laws\<close>,
  \<open>hash_injective\<close>), and \<open>Instances\<close> has an instance that satisfies all of them, used by the witnesses.

  \<^bold>\<open>Theories.\<close>
  \<^item> \<open>Prelude\<close>: results, panics, characters and strings as the source uses them, shared lemmas.
  \<^item> \<open>Errors\<close>: \<^verbatim>\<open>error.rs\<close>, \<^verbatim>\<open>notice.rs\<close>. \<open>Config\<close>: \<^verbatim>\<open>config.rs\<close>. \<open>Json\<close>: JSON values and typed readings.
  \<^item> \<open>Event\<close>: events, their canonical form, validation, tag index. \<open>Delegation\<close>: NIP-26 delegation.
    \<open>Subscription\<close>: REQ parsing and live matching. \<open>Admission\<close>: the policies; the locale \<open>admission_layer\<close> is what
    the session relies on. \<open>Conn\<close>: the client connection, with its reachable states.
  \<^item> \<open>Names\<close>, \<open>Nip98\<close>, \<open>Rate_Limit\<close>, \<open>Claims\<close>, \<open>Name_Authority\<close>: \<^verbatim>\<open>name_authority/\<close>. The claims table refines an
    abstract registry; requests interleave at the payment gate.
  \<^item> \<open>Account_Store\<close>, \<open>Payment\<close>, \<open>Lightning\<close>: accounts and invoices in the database, the payment task and the
    three payment processors.
  \<^item> \<open>Event_Store\<close>: the event, tag and verification tables with \<^verbatim>\<open>persist_event\<close> and the other operations.
    \<open>Sqlite_Query\<close>: SQL generation and evaluation. \<open>Query_Properties\<close>: its properties.
  \<^item> \<open>Nip05\<close>: the verifier task. \<open>Authz\<close>: the admission service's client. \<open>Db_Writer\<close>: the writer task.
  \<^item> \<open>Session\<close>: the websocket session as one step per input of its select loop. \<open>Session_Properties\<close>: every step is
    one of five effects; the locale \<open>session_rule\<close> carries invariants of steps to whole sessions and is
    interpreted for who the client is and for its running queries.
  \<^item> \<open>Web\<close>, \<open>Web_Properties\<close>: HTTP dispatch, information document, payment endpoints.
  \<^item> \<open>Pg_Accounts\<close>: accounts and invoices on PostgreSQL, statement by statement, and the payment handler on them; a relation to
    the SQLite tables is kept by every operation. \<open>Pg_Store\<close>: its event, tag and verification tables; the locale \<open>keeper\<close> carries
    facts about a row through any sequence of operations and is interpreted for both databases. \<open>Pg_Query\<close>,
    \<open>Pg_Query_Properties\<close>: the statement built from a filter, as text and as the rows it returns.
  \<^item> \<open>Migration\<close>, \<open>Pg_Migration\<close>: the schema of each version, the migrations with the rows they rewrite, and what an
    interrupted one leaves. \<open>Bulk_Loader\<close>: \<^verbatim>\<open>bin/bulkloader.rs\<close>.
  \<^item> \<open>Startup\<close>: the program from its arguments to the serving relay. \<open>Maintenance\<close>: the periodic tasks; the locale \<open>cleaner\<close> is
    the removal of expired rows, interpreted for both databases.
  \<^item> \<open>Gift_Wraps\<close>: lemmas on the way of a gift wrap through session, writer, store and query.
  \<^item> \<open>Relay\<close>: the tasks and channels of \<^verbatim>\<open>start_server\<close> on SQLite as one step relation, \<open>relay_step\<close>: any number of sessions with their
    queries, the writer, the verifier, the payment task, HTTP requests and the removal of expired events step in any order on shared
    tables; and an invariant on where every event that is stored, queued or sent comes from. \<open>Relay_Properties\<close>: session runs
    are relay runs, the tables go through repository operations only, the books admit nobody unpaid, and example runs. The property on
    gift wraps is below.
  \<^item> \<open>Event_Tests\<close>, \<open>Subscription_Tests\<close>, \<open>Admission_Tests\<close>, \<open>Name_Tests\<close>, \<open>Store_Tests\<close>: the unit tests of the sources as executable checks of
    the model, one definition per test function, which the model passes for every choice of the packages that does what the tests
    rely on.

  \<^bold>\<open>What is shown.\<close> Admission decides exactly as configured and fails closed; an id binds the signed
  content; a session authenticates only by its challenge, submits only admitted events, sends
  private events only to their parties, delivers live events exactly, and cancels its queries; the writer publishes
  only permitted events, answers truthfully and charges exactly; the stores keep their invariants,
  replace and delete only what they may, and never lose a stored gift wrap; stored queries agree with
  live matching and never contain client strings in their SQL; on PostgreSQL too gift wraps are kept and found, queries
  agree with live matching, and accounts are those of SQLite as long as no statement fails; upgrades arrive at the current schema
  from every version, and a relay that serves runs what is configured; the registry of names stays sound under all
  interleavings; accounts are admitted only for payments the server confirmed. Of the running relay with all its tasks interleaved it is
  shown that clients only get events that were admitted, private ones only as a party, that announced gift wraps are found ever after,
  and that nobody is admitted unpaid. Theorems also pin down defects: panics,
  replays at the edge of a window, lost events, double charges, unlimited credit and missed deletions on PostgreSQL, lost tags, a
  stopped writer, a leaked key, databases served after a failed upgrade. The unit tests of the repository hold of the model, the exact
  texts of the generated SQL among them.

  \<^bold>\<open>Bounds and fuel.\<close> All functions are total; the only counter is the one of \<^verbatim>\<open>write_event\<close>, ten attempts as in
  the source. Loops over channels are recursion over the list of inputs received, so statements about
  sessions and writers hold for every finite history, and those about the running relay for every finite sequence of its steps.

  \<^bold>\<open>Not modelled.\<close> Sockets, logging, metrics and signals; capacities of channels (that broadcasts are dropped is a step of the relay, when it
  happens is open); steps of the relay smaller than one round of a task's loop or one request (the name authority's registrations are split at their gate
  in \<open>Name_Authority\<close>); waiting (rate limiters
  that only delay; timeouts appear as outcomes); pools beyond whether they give a connection; the constant text of HTML
  pages (a page is a constructor with the inserted values); and the concurrency of the databases beyond one statement or transaction
  at a time. Unused functions (\<^verbatim>\<open>_query_from_sub\<close>, \<^verbatim>\<open>monitor_pool\<close>) and conversions of error types are left out, as are the
  tests under \<^verbatim>\<open>tests/\<close>, most of which run the program over sockets.
\<close>

section \<open>Properties of the whole relay\<close>

text \<open>C1: A gift wrap that the running relay announced is not lost. If the writer takes a gift wrap from its queue and announces it, then in every later
  state of the relay, whatever its sessions, writer, verifier, payment task, web front end and clean-up did meanwhile (storing
  other events, deletion requests, replacement, removal of expired events, verification records), a query for the gift
  wraps of its one recipient returns it, and the session of a client authenticated as that recipient may send it.\<close>

theorem gift_wrap_reaches_recipient:
  assumes "json_roundtrips X" "sorts_desc ord" "fits_i64 now"
    and "(relay_step X s A ord)\<^sup>*\<^sup>* (relay_new s b (fold (ev_step X ord) ps empty_events) accs names) R" "rl_queue R = (i, sm) # q"
    and "ev_kind (sm_event sm) = 1059" "we_order W = ord"
    and "writer_step X s W sm (idle (rl_writer R)) = Done (w, res)" "ws_bcast w \<noteq> []"
    and "(relay_step X s A ord)\<^sup>*\<^sup>* (after_write i w res R) R'"
  shows "\<exists>pk content out. tag_values_by_name (sm_event sm) ''p'' = [pk] \<and> event_to_string X (sm_event sm) = Some content \<and>
      run_query X ord now (empty_filter\<lparr>rf_kinds := Some [1059], rf_tags := Some [(''p'', Or {|pk|})]\<rparr>) (ws_events (rl_writer R')) = Ok out \<and>
      content \<in> set out \<and> (auth_pubkey c = Some pk \<longrightarrow> allowed_to_send X content c s)"
proof -
  let ?e = "sm_event sm"
  have bc: "ws_bcast w \<noteq> ws_bcast (idle (rl_writer R))" using assms(9) by (simp add: idle_def)
  have shape: "gift_wrap_shape ?e" using queue_admissible [OF assms(4,5)] assms(6) by (auto simp: admissible_def admission_Allow_iff)
  then obtain pk where pk: "tag_values_by_name ?e ''p'' = [pk]" "pk \<in> tag_values ?e ''p''"
    using gift_wrap_single_recipient by blast
  obtain r where r: "r \<in> set (db_events (ws_events w))" "event_to_string X ?e = Some (er_content r)" "er_kind r = 1059"
    "er_expires_at r = None" "\<not> er_hidden r"
    using announced_gift_wrap_stored(2) [OF assms(8) bc assms(6)] gift_wrap_shape_no_expiration [OF shape] by auto
  have "repo_run X ord (fold (ev_step X ord) ps empty_events) (ws_events (rl_writer R))"
    using relay_run_repo [OF assms(4)] by (simp add: relay_new_def writer_new_def)
  from repo_run_trans [OF this repo_run_writer [OF assms(8), unfolded assms(7)]]
  obtain ps' where db: "ws_events w = fold (ev_step X ord) (ps @ ps') empty_events" unfolding repo_run_def by auto
  obtain qs where qs: "ws_events (rl_writer R') = fold (ev_step X ord) qs (ws_events w)"
    using relay_run_repo [OF assms(10)] by (auto simp: repo_run_def after_write_def announce_def answer_slot_def idle_def)
  obtain out where out: "run_query X ord now (recipient_filter pk) (ws_events (rl_writer R')) = Ok out" "er_content r \<in> set out"
    using recipient_finds [OF assms(1-3) db r(1,3-5,2) pk(2), of qs] unfolding qs by blast
  have "allowed_to_send X (er_content r) c s" if "auth_pubkey c = Some pk"
    using that event_from_to_str [OF assms(1) r(2)] pk(1) by (simp add: allowed_to_send_def tag_values_by_name_def)
  with pk(1) r(2) out show ?thesis unfolding recipient_filter_def by blast
qed

theorem gift_wrap_reaches_recipient_witness:
  "\<exists>R sm w R' pk content out. rl_queue R = [(0, sm)] \<and> writer_step std_ext demo_sess (demo_we None) sm (idle (rl_writer R)) = Done (w, Ok ()) \<and>
     (relay_step std_ext demo_sess None std_ord)\<^sup>*\<^sup>* (after_write 0 w (Ok ()) R) R' \<and>
     event_to_string std_ext (build_index demo_wrap) = Some content \<and>
     run_query std_ext std_ord 2000 (empty_filter\<lparr>rf_kinds := Some [1059], rf_tags := Some [(''p'', Or {|pk|})]\<rparr>) (ws_events (rl_writer R')) = Ok out \<and>
     content \<in> set out"
proof -
  obtain R sm w es where R: "(relay_step std_ext demo_sess None std_ord)\<^sup>*\<^sup>* demo_relay R" "rl_queue R = [(0, sm)]" "sm_event sm = build_index demo_wrap"
    "writer_step std_ext demo_sess (demo_we None) sm (idle (rl_writer R)) = Done (w, Ok ())" "ws_bcast w = build_index demo_wrap # es"
    using demo_relay_queue by (elim exE conjE) (rule that)
  have b: "ws_bcast w \<noteq> []" by (simp add: R(5))
  have k: "ev_kind (sm_event sm) = 1059" unfolding R(3) by (simp add: demo_wrap_def) (simp add: demo_event_def)
  have o: "we_order (demo_we None) = std_ord" by (simp add: demo_we_def)
  define c where "c = \<lparr>cl_now = 1500, cl_conn = True, cl_fault = None\<rparr>"
  let ?R = "after_write 0 w (Ok ()) R"
  let ?R' = "set_events (cleanup_expired c (ws_events (rl_writer ?R))) ?R"
  have later: "(relay_step std_ext demo_sess None std_ord)\<^sup>*\<^sup>* ?R ?R'" by (rule r_into_rtranclp) (rule relay_step.expire)
  have run: "(relay_step std_ext demo_sess None std_ord)\<^sup>*\<^sup>* (relay_new demo_sess True (fold (ev_step std_ext std_ord) [] empty_events) demo_accs demo_state) R"
    using R(1) by (simp add: demo_relay_def)
  have n: "fits_i64 2000" by (simp add: fits_i64_def)
  from gift_wrap_reaches_recipient [OF std_json_roundtrips std_ord_sorts n run R(2) k o R(4) b later, of demo_conn]
  show ?thesis unfolding R(3) using R(2,4) later by blast
qed

end
